(* ===== verification/Prelude.thy ===== *)
theory Prelude
  imports Main
begin

text \<open>
  Shared notions of the AuditCore development: the exceptions of the Python code, the error
  monad (a value of \<open>exn + 'a\<close>), commands that act on a state and may raise, and the
  generic lemmas on lists and association lists that the components use.

  A Python function that may raise is a HOL function into \<open>'a res\<close>; \<open>Inl e\<close> is the raised
  exception. A function that also changes a state is an \<open>('s, 'a) cmd\<close>: the state is
  returned beside the result also when the command raises, because effects made before a
  \<open>raise\<close> (a committed transaction, an uploaded object) are not undone by it.
\<close>

named_theorems res_simps "equations that evaluate the error monad and commands"
named_theorems hoare_intros "rules that take a triple over a command apart"

section \<open>Exceptions and the error monad\<close>

text \<open>
  One constructor per exception class that the modelled code raises or lets through; the
  string is the message where the source builds one.
\<close>

datatype exn =
    ValueError string
  | TypeError string
  | KeyError string
  | AttributeError string
  | LookupError string
  | OverflowError string
  | RuntimeError string
  | RoutingError string
  | BundleError string
  | AgentSpecError string
  | HTTPException nat string
  | OSError string
  | DbError string
  | S3Error string
  | OtherError string

type_synonym 'a res = "exn + 'a"

definition bindE :: "'a res \<Rightarrow> ('a \<Rightarrow> 'b res) \<Rightarrow> 'b res" where
  "bindE m f = (case m of Inl e \<Rightarrow> Inl e | Inr x \<Rightarrow> f x)"

lemma bindE_Inl [simp, res_simps]: "bindE (Inl e) f = Inl e"
  by (simp add: bindE_def)

lemma bindE_Inr [simp, res_simps]: "bindE (Inr x) f = f x"
  by (simp add: bindE_def)

lemma bindE_eq_Inr: "bindE m f = Inr y \<longleftrightarrow> (\<exists>x. m = Inr x \<and> f x = Inr y)"
  by (cases m) (auto simp: bindE_def)

lemma bindE_eq_Inl: "bindE m f = Inl e \<longleftrightarrow> m = Inl e \<or> (\<exists>x. m = Inr x \<and> f x = Inl e)"
  by (cases m) (auto simp: bindE_def)

lemma bindE_InrE [elim!]:
  assumes "bindE m f = Inr y"
  obtains x where "m = Inr x" and "f x = Inr y"
  using assms by (auto simp: bindE_eq_Inr)

lemma bindE_cong [fundef_cong]:
  "m = m' \<Longrightarrow> (\<And>x. m' = Inr x \<Longrightarrow> f x = g x) \<Longrightarrow> bindE m f = bindE m' g"
  by (cases m') (auto simp: bindE_def)

text \<open>\<open>[f x for x in xs]\<close> where \<open>f\<close> may raise: the first exception wins.\<close>

fun mapE :: "('a \<Rightarrow> 'b res) \<Rightarrow> 'a list \<Rightarrow> 'b list res" where
  "mapE f [] = Inr []"
| "mapE f (x # xs) = bindE (f x) (\<lambda>y. bindE (mapE f xs) (\<lambda>ys. Inr (y # ys)))"

lemma mapE_cong [fundef_cong]:
  "xs = ys \<Longrightarrow> (\<And>x. x \<in> set ys \<Longrightarrow> f x = g x) \<Longrightarrow> mapE f xs = mapE g ys"
  by (induction xs arbitrary: ys) auto

lemma mapE_length: "mapE f xs = Inr ys \<Longrightarrow> length ys = length xs"
  by (induction xs arbitrary: ys) auto

lemma mapE_Inr_map: "(\<And>x. x \<in> set xs \<Longrightarrow> f x = Inr (g x)) \<Longrightarrow> mapE f xs = Inr (map g xs)"
  by (induction xs) auto

lemma mapE_mem: "mapE f xs = Inr ys \<Longrightarrow> y \<in> set ys \<Longrightarrow> \<exists>x\<in>set xs. f x = Inr y"
  by (induction xs arbitrary: ys) auto

text \<open>Sorting and dropping adjacent duplicates lists a set.\<close>

lemma sorted_remdups_adj: "sorted xs \<Longrightarrow> sorted (remdups_adj xs) \<and> distinct (remdups_adj xs)"
  by (induction xs rule: remdups_adj.induct) (auto simp: order_less_le)

section \<open>Commands: state passing with exceptions\<close>

type_synonym ('s, 'a) cmd = "'s \<Rightarrow> 'a res \<times> 's"

definition returnC :: "'a \<Rightarrow> ('s, 'a) cmd" where
  "returnC x s = (Inr x, s)"

definition raiseC :: "exn \<Rightarrow> ('s, 'a) cmd" where
  "raiseC e s = (Inl e, s)"

definition bindC :: "('s, 'a) cmd \<Rightarrow> ('a \<Rightarrow> ('s, 'b) cmd) \<Rightarrow> ('s, 'b) cmd" where
  "bindC m f s = (case m s of (Inl e, s') \<Rightarrow> (Inl e, s') | (Inr x, s') \<Rightarrow> f x s')"

definition liftC :: "'a res \<Rightarrow> ('s, 'a) cmd" where
  "liftC r s = (r, s)"

lemma returnC_apply [simp, res_simps]: "returnC x s = (Inr x, s)"
  by (simp add: returnC_def)

lemma raiseC_apply [simp, res_simps]: "raiseC e s = (Inl e, s)"
  by (simp add: raiseC_def)

lemma liftC_apply [simp, res_simps]: "liftC r s = (r, s)"
  by (simp add: liftC_def)

lemma bindC_Inl [res_simps]: "m s = (Inl e, s') \<Longrightarrow> bindC m f s = (Inl e, s')"
  by (simp add: bindC_def)

lemma bindC_Inr [res_simps]: "m s = (Inr x, s') \<Longrightarrow> bindC m f s = f x s'"
  by (simp add: bindC_def)

lemma bindC_return [simp]: "bindC (returnC x) f = f x"
  by (rule ext) (simp add: bindC_def)

lemma bindC_raise [simp]: "bindC (raiseC e) f = raiseC e"
  by (rule ext) (simp add: bindC_def)

lemma bindC_lift_Inr [simp]: "bindC (liftC (Inr x)) f = f x"
  by (rule ext) (simp add: bindC_def)

lemma bindC_assoc: "bindC (bindC m f) g = bindC m (\<lambda>x. bindC (f x) g)"
  by (rule ext) (simp add: bindC_def split: prod.split sum.split)

lemma bindC_cases:
  assumes "bindC m f s = (r, t)"
  obtains (raised) e where "m s = (Inl e, t)" and "r = Inl e"
    | (normal) x s' where "m s = (Inr x, s')" and "f x s' = (r, t)"
  using assms by (auto simp: bindC_def split: prod.splits sum.splits)

text \<open>\<open>for x in xs: m(x)\<close>, and the list of the results.\<close>

fun mapC :: "('a \<Rightarrow> ('s, 'b) cmd) \<Rightarrow> 'a list \<Rightarrow> ('s, 'b list) cmd" where
  "mapC m [] = returnC []"
| "mapC m (x # xs) = bindC (m x) (\<lambda>y. bindC (mapC m xs) (\<lambda>ys. returnC (y # ys)))"

text \<open>A command on one component of a pair of states.\<close>

definition on_fst :: "('s, 'a) cmd \<Rightarrow> ('s \<times> 'g, 'a) cmd" where
  "on_fst m p = (case m (fst p) of (r, s') \<Rightarrow> (r, (s', snd p)))"

definition on_snd :: "('g, 'a) cmd \<Rightarrow> ('s \<times> 'g, 'a) cmd" where
  "on_snd m p = (case m (snd p) of (r, g') \<Rightarrow> (r, (fst p, g')))"

lemma on_fst_eq: "on_fst m p = (r, q) \<longleftrightarrow> m (fst p) = (r, fst q) \<and> snd q = snd p"
  by (cases q) (auto simp: on_fst_def split: prod.split)

lemma on_snd_eq: "on_snd m p = (r, q) \<longleftrightarrow> m (snd p) = (r, snd q) \<and> fst q = fst p"
  by (cases q) (auto simp: on_snd_def split: prod.split)

subsection \<open>Triples\<close>

text \<open>
  \<open>hoare P m Q E\<close>: from a state in \<open>P\<close>, the command ends in \<open>Q x\<close> when it returns \<open>x\<close> and in
  \<open>E e\<close> when it raises \<open>e\<close>. Commands are total, so this is total correctness.
\<close>

definition hoare ::
  "('s \<Rightarrow> bool) \<Rightarrow> ('s, 'a) cmd \<Rightarrow> ('a \<Rightarrow> 's \<Rightarrow> bool) \<Rightarrow> (exn \<Rightarrow> 's \<Rightarrow> bool) \<Rightarrow> bool" where
  "hoare P m Q E \<longleftrightarrow>
     (\<forall>s. P s \<longrightarrow> (case m s of (Inl e, t) \<Rightarrow> E e t | (Inr x, t) \<Rightarrow> Q x t))"

lemma hoareI:
  assumes "\<And>s x t. P s \<Longrightarrow> m s = (Inr x, t) \<Longrightarrow> Q x t"
    and "\<And>s e t. P s \<Longrightarrow> m s = (Inl e, t) \<Longrightarrow> E e t"
  shows "hoare P m Q E"
  using assms by (auto simp: hoare_def split: prod.split sum.split)

lemma hoareD_normal: "hoare P m Q E \<Longrightarrow> P s \<Longrightarrow> m s = (Inr x, t) \<Longrightarrow> Q x t"
  by (force simp: hoare_def)

lemma hoareD_raised: "hoare P m Q E \<Longrightarrow> P s \<Longrightarrow> m s = (Inl e, t) \<Longrightarrow> E e t"
  by (force simp: hoare_def)

lemma hoare_return [hoare_intros]: "(\<And>s. P s \<Longrightarrow> Q x s) \<Longrightarrow> hoare P (returnC x) Q E"
  by (simp add: hoare_def)

lemma hoare_raise [hoare_intros]: "(\<And>s. P s \<Longrightarrow> E e s) \<Longrightarrow> hoare P (raiseC e) Q E"
  by (simp add: hoare_def)

lemma hoare_bind [hoare_intros]:
  assumes "hoare P m R E" and "\<And>x. hoare (R x) (f x) Q E"
  shows "hoare P (bindC m f) Q E"
proof (rule hoareI)
  fix s x t
  assume "P s" and "bindC m f s = (Inr x, t)"
  then show "Q x t"
    using assms by (elim bindC_cases) (auto dest: hoareD_normal)
next
  fix s e t
  assume "P s" and "bindC m f s = (Inl e, t)"
  then show "E e t"
    using assms by (elim bindC_cases) (auto dest: hoareD_normal hoareD_raised)
qed

text \<open>
  A triple whose two postconditions are the same invariant, for loops: every element's command
  keeps the invariant, which may mention the results so far.
\<close>

lemma hoare_mapC:
  assumes "\<And>x. x \<in> set xs \<Longrightarrow> hoare I (m x) (\<lambda>y. I) E"
  shows "hoare I (mapC m xs) (\<lambda>ys. I) E"
  using assms
proof (induction xs)
  case Nil
  show ?case unfolding mapC.simps by (rule hoare_return)
next
  case (Cons x xs)
  show ?case
    unfolding mapC.simps
    by (rule hoare_bind [where R = "\<lambda>y. I"], simp add: Cons.prems)
      (rule hoare_bind [where R = "\<lambda>ys. I"], simp_all add: Cons hoare_return)
qed

lemma hoare_on_fst:
  "hoare P m Q E \<Longrightarrow> hoare (\<lambda>p. P (fst p)) (on_fst m) (\<lambda>x p. Q x (fst p)) (\<lambda>e p. E e (fst p))"
  by (fastforce simp: hoare_def on_fst_def split: prod.splits sum.splits)

lemma hoare_pre: "hoare P' m Q E \<Longrightarrow> (\<And>s. P s \<Longrightarrow> P' s) \<Longrightarrow> hoare P m Q E"
  by (simp add: hoare_def)

lemma hoare_post:
  "hoare P m Q' E' \<Longrightarrow> (\<And>x s. Q' x s \<Longrightarrow> Q x s) \<Longrightarrow> (\<And>e s. E' e s \<Longrightarrow> E e s) \<Longrightarrow> hoare P m Q E"
  by (fastforce simp: hoare_def split: prod.splits sum.splits)

lemma find_distinct_key:
  assumes "distinct (map f xs)" and "x \<in> set xs" and "p x" and "\<And>y. p y \<Longrightarrow> f y = f x"
  shows "find p xs = Some x"
  using assms(1,2)
proof (induction xs)
  case (Cons y ys)
  show ?case
  proof (cases "p y")
    case True
    with assms(4) have "f y = f x" .
    with Cons.prems have "y = x" by (force simp: image_iff)
    with True show ?thesis by simp
  next
    case False
    with assms(3) Cons show ?thesis by auto
  qed
qed simp

end
