(* ===== verification/Py_Values.thy ===== *)
theory Py_Values
  imports Prelude Complex_Main "HOL-Library.Char_ord" "HOL-Library.List_Lexorder" "HOL-Library.Sublist"
begin

text \<open>
  The fragment of Python the services use on dynamic values: JSON and YAML data with the
  operations the code applies to it (\<open>get\<close>, subscription, iteration, truth value, \<open>str\<close>,
  \<open>repr\<close>, \<open>int\<close>), and the string methods it calls.

  A Python \<open>str\<close> is a HOL \<open>string\<close>: its characters are the code points 0 to 255. A float is
  its exact value (\<open>None\<close> for an infinity or a NaN) together with its \<open>repr\<close>. The keys of a
  dictionary are strings: the code looks up string keys only. The interpreter's limit on
  the number of digits in \<open>int\<close>/\<open>str\<close> conversions is not modelled.
\<close>

section \<open>Values\<close>

datatype pyval =
    PyNone
  | PyBool bool
  | PyInt int
  | PyFloat "rat option" string
  | PyStr string
  | PyList "pyval list"
  | PyDict "(string \<times> pyval) list"

type_synonym pydict = "(string \<times> pyval) list"

text \<open>\<open>bool(v)\<close>.\<close>

fun py_truthy :: "pyval \<Rightarrow> bool" where
  "py_truthy PyNone = False"
| "py_truthy (PyBool b) = b"
| "py_truthy (PyInt n) = (n \<noteq> 0)"
| "py_truthy (PyFloat v _) = (v \<noteq> Some 0)"
| "py_truthy (PyStr s) = (s \<noteq> [])"
| "py_truthy (PyList xs) = (xs \<noteq> [])"
| "py_truthy (PyDict d) = (d \<noteq> [])"

text \<open>\<open>type(v).__name__\<close>, which the interpreter puts into its error messages.\<close>

fun py_type :: "pyval \<Rightarrow> string" where
  "py_type PyNone = ''NoneType''"
| "py_type (PyBool _) = ''bool''"
| "py_type (PyInt _) = ''int''"
| "py_type (PyFloat _ _) = ''float''"
| "py_type (PyStr _) = ''str''"
| "py_type (PyList _) = ''list''"
| "py_type (PyDict _) = ''dict''"

text \<open>\<open>v.get(k, dflt)\<close>: only a dictionary has the method.\<close>

definition dict_get :: "pydict \<Rightarrow> string \<Rightarrow> pyval \<Rightarrow> pyval" where
  "dict_get d k dflt = (case map_of d k of None \<Rightarrow> dflt | Some v \<Rightarrow> v)"

fun py_get :: "pyval \<Rightarrow> string \<Rightarrow> pyval \<Rightarrow> pyval res" where
  "py_get (PyDict d) k dflt = Inr (dict_get d k dflt)"
| "py_get v k dflt = Inl (AttributeError (py_type v @ '' object has no attribute get''))"

text \<open>\<open>v[k]\<close> with a string key.\<close>

fun py_index :: "pyval \<Rightarrow> string \<Rightarrow> pyval res" where
  "py_index (PyDict d) k = (case map_of d k of None \<Rightarrow> Inl (KeyError k) | Some v \<Rightarrow> Inr v)"
| "py_index v k = Inl (TypeError (py_type v @ '' is not subscriptable with a string''))"

text \<open>\<open>k in v\<close> with a string key: a substring test on strings.\<close>

fun py_contains :: "pyval \<Rightarrow> string \<Rightarrow> bool res" where
  "py_contains (PyDict d) k = Inr (map_of d k \<noteq> None)"
| "py_contains (PyList xs) k = Inr (PyStr k \<in> set xs)"
| "py_contains (PyStr s) k = Inr (sublist k s)"
| "py_contains v k = Inl (TypeError (''argument of type '' @ py_type v @ '' is not iterable''))"

text \<open>A dictionary key of dynamic type: strings only, see above.\<close>

definition str_key :: "pyval \<Rightarrow> string res" where
  "str_key v =
     (case v of
        PyStr s \<Rightarrow> Inr s
      | PyList _ \<Rightarrow> Inl (TypeError ''unhashable type: list'')
      | PyDict _ \<Rightarrow> Inl (TypeError ''unhashable type: dict'')
      | _ \<Rightarrow> Inl (OtherError ''key that is not a string''))"

lemma str_key_str [simp]: "str_key (PyStr s) = Inr s"
  by (simp add: str_key_def)

text \<open>The elements a \<open>for\<close> loop over \<open>v\<close> visits.\<close>

fun py_iter :: "pyval \<Rightarrow> pyval list res" where
  "py_iter (PyList xs) = Inr xs"
| "py_iter (PyDict d) = Inr (map (\<lambda>kv. PyStr (fst kv)) d)"
| "py_iter (PyStr s) = Inr (map (\<lambda>c. PyStr [c]) s)"
| "py_iter v = Inl (TypeError (py_type v @ '' object is not iterable''))"

text \<open>\<open>v or w\<close>.\<close>

definition py_or :: "pyval \<Rightarrow> pyval \<Rightarrow> pyval" where
  "py_or v w = (if py_truthy v then v else w)"

text \<open>Hashable values, the numeric value of a number, and \<open>==\<close> on hashable values.\<close>

fun hashable :: "pyval \<Rightarrow> bool" where
  "hashable (PyList _) = False"
| "hashable (PyDict _) = False"
| "hashable _ = True"

fun py_num :: "pyval \<Rightarrow> rat option" where
  "py_num (PyBool b) = Some (if b then 1 else 0)"
| "py_num (PyInt n) = Some (of_int n)"
| "py_num (PyFloat v _) = v"
| "py_num _ = None"

definition py_eq :: "pyval \<Rightarrow> pyval \<Rightarrow> bool" where
  "py_eq v w = (case (py_num v, py_num w) of (Some x, Some y) \<Rightarrow> x = y | _ \<Rightarrow> v = w)"

lemma dict_get_Nil [simp]: "dict_get [] k d = d"
  by (simp add: dict_get_def)

lemma dict_get_Cons [simp]: "dict_get ((k', v) # d) k dflt = (if k = k' then v else dict_get d k dflt)"
  by (simp add: dict_get_def)

lemma py_or_truthy: "py_truthy w \<Longrightarrow> py_truthy (py_or v w)"
  by (simp add: py_or_def)

section \<open>String methods\<close>

text \<open>\<open>s.startswith(p)\<close> is \<^theory_text>\<open>prefix p s\<close>. \<open>s.replace(old, new)\<close> for a non-empty \<open>old\<close>: occurrences
  are found from the left and do not overlap.\<close>

function str_replace :: "string \<Rightarrow> string \<Rightarrow> string \<Rightarrow> string" where
  "str_replace old new s =
     (case s of
        [] \<Rightarrow> []
      | c # cs \<Rightarrow>
          if old \<noteq> [] \<and> prefix old s then new @ str_replace old new (drop (length old) s)
          else c # str_replace old new cs)"
  by pat_completeness auto
termination
  by (relation "measure (\<lambda>(old, new, s). length s)") (auto simp: prefix_def)

declare str_replace.simps [simp del]

lemma str_replace_Nil [simp]: "str_replace old new [] = []"
  by (simp add: str_replace.simps)

lemma str_replace_no_head:
  "old \<noteq> [] \<Longrightarrow> hd old \<notin> set s \<Longrightarrow> str_replace old new s = s"
proof (induction s)
  case Nil
  show ?case by simp
next
  case (Cons c cs)
  have "\<not> prefix old (c # cs)"
    using Cons.prems by (cases old) auto
  with Cons show ?case by (simp add: str_replace.simps [of old new "c # cs"])
qed

text \<open>\<open>s.lstrip(cs)\<close>, \<open>s.rstrip(cs)\<close> and \<open>s.strip(cs)\<close> for a class of characters.\<close>

definition lstrip :: "(char \<Rightarrow> bool) \<Rightarrow> string \<Rightarrow> string" where
  "lstrip p s = dropWhile p s"

definition rstrip :: "(char \<Rightarrow> bool) \<Rightarrow> string \<Rightarrow> string" where
  "rstrip p s = rev (dropWhile p (rev s))"

definition strip :: "(char \<Rightarrow> bool) \<Rightarrow> string \<Rightarrow> string" where
  "strip p s = rstrip p (lstrip p s)"

lemma strip_id: "(\<And>c. c \<in> set s \<Longrightarrow> \<not> p c) \<Longrightarrow> strip p s = s"
  unfolding strip_def rstrip_def lstrip_def
  by (metis dropWhile_eq_self_iff hd_in_set rev_rev_ident set_rev)

text \<open>The characters \<open>str.strip()\<close> removes by default.\<close>

definition py_space :: "char \<Rightarrow> bool" where
  "py_space c = (let n = of_char c :: nat in (9 \<le> n \<and> n \<le> 13) \<or> (28 \<le> n \<and> n \<le> 32) \<or> n = 133 \<or> n = 160)"

text \<open>\<open>sep.join(parts)\<close> and \<open>s.split(c)\<close> for a single character.\<close>

fun str_join :: "string \<Rightarrow> string list \<Rightarrow> string" where
  "str_join sep [] = []"
| "str_join sep [s] = s"
| "str_join sep (s # t # ts) = s @ sep @ str_join sep (t # ts)"

fun str_split :: "char \<Rightarrow> string \<Rightarrow> string list" where
  "str_split c [] = [[]]"
| "str_split c (x # xs) =
     (if x = c then [] # str_split c xs
      else (case str_split c xs of [] \<Rightarrow> [[x]] | p # ps \<Rightarrow> (x # p) # ps))"

lemma str_split_not_Nil [simp]: "str_split c s \<noteq> []"
  by (cases s) (auto split: list.splits)

lemma str_join_Cons_ne: "ts \<noteq> [] \<Longrightarrow> str_join sep (s # ts) = s @ sep @ str_join sep ts"
  by (cases ts) auto

lemma str_join_split: "str_join [c] (str_split c s) = s"
proof (induction s)
  case Nil
  show ?case by simp
next
  case (Cons x xs)
  show ?case
  proof (cases "x = c")
    case True
    with Cons show ?thesis by (simp add: str_join_Cons_ne)
  next
    case False
    obtain p ps where s: "str_split c xs = p # ps"
      by (cases "str_split c xs") auto
    from False s Cons show ?thesis by (cases ps) auto
  qed
qed

lemma str_split_no_sep: "p \<in> set (str_split c s) \<Longrightarrow> c \<notin> set p"
  by (induction s arbitrary: p) (auto split: if_splits list.splits)

end
