(* ===== verification/Py_Text.thy ===== *)
theory Py_Text
  imports Py_Values
begin

text \<open>
  Conversions between values and text: \<open>str\<close>, \<open>repr\<close>, \<open>int\<close> (decimal and hexadecimal) and
  \<open>json.dumps\<close> with an indentation, as the interpreter defines them.
\<close>

section \<open>Digits\<close>

definition digit_char :: "nat \<Rightarrow> char" where
  "digit_char d = ''0123456789abcdef'' ! d"

definition digit_val :: "char \<Rightarrow> nat option" where
  "digit_val c =
     (let n = of_char c :: nat in
      if 48 \<le> n \<and> n \<le> 57 then Some (n - 48)
      else if 97 \<le> n \<and> n \<le> 122 then Some (n - 87)
      else if 65 \<le> n \<and> n \<le> 90 then Some (n - 55)
      else None)"

lemma less_16_cases:
  assumes "(d::nat) < 16"
  obtains "d = 0" | "d = 1" | "d = 2" | "d = 3" | "d = 4" | "d = 5" | "d = 6" | "d = 7"
    | "d = 8" | "d = 9" | "d = 10" | "d = 11" | "d = 12" | "d = 13" | "d = 14" | "d = 15"
proof -
  from assms have "d = 0 \<or> d = 1 \<or> d = 2 \<or> d = 3 \<or> d = 4 \<or> d = 5 \<or> d = 6 \<or> d = 7
    \<or> d = 8 \<or> d = 9 \<or> d = 10 \<or> d = 11 \<or> d = 12 \<or> d = 13 \<or> d = 14 \<or> d = 15"
    by presburger
  with that show thesis by blast
qed

lemma digit_val_char [simp]: "d < 16 \<Longrightarrow> digit_val (digit_char d) = Some d"
  by (erule less_16_cases) (simp_all add: digit_val_def digit_char_def)

lemma digit_char_mem: "d < 16 \<Longrightarrow> digit_char d \<in> set ''0123456789abcdef''"
  unfolding digit_char_def by (rule nth_mem) simp

lemma digit_char_inj: "d < 16 \<Longrightarrow> e < 16 \<Longrightarrow> digit_char d = digit_char e \<longleftrightarrow> d = e"
  using digit_val_char by (metis option.inject)

fun nat_str :: "nat \<Rightarrow> string" where
  "nat_str n = (if n < 10 then [digit_char n] else nat_str (n div 10) @ [digit_char (n mod 10)])"

declare nat_str.simps [simp del]

definition int_str :: "int \<Rightarrow> string" where
  "int_str i = (if i < 0 then ''-'' @ nat_str (nat (- i)) else nat_str (nat i))"

text \<open>\<open>'%0<w>x' % n\<close> for \<open>n < 16 ^ w\<close>.\<close>

fun hex_fixed :: "nat \<Rightarrow> nat \<Rightarrow> string" where
  "hex_fixed 0 n = []"
| "hex_fixed (Suc w) n = hex_fixed w (n div 16) @ [digit_char (n mod 16)]"

lemma length_hex_fixed [simp]: "length (hex_fixed w n) = w"
  by (induction w arbitrary: n) auto

lemma set_hex_fixed: "set (hex_fixed w n) \<subseteq> set ''0123456789abcdef''"
proof (induction w arbitrary: n)
  case 0
  show ?case by simp
next
  case (Suc w)
  have "digit_char (n mod 16) \<in> set ''0123456789abcdef''"
    by (rule digit_char_mem) simp
  with Suc show ?case by simp
qed

section \<open>Parsing integers\<close>

text \<open>
  \<open>int(s, base)\<close>: surrounding white space, a sign, for base 16 a \<open>0x\<close> prefix, and single
  underscores between digits are accepted.
\<close>

definition int_space :: "char \<Rightarrow> bool" where
  "int_space c = (let n = of_char c :: nat in (9 \<le> n \<and> n \<le> 13) \<or> n = 32 \<or> n = 133 \<or> n = 160)"

fun scan_digits :: "nat \<Rightarrow> nat \<Rightarrow> bool \<Rightarrow> string \<Rightarrow> (nat \<times> string) option" where
  "scan_digits base acc pu [] = (if pu then None else Some (acc, []))"
| "scan_digits base acc pu (c # cs) =
     (if c = CHR ''_'' then (if pu then None else scan_digits base acc True cs)
      else (case digit_val c of
              Some d \<Rightarrow>
                if d < base then scan_digits base (acc * base + d) False cs
                else if pu then None else Some (acc, c # cs)
            | None \<Rightarrow> if pu then None else Some (acc, c # cs)))"

definition int_sign :: "string \<Rightarrow> bool \<times> string" where
  "int_sign s = (case s of
      [] \<Rightarrow> (False, [])
    | c # cs \<Rightarrow> if c = CHR ''-'' then (True, cs) else if c = CHR ''+'' then (False, cs) else (False, s))"

definition int_prefix :: "nat \<Rightarrow> string \<Rightarrow> string" where
  "int_prefix base s =
     (if base = 16 \<and> (prefix ''0x'' s \<or> prefix ''0X'' s)
      then (let t = drop 2 s in if prefix ''_'' t then tl t else t)
      else s)"

definition parse_int :: "nat \<Rightarrow> string \<Rightarrow> int res" where
  "parse_int base s =
     (let (neg, s1) = int_sign (dropWhile int_space s);
          s2 = int_prefix base s1;
          err = Inl (ValueError ''invalid literal for int()'')
      in if prefix ''_'' s2 then err
         else (case scan_digits base 0 False s2 of
                 None \<Rightarrow> err
               | Some (n, rest) \<Rightarrow>
                   if rest = s2 \<or> dropWhile int_space rest \<noteq> [] then err
                   else Inr (if neg then - int n else int n)))"

text \<open>\<open>int(v)\<close> of a dynamic value; a float is truncated towards zero.\<close>

definition rat_trunc :: "rat \<Rightarrow> int" where
  "rat_trunc r = (if r < 0 then - \<lfloor>- r\<rfloor> else \<lfloor>r\<rfloor>)"

fun py_int :: "pyval \<Rightarrow> int res" where
  "py_int (PyInt n) = Inr n"
| "py_int (PyBool b) = Inr (if b then 1 else 0)"
| "py_int (PyFloat (Some r) _) = Inr (rat_trunc r)"
| "py_int (PyFloat None rp) =
     (if rp = ''nan'' then Inl (ValueError ''cannot convert float NaN to integer'')
      else Inl (OverflowError ''cannot convert float infinity to integer''))"
| "py_int (PyStr s) = parse_int 10 s"
| "py_int v = Inl (TypeError (''int() argument must be a string or a number, not '' @ py_type v))"

lemma scan_digits_append:
  assumes "\<And>c. c \<in> set ds \<Longrightarrow> c \<noteq> CHR ''_'' \<and> (\<exists>d. digit_val c = Some d \<and> d < base)"
  shows "scan_digits base acc False (ds @ s) =
         scan_digits base (foldl (\<lambda>a c. a * base + the (digit_val c)) acc ds) False s"
  using assms
proof (induction ds arbitrary: acc)
  case Nil
  show ?case by simp
next
  case (Cons c ds)
  then obtain d where d: "digit_val c = Some d" "d < base" and c: "c \<noteq> CHR ''_''"
    by (meson list.set_intros(1))
  from Cons have "\<And>acc. scan_digits base acc False (ds @ s) =
      scan_digits base (foldl (\<lambda>a c. a * base + the (digit_val c)) acc ds) False s"
    by simp
  with d c show ?case by simp
qed

lemma hex_fixed_value:
  "foldl (\<lambda>a c. a * 16 + the (digit_val c)) acc (hex_fixed w n) = acc * 16 ^ w + n mod 16 ^ w"
proof (induction w arbitrary: n)
  case 0
  show ?case by simp
next
  case (Suc w)
  have "n mod 16 ^ Suc w = (n div 16 mod 16 ^ w) * 16 + n mod 16"
    by (simp add: mod_mult2_eq)
  with Suc show ?case
    by (simp add: algebra_simps)
qed

lemma hex_fixed_digit: "c \<in> set (hex_fixed w n) \<Longrightarrow> \<exists>d<16. c = digit_char d"
proof (induction w arbitrary: n)
  case 0
  then show ?case by simp
next
  case (Suc w)
  have "n mod 16 < 16" by simp
  then have "\<exists>d<16. digit_char (n mod 16) = digit_char d" by blast
  with Suc show ?case by auto
qed

lemma digit_char_plain:
  "d < 16 \<Longrightarrow> \<not> int_space (digit_char d) \<and> digit_char d \<noteq> CHR ''-'' \<and> digit_char d \<noteq> CHR ''+'' \<and>
     digit_char d \<noteq> CHR ''_'' \<and> digit_char d \<noteq> CHR ''x'' \<and> digit_char d \<noteq> CHR ''X''"
  by (erule less_16_cases) (simp_all add: digit_char_def int_space_def)

lemma hex_digit_ok:
  assumes "c \<in> set (hex_fixed w n)"
  shows "c \<noteq> CHR ''_'' \<and> (\<exists>d. digit_val c = Some d \<and> d < 16)"
proof -
  from assms obtain d where "d < 16" and "c = digit_char d"
    using hex_fixed_digit by blast
  then have v: "digit_val c = Some d" by simp
  have "digit_val CHR ''_'' = None" by (simp add: digit_val_def)
  with v \<open>d < 16\<close> show ?thesis by auto
qed

lemma prefix_in_set: "prefix p s \<Longrightarrow> c \<in> set p \<Longrightarrow> c \<in> set s"
  by (auto simp: prefix_def)

lemma parse_int_hex_fixed:
  assumes "0 < w"
  shows "parse_int 16 (hex_fixed w n) = Inr (int (n mod 16 ^ w))"
proof -
  let ?s = "hex_fixed w n"
  from assms obtain c cs where s: "?s = c # cs"
    by (metis length_hex_fixed length_greater_0_conv list.exhaust)
  have plain: "\<not> int_space x \<and> x \<noteq> CHR ''-'' \<and> x \<noteq> CHR ''+'' \<and> x \<noteq> CHR ''_'' \<and> x \<noteq> CHR ''x'' \<and> x \<noteq> CHR ''X''"
    if "x \<in> set ?s" for x
  proof -
    from hex_fixed_digit [OF that] obtain d where "d < 16" and "x = digit_char d" by (elim exE conjE)
    then show ?thesis using digit_char_plain [of d] by simp
  qed
  have c: "\<not> int_space c" "c \<noteq> CHR ''-''" "c \<noteq> CHR ''+''" "c \<noteq> CHR ''_''"
    using plain [of c] by (simp_all add: s)
  have "CHR ''x'' \<notin> set ?s" "CHR ''X'' \<notin> set ?s"
    using plain [of "CHR ''x''"] plain [of "CHR ''X''"] by (simp_all, auto)
  then have nox: "\<not> prefix ''0x'' ?s" "\<not> prefix ''0X'' ?s"
    using prefix_in_set [of "''0x''" ?s "CHR ''x''"] prefix_in_set [of "''0X''" ?s "CHR ''X''"] by (simp_all, auto)
  have sp: "dropWhile int_space ?s = ?s"
    using c by (simp add: s)
  have sgn: "int_sign ?s = (False, ?s)"
    using c by (simp add: s int_sign_def)
  have und: "\<not> prefix ''_'' ?s"
    using c by (simp add: s)
  have pre: "int_prefix 16 ?s = ?s"
    using nox by (simp add: int_prefix_def)
  have ne: "?s \<noteq> []"
    by (simp add: s)
  have scan: "scan_digits 16 0 False ?s = Some (n mod 16 ^ w, [])"
    using scan_digits_append [of ?s 16 0 "[]"] hex_digit_ok hex_fixed_value [of 0 w n] by simp
  show ?thesis
    by (simp add: parse_int_def sp sgn pre und scan ne [symmetric])
qed

section \<open>str and repr\<close>

definition str_repr_char :: "char \<Rightarrow> char \<Rightarrow> string" where
  "str_repr_char q c =
     (let n = of_char c :: nat in
      if c = q \<or> n = 92 then [CHR 0x5C, c]
      else if n = 9 then [CHR 0x5C, CHR ''t'']
      else if n = 10 then [CHR 0x5C, CHR ''n'']
      else if n = 13 then [CHR 0x5C, CHR ''r'']
      else if n < 32 \<or> (127 \<le> n \<and> n \<le> 160) \<or> n = 173 then [CHR 0x5C, CHR ''x''] @ hex_fixed 2 n
      else [c])"

definition str_repr :: "string \<Rightarrow> string" where
  "str_repr s =
     (let q = (if CHR 0x27 \<in> set s \<and> CHR 0x22 \<notin> set s then CHR 0x22 else CHR 0x27)
      in [q] @ concat (map (str_repr_char q) s) @ [q])"

fun py_repr :: "pyval \<Rightarrow> string"
  and py_repr_items :: "pydict \<Rightarrow> string list" where
  "py_repr PyNone = ''None''"
| "py_repr (PyBool b) = (if b then ''True'' else ''False'')"
| "py_repr (PyInt n) = int_str n"
| "py_repr (PyFloat _ r) = r"
| "py_repr (PyStr s) = str_repr s"
| "py_repr (PyList xs) = ''['' @ str_join '', '' (map py_repr xs) @ '']''"
| "py_repr (PyDict d) = ''{'' @ str_join '', '' (py_repr_items d) @ ''}''"
| "py_repr_items [] = []"
| "py_repr_items ((k, v) # d) = (str_repr k @ '': '' @ py_repr v) # py_repr_items d"

fun py_str :: "pyval \<Rightarrow> string" where
  "py_str (PyStr s) = s"
| "py_str v = py_repr v"

section \<open>json.dumps with an indentation\<close>

definition json_char :: "char \<Rightarrow> string" where
  "json_char c =
     (let n = of_char c :: nat in
      if n = 34 \<or> n = 92 then [CHR 0x5C, c]
      else if n = 8 then [CHR 0x5C, CHR ''b'']
      else if n = 9 then [CHR 0x5C, CHR ''t'']
      else if n = 10 then [CHR 0x5C, CHR ''n'']
      else if n = 12 then [CHR 0x5C, CHR ''f'']
      else if n = 13 then [CHR 0x5C, CHR ''r'']
      else if n < 32 \<or> 126 < n then [CHR 0x5C, CHR ''u''] @ hex_fixed 4 n
      else [c])"

definition json_str :: "string \<Rightarrow> string" where
  "json_str s = [CHR 0x22] @ concat (map json_char s) @ [CHR 0x22]"

definition json_float :: "rat option \<Rightarrow> string \<Rightarrow> string" where
  "json_float v r =
     (case v of
        Some _ \<Rightarrow> r
      | None \<Rightarrow> if r = ''nan'' then ''NaN'' else if r = ''inf'' then ''Infinity'' else ''-Infinity'')"

text \<open>A container's items, one per line at indentation \<open>n\<close>, between its brackets.\<close>

definition json_block :: "nat \<Rightarrow> nat \<Rightarrow> string \<Rightarrow> string \<Rightarrow> string list \<Rightarrow> string" where
  "json_block w n opn cls items =
     (if items = [] then opn @ cls
      else (let nl = ''\<newline>'' @ replicate (n + w) CHR '' ''
            in opn @ nl @ str_join ('','' @ nl) items @ ''\<newline>'' @ replicate n CHR '' '' @ cls))"

fun json_dumps :: "nat \<Rightarrow> nat \<Rightarrow> pyval \<Rightarrow> string"
  and json_items :: "nat \<Rightarrow> nat \<Rightarrow> pydict \<Rightarrow> string list" where
  "json_dumps w n PyNone = ''null''"
| "json_dumps w n (PyBool b) = (if b then ''true'' else ''false'')"
| "json_dumps w n (PyInt i) = int_str i"
| "json_dumps w n (PyFloat v r) = json_float v r"
| "json_dumps w n (PyStr s) = json_str s"
| "json_dumps w n (PyList xs) = json_block w n ''['' '']'' (map (json_dumps w (n + w)) xs)"
| "json_dumps w n (PyDict d) = json_block w n ''{'' ''}'' (json_items w (n + w) d)"
| "json_items w n [] = []"
| "json_items w n ((k, v) # d) = (json_str k @ '': '' @ json_dumps w n v) # json_items w n d"

text \<open>The rendered items of a container occur in its rendering.\<close>

lemma sublist_in_append: "sublist x b \<Longrightarrow> sublist x (a @ b @ c)"
  unfolding sublist_def by (metis append_assoc)

lemma sublist_append_before: "sublist x b \<Longrightarrow> sublist x (a @ b)"
  using sublist_in_append [of x b a "[]"] by simp

lemma sublist_append_after: "sublist x a \<Longrightarrow> sublist x (a @ b)"
  using sublist_in_append [of x a "[]" b] by simp

lemma sublist_str_join: "x \<in> set xs \<Longrightarrow> sublist x (str_join sep xs)"
proof (induction sep xs rule: str_join.induct)
  case (3 sep s t ts)
  show ?case
  proof (cases "x = s")
    case True
    then show ?thesis by simp
  next
    case False
    with 3 have "sublist x (str_join sep (t # ts))" by simp
    then show ?thesis
      using sublist_in_append [of x _ "s @ sep" "[]"] by simp
  qed
qed simp_all

lemma sublist_json_block:
  assumes "x \<in> set items"
  shows "sublist x (json_block w n opn cls items)"
proof -
  let ?nl = "''\<newline>'' @ replicate (n + w) CHR '' ''"
  have "sublist x ((opn @ ?nl) @ str_join ('','' @ ?nl) items @ ''\<newline>'' @ replicate n CHR '' '' @ cls)"
    by (intro sublist_in_append sublist_str_join assms)
  with assms show ?thesis by (auto simp: json_block_def Let_def)
qed

end
