(* ===== verification/Py_Uuid.thy ===== *)
theory Py_Uuid
  imports Py_Text "HOL-Library.Word"
begin

text \<open>
  Python's \<open>uuid.UUID\<close>: a 128-bit value, read from text with the constructor's own leniency
  (\<open>urn:\<close>, \<open>uuid:\<close>, braces and hyphens anywhere are dropped, then \<open>int(hex, 16)\<close>) and printed
  in the canonical 8-4-4-4-12 form. The round trip is proved once here; every component
  that compares identifiers rests on it.
\<close>

type_synonym uuid = "128 word"

definition uuid_str :: "uuid \<Rightarrow> string" where
  "uuid_str u =
     (let h = hex_fixed 32 (unat u) in
      take 8 h @ ''-'' @ take 4 (drop 8 h) @ ''-'' @ take 4 (drop 12 h) @ ''-'' @
      take 4 (drop 16 h) @ ''-'' @ drop 20 h)"

definition brace :: "char \<Rightarrow> bool" where
  "brace c \<longleftrightarrow> c = CHR 0x7B \<or> c = CHR 0x7D"

definition uuid_hex :: "string \<Rightarrow> string" where
  "uuid_hex s =
     str_replace ''-'' [] (strip brace (str_replace ''uuid:'' [] (str_replace ''urn:'' [] s)))"

definition uuid_parse :: "string \<Rightarrow> uuid res" where
  "uuid_parse s =
     (let h = uuid_hex s in
      if length h \<noteq> 32 then Inl (ValueError ''badly formed hexadecimal UUID string'')
      else bindE (parse_int 16 h) (\<lambda>n.
        if 0 \<le> n \<and> n < 2 ^ 128 then Inr (word_of_int n)
        else Inl (ValueError ''int is out of range (need a 128-bit value)'')))"

text \<open>\<open>UUID(v)\<close> for a dynamic value.\<close>

fun py_uuid :: "pyval \<Rightarrow> uuid res" where
  "py_uuid (PyStr s) = uuid_parse s"
| "py_uuid PyNone = Inl (TypeError ''one of the hex, bytes, bytes_le, fields, or int arguments must be given'')"
| "py_uuid v = Inl (AttributeError (py_type v @ '' object has no attribute replace''))"

text \<open>\<open>_is_uuid\<close>, the same function in \<open>discovery.py\<close> and \<open>report.py\<close>.\<close>

fun is_uuid :: "pyval \<Rightarrow> bool" where
  "is_uuid (PyStr s) = (case uuid_parse s of Inl (ValueError _) \<Rightarrow> False | _ \<Rightarrow> True)"
| "is_uuid v = False"

section \<open>The constructor on canonical text\<close>

lemma str_replace_char: "str_replace [c] [] s = filter (\<lambda>x. x \<noteq> c) s"
proof (induction s)
  case Nil
  show ?case by simp
next
  case (Cons x xs)
  then show ?case by (simp add: str_replace.simps [of "[c]" "[]" "x # xs"])
qed

lemma uuid_str_chars: "c \<in> set (uuid_str u) \<Longrightarrow> c = CHR ''-'' \<or> (\<exists>d<16. c = digit_char d)"
proof -
  let ?h = "hex_fixed 32 (unat u)"
  assume "c \<in> set (uuid_str u)"
  then have "c = CHR ''-'' \<or> c \<in> set ?h"
    unfolding uuid_str_def Let_def
    by (auto dest: in_set_takeD in_set_dropD)
  then show ?thesis using hex_fixed_digit by blast
qed

lemma digit_char_not_special:
  "d < 16 \<Longrightarrow> digit_char d \<noteq> CHR ''u'' \<and> \<not> brace (digit_char d) \<and> digit_char d \<noteq> CHR ''-''"
  by (erule less_16_cases) (simp_all add: digit_char_def brace_def)

lemma uuid_str_no_special:
  assumes "c \<in> set (uuid_str u)"
  shows "c \<noteq> CHR ''u'' \<and> \<not> brace c"
proof -
  have "CHR ''-'' \<noteq> CHR ''u'' \<and> \<not> brace CHR ''-''"
    by (simp add: brace_def)
  with uuid_str_chars [OF assms] show ?thesis
    by (elim disjE exE conjE) (simp_all add: digit_char_not_special)
qed

lemma filter_hex [simp]: "filter (\<lambda>x. x \<noteq> CHR ''-'') (hex_fixed w n) = hex_fixed w n"
proof (rule filter_True, rule ballI)
  fix c
  assume "c \<in> set (hex_fixed w n)"
  then obtain d where "d < 16" "c = digit_char d"
    using hex_fixed_digit by blast
  then show "c \<noteq> CHR ''-''" by (simp add: digit_char_not_special)
qed

lemma filter_hex_part:
  "filter (\<lambda>x. x \<noteq> CHR ''-'') (take i (drop j (hex_fixed w n))) = take i (drop j (hex_fixed w n))"
  "filter (\<lambda>x. x \<noteq> CHR ''-'') (take i (hex_fixed w n)) = take i (hex_fixed w n)"
  "filter (\<lambda>x. x \<noteq> CHR ''-'') (drop j (hex_fixed w n)) = drop j (hex_fixed w n)"
  using filter_hex [of w n] unfolding filter_id_conv
  by (meson in_set_takeD in_set_dropD)+

lemma take_drop_join: "take (j - i) (drop i h) @ drop j h = drop i h" if "i \<le> j"
  using that by (metis add_diff_cancel_left' append_take_drop_id drop_drop le_add_diff_inverse2)

lemma uuid_hex_uuid_str: "uuid_hex (uuid_str u) = hex_fixed 32 (unat u)"
proof -
  let ?h = "hex_fixed 32 (unat u)"
  have u: "CHR ''u'' \<notin> set (uuid_str u)"
    using uuid_str_no_special [of "CHR ''u''" u] by auto
  have "strip brace (uuid_str u) = uuid_str u"
    by (rule strip_id) (simp add: uuid_str_no_special)
  with u have "uuid_hex (uuid_str u) = filter (\<lambda>x. x \<noteq> CHR ''-'') (uuid_str u)"
    by (simp add: uuid_hex_def str_replace_char str_replace_no_head)
  also have "\<dots> = take 8 ?h @ take 4 (drop 8 ?h) @ take 4 (drop 12 ?h) @ take 4 (drop 16 ?h) @ drop 20 ?h"
    by (simp add: uuid_str_def Let_def filter_hex_part)
  also have "\<dots> = ?h"
    using take_drop_join [of 16 20 ?h] take_drop_join [of 12 16 ?h] take_drop_join [of 8 12 ?h] by simp
  finally show ?thesis .
qed

lemma length_uuid_str [simp]: "length (uuid_str u) = 36"
  by (simp add: uuid_str_def Let_def)

theorem uuid_parse_str [simp]: "uuid_parse (uuid_str u) = Inr u"
proof -
  have "unat u < 2 ^ 128"
    using unsigned_less [of u] by simp
  then have "unat u mod 16 ^ 32 = unat u" by simp
  then have "parse_int 16 (hex_fixed 32 (unat u)) = Inr (int (unat u))"
    using parse_int_hex_fixed [of 32 "unat u"] by simp
  moreover have "uint u < 2 ^ 128"
    using uint_lt2p [of u] by simp
  ultimately show ?thesis
    by (simp add: uuid_parse_def uuid_hex_uuid_str)
qed

lemma py_uuid_str [simp]: "py_uuid (PyStr (uuid_str u)) = Inr u"
  by simp

lemma is_uuid_str [simp]: "is_uuid (PyStr (uuid_str u))"
  by simp

lemma uuid_str_inject [simp]: "uuid_str u = uuid_str v \<longleftrightarrow> u = v"
  using uuid_parse_str by (metis Inr_inject)

lemma uuid_str_not_Nil [simp]: "uuid_str u \<noteq> []"
  using length_uuid_str [of u] by (metis list.size(3) zero_neq_numeral)

section \<open>What a successful test means\<close>

lemma parse_int_error: "parse_int b s = Inl e \<Longrightarrow> \<exists>m. e = ValueError m"
  by (auto simp: parse_int_def Let_def split: if_splits option.splits prod.splits)

lemma uuid_parse_error: "uuid_parse s = Inl e \<Longrightarrow> \<exists>m. e = ValueError m"
  by (auto simp: uuid_parse_def Let_def bindE_eq_Inl split: if_splits dest: parse_int_error)

text \<open>\<open>_is_uuid(v)\<close> holds exactly when \<open>UUID(v)\<close> returns, for a string \<open>v\<close>.\<close>

lemma is_uuid_iff: "is_uuid v \<longleftrightarrow> (\<exists>s u. v = PyStr s \<and> uuid_parse s = Inr u)"
  by (cases v) (auto split: sum.splits exn.splits dest: uuid_parse_error)

lemma is_uuid_py_uuid: "is_uuid v \<Longrightarrow> \<exists>u. py_uuid v = Inr u"
  by (auto simp: is_uuid_iff)

lemma not_is_uuid_not_str [simp]: "(\<And>s. v \<noteq> PyStr s) \<Longrightarrow> \<not> is_uuid v"
  by (cases v) auto

end
