(* ===== verification/Bundle.thy ===== *)
theory Bundle
  imports Py_Uuid
begin

text \<open>
  \<open>auditcore_ingestion/bundle.py\<close>: an evidence bundle is a tar archive with a manifest and the raw
  files it lists. Decoding (gunzip and tar headers, JSON text, ISO dates) is given by functions:
  \<open>tar_open\<close> is \<open>tarfile.open\<close> with the headers that \<open>getmember\<close> loads, \<open>jbytes\<close> is \<open>json.loads\<close> on
  bytes, \<open>fromiso\<close> is \<open>datetime.fromisoformat\<close>, with a date as an integer. What is done with an
  archive (looking a member up, following links to another member, reading it, rejecting unsafe
  names) is modelled.
\<close>

type_synonym bytes = "8 word list"

type_synonym datetime = int

text \<open>A decoder succeeds, raises the error the code expects of it, or raises something else.\<close>

datatype 'a decoded = Decoded 'a | Malformed string | Failed exn

text \<open>A regular file (or a member of unknown type) with its bytes, a link, or a member without data.\<close>

datatype tar_content = Regular "bytes res" | Symbolic_Link string | Hard_Link string | Special

record tar_member =
  tm_name :: string
  tm_content :: tar_content

type_synonym archive = "tar_member list"

record bundle_item =
  bi_id :: uuid
  bi_source_tool :: pyval
  bi_source_tool_version :: pyval
  bi_category :: pyval
  bi_collected_at :: datetime
  bi_file_path :: string
  bi_raw_bytes :: bytes

record evidence_bundle =
  bu_schema_version :: string
  bu_collector_version :: string
  bu_collected_at :: datetime
  bu_scope :: pyval
  bu_items :: "bundle_item list"

section \<open>Members of an archive\<close>

text \<open>\<open>os.path.normpath\<close> and \<open>os.path.dirname\<close>.\<close>

definition root_slashes :: "string \<Rightarrow> string" where
  "root_slashes p =
     (if \<not> prefix ''/'' p then [] else if prefix ''//'' p \<and> \<not> prefix ''///'' p then ''//'' else ''/'')"

definition norm_step :: "string \<Rightarrow> string list \<Rightarrow> string \<Rightarrow> string list" where
  "norm_step slashes comps c =
     (if c = [] \<or> c = ''.'' then comps
      else if c \<noteq> ''..'' \<or> slashes = [] \<and> comps = [] \<or> comps \<noteq> [] \<and> last comps = ''..'' then comps @ [c]
      else butlast comps)"

definition or_dot :: "string \<Rightarrow> string" where
  "or_dot p = (if p = [] then ''.'' else p)"

definition normpath :: "string \<Rightarrow> string" where
  "normpath p =
     (let slashes = root_slashes p in
      or_dot (slashes @ str_join ''/'' (foldl (norm_step slashes) [] (str_split CHR ''/'' (drop (length slashes) p)))))"

definition dirname :: "string \<Rightarrow> string" where
  "dirname p =
     (let head = rev (dropWhile (\<lambda>c. c \<noteq> CHR ''/'') (rev p)) in
      if list_all (\<lambda>c. c = CHR ''/'') head then head else rstrip (\<lambda>c. c = CHR ''/'') head)"

text \<open>\<open>_getmember\<close>: the last member of that name, with the members before it.\<close>

definition lookup_member :: "(string \<Rightarrow> string) \<Rightarrow> archive \<Rightarrow> string \<Rightarrow> (tar_member \<times> archive) option" where
  "lookup_member nrm members name =
     (case dropWhile (\<lambda>m. nrm (tm_name m) \<noteq> name) (rev members) of [] \<Rightarrow> None | m # ms \<Rightarrow> Some (m, rev ms))"

text \<open>\<open>tf.getmember(name)\<close>: a trailing slash of the argument is dropped.\<close>

definition getmember :: "archive \<Rightarrow> string \<Rightarrow> (tar_member \<times> archive) option" where
  "getmember tf name = lookup_member (\<lambda>n. n) tf (rstrip (\<lambda>c. c = CHR ''/'') name)"

text \<open>\<open>_find_link_target\<close>: a symbolic link is searched in the whole archive, relative to its own directory, a
  hard link among the members before it.\<close>

definition link_name :: "tar_member \<Rightarrow> string" where
  "link_name m =
     (case tm_content m of
        Symbolic_Link l \<Rightarrow> str_join ''/'' (filter (\<lambda>s. s \<noteq> []) [dirname (tm_name m), l])
      | Hard_Link l \<Rightarrow> l
      | _ \<Rightarrow> [])"

definition link_target :: "archive \<Rightarrow> tar_member \<times> archive \<Rightarrow> (tar_member \<times> archive) option" where
  "link_target tf x =
     (case tm_content (fst x) of
        Symbolic_Link l \<Rightarrow> lookup_member normpath tf (normpath (link_name (fst x)))
      | Hard_Link l \<Rightarrow> lookup_member normpath (snd x) (normpath (link_name (fst x)))
      | _ \<Rightarrow> None)"

text \<open>
  \<open>tf.extractfile(member)\<close> and the bytes its file object reads. The recursion over links has fuel: one
  step per member of the archive is enough for a chain that ends (\<open>extractfile_complete\<close>), a longer
  one repeats itself until the interpreter's recursion limit.
\<close>

fun extractfile :: "nat \<Rightarrow> archive \<Rightarrow> tar_member \<times> archive \<Rightarrow> bytes res option res" where
  "extractfile fuel tf x =
     (case tm_content (fst x) of
        Regular f \<Rightarrow> Inr (Some f)
      | Special \<Rightarrow> Inr None
      | _ \<Rightarrow>
          (case link_target tf x of
             None \<Rightarrow> Inl (KeyError (''linkname '' @ str_repr (link_name (fst x)) @ '' not found''))
           | Some y \<Rightarrow>
               (case fuel of
                  0 \<Rightarrow> Inl (RuntimeError ''maximum recursion depth exceeded'')
                | Suc n \<Rightarrow> extractfile n tf y)))"

declare extractfile.simps [simp del]

lemma extractfile_regular [simp]: "tm_content (fst x) = Regular f \<Longrightarrow> extractfile fuel tf x = Inr (Some f)"
  by (simp add: extractfile.simps)

section \<open>The manifest\<close>

text \<open>\<open>required - d.keys()\<close>, sorted.\<close>

definition missing_keys :: "string list \<Rightarrow> pydict \<Rightarrow> string list" where
  "missing_keys required d = sort (filter (\<lambda>k. map_of d k = None) required)"

definition as_dict :: "pyval \<Rightarrow> pydict res" where
  "as_dict v = (case v of PyDict d \<Rightarrow> Inr d | _ \<Rightarrow> Inl (AttributeError (py_type v @ '' object has no attribute keys'')))"

definition key_list :: "string list \<Rightarrow> string" where
  "key_list ks = py_repr (PyList (map PyStr ks))"

definition required_top :: "string list" where
  "required_top = [''schema_version'', ''collector_version'', ''collected_at'', ''scope'', ''items'']"

definition required_item :: "string list" where
  "required_item = [''id'', ''source_tool'', ''source_tool_version'', ''category'', ''collected_at'', ''file'']"

definition unsafe_name :: "string \<Rightarrow> bool" where
  "unsafe_name name \<longleftrightarrow> prefix ''/'' name \<or> ''..'' \<in> set (str_split CHR ''/'' name)"

definition file_name :: "pyval \<Rightarrow> string res" where
  "file_name v = (case v of PyStr s \<Rightarrow> Inr s | _ \<Rightarrow> Inl (AttributeError (py_type v @ '' object has no attribute rstrip'')))"

definition parse_date :: "(string \<Rightarrow> datetime res) \<Rightarrow> pyval \<Rightarrow> datetime res" where
  "parse_date fromiso v =
     (case v of PyStr s \<Rightarrow> fromiso s | _ \<Rightarrow> Inl (TypeError ''fromisoformat: argument must be str''))"

text \<open>One iteration of the loop over the manifest's items.\<close>

definition parse_item :: "(string \<Rightarrow> datetime res) \<Rightarrow> archive \<Rightarrow> pyval \<Rightarrow> bundle_item res" where
  "parse_item fromiso tf v =
     bindE (as_dict v) (\<lambda>raw.
     if missing_keys required_item raw \<noteq> []
     then Inl (BundleError (''item missing keys: '' @ key_list (missing_keys required_item raw)))
     else
       bindE (py_index v ''file'') (\<lambda>fv.
       bindE (file_name fv) (\<lambda>file.
       case getmember tf file of
         None \<Rightarrow> Inl (BundleError (''manifest references missing file: '' @ file))
       | Some (member, before) \<Rightarrow>
           if unsafe_name (tm_name member) then Inl (BundleError (''unsafe bundle path: '' @ tm_name member))
           else bindE (extractfile (length tf) tf (member, before)) (\<lambda>x. case x of
               None \<Rightarrow> Inl (BundleError (''bundle path is not a regular file: '' @ tm_name member))
             | Some f \<Rightarrow>
                 bindE (py_index v ''id'') (\<lambda>i. bindE (py_uuid i) (\<lambda>u.
                 bindE (py_index v ''source_tool'') (\<lambda>tool.
                 bindE (py_index v ''source_tool_version'') (\<lambda>version.
                 bindE (py_index v ''category'') (\<lambda>category.
                 bindE (py_index v ''collected_at'') (\<lambda>dv. bindE (parse_date fromiso dv) (\<lambda>dt.
                 bindE f (\<lambda>data.
                 Inr \<lparr>bi_id = u, bi_source_tool = tool, bi_source_tool_version = version, bi_category = category,
                      bi_collected_at = dt, bi_file_path = file, bi_raw_bytes = data\<rparr>))))))))))))"

definition parse_manifest :: "(string \<Rightarrow> datetime res) \<Rightarrow> archive \<Rightarrow> pyval \<Rightarrow> evidence_bundle res" where
  "parse_manifest fromiso tf manifest =
     bindE (as_dict manifest) (\<lambda>d.
     if missing_keys required_top d \<noteq> []
     then Inl (BundleError (''manifest missing keys: '' @ key_list (missing_keys required_top d)))
     else
       bindE (py_index manifest ''items'') (\<lambda>iv.
       bindE (py_iter iv) (\<lambda>raws.
       bindE (mapE (parse_item fromiso tf) raws) (\<lambda>items.
       bindE (py_index manifest ''schema_version'') (\<lambda>sv.
       bindE (py_index manifest ''collector_version'') (\<lambda>cv.
       bindE (py_index manifest ''collected_at'') (\<lambda>dv. bindE (parse_date fromiso dv) (\<lambda>dt.
       bindE (py_index manifest ''scope'') (\<lambda>scope.
       Inr \<lparr>bu_schema_version = py_str sv, bu_collector_version = py_str cv, bu_collected_at = dt,
            bu_scope = scope, bu_items = items\<rparr>)))))))))"

definition parse_bundle ::
  "(bytes \<Rightarrow> archive decoded) \<Rightarrow> (bytes \<Rightarrow> pyval decoded) \<Rightarrow> (string \<Rightarrow> datetime res) \<Rightarrow> bytes \<Rightarrow> evidence_bundle res" where
  "parse_bundle tar_open jbytes fromiso data =
     (case tar_open data of
        Malformed e \<Rightarrow> Inl (BundleError (''not a valid tar.gz: '' @ e))
      | Failed e \<Rightarrow> Inl e
      | Decoded tf \<Rightarrow>
          (case getmember tf ''manifest.json'' of
             None \<Rightarrow> Inl (BundleError ''bundle missing manifest.json'')
           | Some member \<Rightarrow>
               bindE (extractfile (length tf) tf member) (\<lambda>x. case x of
                  None \<Rightarrow> Inl (BundleError ''manifest.json is not a regular file'')
                | Some f \<Rightarrow>
                    bindE f (\<lambda>content.
                    case jbytes content of
                      Malformed e \<Rightarrow> Inl (BundleError (''manifest.json is not valid JSON: '' @ e))
                    | Failed e \<Rightarrow> Inl e
                    | Decoded manifest \<Rightarrow> parse_manifest fromiso tf manifest))))"

section \<open>Following links\<close>

definition links :: "archive \<Rightarrow> tar_member \<times> archive \<Rightarrow> tar_member \<times> archive \<Rightarrow> bool" where
  "links tf x y \<longleftrightarrow> link_target tf x = Some y"

text \<open>A member at its place in the archive.\<close>

definition placed :: "archive \<Rightarrow> tar_member \<times> archive \<Rightarrow> bool" where
  "placed tf x \<longleftrightarrow> prefix (snd x @ [fst x]) tf"

lemma lookup_member_placed:
  assumes "lookup_member nrm members name = Some x" and "prefix members tf"
  shows "placed tf x" and "nrm (tm_name (fst x)) = name"
proof -
  let ?p = "\<lambda>m. nrm (tm_name m) \<noteq> name"
  from assms(1) obtain m ms where d: "dropWhile ?p (rev members) = m # ms" and x: "x = (m, rev ms)"
    by (auto simp: lookup_member_def split: list.splits)
  have "rev members = takeWhile ?p (rev members) @ m # ms" by (metis d takeWhile_dropWhile_id)
  then have "members = rev ms @ [m] @ rev (takeWhile ?p (rev members))"
    by (metis append.assoc rev.simps(2) rev_append rev_rev_ident)
  then have "prefix (rev ms @ [m]) members" by (metis append.assoc prefixI)
  with assms(2) x show "placed tf x" by (auto simp: placed_def)
  from d show "nrm (tm_name (fst x)) = name" by (auto simp: x dropWhile_eq_Cons_conv)
qed

lemma placed_mem: "placed tf x \<Longrightarrow> fst x \<in> set tf"
  by (auto simp: placed_def prefix_def)

lemma link_target_placed: "link_target tf x = Some y \<Longrightarrow> placed tf x \<Longrightarrow> placed tf y"
  unfolding link_target_def
  by (auto split: tar_content.splits intro: lookup_member_placed(1) simp: placed_def [of tf x] dest: append_prefixD)

lemma links_placed: "links tf x y \<Longrightarrow> placed tf x \<Longrightarrow> placed tf y"
  unfolding links_def by (rule link_target_placed)

lemma getmember_placed: "getmember tf name = Some x \<Longrightarrow> placed tf x"
  unfolding getmember_def by (erule lookup_member_placed) simp

lemma extractfile_links:
  "extractfile fuel tf x = Inr (Some f) \<Longrightarrow> \<exists>y. (links tf)\<^sup>*\<^sup>* x y \<and> tm_content (fst y) = Regular f"
proof (induction fuel arbitrary: x)
  case 0
  then have "tm_content (fst x) = Regular f" by (auto simp: extractfile.simps split: tar_content.splits option.splits)
  then show ?case by (intro exI [of _ x] conjI rtranclp.rtrancl_refl)
next
  case (Suc n)
  show ?case
  proof (cases "link_target tf x")
    case None
    with Suc.prems have "tm_content (fst x) = Regular f"
      by (auto simp: extractfile.simps [of "Suc n"] split: tar_content.splits)
    then show ?thesis by (intro exI [of _ x] conjI rtranclp.rtrancl_refl)
  next
    case (Some y)
    from Suc.prems consider "tm_content (fst x) = Regular f" | "extractfile n tf y = Inr (Some f)"
      by (auto simp: extractfile.simps [of "Suc n"] Some split: tar_content.splits)
    then show ?thesis
    proof cases
      case 1
      then show ?thesis by (intro exI [of _ x] conjI rtranclp.rtrancl_refl)
    next
      case 2
      with Suc.IH Some show ?thesis by (metis converse_rtranclp_into_rtranclp links_def)
    qed
  qed
qed

section \<open>The fuel is enough\<close>

fun follow :: "archive \<Rightarrow> nat \<Rightarrow> tar_member \<times> archive \<Rightarrow> (tar_member \<times> archive) option" where
  "follow tf 0 x = Some x"
| "follow tf (Suc n) x = Option.bind (link_target tf x) (follow tf n)"

lemma follow_add: "follow tf (i + j) x = Option.bind (follow tf i x) (follow tf j)"
proof (induction i arbitrary: x)
  case (Suc i)
  then show ?case by (cases "link_target tf x") simp_all
qed simp

lemma follow_placed: "follow tf n x = Some y \<Longrightarrow> placed tf x \<Longrightarrow> placed tf y"
  by (induction n arbitrary: x) (auto simp: bind_eq_Some_conv dest: link_target_placed)

lemma links_follow: "(links tf)\<^sup>*\<^sup>* x y \<Longrightarrow> \<exists>n. follow tf n x = Some y"
proof (induction rule: converse_rtranclp_induct)
  case base
  show ?case by (rule exI [of _ 0]) simp
next
  case (step x z)
  then obtain n where "follow tf n z = Some y" by blast
  with step(1) show ?case by (intro exI [of _ "Suc n"]) (simp add: links_def)
qed

lemma link_target_regular: "tm_content (fst x) = Regular f \<Longrightarrow> link_target tf x = None"
  by (simp add: link_target_def)

lemma follow_extractfile:
  "follow tf k x = Some y \<Longrightarrow> tm_content (fst y) = Regular f \<Longrightarrow> k \<le> fuel \<Longrightarrow> extractfile fuel tf x = Inr (Some f)"
proof (induction k arbitrary: x fuel)
  case 0
  then show ?case by (simp add: extractfile.simps)
next
  case (Suc k)
  from Suc.prems(1) obtain z where z: "link_target tf x = Some z" "follow tf k z = Some y"
    by (auto simp: bind_eq_Some_conv)
  from Suc.prems(3) obtain n where n: "fuel = Suc n" "k \<le> n" by (cases fuel) auto
  have "extractfile fuel tf x = extractfile n tf z"
    using z(1) by (cases "tm_content (fst x)") (simp_all add: extractfile.simps [of "Suc n"] n(1) link_target_def)
  with Suc.IH [OF z(2) Suc.prems(2) n(2)] show ?case by simp
qed

lemma placed_position: "placed tf x \<Longrightarrow> placed tf y \<Longrightarrow> length (snd x) = length (snd y) \<Longrightarrow> x = y"
  by (cases x; cases y) (auto simp: placed_def prefix_def)

lemma extractfile_complete:
  assumes "(links tf)\<^sup>*\<^sup>* x y" and "tm_content (fst y) = Regular f" and "placed tf x"
  shows "extractfile (length tf) tf x = Inr (Some f)"
proof -
  define k where "k = (LEAST n. follow tf n x = Some y)"
  from links_follow [OF assms(1)] have k: "follow tf k x = Some y" unfolding k_def by (rule LeastI_ex)
  have least: "k \<le> n" if "follow tf n x = Some y" for n unfolding k_def using that by (rule Least_le)
  have split: "\<exists>z. follow tf i x = Some z \<and> follow tf (k - i) z = Some y" if "i \<le> k" for i
  proof -
    have "follow tf (i + (k - i)) x = Some y" using k that by simp
    then show ?thesis unfolding follow_add by (cases "follow tf i x") simp_all
  qed
  let ?pos = "\<lambda>i. length (snd (the (follow tf i x)))"
  have "inj_on ?pos {..k}"
  proof (rule linorder_inj_onI')
    fix i j
    assume ij: "i \<in> {..k}" "j \<in> {..k}" "i < j"
    from split [of i] ij obtain a where a: "follow tf i x = Some a" by auto
    from split [of j] ij obtain b where b: "follow tf j x = Some b" "follow tf (k - j) b = Some y" by auto
    show "?pos i \<noteq> ?pos j"
    proof
      assume "?pos i = ?pos j"
      with a b(1) have "a = b"
        using placed_position [OF follow_placed [OF a assms(3)] follow_placed [OF b(1) assms(3)]] by simp
      with a b(2) have "follow tf (i + (k - j)) x = Some y" by (simp add: follow_add)
      from least [OF this] ij show False by simp
    qed
  qed
  moreover have "?pos ` {..k} \<subseteq> {..<length tf}"
  proof
    fix n
    assume "n \<in> ?pos ` {..k}"
    then obtain i a where "n = length (snd a)" "follow tf i x = Some a" using split by fastforce
    with follow_placed [OF this(2) assms(3)] show "n \<in> {..<length tf}" by (auto simp: placed_def prefix_def)
  qed
  ultimately have "card {..k} \<le> card {..<length tf}" by (rule card_inj_on_le) simp
  then show ?thesis using follow_extractfile [OF k assms(2)] by simp
qed

section \<open>What a parsed item is\<close>

text \<open>Its file names a member with a safe name, and its bytes are those of the regular member of the
  archive in which the chain of links from there ends.\<close>

definition item_backed :: "archive \<Rightarrow> bundle_item \<Rightarrow> bool" where
  "item_backed tf item \<longleftrightarrow>
     (\<exists>x y. getmember tf (bi_file_path item) = Some x \<and> fst x \<in> set tf \<and> \<not> unsafe_name (tm_name (fst x)) \<and>
        (links tf)\<^sup>*\<^sup>* x y \<and> fst y \<in> set tf \<and> tm_content (fst y) = Regular (Inr (bi_raw_bytes item)))"

lemma links_stay: "(links tf)\<^sup>*\<^sup>* x y \<Longrightarrow> placed tf x \<Longrightarrow> placed tf y"
  by (induction rule: rtranclp_induct) (auto intro: links_placed)

lemma parse_item_backed:
  assumes "parse_item fromiso tf v = Inr item"
  shows "item_backed tf item"
proof -
  from assms obtain x where x: "getmember tf (bi_file_path item) = Some x" "\<not> unsafe_name (tm_name (fst x))"
    "extractfile (length tf) tf x = Inr (Some (Inr (bi_raw_bytes item)))"
    by (auto simp: parse_item_def split: if_splits option.splits)
  from extractfile_links [OF x(3)] obtain y where y: "(links tf)\<^sup>*\<^sup>* x y" "tm_content (fst y) = Regular (Inr (bi_raw_bytes item))"
    by blast
  note p = getmember_placed [OF x(1)]
  from x(1,2) y placed_mem [OF p] placed_mem [OF links_stay [OF y(1) p]] show ?thesis
    unfolding item_backed_def by blast
qed

lemma parse_bundle_items:
  assumes "parse_bundle tar_open jbytes fromiso data = Inr b"
  obtains tf manifest raws where "tar_open data = Decoded tf" and "mapE (parse_item fromiso tf) raws = Inr (bu_items b)"
  using assms
  by (auto simp: parse_bundle_def parse_manifest_def split: decoded.splits option.splits if_splits)

end
