(* ===== verification/Models.thy ===== *)
theory Models
  imports Py_Uuid
begin

text \<open>
  The canonical data model of \<open>packages/models-py/auditcore_models/core.py\<close>: its enumerations
  with their values, its classes as records with the constraints the class bodies declare, and
  the naming function of the schema generator. A datetime is the number of microseconds since
  the epoch.
\<close>

section \<open>Enumerations\<close>

datatype domain = SECURITY | PERFORMANCE | CLOUD | K8S | DB | HARDWARE | NETWORK | SOFTWARE

fun domain_value :: "domain \<Rightarrow> string" where
  "domain_value SECURITY = ''security''"
| "domain_value PERFORMANCE = ''performance''"
| "domain_value CLOUD = ''cloud''"
| "domain_value K8S = ''k8s''"
| "domain_value DB = ''db''"
| "domain_value HARDWARE = ''hardware''"
| "domain_value NETWORK = ''network''"
| "domain_value SOFTWARE = ''software''"

definition all_domains :: "domain list" where
  "all_domains = [SECURITY, PERFORMANCE, CLOUD, K8S, DB, HARDWARE, NETWORK, SOFTWARE]"

datatype asset_type =
    HOST | VM | CONTAINER | POD | K8S_NODE | K8S_CLUSTER | CLOUD_ACCOUNT | CLOUD_RESOURCE
  | DATABASE | GPU | NETWORK_DEVICE | LOAD_BALANCER | STORAGE_BUCKET

fun asset_type_value :: "asset_type \<Rightarrow> string" where
  "asset_type_value HOST = ''host''"
| "asset_type_value VM = ''vm''"
| "asset_type_value CONTAINER = ''container''"
| "asset_type_value POD = ''pod''"
| "asset_type_value K8S_NODE = ''k8s_node''"
| "asset_type_value K8S_CLUSTER = ''k8s_cluster''"
| "asset_type_value CLOUD_ACCOUNT = ''cloud_account''"
| "asset_type_value CLOUD_RESOURCE = ''cloud_resource''"
| "asset_type_value DATABASE = ''database''"
| "asset_type_value GPU = ''gpu''"
| "asset_type_value NETWORK_DEVICE = ''network_device''"
| "asset_type_value LOAD_BALANCER = ''load_balancer''"
| "asset_type_value STORAGE_BUCKET = ''storage_bucket''"

datatype run_status = PLANNING | COLLECTING | NORMALIZING | DISCOVERING | REPORTING | COMPLETE | FAILED

fun run_status_value :: "run_status \<Rightarrow> string" where
  "run_status_value PLANNING = ''planning''"
| "run_status_value COLLECTING = ''collecting''"
| "run_status_value NORMALIZING = ''normalizing''"
| "run_status_value DISCOVERING = ''discovering''"
| "run_status_value REPORTING = ''reporting''"
| "run_status_value COMPLETE = ''complete''"
| "run_status_value FAILED = ''failed''"

definition all_run_statuses :: "run_status list" where
  "all_run_statuses = [PLANNING, COLLECTING, NORMALIZING, DISCOVERING, REPORTING, COMPLETE, FAILED]"

text \<open>\<open>Domain(s)\<close>, \<open>AssetType(s)\<close> and \<open>RunStatus(s)\<close>: the member whose value is \<open>s\<close>.\<close>

definition domain_of :: "string \<Rightarrow> domain option" where
  "domain_of s = find (\<lambda>d. domain_value d = s) all_domains"

definition all_asset_types :: "asset_type list" where
  "all_asset_types =
     [HOST, VM, CONTAINER, POD, K8S_NODE, K8S_CLUSTER, CLOUD_ACCOUNT, CLOUD_RESOURCE, DATABASE, GPU,
      NETWORK_DEVICE, LOAD_BALANCER, STORAGE_BUCKET]"

definition asset_type_of :: "string \<Rightarrow> asset_type option" where
  "asset_type_of s = find (\<lambda>t. asset_type_value t = s) all_asset_types"

definition run_status_of :: "string \<Rightarrow> run_status option" where
  "run_status_of s = find (\<lambda>x. run_status_value x = s) all_run_statuses"

lemma domain_of_value [simp]: "domain_of (domain_value d) = Some d"
  by (cases d) (simp_all add: domain_of_def all_domains_def)

lemma domain_of_Some: "domain_of s = Some d \<Longrightarrow> domain_value d = s"
  by (auto simp: domain_of_def find_Some_iff)

lemma run_status_of_value [simp]: "run_status_of (run_status_value x) = Some x"
  by (cases x) (simp_all add: run_status_of_def all_run_statuses_def)

lemma run_status_of_Some: "run_status_of s = Some x \<Longrightarrow> run_status_value x = s"
  by (auto simp: run_status_of_def find_Some_iff)

section \<open>Classes\<close>

record run_model =
  rm_id :: uuid
  rm_tenant_id :: uuid
  rm_parent_run_id :: "uuid option"
  rm_scope :: pydict
  rm_collection_plan :: "pydict option"
  rm_status :: run_status
  rm_started_at :: int
  rm_completed_at :: "int option"
  rm_cost_cents :: int

record asset_model =
  am_id :: uuid
  am_tenant_id :: uuid
  am_run_id :: uuid
  am_type :: asset_type
  am_natural_key :: string
  am_name :: string
  am_environment :: string
  am_attributes :: pydict
  am_parent_asset_id :: "uuid option"
  am_tags :: "(string \<times> string) list"
  am_first_seen :: int
  am_last_seen :: int

record evidence_model =
  em_id :: uuid
  em_tenant_id :: uuid
  em_run_id :: uuid
  em_asset_id :: "uuid option"
  em_source_tool :: string
  em_source_tool_version :: string
  em_collected_at :: int
  em_category :: string
  em_raw_ref :: string
  em_parsed :: pydict
  em_confidence :: rat
  em_redactions :: "string list"

record observation_model =
  om_id :: uuid
  om_tenant_id :: uuid
  om_run_id :: uuid
  om_asset_id :: uuid
  om_domain :: domain
  om_topic :: string
  om_summary :: string
  om_detail :: string
  om_facts :: pydict
  om_related_asset_ids :: "uuid list"
  om_evidence_ids :: "uuid list"
  om_produced_by_agent :: string
  om_model_used :: string
  om_created_at :: int

record report_section_model =
  sm_id :: uuid
  sm_run_id :: uuid
  sm_audience :: string
  sm_order :: int
  sm_title :: string
  sm_body_md :: string
  sm_embedded_observations :: "uuid list"

text \<open>
  Construction of a model instance: the declared constraints (\<open>Literal\<close>, \<open>Field\<close> bounds) and
  the field validator of \<open>Observation\<close> are applied to the given fields.
\<close>

definition evidence_categories :: "string list" where
  "evidence_categories =
     [''security'', ''performance'', ''cloud'', ''kubernetes'', ''database'', ''hardware'',
      ''network'', ''software'', ''inventory'']"

definition asset_environments :: "string list" where
  "asset_environments = [''prod'', ''staging'', ''dev'', ''unknown'']"

definition mk_asset :: "asset_model \<Rightarrow> asset_model res" where
  "mk_asset a =
     (if am_environment a \<in> set asset_environments then Inr a
      else Inl (ValueError ''environment: unexpected value''))"

definition mk_evidence_item :: "evidence_model \<Rightarrow> evidence_model res" where
  "mk_evidence_item e =
     (if em_category e \<notin> set evidence_categories then Inl (ValueError ''category: unexpected value'')
      else if em_confidence e < 0 then Inl (ValueError ''confidence: greater than or equal to 0'')
      else if 1 < em_confidence e then Inl (ValueError ''confidence: less than or equal to 1'')
      else Inr e)"

definition must_cite_evidence :: "uuid list \<Rightarrow> uuid list res" where
  "must_cite_evidence v =
     (if v = [] then Inl (ValueError ''Observation must cite at least one evidence_id'') else Inr v)"

definition mk_observation :: "observation_model \<Rightarrow> observation_model res" where
  "mk_observation ob = bindE (must_cite_evidence (om_evidence_ids ob)) (\<lambda>v. Inr (ob\<lparr>om_evidence_ids := v\<rparr>))"

definition mk_report_section :: "report_section_model \<Rightarrow> report_section_model res" where
  "mk_report_section s =
     (if sm_audience s \<in> {''technical'', ''summary''} then Inr s
      else Inl (ValueError ''audience: unexpected value''))"

lemma mk_observation_cases:
  "mk_observation ob = (if om_evidence_ids ob = []
     then Inl (ValueError ''Observation must cite at least one evidence_id'') else Inr ob)"
  by (simp add: mk_observation_def must_cite_evidence_def)

section \<open>The schema generator's file names\<close>

definition char_isupper :: "char \<Rightarrow> bool" where
  "char_isupper c = (let n = of_char c :: nat in (65 \<le> n \<and> n \<le> 90) \<or> (192 \<le> n \<and> n \<le> 222 \<and> n \<noteq> 215))"

definition char_lower :: "char \<Rightarrow> char" where
  "char_lower c = (if char_isupper c then char_of ((of_char c :: nat) + 32) else c)"

fun to_snake_from :: "char option \<Rightarrow> string \<Rightarrow> string" where
  "to_snake_from prev [] = []"
| "to_snake_from prev (c # cs) =
     (if char_isupper c \<and> (case prev of None \<Rightarrow> False | Some p \<Rightarrow> \<not> char_isupper p) then ''_'' else [])
       @ char_lower c # to_snake_from (Some c) cs"

definition to_snake :: "string \<Rightarrow> string" where
  "to_snake name = to_snake_from None name"

lemma char_lower_not_upper: "\<not> char_isupper (char_lower c)"
proof (cases "char_isupper c")
  case True
  then have "(of_char c :: nat) + 32 < 256" and u: "65 \<le> (of_char c :: nat)"
    by (auto simp: char_isupper_def Let_def)
  then have "of_char (char_lower c) = (of_char c :: nat) + 32"
    using True by (simp add: char_lower_def)
  with True show ?thesis
    by (auto simp: char_isupper_def Let_def)
next
  case False
  then show ?thesis by (simp add: char_lower_def)
qed

lemma to_snake_from_lower: "c \<in> set (to_snake_from prev s) \<Longrightarrow> \<not> char_isupper c"
proof (induction prev s rule: to_snake_from.induct)
  case (1 prev)
  then show ?case by simp
next
  case (2 prev x cs)
  have "\<not> char_isupper CHR ''_''"
    by (simp add: char_isupper_def)
  with 2 show ?case
    by (auto simp: char_lower_not_upper split: if_splits)
qed

end
