(* ===== verification/Database.thy ===== *)
theory Database
  imports Models "HOL-Library.AList"
begin

text \<open>
  The tables of \<open>deploy/docker-compose/postgres/init/01_schema.sql\<close> as far as the Python
  services use them, the constraints of the schema, and the transaction discipline of a psycopg
  connection: a block that raises leaves the database as it was, a block that ends normally
  commits.

  Text columns are ordered by the database's collation; \<open>db_collate\<close> gives the sort key of a
  text, and rows with equal keys keep their table order. \<open>db_gen\<close> is \<open>gen_random_uuid()\<close> on its
  n-th use. Of \<open>tenants\<close> only the keys are kept, and of the other tables the columns no service reads or
  writes are left out. Failures of the server itself (a lost connection, a NUL byte in a text) are not
  modelled.
\<close>

section \<open>Rows\<close>

record run_rec =
  run_id :: uuid
  run_tenant :: uuid
  run_scope :: pyval
  run_state :: run_status
  run_started_at :: int
  run_completed_at :: "int option"
  run_cost_cents :: int

record asset_rec =
  asset_id :: uuid
  asset_tenant :: uuid
  asset_run_id :: uuid
  asset_kind :: asset_type
  asset_natural_key :: string
  asset_name :: string
  asset_attributes :: pyval
  asset_first_seen :: int
  asset_last_seen :: int

record evidence_rec =
  ei_id :: uuid
  ei_tenant :: uuid
  ei_run_id :: uuid
  ei_asset_id :: "uuid option"
  ei_source_tool :: string
  ei_source_tool_version :: string
  ei_collected_at :: int
  ei_category :: string
  ei_raw_ref :: string
  ei_parsed :: "pyval option"
  ei_confidence :: rat

text \<open>The values the services insert, as the dataclasses of \<open>repo.py\<close> carry them.\<close>

record observation_write =
  ow_run_id :: uuid
  ow_asset_id :: uuid
  ow_domain :: string
  ow_topic :: string
  ow_summary :: string
  ow_detail :: string
  ow_facts :: pyval
  ow_related_asset_ids :: "uuid list"
  ow_evidence_ids :: "uuid list"
  ow_produced_by_agent :: string
  ow_model_used :: string

record observation_rec = observation_write +
  ob_id :: uuid
  ob_tenant :: uuid
  ob_created_at :: int

record report_section_write =
  rs_run_id :: uuid
  rs_audience :: string
  rs_order :: int
  rs_title :: string
  rs_body_md :: string
  rs_embedded_observations :: "uuid list"
  rs_produced_by_agent :: string
  rs_model_used :: string

record section_rec = report_section_write +
  sec_id :: uuid
  sec_tenant :: uuid
  sec_created_at :: int

datatype audit_value = AText string | ACount nat | AFloat rat

type_synonym audit_metadata = "(string \<times> audit_value) list"

record audit_rec =
  au_tenant :: uuid
  au_actor :: string
  au_action :: string
  au_resource_type :: string
  au_resource_id :: string
  au_metadata :: audit_metadata

record db =
  db_tenants :: "uuid list"
  db_runs :: "run_rec list"
  db_assets :: "asset_rec list"
  db_evidence :: "evidence_rec list"
  db_observations :: "observation_rec list"
  db_sections :: "section_rec list"
  db_audit :: "audit_rec list"
  db_notified :: "uuid list"
  db_gen :: "nat \<Rightarrow> uuid"
  db_next :: nat
  db_now :: int
  db_collate :: "string \<Rightarrow> string"

section \<open>Rows as JSON\<close>

text \<open>How dates and database floats are written is a parameter: \<open>isoformat\<close> and \<open>repr\<close>.\<close>

record rendering =
  rd_iso :: "int \<Rightarrow> string"
  rd_float :: "rat \<Rightarrow> string"

definition opt_json :: "('a \<Rightarrow> pyval) \<Rightarrow> 'a option \<Rightarrow> pyval" where
  "opt_json f x = (case x of None \<Rightarrow> PyNone | Some v \<Rightarrow> f v)"

definition uuids_json :: "uuid list \<Rightarrow> pyval" where
  "uuids_json us = PyList (map (\<lambda>u. PyStr (uuid_str u)) us)"

text \<open>A dict built from pairs: a later pair with the same key replaces the value.\<close>

definition dict_of :: "(string \<times> 'v) list \<Rightarrow> (string \<times> 'v) list" where
  "dict_of ps = foldl (\<lambda>m (k, v). AList.update k v m) [] ps"

lemma update_new: "k \<notin> fst ` set m \<Longrightarrow> AList.update k v m = m @ [(k, v)]"
  by (induction m) auto

lemma dict_of_distinct: "distinct (map fst ps) \<Longrightarrow> dict_of ps = ps"
proof (induction ps rule: rev_induct)
  case Nil
  show ?case by (simp add: dict_of_def)
next
  case (snoc p ps)
  then show ?case by (cases p) (simp add: dict_of_def update_new)
qed

section \<open>Constraints\<close>

text \<open>
  SQL comparisons are three-valued and a \<open>CHECK\<close> rejects a row only when its condition is
  false, not when it is \<open>NULL\<close>. \<open>array_length(a, 1)\<close> of an empty array is \<open>NULL\<close>.
\<close>

definition array_length :: "'a list \<Rightarrow> nat option" where
  "array_length xs = (if xs = [] then None else Some (length xs))"

definition check_passes :: "bool option \<Rightarrow> bool" where
  "check_passes c = (c \<noteq> Some False)"

definition evidence_ids_check :: "uuid list \<Rightarrow> bool" where
  "evidence_ids_check ids = check_passes (map_option (\<lambda>n. 0 < n) (array_length ids))"

definition confidence_check :: "rat \<Rightarrow> bool" where
  "confidence_check c = (0 \<le> c \<and> c \<le> 1)"

definition has_tenant :: "db \<Rightarrow> uuid \<Rightarrow> bool" where
  "has_tenant d t = (t \<in> set (db_tenants d))"

definition has_run :: "db \<Rightarrow> uuid \<Rightarrow> bool" where
  "has_run d r = (r \<in> set (map run_id (db_runs d)))"

definition has_asset :: "db \<Rightarrow> uuid \<Rightarrow> bool" where
  "has_asset d a = (a \<in> set (map asset_id (db_assets d)))"

section \<open>Statements\<close>

text \<open>One transaction of statements that notify nobody: a raised exception rolls back.\<close>

definition transaction :: "(db, 'a) cmd \<Rightarrow> (db, 'a) cmd" where
  "transaction m d = (case m d of (Inl e, _) \<Rightarrow> (Inl e, d) | (Inr x, d') \<Rightarrow> (Inr x, d'))"

definition insert_observation :: "uuid \<Rightarrow> observation_write \<Rightarrow> (db, unit) cmd" where
  "insert_observation tenant ow d =
     (let i = db_gen d (db_next d) in
      if domain_of (ow_domain ow) = None then (Inl (DbError ''invalid input value for enum domain''), d)
      else if i \<in> set (map ob_id (db_observations d)) then (Inl (DbError ''duplicate key value''), d)
      else if \<not> evidence_ids_check (ow_evidence_ids ow) then (Inl (DbError ''observations_evidence_ids_check''), d)
      else if \<not> has_tenant d tenant then (Inl (DbError ''observations_tenant_id_fkey''), d)
      else if \<not> has_run d (ow_run_id ow) then (Inl (DbError ''observations_run_id_fkey''), d)
      else if \<not> has_asset d (ow_asset_id ow) then (Inl (DbError ''observations_asset_id_fkey''), d)
      else (Inr (), d\<lparr>db_observations := db_observations d
                        @ [observation_write.extend ow
                             \<lparr>ob_id = i, ob_tenant = tenant, ob_created_at = db_now d\<rparr>],
                      db_next := Suc (db_next d)\<rparr>))"

definition insert_section :: "uuid \<Rightarrow> report_section_write \<Rightarrow> (db, unit) cmd" where
  "insert_section tenant rs d =
     (let i = db_gen d (db_next d) in
      if i \<in> set (map sec_id (db_sections d)) then (Inl (DbError ''duplicate key value''), d)
      else if rs_order rs < - (2 ^ 31) \<or> 2 ^ 31 \<le> rs_order rs then (Inl (DbError ''integer out of range''), d)
      else if \<not> has_tenant d tenant then (Inl (DbError ''report_sections_tenant_id_fkey''), d)
      else if \<not> has_run d (rs_run_id rs) then (Inl (DbError ''report_sections_run_id_fkey''), d)
      else (Inr (), d\<lparr>db_sections := db_sections d
                        @ [report_section_write.extend rs
                             \<lparr>sec_id = i, sec_tenant = tenant, sec_created_at = db_now d\<rparr>],
                      db_next := Suc (db_next d)\<rparr>))"

definition update_run_status :: "uuid \<Rightarrow> run_status \<Rightarrow> run_rec list \<Rightarrow> run_rec list" where
  "update_run_status r st rs = map (\<lambda>x. if run_id x = r then x\<lparr>run_state := st\<rparr> else x) rs"

definition insert_audit :: "audit_rec \<Rightarrow> (db, unit) cmd" where
  "insert_audit a d = (Inr (), d\<lparr>db_audit := db_audit d @ [a]\<rparr>)"

text \<open>
  \<open>INSERT INTO evidence_items ... ON CONFLICT (id) DO NOTHING\<close>; the row count is returned, and the
  table's trigger queues a notification with the run's identifier for each row inserted. PostgreSQL
  delivers notifications when the transaction commits, and those of one transaction with the same
  channel and payload once (\<open>notify_once\<close>).
\<close>

definition insert_evidence :: "evidence_rec \<Rightarrow> (db, nat) cmd" where
  "insert_evidence e d =
     (if \<not> confidence_check (ei_confidence e) then (Inl (DbError ''evidence_items_confidence_check''), d)
      else if ei_id e \<in> set (map ei_id (db_evidence d)) then (Inr 0, d)
      else if \<not> has_tenant d (ei_tenant e) then (Inl (DbError ''evidence_items_tenant_id_fkey''), d)
      else if \<not> has_run d (ei_run_id e) then (Inl (DbError ''evidence_items_run_id_fkey''), d)
      else (Inr 1, d\<lparr>db_evidence := db_evidence d @ [e], db_notified := db_notified d @ [ei_run_id e]\<rparr>))"

definition first_of_each :: "'a list \<Rightarrow> 'a list" where
  "first_of_each xs = rev (remdups (rev xs))"

definition notify_once :: "db \<Rightarrow> db \<Rightarrow> db" where
  "notify_once d d' =
     d'\<lparr>db_notified := db_notified d @ first_of_each (drop (length (db_notified d)) (db_notified d'))\<rparr>"

section \<open>Lemmas on the statements\<close>

lemma first_of_each_replicate: "first_of_each (replicate n x) = (if n = 0 then [] else [x])"
proof -
  have "remdups (replicate n x) = (if n = 0 then [] else [x])" by (induction n) auto
  then show ?thesis by (simp add: first_of_each_def)
qed

lemma first_of_each_Nil [simp]: "first_of_each [] = []"
  by (simp add: first_of_each_def)

lemma notify_once_same [simp]: "db_notified d' = db_notified d \<Longrightarrow> notify_once d d' = d'"
  by (simp add: notify_once_def)

lemma notify_once_fields [simp]:
  "db_tenants (notify_once d d') = db_tenants d'" "db_runs (notify_once d d') = db_runs d'" "db_assets (notify_once d d') = db_assets d'"
  "db_evidence (notify_once d d') = db_evidence d'" "db_observations (notify_once d d') = db_observations d'"
  "db_sections (notify_once d d') = db_sections d'" "db_audit (notify_once d d') = db_audit d'" "db_gen (notify_once d d') = db_gen d'"
  "db_next (notify_once d d') = db_next d'" "db_now (notify_once d d') = db_now d'" "db_collate (notify_once d d') = db_collate d'"
  by (simp_all add: notify_once_def)

lemma evidence_ids_check_nonempty: "ids \<noteq> [] \<Longrightarrow> evidence_ids_check ids"
  by (simp add: evidence_ids_check_def check_passes_def array_length_def)

lemma transaction_cases:
  assumes "transaction m d = (r, t)"
  obtains (rolled_back) e u where "m d = (Inl e, u)" and "r = Inl e" and "t = d"
    | (committed) x where "m d = (Inr x, t)" and "r = Inr x"
  using assms by (auto simp: transaction_def split: prod.splits sum.splits)

lemma update_run_status_ids [simp]: "map run_id (update_run_status r st rs) = map run_id rs"
  by (simp add: update_run_status_def)

lemma update_run_status_id_set [simp]: "run_id ` set (update_run_status r st rs) = run_id ` set rs"
  by (metis list.set_map update_run_status_ids)

definition status_in :: "run_rec list \<Rightarrow> uuid \<Rightarrow> run_status option" where
  "status_in rs r = map_option run_state (find (\<lambda>x. run_id x = r) rs)"

lemma status_in_update:
  "status_in (update_run_status r st rs) r' =
     (if r' = r \<and> status_in rs r \<noteq> None then Some st else status_in rs r')"
  unfolding status_in_def update_run_status_def
  by (induction rs) auto

lemma observation_truncate_extend [simp]:
  "observation_write.truncate (observation_write.extend ow x) = ow"
  by (simp add: observation_write.defs)

lemma section_truncate_extend [simp]:
  "report_section_write.truncate (report_section_write.extend rs x) = rs"
  by (simp add: report_section_write.defs)

end
