(* ===== verification/Repo.thy ===== *)
theory Repo
  imports Database
begin

text \<open>
  \<open>auditcore_orchestrator/repo.py\<close>: the persistence protocol \<open>Repo\<close> and its psycopg
  implementation \<open>PgRepo\<close> over the tables of Database.

  The protocol is the record \<open>repo_ops\<close> of its methods. What a client may rely on is the
  locale \<open>repo_store\<close>: an abstract view of the store (\<open>repo_view\<close>) and, for each method, the
  abstract effect it has. \<open>PgRepo\<close> is proved to implement it.
\<close>

section \<open>Rows\<close>

record evidence_row =
  ev_id :: uuid
  ev_asset_id :: "uuid option"
  ev_source_tool :: string
  ev_category :: string
  ev_parsed :: pyval

record asset_row =
  as_id :: uuid
  as_type :: string
  as_natural_key :: string
  as_name :: string
  as_attributes :: pyval

record observation_row =
  or_id :: uuid
  or_asset_id :: uuid
  or_domain :: string
  or_topic :: string
  or_summary :: string
  or_detail :: string
  or_facts :: pyval

section \<open>The protocol\<close>

record 's repo_ops =
  evidence_for_category :: "uuid \<Rightarrow> string \<Rightarrow> ('s, evidence_row list) cmd"
  assets_for_run :: "uuid \<Rightarrow> ('s, asset_row list) cmd"
  categories_present :: "uuid \<Rightarrow> ('s, string list) cmd"
  write_observations :: "observation_write list \<Rightarrow> ('s, nat) cmd"
  observations_for_run :: "uuid \<Rightarrow> ('s, observation_row list) cmd"
  write_report_sections :: "report_section_write list \<Rightarrow> ('s, nat) cmd"
  set_run_status :: "uuid \<Rightarrow> string \<Rightarrow> ('s, unit) cmd"
  audit :: "uuid \<Rightarrow> string \<Rightarrow> audit_metadata \<Rightarrow> ('s, unit) cmd"

text \<open>The abstract store: what can be read, and what has been written, in order.\<close>

record repo_view =
  rv_evidence :: "uuid \<Rightarrow> string \<Rightarrow> evidence_row list"
  rv_assets :: "uuid \<Rightarrow> asset_row list"
  rv_categories :: "uuid \<Rightarrow> string list"
  rv_written :: "observation_write list"
  rv_sections :: "report_section_write list"
  rv_status :: "uuid \<Rightarrow> run_status option"
  rv_audit :: "(uuid \<times> string \<times> audit_metadata) list"

definition view_status :: "uuid \<Rightarrow> run_status \<Rightarrow> repo_view \<Rightarrow> repo_view" where
  "view_status r st v =
     v\<lparr>rv_status := (\<lambda>r'. if r' = r \<and> rv_status v r \<noteq> None then Some st else rv_status v r')\<rparr>"

locale repo_store =
  fixes ops :: "'s repo_ops"
    and view :: "'s \<Rightarrow> repo_view"
    and rows :: "'s \<Rightarrow> uuid \<Rightarrow> observation_row list"
  assumes evidence_for_category: "evidence_for_category ops r c s = (Inr (rv_evidence (view s) r c), s)"
    and assets_for_run: "assets_for_run ops r s = (Inr (rv_assets (view s) r), s)"
    and categories_present: "categories_present ops r s = (Inr (rv_categories (view s) r), s)"
    and categories_have_evidence: "c \<in> set (rv_categories (view s) r) \<Longrightarrow> rv_evidence (view s) r c \<noteq> []"
    and observations_for_run: "observations_for_run ops r s = (Inr (rows s r), s)"
    and write_observations_returns: "write_observations ops xs s = (Inr n, t) \<Longrightarrow>
      n = length xs \<and> view t = (view s)\<lparr>rv_written := rv_written (view s) @ xs\<rparr>"
    and write_observations_raises: "write_observations ops xs s = (Inl e, t) \<Longrightarrow> view t = view s"
    and write_sections_returns: "write_report_sections ops rs s = (Inr n, t) \<Longrightarrow>
      n = length rs \<and> view t = (view s)\<lparr>rv_sections := rv_sections (view s) @ rs\<rparr>"
    and write_sections_raises: "write_report_sections ops rs s = (Inl e, t) \<Longrightarrow> view t = view s"
    and set_status_returns: "set_run_status ops r x s = (Inr u, t) \<Longrightarrow>
      \<exists>st. run_status_of x = Some st \<and> view t = view_status r st (view s)"
    and set_status_raises: "set_run_status ops r x s = (Inl e, t) \<Longrightarrow> view t = view s"
    and audit_returns: "audit ops r a m s = (Inr u, t) \<Longrightarrow>
      view t = (view s)\<lparr>rv_audit := rv_audit (view s) @ [(r, a, m)]\<rparr>"
    and audit_raises: "audit ops r a m s = (Inl e, t) \<Longrightarrow> view t = view s"
begin

text \<open>No method changes what the discovery reads: evidence, assets and categories.\<close>

definition inputs :: "'s \<Rightarrow> (uuid \<Rightarrow> string \<Rightarrow> evidence_row list) \<times> (uuid \<Rightarrow> asset_row list) \<times> (uuid \<Rightarrow> string list)" where
  "inputs s = (rv_evidence (view s), rv_assets (view s), rv_categories (view s))"

lemma inputs_write: "write_observations ops xs s = (r, t) \<Longrightarrow> inputs t = inputs s"
  by (cases r) (auto simp: inputs_def dest: write_observations_returns write_observations_raises)

lemma inputs_status: "set_run_status ops r x s = (y, t) \<Longrightarrow> inputs t = inputs s"
  by (cases y) (auto simp: inputs_def view_status_def dest!: set_status_returns set_status_raises)

lemma inputs_audit: "audit ops r a m s = (y, t) \<Longrightarrow> inputs t = inputs s"
  by (cases y) (auto simp: inputs_def dest: audit_returns audit_raises)

end

section \<open>PgRepo\<close>

definition to_evidence_row :: "evidence_rec \<Rightarrow> evidence_row" where
  "to_evidence_row e =
     \<lparr>ev_id = ei_id e, ev_asset_id = ei_asset_id e, ev_source_tool = ei_source_tool e,
      ev_category = ei_category e,
      ev_parsed = (case ei_parsed e of None \<Rightarrow> PyDict [] | Some v \<Rightarrow> py_or v (PyDict []))\<rparr>"

definition to_asset_row :: "asset_rec \<Rightarrow> asset_row" where
  "to_asset_row a =
     \<lparr>as_id = asset_id a, as_type = asset_type_value (asset_kind a), as_natural_key = asset_natural_key a,
      as_name = asset_name a, as_attributes = py_or (asset_attributes a) (PyDict [])\<rparr>"

definition to_observation_row :: "observation_rec \<Rightarrow> observation_row" where
  "to_observation_row ob =
     \<lparr>or_id = ob_id ob, or_asset_id = ow_asset_id ob, or_domain = ow_domain ob, or_topic = ow_topic ob,
      or_summary = ow_summary ob, or_detail = ow_detail ob, or_facts = py_or (ow_facts ob) (PyDict [])\<rparr>"

definition run_evidence :: "db \<Rightarrow> uuid \<Rightarrow> evidence_rec list" where
  "run_evidence d r = filter (\<lambda>e. ei_run_id e = r \<and> ei_parsed e \<noteq> None) (db_evidence d)"

definition pg_categories_present :: "uuid \<Rightarrow> (db, string list) cmd" where
  "pg_categories_present r d =
     (Inr (sort_key (db_collate d) (remdups (map ei_category (run_evidence d r)))), d)"

definition pg_evidence_for_category :: "uuid \<Rightarrow> string \<Rightarrow> (db, evidence_row list) cmd" where
  "pg_evidence_for_category r category d =
     (Inr (map to_evidence_row
             (sort_key ei_collected_at (filter (\<lambda>e. ei_category e = category) (run_evidence d r)))), d)"

definition pg_assets_for_run :: "uuid \<Rightarrow> (db, asset_row list) cmd" where
  "pg_assets_for_run r d =
     (Inr (map to_asset_row
             (sort_key (\<lambda>a. db_collate d (asset_name a)) (filter (\<lambda>a. asset_run_id a = r) (db_assets d)))), d)"

definition pg_write_observations :: "uuid \<Rightarrow> observation_write list \<Rightarrow> (db, nat) cmd" where
  "pg_write_observations tenant xs =
     (if xs = [] then returnC 0
      else transaction (bindC (mapC (insert_observation tenant) xs) (\<lambda>_. returnC (length xs))))"

text \<open>\<open>ORDER BY domain, topic\<close>: an enumeration is ordered as it is declared.\<close>

definition domain_rank :: "string \<Rightarrow> nat" where
  "domain_rank s = length (takeWhile (\<lambda>d. domain_value d \<noteq> s) all_domains)"

definition pg_observation_rows :: "db \<Rightarrow> uuid \<Rightarrow> observation_row list" where
  "pg_observation_rows d r =
     map to_observation_row
       (sort_key (\<lambda>ob. domain_rank (ow_domain ob))
          (sort_key (\<lambda>ob. db_collate d (ow_topic ob)) (filter (\<lambda>ob. ow_run_id ob = r) (db_observations d))))"

definition pg_observations_for_run :: "uuid \<Rightarrow> (db, observation_row list) cmd" where
  "pg_observations_for_run r d = (Inr (pg_observation_rows d r), d)"

definition pg_write_report_sections :: "uuid \<Rightarrow> report_section_write list \<Rightarrow> (db, nat) cmd" where
  "pg_write_report_sections tenant rs =
     (if rs = [] then returnC 0
      else transaction (bindC (mapC (insert_section tenant) rs) (\<lambda>_. returnC (length rs))))"

definition pg_set_run_status :: "uuid \<Rightarrow> string \<Rightarrow> (db, unit) cmd" where
  "pg_set_run_status r status d =
     (case run_status_of status of
        None \<Rightarrow> (Inl (DbError ''invalid input value for enum run_status''), d)
      | Some st \<Rightarrow> (Inr (), d\<lparr>db_runs := update_run_status r st (db_runs d)\<rparr>))"

definition pg_audit :: "uuid \<Rightarrow> uuid \<Rightarrow> string \<Rightarrow> audit_metadata \<Rightarrow> (db, unit) cmd" where
  "pg_audit tenant r action metadata =
     transaction (insert_audit
       \<lparr>au_tenant = tenant, au_actor = ''orchestrator'', au_action = action,
        au_resource_type = ''run'', au_resource_id = uuid_str r, au_metadata = metadata\<rparr>)"

definition pg_repo :: "uuid \<Rightarrow> db repo_ops" where
  "pg_repo tenant =
     \<lparr>evidence_for_category = pg_evidence_for_category,
      assets_for_run = pg_assets_for_run,
      categories_present = pg_categories_present,
      write_observations = pg_write_observations tenant,
      observations_for_run = pg_observations_for_run,
      write_report_sections = pg_write_report_sections tenant,
      set_run_status = pg_set_run_status,
      audit = pg_audit tenant\<rparr>"

section \<open>PgRepo implements the protocol\<close>

text \<open>The audit entries of a run: \<open>resource_id\<close> holds the run's identifier as text.\<close>

definition audit_entry :: "audit_rec \<Rightarrow> uuid \<times> string \<times> audit_metadata" where
  "audit_entry a =
     ((case uuid_parse (au_resource_id a) of Inl _ \<Rightarrow> 0 | Inr u \<Rightarrow> u), au_action a, au_metadata a)"

definition pg_view :: "db \<Rightarrow> repo_view" where
  "pg_view d =
     \<lparr>rv_evidence = (\<lambda>r c. map to_evidence_row
        (sort_key ei_collected_at (filter (\<lambda>e. ei_category e = c) (run_evidence d r)))),
      rv_assets = (\<lambda>r. map to_asset_row
        (sort_key (\<lambda>a. db_collate d (asset_name a)) (filter (\<lambda>a. asset_run_id a = r) (db_assets d)))),
      rv_categories = (\<lambda>r. sort_key (db_collate d) (remdups (map ei_category (run_evidence d r)))),
      rv_written = map observation_write.truncate (db_observations d),
      rv_sections = map report_section_write.truncate (db_sections d),
      rv_status = status_in (db_runs d),
      rv_audit = map audit_entry (db_audit d)\<rparr>"

lemma pg_repo_simps [simp]:
  "evidence_for_category (pg_repo tenant) = pg_evidence_for_category"
  "assets_for_run (pg_repo tenant) = pg_assets_for_run"
  "categories_present (pg_repo tenant) = pg_categories_present"
  "write_observations (pg_repo tenant) = pg_write_observations tenant"
  "observations_for_run (pg_repo tenant) = pg_observations_for_run"
  "write_report_sections (pg_repo tenant) = pg_write_report_sections tenant"
  "set_run_status (pg_repo tenant) = pg_set_run_status"
  "audit (pg_repo tenant) = pg_audit tenant"
  by (simp_all add: pg_repo_def)

lemma insert_observation_view:
  assumes "insert_observation tenant ow d = (Inr u, t)"
  shows "pg_view t = (pg_view d)\<lparr>rv_written := rv_written (pg_view d) @ [ow]\<rparr>"
  using assms
  by (auto simp: insert_observation_def Let_def pg_view_def run_evidence_def split: if_splits)

lemma insert_section_view:
  assumes "insert_section tenant rs d = (Inr u, t)"
  shows "pg_view t = (pg_view d)\<lparr>rv_sections := rv_sections (pg_view d) @ [rs]\<rparr>"
  using assms
  by (auto simp: insert_section_def Let_def pg_view_def run_evidence_def split: if_splits)

lemma insert_observations_view:
  assumes "mapC (insert_observation tenant) xs d = (Inr us, t)"
  shows "pg_view t = (pg_view d)\<lparr>rv_written := rv_written (pg_view d) @ xs\<rparr>"
  using assms
proof (induction xs arbitrary: d us)
  case Nil
  then show ?case by simp
next
  case (Cons x xs)
  from Cons.prems obtain u d' us' where "insert_observation tenant x d = (Inr u, d')"
    and "mapC (insert_observation tenant) xs d' = (Inr us', t)"
    by (auto elim!: bindC_cases)
  with Cons.IH [of d'] insert_observation_view show ?case by fastforce
qed

lemma insert_sections_view:
  assumes "mapC (insert_section tenant) xs d = (Inr us, t)"
  shows "pg_view t = (pg_view d)\<lparr>rv_sections := rv_sections (pg_view d) @ xs\<rparr>"
  using assms
proof (induction xs arbitrary: d us)
  case Nil
  then show ?case by simp
next
  case (Cons x xs)
  from Cons.prems obtain u d' us' where "insert_section tenant x d = (Inr u, d')"
    and "mapC (insert_section tenant) xs d' = (Inr us', t)"
    by (auto elim!: bindC_cases)
  with Cons.IH [of d'] insert_section_view show ?case by fastforce
qed

lemma pg_view_status:
  "pg_view (d\<lparr>db_runs := update_run_status r st (db_runs d)\<rparr>) = view_status r st (pg_view d)"
  by (simp add: pg_view_def view_status_def run_evidence_def status_in_update fun_eq_iff)

interpretation pg: repo_store "pg_repo tenant" pg_view pg_observation_rows
  for tenant
proof unfold_locales
  fix xs s n t
  assume "write_observations (pg_repo tenant) xs s = (Inr n, t)"
  then show "n = length xs \<and> pg_view t = (pg_view s)\<lparr>rv_written := rv_written (pg_view s) @ xs\<rparr>"
    by (auto simp: pg_write_observations_def split: if_splits
        elim!: transaction_cases bindC_cases dest: insert_observations_view)
next
  fix rs s n t
  assume "write_report_sections (pg_repo tenant) rs s = (Inr n, t)"
  then show "n = length rs \<and> pg_view t = (pg_view s)\<lparr>rv_sections := rv_sections (pg_view s) @ rs\<rparr>"
    by (auto simp: pg_write_report_sections_def split: if_splits
        elim!: transaction_cases bindC_cases dest: insert_sections_view)
next
  fix c s r
  assume "c \<in> set (rv_categories (pg_view s) r)"
  then show "rv_evidence (pg_view s) r c \<noteq> []"
    by (force simp: pg_view_def filter_empty_conv dest: arg_cong [of _ "[]" set])
next
  fix r x s u t
  assume "set_run_status (pg_repo tenant) r x s = (Inr u, t)"
  then show "\<exists>st. run_status_of x = Some st \<and> pg_view t = view_status r st (pg_view s)"
    by (auto simp: pg_set_run_status_def pg_view_status split: option.splits)
qed (auto simp: pg_evidence_for_category_def pg_assets_for_run_def pg_categories_present_def
    pg_observations_for_run_def pg_write_observations_def pg_write_report_sections_def
    pg_set_run_status_def pg_audit_def insert_audit_def transaction_def
    run_evidence_def pg_view_def audit_entry_def
    split: if_splits prod.splits sum.splits option.splits)

end
