(* ===== verification/Normalizer.thy ===== *)
theory Normalizer
  imports Repo Bundle
begin

text \<open>
  The database side of \<open>services/normalizer-worker\<close> (\<open>db.rs\<close> and \<open>normalize.rs\<close>): between the
  upload and the discovery pass it parses each evidence item, redacts it, upserts the asset it
  describes and stores the parsed value. The parsers, the redaction rules and the object store are
  parameters. Each statement commits on its own, so an item that fails half way keeps what was done.
  The \<open>redactions\<close> column is not modelled, a confidence is a rational number where the code has an
  \<open>f32\<close>, and the tracing output is left out.
\<close>

record asset_hint =
  ah_type :: string
  ah_natural_key :: string
  ah_name :: string
  ah_attributes :: pyval

record parse_result =
  pr_parsed :: pyval
  pr_confidence :: rat
  pr_hint :: "asset_hint option"

record pending_evidence =
  pe_id :: uuid
  pe_run_id :: uuid
  pe_source_tool :: string
  pe_version :: string
  pe_raw_ref :: string

type_synonym parser = "bytes \<Rightarrow> string \<Rightarrow> pyval \<Rightarrow> parse_result res"

record normalizer_env =
  ne_tenant :: uuid
  ne_parsers :: "string \<Rightarrow> parser option"
  ne_redact :: "pyval \<Rightarrow> pyval"
  ne_fetch :: "string \<Rightarrow> bytes res"
  ne_audit :: "pending_evidence \<Rightarrow> rat \<Rightarrow> audit_metadata"

section \<open>db.rs\<close>

text \<open>The rows of a table are in the order of their creation.\<close>

definition pending_of :: "evidence_rec \<Rightarrow> pending_evidence" where
  "pending_of e =
     \<lparr>pe_id = ei_id e, pe_run_id = ei_run_id e, pe_source_tool = ei_source_tool e,
      pe_version = ei_source_tool_version e, pe_raw_ref = ei_raw_ref e\<rparr>"

definition fetch_pending :: "uuid option \<Rightarrow> nat \<Rightarrow> db \<Rightarrow> pending_evidence list" where
  "fetch_pending run limit d =
     map pending_of (take limit (filter
       (\<lambda>e. ei_parsed e = None \<and> (case run of None \<Rightarrow> True | Some r \<Rightarrow> ei_run_id e = r)) (db_evidence d)))"

definition fetch_run_scope :: "uuid \<Rightarrow> (db, pyval) cmd" where
  "fetch_run_scope rid d =
     (case find (\<lambda>r. run_id r = rid) (db_runs d) of
        None \<Rightarrow> (Inl (DbError ''no rows returned''), d)
      | Some r \<Rightarrow> (Inr (run_scope r), d))"

text \<open>\<open>jsonb || jsonb\<close>: objects merge, anything else is concatenated as arrays.\<close>

fun json_array :: "pyval \<Rightarrow> pyval list" where
  "json_array (PyList xs) = xs"
| "json_array v = [v]"

fun jsonb_concat :: "pyval \<Rightarrow> pyval \<Rightarrow> pyval" where
  "jsonb_concat (PyDict a) (PyDict b) = PyDict (foldl (\<lambda>m (k, v). AList.update k v m) a b)"
| "jsonb_concat v w = PyList (json_array v @ json_array w)"

definition same_asset :: "uuid \<Rightarrow> asset_hint \<Rightarrow> asset_rec \<Rightarrow> bool" where
  "same_asset tenant hint a \<longleftrightarrow> asset_tenant a = tenant \<and> asset_natural_key a = ah_natural_key hint"

definition seen_again :: "db \<Rightarrow> asset_hint \<Rightarrow> asset_rec \<Rightarrow> asset_rec" where
  "seen_again d hint a =
     a\<lparr>asset_last_seen := db_now d, asset_attributes := jsonb_concat (asset_attributes a) (ah_attributes hint)\<rparr>"

definition new_asset :: "uuid \<Rightarrow> uuid \<Rightarrow> asset_hint \<Rightarrow> asset_type \<Rightarrow> db \<Rightarrow> asset_rec" where
  "new_asset tenant rid hint kind d =
     \<lparr>asset_id = db_gen d (db_next d), asset_tenant = tenant, asset_run_id = rid, asset_kind = kind,
      asset_natural_key = ah_natural_key hint, asset_name = ah_name hint, asset_attributes = ah_attributes hint,
      asset_first_seen = db_now d, asset_last_seen = db_now d\<rparr>"

definition insert_asset :: "asset_rec \<Rightarrow> (db, uuid) cmd" where
  "insert_asset a d =
     (if has_asset d (asset_id a) then (Inl (DbError ''duplicate key value''), d)
      else if \<not> has_tenant d (asset_tenant a) then (Inl (DbError ''assets_tenant_id_fkey''), d)
      else if \<not> has_run d (asset_run_id a) then (Inl (DbError ''assets_run_id_fkey''), d)
      else (Inr (asset_id a), d\<lparr>db_assets := db_assets d @ [a], db_next := Suc (db_next d)\<rparr>))"

definition upsert_asset :: "uuid \<Rightarrow> uuid \<Rightarrow> asset_hint \<Rightarrow> (db, uuid) cmd" where
  "upsert_asset tenant rid hint d =
     (case asset_type_of (ah_type hint) of
        None \<Rightarrow> (Inl (DbError ''invalid input value for enum asset_type''), d)
      | Some kind \<Rightarrow>
          (case find (same_asset tenant hint) (db_assets d) of
             Some a \<Rightarrow>
               (Inr (asset_id a), d\<lparr>db_assets :=
                  map (\<lambda>x. if same_asset tenant hint x then seen_again d hint x else x) (db_assets d)\<rparr>)
           | None \<Rightarrow> insert_asset (new_asset tenant rid hint kind d) d))"

definition parsed_row :: "uuid option \<Rightarrow> pyval \<Rightarrow> rat \<Rightarrow> evidence_rec \<Rightarrow> evidence_rec" where
  "parsed_row aid parsed confidence e =
     e\<lparr>ei_parsed := Some parsed, ei_asset_id := (if aid = None then ei_asset_id e else aid),
       ei_confidence := confidence\<rparr>"

definition write_parsed :: "uuid \<Rightarrow> uuid option \<Rightarrow> pyval \<Rightarrow> rat \<Rightarrow> (db, unit) cmd" where
  "write_parsed eid aid parsed confidence d =
     (if eid \<notin> ei_id ` set (db_evidence d) then (Inr (), d)
      else if \<not> confidence_check confidence then (Inl (DbError ''evidence_items_confidence_check''), d)
      else if (case aid of None \<Rightarrow> False | Some a \<Rightarrow> \<not> has_asset d a)
      then (Inl (DbError ''evidence_items_asset_id_fkey''), d)
      else (Inr (), d\<lparr>db_evidence :=
              map (\<lambda>e. if ei_id e = eid then parsed_row aid parsed confidence e else e) (db_evidence d)\<rparr>))"

section \<open>normalize.rs\<close>

definition upsert_hint :: "uuid \<Rightarrow> uuid \<Rightarrow> asset_hint option \<Rightarrow> (db, uuid option) cmd" where
  "upsert_hint tenant rid hint =
     (case hint of
        None \<Rightarrow> returnC None
      | Some h \<Rightarrow> bindC (upsert_asset tenant rid h) (\<lambda>i. returnC (Some i)))"

definition store_result :: "normalizer_env \<Rightarrow> pending_evidence \<Rightarrow> parse_result \<Rightarrow> (db, unit) cmd" where
  "store_result ne ev result =
     bindC (upsert_hint (ne_tenant ne) (pe_run_id ev) (pr_hint result)) (\<lambda>aid.
     bindC (write_parsed (pe_id ev) aid (ne_redact ne (pr_parsed result)) (pr_confidence result)) (\<lambda>_.
     insert_audit
       \<lparr>au_tenant = ne_tenant ne, au_actor = ''normalizer-worker'', au_action = ''evidence.normalize'',
        au_resource_type = ''evidence_item'', au_resource_id = uuid_str (pe_id ev),
        au_metadata = ne_audit ne ev (pr_confidence result)\<rparr>))"

definition normalize_one :: "normalizer_env \<Rightarrow> pending_evidence \<Rightarrow> (db, unit) cmd" where
  "normalize_one ne ev =
     (case ne_parsers ne (pe_source_tool ev) of
        None \<Rightarrow> returnC ()
      | Some parser \<Rightarrow>
          bindC (liftC (ne_fetch ne (pe_raw_ref ev))) (\<lambda>raw.
          bindC (fetch_run_scope (pe_run_id ev)) (\<lambda>scope.
          bindC (liftC (parser raw (pe_version ev) scope)) (store_result ne ev))))"

text \<open>The items of a batch are handled concurrently; an item that fails is logged and skipped. Here they
  are handled in an arbitrary order given as a list.\<close>

fun normalize_all :: "normalizer_env \<Rightarrow> pending_evidence list \<Rightarrow> db \<Rightarrow> db" where
  "normalize_all ne [] d = d"
| "normalize_all ne (ev # evs) d = normalize_all ne evs (snd (normalize_one ne ev d))"

definition drain_pending :: "normalizer_env \<Rightarrow> uuid option \<Rightarrow> db \<Rightarrow> nat \<times> db" where
  "drain_pending ne run d =
     (let batch = fetch_pending run 500 d in (length batch, normalize_all ne batch d))"

section \<open>What the statements change\<close>

lemma upsert_asset_cases:
  assumes "upsert_asset tenant rid hint d = (r, d')"
  obtains (raised) "d' = d"
    | (seen) a where "a \<in> set (db_assets d)" and "same_asset tenant hint a"
        and "d' = d\<lparr>db_assets := map (\<lambda>x. if same_asset tenant hint x then seen_again d hint x else x) (db_assets d)\<rparr>"
    | (inserted) kind where "\<forall>a \<in> set (db_assets d). \<not> same_asset tenant hint a"
        and "d' = d\<lparr>db_assets := db_assets d @ [new_asset tenant rid hint kind d], db_next := Suc (db_next d)\<rparr>"
proof (cases "asset_type_of (ah_type hint)")
  case None
  with assms raised show thesis by (simp add: upsert_asset_def)
next
  case (Some kind)
  show thesis
  proof (cases "find (same_asset tenant hint) (db_assets d)")
    case None
    with assms Some have "insert_asset (new_asset tenant rid hint kind d) d = (r, d')" by (simp add: upsert_asset_def)
    with None raised inserted show thesis
      by (simp add: insert_asset_def find_None_iff split: if_splits) blast
  next
    case found: (Some a)
    then have "a \<in> set (db_assets d)" and "same_asset tenant hint a" by (auto simp: find_Some_iff)
    with assms Some found seen show thesis by (simp add: upsert_asset_def)
  qed
qed

lemma seen_again_ids [simp]:
  "asset_id (seen_again d h a) = asset_id a" "asset_run_id (seen_again d h a) = asset_run_id a"
  "asset_tenant (seen_again d h a) = asset_tenant a" "asset_natural_key (seen_again d h a) = asset_natural_key a"
  by (simp_all add: seen_again_def)

lemma map_seen_again:
  assumes "\<And>d h a. f (seen_again d h a) = f a"
  shows "map f (map (\<lambda>x. if p x then seen_again d h x else x) as) = map f as"
  using assms by (induction as) simp_all

lemma parsed_row_ids [simp]:
  "ei_id (parsed_row aid parsed conf e) = ei_id e" "ei_run_id (parsed_row aid parsed conf e) = ei_run_id e"
  "ei_category (parsed_row aid parsed conf e) = ei_category e"
  by (simp_all add: parsed_row_def)

lemma map_parsed_row:
  assumes "\<And>a v c e. f (parsed_row a v c e) = f e"
  shows "map f (map (\<lambda>e. if p e then parsed_row aid parsed conf e else e) es) = map f es"
  using assms by (induction es) simp_all

lemma write_parsed_cases:
  assumes "write_parsed eid aid parsed confidence d = (r, d')"
  obtains (unchanged) "d' = d"
    | (parsed) "d' = d\<lparr>db_evidence :=
         map (\<lambda>e. if ei_id e = eid then parsed_row aid parsed confidence e else e) (db_evidence d)\<rparr>"
  using assms unfolding write_parsed_def
  by (cases "eid \<notin> ei_id ` set (db_evidence d)"; cases "confidence_check confidence";
      cases "case aid of None \<Rightarrow> False | Some a \<Rightarrow> \<not> has_asset d a") simp_all

lemma fetch_run_scope_reads:
  obtains y where "fetch_run_scope rid d = (y, d)"
  by (cases "fetch_run_scope rid d") (auto simp: fetch_run_scope_def split: option.splits intro: that)

end
