(* ===== verification/Parsers.thy ===== *)
theory Parsers
  imports Normalizer
begin

text \<open>
  \<open>normalizer-worker/src/parsers\<close>: the parser of each tool turns the bytes the tool printed into a
  JSON value, a confidence and the asset it describes. \<open>String::from_utf8_lossy\<close> (strings here have
  the code points 0 to 255) and \<open>serde_json::from_slice\<close> are the record \<open>decoders\<close>. A JSON number
  that is an integer is \<open>PyInt\<close>; an object is an association list whose order carries no meaning;
  the \<open>u32\<close> counters of list elements are natural numbers; the sum of the disk sizes is a
  128-bit word, which wraps as a release build does.

  The trait \<open>Parser\<close> as the normalizer relies on it is the locale \<open>host_parser\<close>: a parser never
  fails, its confidence is one the table accepts, and it describes the host of the run's scope.
\<close>

record decoders =
  dc_text :: "bytes \<Rightarrow> string"
  dc_json :: "bytes \<Rightarrow> pyval option"

section \<open>serde_json and str\<close>

fun v_get :: "pyval \<Rightarrow> string \<Rightarrow> pyval option" where
  "v_get (PyDict d) k = map_of d k"
| "v_get v k = None"

fun as_str :: "pyval \<Rightarrow> string option" where
  "as_str (PyStr s) = Some s"
| "as_str v = None"

fun as_array :: "pyval \<Rightarrow> pyval list option" where
  "as_array (PyList xs) = Some xs"
| "as_array v = None"

fun as_u64 :: "pyval \<Rightarrow> int option" where
  "as_u64 (PyInt i) = (if 0 \<le> i \<and> i < 2 ^ 64 then Some i else None)"
| "as_u64 v = None"

text \<open>\<open>v.get(k).and_then(f)\<close>, and an optional value written by \<open>json!\<close>.\<close>

definition get_as :: "(pyval \<Rightarrow> 'a option) \<Rightarrow> pyval \<Rightarrow> string \<Rightarrow> 'a option" where
  "get_as f v k = Option.bind (v_get v k) f"

definition or_null :: "pyval option \<Rightarrow> pyval" where
  "or_null v = (case v of None \<Rightarrow> PyNone | Some x \<Rightarrow> x)"

definition str_or :: "string \<Rightarrow> string option \<Rightarrow> string" where
  "str_or dflt s = (case s of None \<Rightarrow> dflt | Some x \<Rightarrow> x)"

text \<open>\<open>if let Value::Object(ref mut m) = doc { m.insert(k, v); }\<close>\<close>

fun insert_field :: "string \<Rightarrow> pyval \<Rightarrow> pyval \<Rightarrow> pyval" where
  "insert_field k v (PyDict d) = PyDict (AList.update k v d)"
| "insert_field k v w = w"

definition is_whitespace :: "char \<Rightarrow> bool" where
  "is_whitespace c = (let n = of_char c :: int in (9 \<le> n \<and> n \<le> 13) \<or> n = 32 \<or> n = 133 \<or> n = 160)"

definition trim :: "string \<Rightarrow> string" where
  "trim s = strip is_whitespace s"

fun split_whitespace_from :: "string \<Rightarrow> string \<Rightarrow> string list" where
  "split_whitespace_from tok [] = (if tok = [] then [] else [rev tok])"
| "split_whitespace_from tok (c # cs) =
     (if is_whitespace c then (if tok = [] then [] else [rev tok]) @ split_whitespace_from [] cs
      else split_whitespace_from (c # tok) cs)"

definition split_whitespace :: "string \<Rightarrow> string list" where
  "split_whitespace s = split_whitespace_from [] s"

definition strip_cr :: "string \<Rightarrow> string" where
  "strip_cr s = (if s \<noteq> [] \<and> last s = CHR 0x0D then butlast s else s)"

text \<open>\<open>str::lines\<close>: a carriage return is dropped only before a line feed.\<close>

definition text_lines :: "string \<Rightarrow> string list" where
  "text_lines s =
     (let ps = str_split (CHR 0x0A) s in map strip_cr (butlast ps) @ (if last ps = [] then [] else [last ps]))"

definition split_once :: "char \<Rightarrow> string \<Rightarrow> (string \<times> string) option" where
  "split_once c s = (if c \<in> set s then Some (takeWhile (\<lambda>x. x \<noteq> c) s, tl (dropWhile (\<lambda>x. x \<noteq> c) s)) else None)"

definition ascii_digit :: "char \<Rightarrow> bool" where
  "ascii_digit c = (let n = of_char c :: int in 48 \<le> n \<and> n \<le> 57)"

definition decimal :: "string \<Rightarrow> int option" where
  "decimal s = (if s \<noteq> [] \<and> list_all ascii_digit s then Some (foldl (\<lambda>a c. 10 * a + (of_char c - 48)) 0 s) else None)"

text \<open>\<open>parse::<i64>\<close> and \<open>parse::<u128>\<close>; a value out of range is an error.\<close>

definition parse_i64 :: "string \<Rightarrow> int option" where
  "parse_i64 s =
     (case s of
        c # cs \<Rightarrow>
          if c = CHR ''-'' then Option.bind (decimal cs) (\<lambda>n. if n \<le> 2 ^ 63 then Some (- n) else None)
          else Option.bind (decimal (if c = CHR ''+'' then cs else s)) (\<lambda>n. if n < 2 ^ 63 then Some n else None)
      | [] \<Rightarrow> None)"

definition parse_u128 :: "string \<Rightarrow> 128 word option" where
  "parse_u128 s =
     Option.bind (decimal (if s \<noteq> [] \<and> hd s = CHR ''+'' then tl s else s))
       (\<lambda>n. if n < 2 ^ 128 then Some (word_of_int n) else None)"

section \<open>mod.rs\<close>

definition host_from_scope :: "pyval \<Rightarrow> string \<times> string" where
  "host_from_scope scope =
     (let hostname = str_or ''unknown-host'' (get_as as_str scope ''hostname'');
          host_id = str_or hostname (get_as as_str scope ''host_uuid'')
      in (hostname, host_id))"

definition host_hint :: "pyval \<Rightarrow> pyval \<Rightarrow> asset_hint" where
  "host_hint scope attributes =
     (case host_from_scope scope of (hostname, host_id) \<Rightarrow>
        \<lparr>ah_type = ''host'', ah_natural_key = ''host:'' @ host_id, ah_name = hostname, ah_attributes = attributes\<rparr>)"

definition parsed_as :: "pyval \<Rightarrow> rat \<Rightarrow> asset_hint \<Rightarrow> parse_result res" where
  "parsed_as v c hint = Inr \<lparr>pr_parsed = v, pr_confidence = c, pr_hint = Some hint\<rparr>"

section \<open>uname.rs\<close>

definition nth_or_empty :: "string list \<Rightarrow> nat \<Rightarrow> string" where
  "nth_or_empty toks n = (if n < length toks then toks ! n else [])"

definition uname_parse :: "decoders \<Rightarrow> parser" where
  "uname_parse dc raw version scope =
     (let text = trim (dc_text dc raw);
          toks = split_whitespace text;
          kernel_name = PyStr (nth_or_empty toks 0);
          kernel_release = PyStr (nth_or_empty toks 2);
          os = PyStr (if toks = [] then [] else last toks)
      in parsed_as
           (PyDict [(''tool_version'', PyStr version), (''raw'', PyStr text), (''kernel_name'', kernel_name),
                    (''nodename'', PyStr (nth_or_empty toks 1)), (''kernel_release'', kernel_release), (''os'', os)])
           (if length toks \<ge> 5 then 95 / 100 else 1 / 2)
           (host_hint scope (PyDict [(''kernel_name'', kernel_name), (''kernel_release'', kernel_release), (''os'', os)])))"

section \<open>lscpu.rs\<close>

definition INT_FIELDS :: "string list" where
  "INT_FIELDS = [''CPU(s)'', ''Socket(s)'', ''Core(s) per socket'', ''Thread(s) per core'', ''NUMA node(s)'']"

definition lscpu_line :: "string \<Rightarrow> pydict \<Rightarrow> pydict" where
  "lscpu_line line parsed =
     (case split_once (CHR '':'') line of
        None \<Rightarrow> parsed
      | Some (k0, v0) \<Rightarrow>
          let k = trim k0; v = trim v0 in
          case (if k \<in> set INT_FIELDS then parse_i64 v else None) of
            Some n \<Rightarrow> AList.update k (PyInt n) parsed
          | None \<Rightarrow> AList.update k (PyStr v) parsed)"

definition lscpu_parse :: "decoders \<Rightarrow> parser" where
  "lscpu_parse dc raw version scope =
     (let parsed = fold lscpu_line (text_lines (dc_text dc raw)) [(''tool_version'', PyStr version)];
          field = (\<lambda>k. or_null (map_of parsed k))
      in parsed_as (PyDict parsed)
           (if map_of parsed ''Model name'' \<noteq> None then 95 / 100 else 6 / 10)
           (host_hint scope (PyDict
              [(''cpu_model'', field ''Model name''), (''cpu_vendor'', field ''Vendor ID''), (''cpus'', field ''CPU(s)''),
               (''sockets'', field ''Socket(s)''), (''cores_per_socket'', field ''Core(s) per socket''),
               (''threads_per_core'', field ''Thread(s) per core''), (''numa_nodes'', field ''NUMA node(s)''),
               (''architecture'', field ''Architecture'')])))"

section \<open>lspci.rs\<close>

text \<open>The records read so far and the one being read.\<close>

definition lspci_line :: "string \<Rightarrow> pydict list \<times> pydict \<Rightarrow> pydict list \<times> pydict" where
  "lspci_line line st =
     (case st of (devices, current) \<Rightarrow>
      if trim line = [] then (if current \<noteq> [] then (devices @ [current], []) else (devices, current))
      else (case split_once (CHR '':'') line of
              None \<Rightarrow> (devices, current)
            | Some (k, v) \<Rightarrow> (devices, AList.update (trim k) (PyStr (trim v)) current)))"

definition lspci_devices :: "string \<Rightarrow> pyval list" where
  "lspci_devices text =
     (case fold lspci_line (text_lines text) ([], []) of (devices, current) \<Rightarrow>
        map PyDict (devices @ (if current \<noteq> [] then [current] else [])))"

datatype pci_class = Gpu | Nic | Nvme | Other_Class

definition classify :: "pyval \<Rightarrow> pci_class" where
  "classify d =
     (let cls = str_or [] (get_as as_str d ''Class'') in
      if sublist ''VGA'' cls \<or> sublist ''3D'' cls \<or> sublist ''Display'' cls then Gpu
      else if sublist ''Ethernet'' cls \<or> sublist ''Network'' cls then Nic
      else if sublist ''Non-Volatile'' cls then Nvme else Other_Class)"

definition count_class :: "pci_class \<Rightarrow> pyval list \<Rightarrow> pyval" where
  "count_class c devices = PyInt (int (length (filter (\<lambda>d. classify d = c) devices)))"

definition lspci_parse :: "decoders \<Rightarrow> parser" where
  "lspci_parse dc raw version scope =
     (let devices = lspci_devices (dc_text dc raw); n = PyInt (int (length devices)) in
      parsed_as
        (PyDict [(''tool_version'', PyStr version), (''devices'', PyList devices),
                 (''summary'', PyDict [(''device_count'', n), (''gpus'', count_class Gpu devices),
                    (''nics'', count_class Nic devices), (''nvme_controllers'', count_class Nvme devices)])])
        (if devices = [] then 4 / 10 else 9 / 10)
        (host_hint scope (PyDict [(''pci_device_count'', n), (''pci_gpus'', count_class Gpu devices),
           (''pci_nics'', count_class Nic devices), (''pci_nvme'', count_class Nvme devices)])))"

section \<open>hwprobe.rs\<close>

definition json_or :: "pyval \<Rightarrow> decoders \<Rightarrow> bytes \<Rightarrow> pyval" where
  "json_or dflt dc raw = (case dc_json dc raw of None \<Rightarrow> dflt | Some v \<Rightarrow> v)"

definition hwprobe_parse :: "decoders \<Rightarrow> parser" where
  "hwprobe_parse dc raw version scope =
     (let doc = insert_field ''tool_version'' (PyStr version) (json_or (PyDict []) dc raw);
          field = (\<lambda>k. or_null (v_get doc k))
      in parsed_as doc
           (if v_get doc ''numa_nodes'' \<noteq> None then 97 / 100 else 6 / 10)
           (host_hint scope (PyDict
              [(''numa_nodes'', field ''numa_nodes''), (''package_count'', field ''packages''),
               (''core_count'', field ''cores''), (''pu_count'', field ''pus''),
               (''l3_cache_bytes'', field ''l3_cache_bytes''), (''machine_model'', field ''machine_model''),
               (''bios_vendor'', field ''bios_vendor'')])))"

section \<open>lsblk.rs\<close>

record disk_totals =
  dt_disks :: nat
  dt_bytes :: "128 word"
  dt_rotational :: nat

definition disk_size :: "pyval \<Rightarrow> 128 word" where
  "disk_size d =
     (case get_as as_u64 d ''size'' of
        Some n \<Rightarrow> word_of_int n
      | None \<Rightarrow> (case Option.bind (get_as as_str d ''size'') parse_u128 of Some w \<Rightarrow> w | None \<Rightarrow> 0))"

definition count_device :: "pyval \<Rightarrow> disk_totals \<Rightarrow> disk_totals" where
  "count_device d t =
     (if get_as as_str d ''type'' = Some ''disk''
      then \<lparr>dt_disks = dt_disks t + 1, dt_bytes = dt_bytes t + disk_size d,
            dt_rotational = dt_rotational t + (if get_as as_u64 d ''rota'' = Some 1 then 1 else 0)\<rparr>
      else t)"

definition lsblk_totals :: "pyval \<Rightarrow> disk_totals" where
  "lsblk_totals doc =
     fold count_device (case get_as as_array doc ''blockdevices'' of None \<Rightarrow> [] | Some ds \<Rightarrow> ds)
       \<lparr>dt_disks = 0, dt_bytes = 0, dt_rotational = 0\<rparr>"

definition lsblk_parse :: "decoders \<Rightarrow> parser" where
  "lsblk_parse dc raw version scope =
     (let doc = insert_field ''tool_version'' (PyStr version) (json_or (PyDict []) dc raw);
          t = lsblk_totals doc;
          disks = PyInt (int (dt_disks t)); rotational = PyInt (int (dt_rotational t));
          bytes = PyStr (nat_str (unat (dt_bytes t)))
      in parsed_as
           (insert_field ''summary''
              (PyDict [(''disks'', disks), (''rotational_disks'', rotational), (''total_bytes'', bytes)]) doc)
           (if dt_disks t > 0 then 9 / 10 else 1 / 2)
           (host_hint scope (PyDict [(''disk_count'', disks), (''rotational_disks'', rotational),
              (''total_storage_bytes'', bytes)])))"

section \<open>findmnt.rs\<close>

definition PSEUDO :: "string list" where
  "PSEUDO =
     [''sysfs'', ''proc'', ''cgroup'', ''cgroup2'', ''tmpfs'', ''devtmpfs'', ''devpts'', ''mqueue'', ''debugfs'',
      ''tracefs'', ''securityfs'', ''pstore'', ''bpf'', ''configfs'', ''fusectl'', ''hugetlbfs'', ''autofs'',
      ''binfmt_misc'']"

lemma map_of_smaller: "map_of d k = Some v \<Longrightarrow> size v < size (PyDict d)"
  by (induction d) (auto split: if_splits)

lemma array_smaller:
  assumes "get_as as_array v k = Some xs" and "x \<in> set xs"
  shows "size x < size v"
proof -
  from assms(1) obtain d where v: "v = PyDict d" and d: "map_of d k = Some (PyList xs)"
    by (cases v) (auto simp: get_as_def bind_eq_Some_conv elim!: as_array.elims)
  have "size x < size (PyList xs)" using assms(2) by (induction xs) auto
  with map_of_smaller [OF d] show ?thesis by (simp add: v)
qed

function flatten :: "pyval \<Rightarrow> pyval list" where
  "flatten node =
     PyDict [(''target'', or_null (v_get node ''target'')), (''source'', or_null (v_get node ''source'')),
             (''fstype'', or_null (v_get node ''fstype'')), (''options'', or_null (v_get node ''options''))]
     # (case get_as as_array node ''children'' of None \<Rightarrow> [] | Some cs \<Rightarrow> concat (map flatten cs))"
  by pat_completeness auto

termination
  by (relation "measure size") (auto dest: array_smaller)

declare flatten.simps [simp del]

definition real_fstypes :: "pyval list \<Rightarrow> string list" where
  "real_fstypes mounts =
     remdups_adj (sort (filter (\<lambda>t. t \<notin> set PSEUDO) (List.map_filter (\<lambda>m. get_as as_str m ''fstype'') mounts)))"

definition findmnt_parse :: "decoders \<Rightarrow> parser" where
  "findmnt_parse dc raw version scope =
     (let doc = json_or (PyDict []) dc raw;
          mounts = concat (map flatten (case get_as as_array doc ''filesystems'' of None \<Rightarrow> [] | Some fs \<Rightarrow> fs));
          n = PyInt (int (length mounts))
      in parsed_as
           (PyDict [(''tool_version'', PyStr version), (''mounts'', PyList mounts),
                    (''summary'', PyDict [(''mount_count'', n),
                       (''real_fstypes'', PyList (map PyStr (real_fstypes mounts)))])])
           (if mounts = [] then 4 / 10 else 9 / 10)
           (host_hint scope (PyDict [(''mount_count'', n)])))"

section \<open>ip\_addr.rs\<close>

definition is_loopback :: "pyval \<Rightarrow> bool" where
  "is_loopback i = (get_as as_str i ''link_type'' = Some ''loopback'')"

definition address_json :: "pyval \<Rightarrow> pyval" where
  "address_json ai =
     PyDict [(''family'', or_null (v_get ai ''family'')), (''local'', or_null (v_get ai ''local'')),
             (''prefixlen'', or_null (v_get ai ''prefixlen''))]"

definition interface_json :: "pyval \<Rightarrow> pyval" where
  "interface_json i =
     PyDict [(''ifname'', PyStr (str_or [] (get_as as_str i ''ifname''))), (''mac'', or_null (v_get i ''address'')),
             (''mtu'', or_null (v_get i ''mtu'')), (''operstate'', or_null (v_get i ''operstate'')),
             (''link_type'', or_null (v_get i ''link_type'')),
             (''addresses'', PyList (map address_json
                (case get_as as_array i ''addr_info'' of None \<Rightarrow> [] | Some a \<Rightarrow> a)))]"

definition ip_parse :: "decoders \<Rightarrow> parser" where
  "ip_parse dc raw version scope =
     (let ifaces = (case as_array (json_or (PyList []) dc raw) of None \<Rightarrow> [] | Some arr \<Rightarrow> arr);
          n = PyInt (int (length ifaces));
          non_loopback = PyInt (int (length (filter (\<lambda>i. \<not> is_loopback i) ifaces)))
      in parsed_as
           (PyDict [(''tool_version'', PyStr version), (''interfaces'', PyList (map interface_json ifaces)),
                    (''summary'', PyDict [(''interface_count'', n), (''non_loopback'', non_loopback)])])
           (if ifaces \<noteq> [] then 95 / 100 else 4 / 10)
           (host_hint scope (PyDict [(''network_interface_count'', n), (''non_loopback_interfaces'', non_loopback)])))"

section \<open>ss.rs\<close>

definition split_host_port :: "string \<Rightarrow> string \<times> string" where
  "split_host_port s =
     (if CHR '':'' \<in> set s
      then (let port = rev (takeWhile (\<lambda>c. c \<noteq> CHR '':'') (rev s)) in (take (length s - length port - 1) s, port))
      else (s, []))"

definition socket_json :: "string \<Rightarrow> pyval option" where
  "socket_json line =
     (let cols = split_whitespace line in
      if length cols < 5 then None
      else (case split_host_port (cols ! 4) of (addr, port) \<Rightarrow>
              Some (PyDict [(''protocol'', PyStr (cols ! 0)), (''state'', PyStr (cols ! 1)),
                            (''local_address'', PyStr addr), (''port'', PyStr port)])))"

definition socket_lines :: "string list \<Rightarrow> string list" where
  "socket_lines ls =
     (case ls of [] \<Rightarrow> [] | l # rest \<Rightarrow> if prefix ''Netid'' (dropWhile is_whitespace l) then rest else ls)"

definition ss_parse :: "decoders \<Rightarrow> parser" where
  "ss_parse dc raw version scope =
     (let sockets = List.map_filter socket_json (socket_lines (text_lines (dc_text dc raw)));
          n = PyInt (int (length sockets));
          ports = remdups_adj (sort (List.map_filter (\<lambda>s. get_as as_str s ''port'') sockets))
      in parsed_as
           (PyDict [(''tool_version'', PyStr version), (''listening_sockets'', PyList sockets),
                    (''summary'', PyDict [(''socket_count'', n), (''distinct_ports'', PyList (map PyStr ports))])])
           (9 / 10)
           (host_hint scope (PyDict [(''listening_socket_count'', n)])))"

section \<open>The registry\<close>

definition REGISTERED :: "(string \<times> (decoders \<Rightarrow> parser)) list" where
  "REGISTERED =
     [(''lscpu'', lscpu_parse), (''lsblk'', lsblk_parse), (''lspci'', lspci_parse), (''uname'', uname_parse),
      (''hwprobe'', hwprobe_parse), (''ip'', ip_parse), (''ss'', ss_parse), (''findmnt'', findmnt_parse)]"

definition registry_get :: "decoders \<Rightarrow> string \<Rightarrow> parser option" where
  "registry_get dc tool = map_option (\<lambda>p. p dc) (map_of REGISTERED tool)"

section \<open>What the trait promises\<close>

definition host_key :: "pyval \<Rightarrow> string" where
  "host_key scope = ''host:'' @ snd (host_from_scope scope)"

locale host_parser =
  fixes parse :: parser
  assumes describes_host: "\<exists>v c attributes. parse raw version scope = parsed_as v c (host_hint scope attributes) \<and> 0 \<le> c \<and> c \<le> 1"
begin

lemma parse_returns:
  obtains result where "parse raw version scope = Inr result" and "confidence_check (pr_confidence result)"
    and "pr_hint result = Some (host_hint scope (ah_attributes (the (pr_hint result))))"
proof -
  obtain v c attributes where "parse raw version scope = parsed_as v c (host_hint scope attributes)"
    and c: "0 \<le> c" "c \<le> 1"
    using describes_host by blast
  then have p: "parse raw version scope = Inr \<lparr>pr_parsed = v, pr_confidence = c, pr_hint = Some (host_hint scope attributes)\<rparr>"
    by (simp add: parsed_as_def)
  have "ah_attributes (host_hint scope attributes) = attributes" by (simp add: host_hint_def split: prod.split)
  with c show thesis by (intro that [OF p]) (simp_all add: confidence_check_def)
qed

end

lemma parsed_as_host:
  "0 \<le> c \<Longrightarrow> c \<le> 1 \<Longrightarrow>
     \<exists>v' c' a'. parsed_as v c (host_hint scope a) = parsed_as v' c' (host_hint scope a') \<and> 0 \<le> c' \<and> c' \<le> 1"
  by blast

interpretation lscpu: host_parser "lscpu_parse dc" for dc
  by unfold_locales (unfold lscpu_parse_def Let_def, rule parsed_as_host, simp_all)

interpretation lsblk: host_parser "lsblk_parse dc" for dc
  by unfold_locales (unfold lsblk_parse_def Let_def, rule parsed_as_host, simp_all)

interpretation lspci: host_parser "lspci_parse dc" for dc
  by unfold_locales (unfold lspci_parse_def Let_def, rule parsed_as_host, simp_all)

interpretation uname: host_parser "uname_parse dc" for dc
  by unfold_locales (unfold uname_parse_def Let_def, rule parsed_as_host, simp_all)

interpretation hwprobe: host_parser "hwprobe_parse dc" for dc
  by unfold_locales (unfold hwprobe_parse_def Let_def, rule parsed_as_host, simp_all)

interpretation ip: host_parser "ip_parse dc" for dc
  by unfold_locales (unfold ip_parse_def Let_def, rule parsed_as_host, simp_all)

interpretation ss: host_parser "ss_parse dc" for dc
  by unfold_locales (unfold ss_parse_def Let_def, rule parsed_as_host, simp_all)

interpretation findmnt: host_parser "findmnt_parse dc" for dc
  by unfold_locales (unfold findmnt_parse_def Let_def, rule parsed_as_host, simp_all)

lemma registered_host: "registry_get dc tool = Some p \<Longrightarrow> host_parser p"
  by (auto simp: registry_get_def REGISTERED_def split: if_splits
      intro: lscpu.host_parser_axioms lsblk.host_parser_axioms lspci.host_parser_axioms uname.host_parser_axioms
        hwprobe.host_parser_axioms ip.host_parser_axioms ss.host_parser_axioms findmnt.host_parser_axioms)

end
