(* ===== verification/Allowlist_Drift.thy ===== *)
theory Allowlist_Drift
  imports Py_Text "HOL-Library.Product_Lexorder"
begin

text \<open>
  \<open>tools/check_allowlist_drift.py\<close>: compares the collector's compiled allow-list with the policy's.
  The two regular expressions have one way to match at most (what follows a repetition cannot be part
  of it), so a match is a deterministic reader of a prefix. The files are given as texts; the command
  returns its exit status and the lines it prints.
\<close>

section \<open>Matching\<close>

type_synonym 'a matcher = "string \<Rightarrow> ('a \<times> string) option"

definition lit :: "string \<Rightarrow> string \<Rightarrow> string option" where
  "lit p s = (if prefix p s then Some (drop (length p) s) else None)"

text \<open>A literal followed by \<open>\s*\<close>.\<close>

definition lit_ws :: "string \<Rightarrow> string \<Rightarrow> string option" where
  "lit_ws p s = map_option (dropWhile py_space) (lit p s)"

text \<open>\<open>([^c]*)c\<close>.\<close>

definition until :: "char \<Rightarrow> string matcher" where
  "until c s =
     (case dropWhile (\<lambda>x. x \<noteq> c) s of [] \<Rightarrow> None | _ # rest \<Rightarrow> Some (takeWhile (\<lambda>x. x \<noteq> c) s, rest))"

text \<open>\<open>"([^"]*)"\<close> and \<open>"([^"]+)"\<close>.\<close>

definition quoted :: "string matcher" where
  "quoted s = Option.bind (lit [CHR 0x22] s) (until CHR 0x22)"

definition quoted1 :: "string matcher" where
  "quoted1 s = Option.bind (quoted s) (\<lambda>(t, rest). if t = [] then None else Some (t, rest))"

text \<open>\<open>re.findall\<close> for a pattern that cannot match the empty string.\<close>

function findall :: "'a matcher \<Rightarrow> string \<Rightarrow> 'a list" where
  "findall m s =
     (case m s of
        Some (x, rest) \<Rightarrow> if length rest < length s then x # findall m rest else []
      | None \<Rightarrow> (case s of [] \<Rightarrow> [] | _ # cs \<Rightarrow> findall m cs))"
  by pat_completeness auto
termination
  by (relation "measure (\<lambda>(m, s). length s)") auto

declare findall.simps [simp del]

section \<open>The two files\<close>

type_synonym allow_entry = "string \<times> string \<times> string list \<times> string"

text \<open>Both patterns: four labelled fields; the third holds the arguments between an opening text and a
  closing character, read by the second \<open>findall\<close>.\<close>

definition match_entry :: "string \<Rightarrow> string \<Rightarrow> string \<Rightarrow> string \<Rightarrow> char \<Rightarrow> string \<Rightarrow> allow_entry matcher" where
  "match_entry tool_key path_key args_key opening closing category_key s =
     Option.bind (lit_ws tool_key s) (\<lambda>s.
     Option.bind (quoted1 s) (\<lambda>(tool, s).
     Option.bind (lit_ws '','' s) (\<lambda>s.
     Option.bind (lit_ws path_key s) (\<lambda>s.
     Option.bind (quoted1 s) (\<lambda>(path, s).
     Option.bind (lit_ws '','' s) (\<lambda>s.
     Option.bind (lit_ws args_key s) (\<lambda>s.
     Option.bind (lit opening s) (\<lambda>s.
     Option.bind (until closing s) (\<lambda>(args_raw, s).
     Option.bind (lit_ws '','' s) (\<lambda>s.
     Option.bind (lit_ws category_key s) (\<lambda>s.
     Option.bind (quoted1 s) (\<lambda>(cat, s).
     Option.bind (lit ''}'' s) (\<lambda>s.
     Some ((tool, path, findall quoted args_raw, cat), s))))))))))))))"

definition match_go :: "allow_entry matcher" where
  "match_go = match_entry ''{Tool:'' ''Path:'' ''Args:'' ''[]string{'' CHR ''}'' ''Category:''"

definition match_rego :: "allow_entry matcher" where
  "match_rego = match_entry ''{\"tool\":'' ''\"path\":'' ''\"args\":'' ''['' CHR '']'' ''\"category\":''"

definition parse_go :: "string \<Rightarrow> allow_entry set" where
  "parse_go text = set (findall match_go text)"

definition parse_rego :: "string \<Rightarrow> allow_entry set" where
  "parse_rego text = set (findall match_rego text)"

section \<open>The check\<close>

definition tuple_repr :: "string list \<Rightarrow> string" where
  "tuple_repr xs = (case xs of [x] \<Rightarrow> ''('' @ x @ '',)'' | _ \<Rightarrow> ''('' @ str_join '', '' xs @ '')'')"

definition entry_repr :: "allow_entry \<Rightarrow> string" where
  "entry_repr e =
     (case e of (tool, path, args, cat) \<Rightarrow>
        tuple_repr [str_repr tool, str_repr path, tuple_repr (map str_repr args), str_repr cat])"

definition drift_main :: "string \<Rightarrow> string \<Rightarrow> int \<times> string list" where
  "drift_main go_file rego_file =
     (let go = parse_go go_file; rego = parse_rego rego_file in
      if go = rego
      then (0, [''allowlist drift check ok ('' @ nat_str (card go) @ '' entries match)''])
      else (1, [''ERROR: allowlist drift between Go and Rego:'']
              @ map (\<lambda>e. ''  only in Go:   '' @ entry_repr e) (sorted_list_of_set (go - rego))
              @ map (\<lambda>e. ''  only in Rego: '' @ entry_repr e) (sorted_list_of_set (rego - go))))"

section \<open>Reading what is written\<close>

lemma lit_simps [simp]: "lit p (p @ s) = Some s" "lit (c # p) ((c # p) @ s) = Some s"
  by (simp_all add: lit_def)

lemma lit_None: "lit p s = None \<longleftrightarrow> \<not> prefix p s"
  by (simp add: lit_def)

lemma until_append [simp]: "c \<notin> set t \<Longrightarrow> until c (t @ c # s) = Some (t, s)"
  by (subst until_def) (simp add: dropWhile_append takeWhile_append)

lemma quoted_append [simp]: "CHR 0x22 \<notin> set t \<Longrightarrow> quoted (CHR 0x22 # t @ CHR 0x22 # s) = Some (t, s)"
  by (simp add: quoted_def lit_def)

lemma quoted1_append [simp]: "CHR 0x22 \<notin> set t \<Longrightarrow> t \<noteq> [] \<Longrightarrow> quoted1 (CHR 0x22 # t @ CHR 0x22 # s) = Some (t, s)"
  by (simp add: quoted1_def)

lemma findall_found: "m s = Some (x, rest) \<Longrightarrow> length rest < length s \<Longrightarrow> findall m s = x # findall m rest"
  by (simp add: findall.simps [of m s])

lemma findall_skip: "m (c # s) = None \<Longrightarrow> findall m (c # s) = findall m s"
  by (simp add: findall.simps [of m "c # s"])

lemma findall_Nil: "m [] = None \<Longrightarrow> findall m [] = []"
  by (simp add: findall.simps [of m "[]"])

text \<open>A text in which the pattern's first literal does not occur is skipped.\<close>

definition starts_with_key :: "string \<Rightarrow> 'a matcher \<Rightarrow> bool" where
  "starts_with_key key m \<longleftrightarrow> (\<forall>s. m s \<noteq> None \<longrightarrow> prefix key s)"

lemma findall_gap:
  assumes key: "starts_with_key (k # ks) m" and "k \<notin> set ks" and "\<not> sublist (k # ks) gap"
    and "rest = [] \<or> hd rest = k"
  shows "findall m (gap @ rest) = findall m rest"
  using assms(3)
proof (induction gap)
  case (Cons c gap)
  have "\<not> prefix (k # ks) ((c # gap) @ rest)"
  proof
    assume p: "prefix (k # ks) ((c # gap) @ rest)"
    show False
    proof (cases "length ks \<le> length gap")
      case True
      with p have "prefix (k # ks) (c # gap)" by (auto simp: prefix_def append_eq_append_conv2)
      with Cons.prems show False by (meson prefix_imp_sublist)
    next
      case False
      with p have "prefix gap ks" and "prefix ks (gap @ rest)"
        by (auto simp: prefix_def append_eq_append_conv2)
      then obtain t where t: "ks = gap @ t" "prefix t rest" by (auto simp: prefix_def)
      with False have "t \<noteq> []" by auto
      with t(2) assms(4) have "hd t = k" by (cases t; cases rest) auto
      with t(1) \<open>t \<noteq> []\<close> assms(2) show False by (cases t) auto
    qed
  qed
  with key have "m ((c # gap) @ rest) = None" unfolding starts_with_key_def by blast
  moreover have "\<not> sublist (k # ks) gap" using Cons.prems by (auto simp: sublist_Cons_right)
  ultimately show ?case using Cons.IH by (simp add: findall_skip)
qed simp

lemma quoted_key: "starts_with_key [CHR 0x22] quoted"
  by (auto simp: starts_with_key_def quoted_def lit_def bind_eq_Some_conv)

lemma match_entry_key: "starts_with_key k1 (match_entry k1 k2 k3 opn cls k4)"
  by (auto simp: starts_with_key_def match_entry_def lit_ws_def lit_def bind_eq_Some_conv)

definition quote :: "string \<Rightarrow> string" where
  "quote t = CHR 0x22 # t @ [CHR 0x22]"

lemma findall_args:
  assumes "\<forall>a \<in> set args. CHR 0x22 \<notin> set a"
  shows "findall quoted (str_join '', '' (map quote args)) = args"
proof -
  have none: "quoted [] = None" by (simp add: quoted_def lit_def)
  have found: "findall quoted (quote a @ rest) = a # findall quoted rest" if "CHR 0x22 \<notin> set a" for a rest
    using that by (intro findall_found) (simp_all add: quote_def)
  show ?thesis
    using assms
  proof (induction args rule: induct_list012)
    case 1
    then show ?case by (simp add: findall_Nil none)
  next
    case (2 a)
    then show ?case using found [of a "[]"] by (simp add: findall_Nil none)
  next
    case (3 a b as)
    have rest: "hd (str_join '', '' (map quote (b # as))) = CHR 0x22" by (cases as) (simp_all add: quote_def)
    have "findall quoted ('', '' @ str_join '', '' (map quote (b # as))) = findall quoted (str_join '', '' (map quote (b # as)))"
      by (rule findall_gap [OF quoted_key]) (simp_all add: rest sublist_Cons_right del: list.map)
    with 3 found [of a] show ?case by simp
  qed
qed

section \<open>The round trip\<close>

text \<open>
  An entry as the tables of the two files write it. Its layout is the white space after each of the
  seven colons and commas between its parts, in order; what a layout does not list is empty.
\<close>

type_synonym layout = "string list"

definition gap_at :: "layout \<Rightarrow> nat \<Rightarrow> string" where
  "gap_at sp i = (if i < length sp then sp ! i else [])"

definition write_entry :: "string \<Rightarrow> string \<Rightarrow> string \<Rightarrow> string \<Rightarrow> char \<Rightarrow> string \<Rightarrow> layout \<Rightarrow> allow_entry \<Rightarrow> string" where
  "write_entry k1 k2 k3 opn cls k4 sp e =
     (case e of (tool, path, args, cat) \<Rightarrow>
        k1 @ gap_at sp 0 @ quote tool @ '','' @ gap_at sp 1 @ k2 @ gap_at sp 2 @ quote path @ '','' @ gap_at sp 3
        @ k3 @ gap_at sp 4 @ opn @ str_join '', '' (map quote args) @ [cls] @ '','' @ gap_at sp 5
        @ k4 @ gap_at sp 6 @ quote cat @ ''}'')"

definition layout_ok :: "layout \<Rightarrow> bool" where
  "layout_ok sp = list_all (list_all py_space) sp"

definition entry_ok :: "char \<Rightarrow> allow_entry \<Rightarrow> bool" where
  "entry_ok cls e =
     (case e of (tool, path, args, cat) \<Rightarrow>
        (\<forall>t \<in> {tool, path, cat}. t \<noteq> [] \<and> CHR 0x22 \<notin> set t) \<and> (\<forall>a \<in> set args. CHR 0x22 \<notin> set a \<and> cls \<notin> set a))"

lemma gap_at_space: "layout_ok sp \<Longrightarrow> list_all py_space (gap_at sp i)"
  by (simp add: layout_ok_def gap_at_def list_all_length)

lemma lit_ws_spaces: "list_all py_space t \<Longrightarrow> \<not> py_space c \<Longrightarrow> lit_ws p (p @ t @ c # s) = Some (c # s)"
  by (simp add: lit_ws_def dropWhile_append list_all_iff)

lemma args_closing:
  assumes "\<forall>a \<in> set args. cls \<notin> set a" and "cls \<notin> {CHR 0x22, CHR '','', CHR '' ''}"
  shows "cls \<notin> set (str_join '', '' (map quote args))"
  using assms
proof (induction args rule: induct_list012)
  case (2 a)
  then show ?case by (auto simp: quote_def)
next
  case (3 a b as)
  then have "cls \<notin> set (str_join '', '' (map quote (b # as)))" by simp
  with 3 show ?case by (auto simp: quote_def)
qed simp

lemma match_written:
  assumes "entry_ok cls e" and "layout_ok sp" and "cls \<notin> {CHR 0x22, CHR '','', CHR '' ''}"
    and "\<not> py_space (hd k2)" "\<not> py_space (hd k3)" "\<not> py_space (hd k4)" "\<not> py_space (hd opn)"
    and "k2 \<noteq> []" "k3 \<noteq> []" "k4 \<noteq> []" "opn \<noteq> []"
  shows "match_entry k1 k2 k3 opn cls k4 (write_entry k1 k2 k3 opn cls k4 sp e @ rest) = Some (e, rest)"
proof -
  obtain tool path args cat where e: "e = (tool, path, args, cat)" by (cases e)
  have q: "\<not> py_space CHR 0x22" by (simp add: py_space_def)
  have ok: "CHR 0x22 \<notin> set tool" "CHR 0x22 \<notin> set path" "CHR 0x22 \<notin> set cat" "tool \<noteq> []" "path \<noteq> []" "cat \<noteq> []"
    and args: "\<forall>a \<in> set args. CHR 0x22 \<notin> set a" "\<forall>a \<in> set args. cls \<notin> set a"
    using assms(1) by (auto simp: entry_ok_def e)
  note gap = gap_at_space [OF assms(2)]
  have comma: "lit_ws '','' (CHR '','' # gap_at sp i @ k @ s) = Some (k @ s)" if "\<not> py_space (hd k)" "k \<noteq> []" for k s i
    using that lit_ws_spaces [OF gap [of i], of "hd k" "'',''" "tl k @ s"] by (cases k) simp_all
  have opens: "lit_ws k3 (k3 @ gap_at sp i @ opn @ s) = Some (opn @ s)" for s i
    using assms(7,11) lit_ws_spaces [OF gap [of i], of "hd opn" k3 "tl opn @ s"] by (cases opn) simp_all
  have "lit ''}'' (CHR ''}'' # s) = Some s" for s by (simp add: lit_def)
  then show ?thesis
    unfolding match_entry_def write_entry_def e
    using assms(4-6,8-10)
    by (simp add: quote_def [of tool] quote_def [of path] quote_def [of cat] lit_ws_spaces [OF gap] q ok comma opens
        args_closing [OF args(2) assms(3)] findall_args [OF args(1)])
qed

text \<open>A file: entries, each in its layout, with text between them in which no entry starts.\<close>

type_synonym table = "(layout \<times> allow_entry \<times> string) list"

definition entries :: "table \<Rightarrow> allow_entry list" where
  "entries es = map (\<lambda>(sp, e, gap). e) es"

definition write_file :: "(layout \<Rightarrow> allow_entry \<Rightarrow> string) \<Rightarrow> string \<Rightarrow> table \<Rightarrow> string" where
  "write_file w gap es = gap @ concat (map (\<lambda>(sp, e, gap). w sp e @ gap) es)"

definition table_ok :: "char \<Rightarrow> string \<Rightarrow> string \<Rightarrow> table \<Rightarrow> bool" where
  "table_ok cls key gap es \<longleftrightarrow> \<not> sublist key gap \<and>
     list_all (\<lambda>(sp, e, g). layout_ok sp \<and> entry_ok cls e \<and> \<not> sublist key g) es"

lemma findall_file:
  assumes key: "starts_with_key (k # ks) m" and "k \<notin> set ks"
    and written: "\<And>sp e rest. layout_ok sp \<Longrightarrow> entry_ok cls e \<Longrightarrow> m (w sp e @ rest) = Some (e, rest)"
    and head: "\<And>sp e. prefix (k # ks) (w sp e)" and ok: "table_ok cls (k # ks) gap es"
  shows "findall m (write_file w gap es) = entries es"
proof -
  have none: "m [] = None"
  proof (rule ccontr)
    assume "m [] \<noteq> None"
    with key have "prefix (k # ks) []" unfolding starts_with_key_def by blast
    then show False by simp
  qed
  have nonempty: "w sp e \<noteq> []" for sp e using head [of sp e] by auto
  have starts: "w sp e @ r = [] \<or> hd (w sp e @ r) = k" for sp e r using head [of sp e] by (auto simp: prefix_def)
  show ?thesis
    using ok
  proof (induction es arbitrary: gap)
    case Nil
    then have "\<not> sublist (k # ks) gap" by (simp add: table_ok_def)
    from findall_gap [OF key assms(2) this, of "[]"] show ?case by (simp add: write_file_def entries_def findall_Nil none)
  next
    case (Cons p es)
    obtain sp e g where p: "p = (sp, e, g)" by (cases p)
    from Cons.prems have gap: "\<not> sublist (k # ks) gap" and e: "layout_ok sp" "entry_ok cls e"
      and rest: "table_ok cls (k # ks) g es"
      by (simp_all add: table_ok_def p)
    let ?rest = "write_file w g es"
    have "findall m (write_file w gap (p # es)) = findall m (w sp e @ ?rest)"
      using findall_gap [OF key assms(2) gap starts [of sp e ?rest]] by (simp add: write_file_def p)
    also have "\<dots> = e # findall m ?rest"
      using written [OF e] nonempty [of sp e] by (intro findall_found) simp_all
    finally show ?case by (simp add: p entries_def Cons.IH [OF rest])
  qed
qed

definition go_entry :: "layout \<Rightarrow> allow_entry \<Rightarrow> string" where
  "go_entry = write_entry ''{Tool:'' ''Path:'' ''Args:'' ''[]string{'' CHR ''}'' ''Category:''"

definition rego_entry :: "layout \<Rightarrow> allow_entry \<Rightarrow> string" where
  "rego_entry = write_entry ''{\"tool\":'' ''\"path\":'' ''\"args\":'' ''['' CHR '']'' ''\"category\":''"

lemma write_entry_head: "prefix k1 (write_entry k1 k2 k3 opn cls k4 sp e)"
  by (cases e) (simp add: write_entry_def)

lemma parse_go_written:
  assumes "table_ok CHR ''}'' ''{Tool:'' gap es"
  shows "parse_go (write_file go_entry gap es) = set (entries es)"
proof -
  have "findall match_go (write_file go_entry gap es) = entries es"
  proof (rule findall_file [OF _ _ _ _ assms])
    show "starts_with_key ''{Tool:'' match_go" unfolding match_go_def by (rule match_entry_key)
    show "match_go (go_entry sp e @ rest) = Some (e, rest)" if "layout_ok sp" and "entry_ok CHR ''}'' e" for sp e rest
      unfolding match_go_def go_entry_def using that by (intro match_written) (auto simp: py_space_def)
    show "prefix ''{Tool:'' (go_entry sp e)" for sp e unfolding go_entry_def by (rule write_entry_head)
  qed simp
  then show ?thesis by (simp add: parse_go_def)
qed

lemma parse_rego_written:
  assumes "table_ok CHR '']'' ''{\"tool\":'' gap es"
  shows "parse_rego (write_file rego_entry gap es) = set (entries es)"
proof -
  have "findall match_rego (write_file rego_entry gap es) = entries es"
  proof (rule findall_file [OF _ _ _ _ assms])
    show "starts_with_key ''{\"tool\":'' match_rego" unfolding match_rego_def by (rule match_entry_key)
    show "match_rego (rego_entry sp e @ rest) = Some (e, rest)" if "layout_ok sp" and "entry_ok CHR '']'' e" for sp e rest
      unfolding match_rego_def rego_entry_def using that by (intro match_written) (auto simp: py_space_def)
    show "prefix ''{\"tool\":'' (rego_entry sp e)" for sp e unfolding rego_entry_def by (rule write_entry_head)
  qed simp
  then show ?thesis by (simp add: parse_rego_def)
qed

section \<open>The repository's files\<close>

text \<open>
  \<open>collector/internal/policy/allowlist.go\<close> and \<open>policy/allowlist.rego\<close> in full, as tables: the text
  before the first entry, and for each entry its layout, itself and the text after it. The dashes of
  the Go comments are hyphens here.
\<close>

definition shipped_go_head :: string where
  "shipped_go_head = ''// Package policy enforces the read-only command allowlist.\<newline>'' @ ''//\<newline>'' @
    ''// In Phase 1 the allowlist is compiled in. Phase 3 ships an OPA bundle\<newline>'' @
    ''// signed alongside the binary and loaded at startup.\<newline>'' @ ''package policy\<newline>'' @
    ''\<newline>'' @ ''import \"fmt\"\<newline>'' @ ''\<newline>'' @
    ''// AllowedCommand describes one safe-to-run tool invocation.\<newline>'' @
    ''type AllowedCommand struct {\<newline>'' @ [CHR 0x09] @
    ''Tool     string   // canonical tool name used in evidence\<newline>'' @ [CHR 0x09] @
    ''Path     string   // executable name on PATH; resolved at runtime\<newline>'' @ [CHR 0x09] @
    ''Args     []string // exact argv passed to the tool\<newline>'' @ [CHR 0x09] @
    ''Category string   // matches EvidenceItem.category\<newline>'' @ ''}\<newline>'' @ ''\<newline>'' @
    ''// Phase 1 allowlist. Read-only Linux inventory and hardware facts.\<newline>'' @
    ''// Every entry must be safe to run on a production host as a non-root user.\<newline>'' @ ''//\<newline>'' @
    ''// `hwprobe` is the AuditCore-native C++ probe that emits a single JSON\<newline>'' @
    ''// document covering NUMA, caches, PCI tree, and (when available) thermals\<newline>'' @
    ''// and NVIDIA GPU inventory. It is searched on PATH and falls back to\<newline>'' @
    ''// ./bin/hwprobe via the runner when not installed system-wide.\<newline>'' @
    ''var Phase1 = []AllowedCommand{\<newline>'' @ [CHR 0x09]"

definition shipped_go_tail :: string where
  "shipped_go_tail = '',\<newline>'' @ ''}\<newline>'' @ ''\<newline>'' @
    ''// Lookup returns the allowlist entry for the named tool, or an error if\<newline>'' @
    ''// the tool is not allowlisted.\<newline>'' @
    ''func Lookup(tool string) (AllowedCommand, error) {\<newline>'' @ [CHR 0x09] @
    ''for _, c := range Phase1 {\<newline>'' @ [CHR 0x09] @ [CHR 0x09] @ ''if c.Tool == tool {\<newline>'' @
    [CHR 0x09] @ [CHR 0x09] @ [CHR 0x09] @ ''return c, nil\<newline>'' @ [CHR 0x09] @ [CHR 0x09] @
    ''}\<newline>'' @ [CHR 0x09] @ ''}\<newline>'' @ [CHR 0x09] @
    ''return AllowedCommand{}, fmt.Errorf(\"tool %q is not in the allowlist\", tool)\<newline>'' @
    ''}\<newline>''"

definition shipped_go_table :: table where
  "shipped_go_table =
    [(['' '', '' '', '' '', '' '', '' '', '' '', '' ''],
      (''lscpu'', ''lscpu'', [], ''hardware''), '',\<newline>'' @ [CHR 0x09]),
     (['' '', '' '', '' '', '' '', '' '', '' '', '' ''],
      (''lsblk'', ''lsblk'', [''-J'', ''-O''], ''hardware''), '',\<newline>'' @ [CHR 0x09]),
     (['' '', '' '', '' '', '' '', '' '', '' '', '' ''],
      (''lspci'', ''lspci'', [''-vmm''], ''hardware''), '',\<newline>'' @ [CHR 0x09]),
     (['' '', '' '', '' '', '' '', '' '', '' '', '' ''],
      (''uname'', ''uname'', [''-a''], ''inventory''), '',\<newline>'' @ [CHR 0x09]),
     (['' '', '' '', '' '', '' '', '' '', '' '', '' ''],
      (''hwprobe'', ''hwprobe'', [], ''hardware''), '',\<newline>'' @ [CHR 0x09] @
      ''// Network interfaces (addresses, MAC, MTU) - described by the hardware agent.\<newline>'' @ [CHR 0x09]),
     (['' '', '' '', '' '', '' '', '' '', '' '', '' ''],
      (''ip'', ''ip'', [''-j'', ''addr''], ''hardware''), '',\<newline>'' @ [CHR 0x09] @
      ''// Listening sockets (exposed services) - described by the security agent.\<newline>'' @ [CHR 0x09]),
     (['' '', '' '', '' '', '' '', '' '', '' '', '' ''],
      (''ss'', ''ss'', [''-tuln''], ''security''), '',\<newline>'' @ [CHR 0x09] @
      ''// Mounted filesystems (target, source, fstype, options) - hardware/storage.\<newline>'' @ [CHR 0x09]),
     (['' '', '' '', '' '', '' '', '' '', '' '', '' ''],
      (''findmnt'', ''findmnt'', [''-J''], ''hardware''), shipped_go_tail)]"

definition shipped_rego_head :: string where
  "shipped_rego_head = ''package auditcore.collector\<newline>'' @ ''\<newline>'' @
    ''# Canonical read-only command allowlist. Mirror of collector/internal/policy\<newline>'' @
    ''# Phase1. A drift check in CI keeps these two in sync.\<newline>'' @ ''#\<newline>'' @
    ''# Each entry is { tool, path, args, category }. Argument matching is exact\<newline>'' @
    ''# (set equality); pass-through user args are NOT permitted in Phase 1.\<newline>'' @ ''\<newline>'' @
    ''allowlist := [\<newline>'' @ ''    ''"

definition shipped_rego_tail :: string where
  "shipped_rego_tail = '',\<newline>'' @ '']\<newline>'' @ ''\<newline>'' @
    ''# Decision: { allowed: bool, reason?: string }\<newline>'' @
    ''default decision := {\"allowed\": false, \"reason\": \"tool not in allowlist\"}\<newline>'' @
    ''\<newline>'' @ ''decision := {\"allowed\": true} if {\<newline>'' @
    ''    some entry in allowlist\<newline>'' @ ''    entry.tool == input.tool\<newline>'' @
    ''    entry.path == input.path\<newline>'' @ ''    sort(entry.args) == sort(input.args)\<newline>'' @
    ''}\<newline>'' @ ''\<newline>'' @ ''# Convenience predicate.\<newline>'' @
    ''allow if decision.allowed\<newline>''"

definition shipped_rego_table :: table where
  "shipped_rego_table =
    [(['' '', ''   '', '' '', ''   '', '' '', ''            '', '' ''],
      (''lscpu'', ''lscpu'', [], ''hardware''), '',\<newline>'' @ ''    ''),
     (['' '', ''   '', '' '', ''   '', '' '', ''  '', '' ''],
      (''lsblk'', ''lsblk'', [''-J'', ''-O''], ''hardware''), '',\<newline>'' @ ''    ''),
     (['' '', ''   '', '' '', ''   '', '' '', ''      '', '' ''],
      (''lspci'', ''lspci'', [''-vmm''], ''hardware''), '',\<newline>'' @ ''    ''),
     (['' '', ''   '', '' '', ''   '', '' '', ''        '', '' ''],
      (''uname'', ''uname'', [''-a''], ''inventory''), '',\<newline>'' @ ''    ''),
     (['' '', '' '', '' '', '' '', '' '', ''            '', '' ''],
      (''hwprobe'', ''hwprobe'', [], ''hardware''), '',\<newline>'' @ ''    ''),
     (['' '', ''      '', '' '', ''      '', '' '', '' '', '' ''],
      (''ip'', ''ip'', [''-j'', ''addr''], ''hardware''), '',\<newline>'' @ ''    ''),
     (['' '', ''      '', '' '', ''      '', '' '', ''     '', '' ''],
      (''ss'', ''ss'', [''-tuln''], ''security''), '',\<newline>'' @ ''    ''),
     (['' '', '' '', '' '', '' '', '' '', ''        '', '' ''],
      (''findmnt'', ''findmnt'', [''-J''], ''hardware''), shipped_rego_tail)]"

lemma shipped_tables_ok:
  "table_ok CHR ''}'' ''{Tool:'' shipped_go_head shipped_go_table"
  "table_ok CHR '']'' ''{\"tool\":'' shipped_rego_head shipped_rego_table"
  by code_simp+

section \<open>Property\<close>

text \<open>
  C38. The drift check is exact on tables written as the two files write them, each entry in a layout
  of its own and any text between the entries in which no entry starts: it succeeds, with the number
  of entries, if and only if both tables have the same entries, and otherwise prints exactly the
  entries that only one of them has, in order. The two files of the repository are such tables.
\<close>

theorem drift_check_exact:
  assumes "table_ok CHR ''}'' ''{Tool:'' gap es" and "table_ok CHR '']'' ''{\"tool\":'' gap' es'"
  shows "drift_main (write_file go_entry gap es) (write_file rego_entry gap' es') =
    (let G = set (entries es); P = set (entries es') in
     if G = P then (0, [''allowlist drift check ok ('' @ nat_str (card G) @ '' entries match)''])
     else (1, ''ERROR: allowlist drift between Go and Rego:''
       # map (\<lambda>e. ''  only in Go:   '' @ entry_repr e) (sorted_list_of_set (G - P))
       @ map (\<lambda>e. ''  only in Rego: '' @ entry_repr e) (sorted_list_of_set (P - G))))"
  by (simp add: drift_main_def parse_go_written [OF assms(1)] parse_rego_written [OF assms(2)] Let_def)

theorem drift_check_exact_witness:
  "drift_main (write_file go_entry shipped_go_head shipped_go_table)
      (write_file rego_entry shipped_rego_head shipped_rego_table) =
     (0, [''allowlist drift check ok (8 entries match)'']) \<and>
   drift_main (write_file go_entry shipped_go_head shipped_go_table)
      (write_file rego_entry shipped_rego_head (tl shipped_rego_table)) =
     (1, [''ERROR: allowlist drift between Go and Rego:'',
          ''  only in Go:   '' @ entry_repr (''lscpu'', ''lscpu'', [], ''hardware'')])"
proof -
  let ?G = "entries shipped_go_table" and ?T = "entries (tl shipped_rego_table)"
  have tl: "table_ok CHR '']'' ''{\"tool\":'' shipped_rego_head (tl shipped_rego_table)" by code_simp
  have same: "?G = entries shipped_rego_table" by (simp add: entries_def shipped_go_table_def shipped_rego_table_def)
  have first: "?G = (''lscpu'', ''lscpu'', [], ''hardware'') # ?T"
    by (simp add: entries_def shipped_go_table_def shipped_rego_table_def)
  have dist: "distinct ?G" by (simp add: entries_def shipped_go_table_def)
  then have card: "card (set ?G) = 8" by (simp add: distinct_card entries_def shipped_go_table_def)
  have eight: "nat_str 8 = ''8''" by code_simp
  from dist have out: "(''lscpu'', ''lscpu'', [], ''hardware'') \<notin> set ?T" unfolding first by simp
  then have diff: "set ?G - set ?T = {(''lscpu'', ''lscpu'', [], ''hardware'')}" "set ?T - set ?G = {}" "set ?G \<noteq> set ?T"
    unfolding first by auto
  from drift_check_exact [OF shipped_tables_ok] drift_check_exact [OF shipped_tables_ok(1) tl] show ?thesis
    by (simp only: Let_def same [symmetric] card eight diff refl if_True if_False) simp
qed

end
