(* ===== verification/Collector.thy ===== *)
theory Collector
  imports Bundle Parsers Allowlist_Drift
begin

text \<open>
  The Go collector (\<open>collector/cmd/auditor-collect\<close>, \<open>internal/policy\<close>, \<open>internal/runner\<close>, \<open>pkg/bundle\<close>)
  and the policy it mirrors (\<open>policy/allowlist.rego\<close>). A Go function that returns a value and an error
  returns a sum; the slice that \<open>Build\<close> changes in place is returned beside its result. What the
  operating system offers is the record \<open>host\<close> over a state \<open>'h\<close>; every program that is started is
  appended to a log of resolved paths and argument vectors. Times are nanoseconds since the epoch.
  The tar, gzip, JSON and time encoders and the version 5 UUID are the record \<open>codec\<close>, HTTP is the
  record \<open>server\<close>; the flag package is not modelled, a command gets its four values.
\<close>

section \<open>allowlist.go and allowlist.rego\<close>

record allowed_command =
  al_tool :: string
  al_path :: string
  al_args :: "string list"
  al_category :: string

definition command :: "string \<Rightarrow> string list \<Rightarrow> string \<Rightarrow> allowed_command" where
  "command tool args category = \<lparr>al_tool = tool, al_path = tool, al_args = args, al_category = category\<rparr>"

definition Phase1 :: "allowed_command list" where
  "Phase1 =
     [command ''lscpu'' [] ''hardware'',
      command ''lsblk'' [''-J'', ''-O''] ''hardware'',
      command ''lspci'' [''-vmm''] ''hardware'',
      command ''uname'' [''-a''] ''inventory'',
      command ''hwprobe'' [] ''hardware'',
      command ''ip'' [''-j'', ''addr''] ''hardware'',
      command ''ss'' [''-tuln''] ''security'',
      command ''findmnt'' [''-J''] ''hardware'']"

datatype go_error = Not_Allowlisted string | Missing_Tool string | Failed string

definition lookup_tool :: "string \<Rightarrow> go_error + allowed_command" where
  "lookup_tool tool =
     (case find (\<lambda>c. al_tool c = tool) Phase1 of None \<Rightarrow> Inl (Not_Allowlisted tool) | Some c \<Rightarrow> Inr c)"

definition allowlist :: "allow_entry list" where
  "allowlist =
     [(''lscpu'', ''lscpu'', [], ''hardware''),
      (''lsblk'', ''lsblk'', [''-J'', ''-O''], ''hardware''),
      (''lspci'', ''lspci'', [''-vmm''], ''hardware''),
      (''uname'', ''uname'', [''-a''], ''inventory''),
      (''hwprobe'', ''hwprobe'', [], ''hardware''),
      (''ip'', ''ip'', [''-j'', ''addr''], ''hardware''),
      (''ss'', ''ss'', [''-tuln''], ''security''),
      (''findmnt'', ''findmnt'', [''-J''], ''hardware'')]"

text \<open>The decision for an input with the three fields, with its reason when it is the default.\<close>

definition decision :: "string \<Rightarrow> string \<Rightarrow> string list \<Rightarrow> bool \<times> string option" where
  "decision tool path args =
     (if list_ex (\<lambda>(t, p, as, c). t = tool \<and> p = path \<and> sort as = sort args) allowlist then (True, None)
      else (False, Some ''tool not in allowlist''))"

definition allow :: "string \<Rightarrow> string \<Rightarrow> string list \<Rightarrow> bool" where
  "allow tool path args = fst (decision tool path args)"

section \<open>runner.go\<close>

text \<open>How a program ended: with an exit code (an \<open>ExitError\<close> when it is not zero), or it could not be run.\<close>

datatype exit_status = Exit_Code int | Not_Run string

record process =
  pc_status :: exit_status
  pc_stdout :: bytes
  pc_stderr :: bytes
  pc_combined :: bytes

record 'h host =
  ho_hostname :: "string option"
  ho_look_path :: "string \<Rightarrow> string option"
  ho_exe_dir :: "string option"
  ho_is_file :: "string \<Rightarrow> bool"
  ho_run :: "int option \<Rightarrow> string \<Rightarrow> string list \<Rightarrow> 'h \<Rightarrow> process \<times> 'h"
  ho_now :: "'h \<Rightarrow> int"
  ho_uuid :: "'h \<Rightarrow> uuid \<times> 'h"
  ho_text :: "bytes \<Rightarrow> string"
  ho_write_file :: "string \<Rightarrow> bytes \<Rightarrow> 'h \<Rightarrow> unit res \<times> 'h"

type_synonym 'h world = "(string \<times> string list) list \<times> 'h"

definition path_join :: "string \<Rightarrow> string \<Rightarrow> string" where
  "path_join dir name = (if dir = ''/'' then ''/'' @ name else dir @ ''/'' @ name)"

definition resolve_path :: "'h host \<Rightarrow> string \<Rightarrow> string option" where
  "resolve_path host name =
     (case ho_look_path host name of
        Some p \<Rightarrow> Some p
      | None \<Rightarrow>
          (case ho_exe_dir host of
             None \<Rightarrow> None
           | Some dir \<Rightarrow> let candidate = path_join dir name in
               if ho_is_file host candidate then Some candidate else None))"

definition execute :: "'h host \<Rightarrow> int option \<Rightarrow> string \<Rightarrow> string list \<Rightarrow> 'h world \<Rightarrow> process \<times> 'h world" where
  "execute host timeout path args w =
     (case ho_run host timeout path args (snd w) of (p, h) \<Rightarrow> (p, (fst w @ [(path, args)], h)))"

definition detect_version :: "'h host \<Rightarrow> string \<Rightarrow> 'h world \<Rightarrow> string \<times> 'h world" where
  "detect_version host path w =
     (case execute host None path [''--version''] w of (p, w') \<Rightarrow>
      (if pc_status p = Exit_Code 0 then hd (str_split (CHR 0x0A) (trim (ho_text host (pc_combined p))))
       else ''unknown'', w'))"

record run_result =
  tr_tool :: string
  tr_version :: string
  tr_category :: string
  tr_started_at :: int
  tr_duration :: int
  tr_exit_code :: int
  tr_raw :: bytes
  tr_stderr :: bytes

definition run_tool :: "'h host \<Rightarrow> int \<Rightarrow> string \<Rightarrow> 'h world \<Rightarrow> (go_error + run_result) \<times> 'h world" where
  "run_tool host timeout tool w =
     (case lookup_tool tool of
        Inl e \<Rightarrow> (Inl e, w)
      | Inr cmd \<Rightarrow>
          (case resolve_path host (al_path cmd) of
             None \<Rightarrow> (Inl (Missing_Tool tool), w)
           | Some resolved \<Rightarrow>
               let start = ho_now host (snd w) in
               (case execute host (Some timeout) resolved (al_args cmd) w of (p, w1) \<Rightarrow>
                let dur = ho_now host (snd w1) - start in
                (case pc_status p of
                   Not_Run e \<Rightarrow> (Inl (Failed e), w1)
                 | Exit_Code code \<Rightarrow>
                     (case detect_version host resolved w1 of (version, w2) \<Rightarrow>
                      (Inr \<lparr>tr_tool = al_tool cmd, tr_version = version, tr_category = al_category cmd,
                            tr_started_at = start, tr_duration = dur, tr_exit_code = code,
                            tr_raw = pc_stdout p, tr_stderr = pc_stderr p\<rparr>, w2))))))"

section \<open>bundle.go\<close>

definition SchemaVersion :: string where
  "SchemaVersion = ''1''"

definition CollectorVersion :: string where
  "CollectorVersion = ''0.1.0''"

record item =
  it_id :: uuid
  it_source_tool :: string
  it_source_tool_version :: string
  it_category :: string
  it_collected_at :: int
  it_file :: string
  it_raw :: bytes

record scope_rec =
  sc_hostname :: string
  sc_host_uuid :: string
  sc_os :: string

record tar_entry =
  te_name :: string
  te_mode :: int
  te_data :: bytes
  te_mod_time :: int

text \<open>
  \<open>cd_time_json\<close> is \<open>time.Time.MarshalJSON\<close> (which refuses a year of more than four digits),
  \<open>cd_rfc3339\<close> is \<open>Format(time.RFC3339)\<close>, \<open>cd_host_uuid\<close> is \<open>uuid.NewSHA1\<close> in the DNS name space.
\<close>

record codec =
  cd_uuid_text :: "uuid \<Rightarrow> string"
  cd_host_uuid :: "string \<Rightarrow> string"
  cd_time_json :: "int \<Rightarrow> string res"
  cd_rfc3339 :: "int \<Rightarrow> string"
  cd_marshal :: "pyval \<Rightarrow> bytes res"
  cd_targz :: "tar_entry list \<Rightarrow> bytes res"

definition item_json :: "codec \<Rightarrow> item \<Rightarrow> pyval res" where
  "item_json cd it =
     bindE (cd_time_json cd (it_collected_at it)) (\<lambda>t.
     Inr (PyDict
       [(''id'', PyStr (cd_uuid_text cd (it_id it))), (''source_tool'', PyStr (it_source_tool it)),
        (''source_tool_version'', PyStr (it_source_tool_version it)), (''category'', PyStr (it_category it)),
        (''collected_at'', PyStr t), (''file'', PyStr (it_file it))]))"

definition scope_json :: "scope_rec \<Rightarrow> pyval" where
  "scope_json sc = PyDict
     ([(''hostname'', PyStr (sc_hostname sc)), (''host_uuid'', PyStr (sc_host_uuid sc))]
      @ (if sc_os sc = [] then [] else [(''os'', PyStr (sc_os sc))]))"

text \<open>The items are a slice built by \<open>append\<close>: it is nil when it is empty, and a nil slice marshals as \<open>null\<close>.\<close>

definition slice_json :: "pyval list \<Rightarrow> pyval" where
  "slice_json vs = (if vs = [] then PyNone else PyList vs)"

definition manifest_json :: "codec \<Rightarrow> int \<Rightarrow> scope_rec \<Rightarrow> item list \<Rightarrow> pyval res" where
  "manifest_json cd now sc items =
     bindE (mapE (item_json cd) items) (\<lambda>its.
     Inr (PyDict
       [(''schema_version'', PyStr SchemaVersion), (''collector_version'', PyStr CollectorVersion),
        (''collected_at'', PyStr (cd_rfc3339 cd now)), (''scope'', scope_json sc), (''items'', slice_json its)]))"

definition item_file :: "codec \<Rightarrow> uuid \<Rightarrow> string" where
  "item_file cd i = ''items/'' @ cd_uuid_text cd i @ ''.raw''"

fun set_files :: "'h host \<Rightarrow> codec \<Rightarrow> item list \<Rightarrow> 'h \<Rightarrow> item list \<times> 'h" where
  "set_files host cd [] h = ([], h)"
| "set_files host cd (it # its) h =
     (case (if it_id it = 0 then ho_uuid host h else (it_id it, h)) of (i, h1) \<Rightarrow>
      case set_files host cd its h1 of (its', h2) \<Rightarrow>
        (it\<lparr>it_id := i, it_file := item_file cd i\<rparr> # its', h2))"

definition entry :: "string \<Rightarrow> bytes \<Rightarrow> int \<Rightarrow> tar_entry" where
  "entry name data mtime = \<lparr>te_name = name, te_mode = 420, te_data = data, te_mod_time = mtime\<rparr>"

definition bundle_entries :: "bytes \<Rightarrow> int \<Rightarrow> item list \<Rightarrow> tar_entry list" where
  "bundle_entries man now items =
     entry ''manifest.json'' man now # map (\<lambda>it. entry (it_file it) (it_raw it) (it_collected_at it)) items"

definition build :: "'h host \<Rightarrow> codec \<Rightarrow> scope_rec \<Rightarrow> item list \<Rightarrow> 'h \<Rightarrow> bytes res \<times> item list \<times> 'h" where
  "build host cd sc items h =
     (let now = ho_now host h in
      case set_files host cd items h of (items', h') \<Rightarrow>
        (bindE (manifest_json cd now sc items') (\<lambda>man.
         bindE (cd_marshal cd man) (\<lambda>bs.
         cd_targz cd (bundle_entries bs now items'))), items', h'))"

section \<open>upload.go\<close>

datatype http_body = Json pyval | Form_File string string bytes

record http_response =
  hr_status :: int
  hr_body :: bytes

text \<open>The server posts to a URL; \<open>sv_run_id\<close> is decoding a body into the struct with the run's identifier.\<close>

record 's server =
  sv_post :: "string \<Rightarrow> http_body \<Rightarrow> 's \<Rightarrow> http_response res \<times> 's"
  sv_run_id :: "bytes \<Rightarrow> string res"

definition successful :: "http_response \<Rightarrow> bool" where
  "successful r \<longleftrightarrow> 200 \<le> hr_status r \<and> hr_status r < 300"

definition client_create_run :: "'s server \<Rightarrow> string \<Rightarrow> pyval \<Rightarrow> 's \<Rightarrow> string res \<times> 's" where
  "client_create_run sv base scope s =
     (case sv_post sv (base @ ''/v1/runs'') (Json (PyDict [(''scope'', scope)])) s of
        (Inl e, s') \<Rightarrow> (Inl e, s')
      | (Inr resp, s') \<Rightarrow>
          if successful resp then (sv_run_id sv (hr_body resp), s') else (Inl (OtherError ''create run''), s'))"

definition client_upload_bundle :: "'s server \<Rightarrow> string \<Rightarrow> string \<Rightarrow> bytes \<Rightarrow> 's \<Rightarrow> unit res \<times> 's" where
  "client_upload_bundle sv base rid tarball s =
     (case sv_post sv (base @ ''/v1/runs/'' @ rid @ ''/bundle'') (Form_File ''bundle_file'' ''bundle.tar.gz'' tarball) s of
        (Inl e, s') \<Rightarrow> (Inl e, s')
      | (Inr resp, s') \<Rightarrow> if successful resp then (Inr (), s') else (Inl (OtherError ''upload bundle''), s'))"

section \<open>main.go\<close>

fun split_csv_from :: "string \<Rightarrow> string \<Rightarrow> string list" where
  "split_csv_from tok [] = (if tok = [] then [] else [rev tok])"
| "split_csv_from tok (c # cs) =
     (if c = CHR '','' then (if tok = [] then [] else [rev tok]) @ split_csv_from [] cs
      else split_csv_from (c # tok) cs)"

definition split_csv :: "string \<Rightarrow> string list" where
  "split_csv s = split_csv_from [] s"

definition allowlisted :: "string \<Rightarrow> bool" where
  "allowlisted tool = (case lookup_tool tool of Inl e \<Rightarrow> False | Inr c \<Rightarrow> True)"

definition select_tools :: "string \<Rightarrow> string list" where
  "select_tools csv = (if csv = [] then map al_tool Phase1 else filter allowlisted (split_csv csv))"

definition item_of :: "run_result \<Rightarrow> uuid \<Rightarrow> item" where
  "item_of r i =
     \<lparr>it_id = i, it_source_tool = tr_tool r, it_source_tool_version = tr_version r, it_category = tr_category r,
      it_collected_at = tr_started_at r, it_file = [], it_raw = tr_raw r\<rparr>"

fun collect_tools :: "'h host \<Rightarrow> int \<Rightarrow> string list \<Rightarrow> item list \<Rightarrow> 'h world \<Rightarrow> (string \<times> go_error + item list) \<times> 'h world" where
  "collect_tools host timeout [] items w = (Inr items, w)"
| "collect_tools host timeout (t # ts) items w =
     (case run_tool host timeout t w of
        (Inl (Missing_Tool tool), w') \<Rightarrow> collect_tools host timeout ts items w'
      | (Inl e, w') \<Rightarrow> (Inl (t, e), w')
      | (Inr r, w') \<Rightarrow>
          (case ho_uuid host (snd w') of (i, h) \<Rightarrow>
           collect_tools host timeout ts (items @ [item_of r i]) (fst w', h)))"

datatype collect_error =
    Destination_Required
  | Destinations_Exclusive
  | No_Tools_Selected
  | Run_Error string go_error
  | Nothing_Collected
  | Build_Error exn
  | Write_Error exn
  | Create_Error exn
  | Upload_Error exn

definition host_scope :: "'h host \<Rightarrow> codec \<Rightarrow> scope_rec" where
  "host_scope host cd =
     (let hostname = (case ho_hostname host of None \<Rightarrow> [] | Some n \<Rightarrow> n) in
      \<lparr>sc_hostname = hostname, sc_host_uuid = cd_host_uuid cd hostname, sc_os = ''linux''\<rparr>)"

definition run_scope_json :: "scope_rec \<Rightarrow> pyval" where
  "run_scope_json sc = PyDict [(''hostname'', PyStr (sc_hostname sc)), (''host_uuid'', PyStr (sc_host_uuid sc))]"

definition deliver ::
  "'h host \<Rightarrow> 's server \<Rightarrow> scope_rec \<Rightarrow> string \<Rightarrow> string \<Rightarrow> bytes \<Rightarrow> 'h world \<times> 's \<Rightarrow> (collect_error + unit) \<times> 'h world \<times> 's" where
  "deliver host sv sc upload output tarball st =
     (case st of (w, s) \<Rightarrow>
      if output \<noteq> []
      then (case ho_write_file host output tarball (snd w) of
              (Inl e, h) \<Rightarrow> (Inl (Write_Error e), (fst w, h), s)
            | (Inr _, h) \<Rightarrow> (Inr (), (fst w, h), s))
      else (case client_create_run sv upload (run_scope_json sc) s of
              (Inl e, s1) \<Rightarrow> (Inl (Create_Error e), w, s1)
            | (Inr rid, s1) \<Rightarrow>
                (case client_upload_bundle sv upload rid tarball s1 of
                   (Inl e, s2) \<Rightarrow> (Inl (Upload_Error e), w, s2)
                 | (Inr _, s2) \<Rightarrow> (Inr (), w, s2))))"

definition run_cmd ::
  "'h host \<Rightarrow> codec \<Rightarrow> 's server \<Rightarrow> string \<Rightarrow> string \<Rightarrow> string \<Rightarrow> int \<Rightarrow> 'h world \<times> 's \<Rightarrow> (collect_error + unit) \<times> 'h world \<times> 's" where
  "run_cmd host cd sv upload output tools timeout st =
     (if upload = [] \<and> output = [] then (Inl Destination_Required, st)
      else if upload \<noteq> [] \<and> output \<noteq> [] then (Inl Destinations_Exclusive, st)
      else if select_tools tools = [] then (Inl No_Tools_Selected, st)
      else (case collect_tools host timeout (select_tools tools) [] (fst st) of
              (Inl (t, e), w) \<Rightarrow> (Inl (Run_Error t e), w, snd st)
            | (Inr items, w) \<Rightarrow>
                if items = [] then (Inl Nothing_Collected, w, snd st)
                else (case build host cd (host_scope host cd) items (snd w) of
                        (Inl e, _, h) \<Rightarrow> (Inl (Build_Error e), (fst w, h), snd st)
                      | (Inr tarball, _, h) \<Rightarrow>
                          deliver host sv (host_scope host cd) upload output tarball ((fst w, h), snd st))))"

section \<open>The allow-list\<close>

lemma lookup_cases:
  assumes "lookup_tool tool = Inr c"
  shows "c \<in> set Phase1 \<and> al_tool c = tool"
  using assms by (auto simp: lookup_tool_def find_Some_iff split: option.splits)

lemma split_csv_from_split:
  "split_csv_from tok s = filter (\<lambda>t. t \<noteq> []) (case str_split (CHR '','') s of [] \<Rightarrow> [] | p # ps \<Rightarrow> (rev tok @ p) # ps)"
  by (induction tok s rule: split_csv_from.induct) (auto split: list.splits)

text \<open>The hand-written loop is \<open>strings.Split\<close> without the empty parts.\<close>

lemma split_csv_split: "split_csv s = filter (\<lambda>t. t \<noteq> []) (str_split (CHR '','') s)"
  by (simp add: split_csv_def split_csv_from_split split: list.split)

definition entry_of :: "allowed_command \<Rightarrow> allow_entry" where
  "entry_of c = (al_tool c, al_path c, al_args c, al_category c)"

lemma allowlist_mirrors: "allowlist = map entry_of Phase1"
  by (simp add: allowlist_def Phase1_def entry_of_def command_def)

lemma allow_iff: "allow tool path args \<longleftrightarrow>
    (\<exists>c \<in> set Phase1. al_tool c = tool \<and> al_path c = path \<and> sort (al_args c) = sort args)"
  by (auto simp: allow_def decision_def allowlist_mirrors list_ex_iff entry_of_def)

lemma allow_own: "c \<in> set Phase1 \<Longrightarrow> allow (al_tool c) (al_path c) (al_args c)"
  unfolding allow_iff by blast

lemma version_not_allowed: "\<not> allow tool path [''--version'']"
proof
  assume "allow tool path [''--version'']"
  then obtain c where c: "c \<in> set Phase1" and "sort (al_args c) = [''--version'']" by (auto simp: allow_iff)
  then have "set (al_args c) = {''--version''}" by (metis list.simps(15) set_empty2 set_sort empty_set)
  moreover have "list_all (\<lambda>c. ''--version'' \<notin> set (al_args c)) Phase1" by code_simp
  ultimately show False using c by (auto simp: list_all_iff)
qed

section \<open>What is started\<close>

text \<open>A started program is the resolved path of an entry, with its arguments or asked for its version.\<close>

definition licensed :: "'h host \<Rightarrow> string list \<Rightarrow> string \<times> string list \<Rightarrow> bool" where
  "licensed host tools x \<longleftrightarrow>
     list_ex (\<lambda>c. al_tool c \<in> set tools \<and> resolve_path host (al_path c) = Some (fst x) \<and>
        (snd x = al_args c \<or> snd x = [''--version''])) Phase1"

definition starts :: "(string \<times> string list \<Rightarrow> bool) \<Rightarrow> 'h world \<Rightarrow> 'h world \<Rightarrow> bool" where
  "starts p w w' \<longleftrightarrow> (\<exists>new. fst w' = fst w @ new \<and> list_all p new)"

lemma starts_refl: "fst w' = fst w \<Longrightarrow> starts p w w'"
  by (simp add: starts_def)

lemma starts_trans: "starts p u v \<Longrightarrow> starts p v w \<Longrightarrow> starts p u w"
  by (auto simp: starts_def)

lemma execute_starts: "execute host timeout path args w = (r, w') \<Longrightarrow> p (path, args) \<Longrightarrow> starts p w w'"
  by (auto simp: execute_def starts_def split: prod.splits)

lemma detect_version_starts: "detect_version host path w = (r, w') \<Longrightarrow> p (path, [''--version'']) \<Longrightarrow> starts p w w'"
  by (auto simp: detect_version_def split: prod.splits intro: execute_starts)

lemma run_tool_cases:
  assumes "run_tool host timeout tool w = (r, w')"
  obtains (refused) "r = Inl (Not_Allowlisted tool)" "w' = w" "\<not> allowlisted tool"
    | (missing) "r = Inl (Missing_Tool tool)" "w' = w"
    | (failed) c path e where "c \<in> set Phase1" "al_tool c = tool" "resolve_path host (al_path c) = Some path"
        "starts (\<lambda>x. x = (path, al_args c)) w w'" "r = Inl (Failed e)"
    | (ran) c path x where "c \<in> set Phase1" "al_tool c = tool" "resolve_path host (al_path c) = Some path"
        "starts (\<lambda>x. x = (path, al_args c) \<or> x = (path, [''--version''])) w w'" "r = Inr x"
        "tr_tool x = tool" "tr_category x = al_category c"
proof (cases "lookup_tool tool")
  case (Inl e)
  with assms show thesis
    by (intro refused) (auto simp: run_tool_def lookup_tool_def allowlisted_def split: option.splits)
next
  case (Inr c)
  note c = lookup_cases [OF Inr]
  show thesis
  proof (cases "resolve_path host (al_path c)")
    case None
    with assms Inr show thesis by (intro missing) (simp_all add: run_tool_def)
  next
    case (Some path)
    obtain p w1 where e: "execute host (Some timeout) path (al_args c) w = (p, w1)" by (metis prod.exhaust)
    obtain version w2 where v: "detect_version host path w1 = (version, w2)" by (metis prod.exhaust)
    let ?p = "\<lambda>x. x = (path, al_args c) \<or> x = (path, [''--version''])"
    have one: "starts (\<lambda>x. x = (path, al_args c)) w w1" by (rule execute_starts [OF e]) simp
    have two: "starts ?p w w2"
      by (rule starts_trans [OF execute_starts [OF e] detect_version_starts [OF v]]) simp_all
    show thesis
    proof (cases "pc_status p")
      case (Exit_Code code)
      with assms Inr Some e v c two show thesis by (intro ran [of c path]) (auto simp: run_tool_def Let_def)
    next
      case (Not_Run m)
      with assms Inr Some e c one show thesis by (intro failed [of c path m]) (auto simp: run_tool_def Let_def)
    qed
  qed
qed

lemma starts_mono: "starts p w w' \<Longrightarrow> (\<And>x. p x \<Longrightarrow> q x) \<Longrightarrow> starts q w w'"
  by (auto simp: starts_def list_all_iff)

lemma licensed_entry:
  assumes "c \<in> set Phase1" and "al_tool c \<in> set tools" and "resolve_path host (al_path c) = Some path"
  shows "licensed host tools (path, al_args c)" and "licensed host tools (path, [''--version''])"
  using assms by (auto simp: licensed_def list_ex_iff)

lemma run_tool_licensed:
  assumes "run_tool host timeout tool w = (r, w')" and "tool \<in> set tools"
  shows "starts (licensed host tools) w w'"
  using assms(1)
proof (cases rule: run_tool_cases)
  case (failed c path e)
  from failed(1,2,3) assms(2) have "licensed host tools (path, al_args c)" by (intro licensed_entry) simp_all
  then show ?thesis by (intro starts_mono [OF failed(4)]) simp
next
  case (ran c path x)
  from ran(1,2,3) assms(2) have "licensed host tools (path, al_args c)" "licensed host tools (path, [''--version''])"
    by (auto intro: licensed_entry)
  then show ?thesis by (intro starts_mono [OF ran(4)]) auto
qed (simp_all add: starts_refl)

lemma collect_licensed:
  "collect_tools host timeout ts items w = (r, w') \<Longrightarrow> set ts \<subseteq> set tools \<Longrightarrow> starts (licensed host tools) w w'"
proof (induction ts arbitrary: items w)
  case (Cons t ts)
  obtain r1 w1 where run: "run_tool host timeout t w = (r1, w1)" by (metis prod.exhaust)
  from Cons.prems(2) have first: "starts (licensed host tools) w w1" by (intro run_tool_licensed [OF run]) simp
  have rest: "starts (licensed host tools) w w'" if "collect_tools host timeout ts items' w2 = (r, w')" and "fst w2 = fst w1"
    for items' w2
    using Cons.IH [OF that(1)] Cons.prems(2) first that(2) by (auto simp: starts_def)
  from run show ?case
  proof (cases rule: run_tool_cases)
    case (missing)
    with Cons.prems(1) run show ?thesis by (intro rest [of items w1]) simp_all
  next
    case (ran c path x)
    obtain i h where "ho_uuid host (snd w1) = (i, h)" by (metis prod.exhaust)
    with Cons.prems(1) run ran(5) show ?thesis by (intro rest [of "items @ [item_of x i]" "(fst w1, h)"]) simp_all
  qed (use Cons.prems(1) run first in auto)
qed (simp add: starts_refl)

text \<open>What is collected comes from an allow-listed tool, under its category.\<close>

definition collected :: "string list \<Rightarrow> item \<Rightarrow> bool" where
  "collected tools it \<longleftrightarrow>
     list_ex (\<lambda>c. al_tool c \<in> set tools \<and> it_source_tool it = al_tool c \<and> it_category it = al_category c) Phase1"

lemma collect_collected:
  "collect_tools host timeout ts items w = (Inr items', w') \<Longrightarrow> set ts \<subseteq> set tools \<Longrightarrow>
     list_all (collected tools) items \<Longrightarrow> list_all (collected tools) items'"
proof (induction ts arbitrary: items w)
  case (Cons t ts)
  obtain r1 w1 where run: "run_tool host timeout t w = (r1, w1)" by (metis prod.exhaust)
  from Cons.prems(2) have ts: "set ts \<subseteq> set tools" and t: "t \<in> set tools" by simp_all
  from run show ?case
  proof (cases rule: run_tool_cases)
    case (missing)
    with Cons.prems(1) run show ?thesis by (intro Cons.IH [OF _ ts Cons.prems(3)]) simp
  next
    case (ran c path x)
    obtain i h where i: "ho_uuid host (snd w1) = (i, h)" by (metis prod.exhaust)
    from ran(1,2,6,7) t have "collected tools (item_of x i)" by (auto simp: collected_def item_of_def list_ex_iff)
    with Cons.prems(3) have "list_all (collected tools) (items @ [item_of x i])" by simp
    moreover have "collect_tools host timeout ts (items @ [item_of x i]) (fst w1, h) = (Inr items', w')"
      using Cons.prems(1) run ran(5) i by simp
    ultimately show ?thesis by (intro Cons.IH [OF _ ts])
  qed (use Cons.prems(1) run in auto)
qed simp

section \<open>From the collector to the ingestion API\<close>

text \<open>
  The two sides of the bundle format agree: what the Go encoders write, the Python decoders read.
  \<open>fromisoformat\<close> keeps the microseconds of the nanoseconds that \<open>MarshalJSON\<close> writes.
\<close>

definition member_of :: "tar_entry \<Rightarrow> tar_member" where
  "member_of e = \<lparr>tm_name = te_name e, tm_content = Regular (Inr (te_data e))\<rparr>"

definition understood ::
  "codec \<Rightarrow> (bytes \<Rightarrow> archive decoded) \<Rightarrow> (bytes \<Rightarrow> pyval decoded) \<Rightarrow> (string \<Rightarrow> datetime res) \<Rightarrow> bool" where
  "understood cd tar_open jbytes fromiso \<longleftrightarrow>
     cd_uuid_text cd = uuid_str \<and>
     (\<forall>es data. cd_targz cd es = Inr data \<longrightarrow> tar_open data = Decoded (map member_of es)) \<and>
     (\<forall>v bs. cd_marshal cd v = Inr bs \<longrightarrow> jbytes bs = Decoded v) \<and>
     (\<forall>t s. cd_time_json cd t = Inr s \<longrightarrow> fromiso s = Inr (t div 1000))"

definition received_item :: "item \<Rightarrow> bundle_item" where
  "received_item it =
     \<lparr>bi_id = it_id it, bi_source_tool = PyStr (it_source_tool it), bi_source_tool_version = PyStr (it_source_tool_version it),
      bi_category = PyStr (it_category it), bi_collected_at = it_collected_at it div 1000, bi_file_path = it_file it,
      bi_raw_bytes = it_raw it\<rparr>"

text \<open>What \<open>Build\<close> does to an item: an identifier if it had none, and its file.\<close>

definition filed :: "codec \<Rightarrow> item \<Rightarrow> item \<Rightarrow> bool" where
  "filed cd it it' \<longleftrightarrow>
     it' = it\<lparr>it_id := it_id it', it_file := item_file cd (it_id it')\<rparr> \<and> (it_id it \<noteq> 0 \<longrightarrow> it_id it' = it_id it)"

lemma set_files_filed: "set_files host cd items h = (items', h') \<Longrightarrow> list_all2 (filed cd) items items'"
  by (induction items arbitrary: h items') (auto simp: filed_def split: prod.splits if_splits)

lemma rstrip_last: "\<not> p c \<Longrightarrow> rstrip p (s @ [c]) = s @ [c]"
  by (simp add: rstrip_def)

lemma item_file_rstrip: "rstrip (\<lambda>c. c = CHR ''/'') (item_file cd i) = item_file cd i"
  using rstrip_last [of "\<lambda>c. c = CHR ''/''" "CHR ''w''" "''items/'' @ cd_uuid_text cd i @ ''.ra''"]
  by (simp add: item_file_def)

lemma digit_not_slash: "d < 16 \<Longrightarrow> digit_char d \<noteq> CHR ''/''"
  by (erule less_16_cases) (simp_all add: digit_char_def)

lemma uuid_str_no_slash: "CHR ''/'' \<notin> set (uuid_str u)"
proof
  assume "CHR ''/'' \<in> set (uuid_str u)"
  from uuid_str_chars [OF this] obtain d where "d < 16" "CHR ''/'' = digit_char d" by auto
  with digit_not_slash [of d] show False by simp
qed

lemma str_split_none: "c \<notin> set s \<Longrightarrow> str_split c s = [s]"
  by (induction s) auto

lemma item_file_safe:
  assumes "cd_uuid_text cd = uuid_str"
  shows "\<not> unsafe_name (item_file cd i)"
proof -
  have "str_split (CHR ''/'') (uuid_str i @ ''.raw'') = [uuid_str i @ ''.raw'']"
    using uuid_str_no_slash by (intro str_split_none) simp
  then have "str_split (CHR ''/'') (item_file cd i) = [''items'', uuid_str i @ ''.raw'']"
    by (simp add: item_file_def assms)
  moreover have "length (uuid_str i @ ''.raw'') \<noteq> length ''..''" by simp
  then have "uuid_str i @ ''.raw'' \<noteq> ''..''" by metis
  ultimately show ?thesis by (simp add: unsafe_name_def item_file_def)
qed

lemma getmember_distinct:
  assumes "distinct (map tm_name tf)" and "m \<in> set tf" and "rstrip (\<lambda>c. c = CHR ''/'') (tm_name m) = tm_name m"
  obtains before where "getmember tf (tm_name m) = Some (m, before)"
proof -
  let ?p = "\<lambda>x. tm_name x \<noteq> tm_name m"
  have "dropWhile ?p (rev tf) \<noteq> []" using assms(2) by (auto simp: dropWhile_eq_Nil_conv)
  then obtain x xs where x: "dropWhile ?p (rev tf) = x # xs" by (cases "dropWhile ?p (rev tf)") auto
  then have "tm_name x = tm_name m" by (auto simp: dropWhile_eq_Cons_conv)
  moreover from x have "x \<in> set tf" by (metis list.set_intros(1) set_dropWhileD set_rev)
  ultimately have "x = m" using assms(1,2) by (auto simp: distinct_map inj_on_def)
  with x that show thesis by (simp add: getmember_def lookup_member_def assms(3))
qed

lemma parse_item_received:
  assumes "understood cd tar_open jbytes fromiso" and "item_json cd it = Inr v"
    and "it_file it = item_file cd (it_id it)"
    and "\<exists>before. getmember tf (it_file it) = Some (\<lparr>tm_name = it_file it, tm_content = Regular (Inr (it_raw it))\<rparr>, before)"
  shows "parse_item fromiso tf v = Inr (received_item it)"
proof -
  have canonical: "cd_uuid_text cd = uuid_str" using assms(1) by (simp add: understood_def)
  from assms(2) obtain t where t: "cd_time_json cd (it_collected_at it) = Inr t"
    and v: "v = PyDict [(''id'', PyStr (uuid_str (it_id it))), (''source_tool'', PyStr (it_source_tool it)),
        (''source_tool_version'', PyStr (it_source_tool_version it)), (''category'', PyStr (it_category it)),
        (''collected_at'', PyStr t), (''file'', PyStr (it_file it))]"
    by (auto simp: item_json_def canonical)
  from t assms(1) have iso: "fromiso t = Inr (it_collected_at it div 1000)" by (simp add: understood_def)
  have safe: "\<not> unsafe_name (it_file it)" unfolding assms(3) by (rule item_file_safe [OF canonical])
  have keys: "missing_keys required_item d = []" if "v = PyDict d" for d
    using that by (auto simp: v missing_keys_def required_item_def)
  show ?thesis
    using keys safe iso assms(4)
    by (auto simp: parse_item_def v as_dict_def file_name_def parse_date_def received_item_def)
qed

lemma mapE_map2:
  "mapE f xs = Inr vs \<Longrightarrow> (\<And>x v. x \<in> set xs \<Longrightarrow> f x = Inr v \<Longrightarrow> g v = Inr (h x)) \<Longrightarrow> mapE g vs = Inr (map h xs)"
proof (induction xs arbitrary: vs)
  case (Cons x xs)
  from Cons.prems(1) obtain w ws where w: "f x = Inr w" and ws: "mapE f xs = Inr ws" and vs: "vs = w # ws" by auto
  from Cons.prems(2) [OF _ w] have "g w = Inr (h x)" by simp
  moreover from Cons.prems(2) have "mapE g ws = Inr (map h xs)" by (intro Cons.IH [OF ws]) simp
  ultimately show ?case by (simp add: vs)
qed simp

lemma entries_distinct:
  assumes "cd_uuid_text cd = uuid_str" and "distinct (map it_id items)"
    and "\<And>it. it \<in> set items \<Longrightarrow> it_file it = item_file cd (it_id it)"
  shows "distinct (map te_name (bundle_entries man now items))"
proof -
  have "inj_on it_id (set items)" and d: "distinct items" using assms(2) by (simp_all add: distinct_map)
  then have "inj_on it_file (set items)"
    using assms(1,3) by (auto simp: inj_on_def item_file_def)
  with d have "distinct (map it_file items)" by (simp add: distinct_map)
  moreover have "''manifest.json'' \<notin> it_file ` set items" using assms(3) by (auto simp: item_file_def)
  ultimately show ?thesis by (simp add: bundle_entries_def entry_def comp_def)
qed

lemma build_parses:
  assumes "build host cd sc items h = (Inr data, items', h')" and "understood cd tar_open jbytes fromiso"
    and "distinct (map it_id items')"
  shows "parse_bundle tar_open jbytes fromiso data =
      (if items = [] then Inl (TypeError ''NoneType object is not iterable'')
       else bindE (fromiso (cd_rfc3339 cd (ho_now host h))) (\<lambda>stamp. Inr
      \<lparr>bu_schema_version = SchemaVersion, bu_collector_version = CollectorVersion, bu_collected_at = stamp,
       bu_scope = scope_json sc, bu_items = map received_item items'\<rparr>)) \<and>
    list_all2 (filed cd) items items'"
proof -
  let ?now = "ho_now host h"
  obtain its h2 where files: "set_files host cd items h = (its, h2)" by (metis prod.exhaust)
  from assms(1) obtain man bs where same: "its = items'" and man: "manifest_json cd ?now sc items' = Inr man"
    and bs: "cd_marshal cd man = Inr bs" and tgz: "cd_targz cd (bundle_entries bs ?now items') = Inr data"
    by (auto simp: build_def files Let_def)
  from assms(2) tgz bs have tar: "tar_open data = Decoded (map member_of (bundle_entries bs ?now items'))"
    and js: "jbytes bs = Decoded man" and canonical: "cd_uuid_text cd = uuid_str"
    by (auto simp: understood_def)
  note filed = set_files_filed [OF files, unfolded same]
  have named: "it_file it = item_file cd (it_id it)" if "it \<in> set items'" for it
  proof -
    from that obtain i where "i < length items'" "it = items' ! i" by (auto simp: in_set_conv_nth)
    with filed have "filed cd (items ! i) it" by (simp add: list_all2_conv_all_nth)
    then have e: "it = (items ! i)\<lparr>it_id := it_id it, it_file := item_file cd (it_id it)\<rparr>" by (simp add: filed_def)
    have "it_file ((items ! i)\<lparr>it_id := it_id it, it_file := item_file cd (it_id it)\<rparr>) = item_file cd (it_id it)" by simp
    with e show ?thesis by metis
  qed
  let ?tf = "map member_of (bundle_entries bs ?now items')"
  have names: "map tm_name ?tf = map te_name (bundle_entries bs ?now items')" by (simp add: member_of_def comp_def)
  have dist: "distinct (map tm_name ?tf)" unfolding names by (rule entries_distinct [OF canonical assms(3) named])
  obtain before where manifest: "getmember ?tf ''manifest.json'' =
      Some (\<lparr>tm_name = ''manifest.json'', tm_content = Regular (Inr bs)\<rparr>, before)"
    using getmember_distinct [OF dist, of "\<lparr>tm_name = ''manifest.json'', tm_content = Regular (Inr bs)\<rparr>"]
    by (auto simp: bundle_entries_def entry_def member_of_def rstrip_def)
  have member: "\<exists>before. getmember ?tf (it_file it) =
      Some (\<lparr>tm_name = it_file it, tm_content = Regular (Inr (it_raw it))\<rparr>, before)" if "it \<in> set items'" for it
  proof -
    let ?m = "\<lparr>tm_name = it_file it, tm_content = Regular (Inr (it_raw it))\<rparr>"
    have "?m \<in> set ?tf"
      using that by (simp add: bundle_entries_def entry_def member_of_def image_iff) force
    moreover have "rstrip (\<lambda>c. c = CHR ''/'') (tm_name ?m) = tm_name ?m"
      using named [OF that] item_file_rstrip [of cd "it_id it"] by simp
    ultimately show ?thesis using getmember_distinct [OF dist, of ?m] by auto
  qed
  from man obtain vs where vs: "mapE (item_json cd) items' = Inr vs"
    and m: "man = PyDict [(''schema_version'', PyStr SchemaVersion), (''collector_version'', PyStr CollectorVersion),
        (''collected_at'', PyStr (cd_rfc3339 cd ?now)), (''scope'', scope_json sc), (''items'', slice_json vs)]"
    by (auto simp: manifest_json_def)
  have items: "mapE (parse_item fromiso ?tf) vs = Inr (map received_item items')"
    by (rule mapE_map2 [OF vs]) (rule parse_item_received [OF assms(2) _ named member])
  have "missing_keys required_top d = []" if "man = PyDict d" for d
    using that by (auto simp: m missing_keys_def required_top_def)
  moreover have "vs = [] \<longleftrightarrow> items' = []" "items' = [] \<longleftrightarrow> items = []"
    using mapE_length [OF vs] list_all2_lengthD [OF filed] by auto
  ultimately have "parse_manifest fromiso ?tf man =
      (if items = [] then Inl (TypeError ''NoneType object is not iterable'')
       else bindE (fromiso (cd_rfc3339 cd ?now)) (\<lambda>stamp. Inr
      \<lparr>bu_schema_version = SchemaVersion, bu_collector_version = CollectorVersion, bu_collected_at = stamp,
       bu_scope = scope_json sc, bu_items = map received_item items'\<rparr>))"
    using items by (simp add: parse_manifest_def m as_dict_def parse_date_def slice_json_def)
  then show ?thesis using manifest tar js filed by (simp add: parse_bundle_def)
qed

section \<open>A host with one tool\<close>

text \<open>Only \<open>uname\<close> is installed; identifiers count up from the state; the codec knows one bundle.\<close>

definition sample_host :: "nat host" where
  "sample_host =
     \<lparr>ho_hostname = Some ''box'', ho_look_path = (\<lambda>n. if n = ''uname'' then Some ''/bin/uname'' else None),
      ho_exe_dir = Some ''/opt'', ho_is_file = (\<lambda>p. False),
      ho_run = (\<lambda>t p a h. (\<lparr>pc_status = Exit_Code 0, pc_stdout = [76], pc_stderr = [], pc_combined = [57]\<rparr>, h)),
      ho_now = (\<lambda>h. 0), ho_uuid = (\<lambda>h. (of_nat h, Suc h)), ho_text = (\<lambda>b. ''uname 9''),
      ho_write_file = (\<lambda>p b h. (Inr (), h))\<rparr>"

definition sample_collected :: item where
  "sample_collected = \<lparr>it_id = 7, it_source_tool = ''uname'', it_source_tool_version = ''uname 9'',
     it_category = ''inventory'', it_collected_at = 0, it_file = [], it_raw = [76]\<rparr>"

definition sample_filed :: item where
  "sample_filed = sample_collected\<lparr>it_file := ''items/'' @ uuid_str 7 @ ''.raw''\<rparr>"

definition sample_scope :: scope_rec where
  "sample_scope = \<lparr>sc_hostname = ''box'', sc_host_uuid = ''id-box'', sc_os = ''linux''\<rparr>"

definition sample_manifest_json :: pyval where
  "sample_manifest_json = PyDict
     [(''schema_version'', PyStr ''1''), (''collector_version'', PyStr ''0.1.0''), (''collected_at'', PyStr ''z''),
      (''scope'', scope_json sample_scope),
      (''items'', PyList [PyDict [(''id'', PyStr (uuid_str 7)), (''source_tool'', PyStr ''uname''),
         (''source_tool_version'', PyStr ''uname 9''), (''category'', PyStr ''inventory''), (''collected_at'', PyStr ''z''),
         (''file'', PyStr (''items/'' @ uuid_str 7 @ ''.raw''))]])]"

definition sample_entries :: "tar_entry list" where
  "sample_entries = bundle_entries [1] 0 [sample_filed]"

definition sample_codec :: codec where
  "sample_codec =
     \<lparr>cd_uuid_text = uuid_str, cd_host_uuid = (\<lambda>n. ''id-'' @ n),
      cd_time_json = (\<lambda>t. if t = 0 then Inr ''z'' else Inl (OtherError ''year'')), cd_rfc3339 = (\<lambda>t. ''z''),
      cd_marshal = (\<lambda>v. if v = sample_manifest_json then Inr [1] else Inl (OtherError ''marshal'')),
      cd_targz = (\<lambda>es. if es = sample_entries then Inr [2] else Inl (OtherError ''tar''))\<rparr>"

definition sample_tar :: "bytes \<Rightarrow> archive decoded" where
  "sample_tar data = Decoded (map member_of sample_entries)"

lemma sample_understood: "understood sample_codec sample_tar (\<lambda>b. Decoded sample_manifest_json) (\<lambda>s. Inr 0)"
  by (simp add: understood_def sample_codec_def sample_tar_def)

lemma sample_select: "select_tools ''uname,rm'' = [''uname'']"
  by code_simp

lemma sample_collects:
  "collect_tools sample_host 60 [''uname''] [] (past, 7) =
     (Inr [sample_collected], (past @ [(''/bin/uname'', [''-a'']), (''/bin/uname'', [''--version''])], 8))"
proof -
  have l: "lookup_tool ''uname'' = Inr (command ''uname'' [''-a''] ''inventory'')"
    by (simp add: lookup_tool_def Phase1_def command_def)
  have v: "hd (str_split (CHR 0x0A) (trim ''uname 9'')) = ''uname 9''" by code_simp
  have r: "resolve_path sample_host ''uname'' = Some ''/bin/uname''" by (simp add: resolve_path_def sample_host_def)
  have e: "execute sample_host t p a (l, h) = (\<lparr>pc_status = Exit_Code 0, pc_stdout = [76], pc_stderr = [], pc_combined = [57]\<rparr>, (l @ [(p, a)], h))"
    for t p a l h by (simp add: execute_def sample_host_def)
  have d: "detect_version sample_host p (l, h) = (''uname 9'', (l @ [(p, [''--version''])], h))" for p l h
    using v by (simp add: detect_version_def e) (simp add: sample_host_def)
  have "run_tool sample_host 60 ''uname'' (past, 7) =
      (Inr \<lparr>tr_tool = ''uname'', tr_version = ''uname 9'', tr_category = ''inventory'', tr_started_at = 0, tr_duration = 0,
        tr_exit_code = 0, tr_raw = [76], tr_stderr = []\<rparr>,
       (past @ [(''/bin/uname'', [''-a'']), (''/bin/uname'', [''--version''])], 7))"
    by (simp add: run_tool_def l command_def r e d Let_def) (simp add: sample_host_def)
  then show ?thesis by (simp add: item_of_def sample_collected_def) (simp add: sample_host_def)
qed

lemma sample_builds:
  "build sample_host sample_codec sample_scope [sample_collected] h = (Inr [2], [sample_filed], h)"
proof -
  have f: "set_files sample_host sample_codec [sample_collected] h = ([sample_filed], h)"
    by (simp add: sample_collected_def sample_filed_def item_file_def sample_codec_def)
  have m: "manifest_json sample_codec 0 sample_scope [sample_filed] = Inr sample_manifest_json"
    by (simp add: manifest_json_def item_json_def sample_codec_def sample_filed_def sample_collected_def
        sample_manifest_json_def slice_json_def SchemaVersion_def CollectorVersion_def)
  have n: "ho_now sample_host h = 0" by (simp add: sample_host_def)
  show ?thesis
    unfolding build_def Let_def n f prod.case m by (simp add: sample_codec_def sample_entries_def)
qed

section \<open>Properties\<close>

lemma deliver_starts:
  assumes "deliver host sv sc upload output tarball (w, s) = (res, w', s')"
  shows "fst w' = fst w \<and> (output \<noteq> [] \<longrightarrow> s' = s)"
  using assms by (auto simp: deliver_def split: if_splits prod.splits sum.splits)

lemma run_cmd_starts:
  assumes "run_cmd host cd sv upload output tools timeout (w, s) = (res, w', s')"
  shows "starts (licensed host (select_tools tools)) w w' \<and> (output \<noteq> [] \<longrightarrow> s' = s)"
proof -
  obtain r w1 where c: "collect_tools host timeout (select_tools tools) [] w = (r, w1)" by (metis prod.exhaust)
  note first = collect_licensed [OF c subset_refl]
  have done1: "starts (licensed host (select_tools tools)) w w'" if "fst w' = fst w1"
    using first that by (simp add: starts_def)
  show ?thesis
  proof (cases r)
    case (Inl e)
    with assms c first show ?thesis
      by (auto simp: run_cmd_def starts_refl split: if_splits prod.splits)
  next
    case (Inr items)
    obtain rb items' h where b: "build host cd (host_scope host cd) items (snd w1) = (rb, items', h)" by (metis prod.exhaust)
    from assms c Inr b consider
        "w' = w" "s' = s" | "fst w' = fst w1" "s' = s"
      | tarball where "deliver host sv (host_scope host cd) upload output tarball ((fst w1, h), s) = (res, w', s')"
      by (auto simp: run_cmd_def split: if_splits sum.splits)
    then show ?thesis
    proof cases
      case 1
      then show ?thesis by (simp add: starts_refl)
    next
      case 2
      with done1 show ?thesis by simp
    next
      case 3
      with deliver_starts [OF 3] done1 show ?thesis by simp
    qed
  qed
qed

text \<open>
  C11. The collector starts nothing but its allow-list: however a run of the command ends, every
  program it started is the resolved path of an entry selected on the command line, either with
  exactly the entry's arguments, which the Rego decision allows, or with \<open>--version\<close>, which no
  decision allows; with an output file it sends nothing.
\<close>

theorem collector_runs_allowlist:
  assumes "run_cmd host cd sv upload output tools timeout (w, s) = (res, w', s')"
  shows "\<exists>new. fst w' = fst w @ new \<and> (output \<noteq> [] \<longrightarrow> s' = s) \<and>
    (\<forall>(path, args) \<in> set new. \<exists>c \<in> set Phase1. al_tool c \<in> set (select_tools tools) \<and>
       resolve_path host (al_path c) = Some path \<and>
       (args = al_args c \<and> allow (al_tool c) (al_path c) args \<or>
        args = [''--version''] \<and> \<not> allow (al_tool c) (al_path c) args))"
proof -
  from run_cmd_starts [OF assms] obtain new where log: "fst w' = fst w @ new" "output \<noteq> [] \<longrightarrow> s' = s"
    and new: "list_all (licensed host (select_tools tools)) new"
    by (auto simp: starts_def)
  have "\<exists>c \<in> set Phase1. al_tool c \<in> set (select_tools tools) \<and> resolve_path host (al_path c) = Some path \<and>
       (args = al_args c \<and> allow (al_tool c) (al_path c) args \<or>
        args = [''--version''] \<and> \<not> allow (al_tool c) (al_path c) args)"
    if "(path, args) \<in> set new" for path args
  proof -
    from new that have "licensed host (select_tools tools) (path, args)" by (simp add: list_all_iff)
    then obtain c where c: "c \<in> set Phase1" and "al_tool c \<in> set (select_tools tools)"
      "resolve_path host (al_path c) = Some path" "args = al_args c \<or> args = [''--version'']"
      unfolding licensed_def list_ex_iff fst_conv snd_conv by (elim bexE conjE)
    with allow_own [OF c] version_not_allowed show ?thesis by blast
  qed
  with log show ?thesis by blast
qed

definition sample_server :: "string list server" where
  "sample_server = \<lparr>sv_post = (\<lambda>url body s. (Inr \<lparr>hr_status = 201, hr_body = []\<rparr>, s @ [url])), sv_run_id = (\<lambda>b. Inr ''r'')\<rparr>"

lemma sample_run_cmd:
  "run_cmd sample_host sample_codec sample_server ''u'' [] ''uname,rm'' 60 (([], 7), []) =
     (Inr (), ([(''/bin/uname'', [''-a'']), (''/bin/uname'', [''--version''])], 8), [''u/v1/runs'', ''u/v1/runs/r/bundle''])"
proof -
  have sc: "host_scope sample_host sample_codec = sample_scope"
    by (simp add: host_scope_def sample_host_def sample_codec_def sample_scope_def Let_def)
  have "deliver sample_host sample_server sample_scope ''u'' [] [2] (w, []) =
      (Inr (), w, [''u/v1/runs'', ''u/v1/runs/r/bundle''])" for w
    by (simp add: deliver_def client_create_run_def client_upload_bundle_def sample_server_def successful_def)
  with sample_collects [of "[]"] show ?thesis
    by (simp add: run_cmd_def sample_select sc sample_builds del: collect_tools.simps)
qed

theorem collector_runs_allowlist_witness:
  "\<exists>new c. new = [(''/bin/uname'', [''-a'']), (''/bin/uname'', [''--version''])] \<and> c \<in> set Phase1 \<and>
     resolve_path sample_host (al_path c) = Some (fst (hd new)) \<and> snd (hd new) = al_args c \<and>
     allow (al_tool c) (al_path c) (al_args c)"
proof -
  from collector_runs_allowlist [OF sample_run_cmd] obtain new where
    log: "[(''/bin/uname'', [''-a'']), (''/bin/uname'', [''--version''])] = new"
    and all: "\<forall>(path, args) \<in> set new. \<exists>c \<in> set Phase1. al_tool c \<in> set (select_tools ''uname,rm'') \<and>
       resolve_path sample_host (al_path c) = Some path \<and>
       (args = al_args c \<and> allow (al_tool c) (al_path c) args \<or>
        args = [''--version''] \<and> \<not> allow (al_tool c) (al_path c) args)"
    unfolding fst_conv append_Nil by (elim exE conjE)
  have "(''/bin/uname'', [''-a'']) \<in> set new" by (simp add: log [symmetric])
  with all obtain c where c: "c \<in> set Phase1" "resolve_path sample_host (al_path c) = Some ''/bin/uname''"
    "[''-a''] = al_args c \<and> allow (al_tool c) (al_path c) [''-a'']" by fastforce
  from c(3) have "allow (al_tool c) (al_path c) (al_args c)" by metis
  with c show ?thesis by (intro exI [of _ "[(''/bin/uname'', [''-a'']), (''/bin/uname'', [''--version''])]"] exI [of _ c]) simp
qed

text \<open>
  C12. A bundle survives the trip from Go to Python: when \<open>Build\<close> succeeds and the encoders of one
  side are understood by the decoders of the other, \<open>parse_bundle\<close> accepts the tarball (if it can
  read the date) and yields the scope and exactly the items, in order, each with its identifier, tool,
  version, category, bytes and its time in microseconds; \<open>Build\<close> itself only sets the file of an item
  and the identifier of one that had none. A bundle without items, which \<open>runCmd\<close> never builds, does not
  survive it: its items are \<open>null\<close>.
\<close>

theorem built_bundle_parses:
  assumes "build host cd sc items h = (Inr data, items', h')" and "understood cd tar_open jbytes fromiso"
    and "distinct (map it_id items')"
  shows "parse_bundle tar_open jbytes fromiso data =
      (if items = [] then Inl (TypeError ''NoneType object is not iterable'')
       else bindE (fromiso (cd_rfc3339 cd (ho_now host h))) (\<lambda>stamp. Inr
      \<lparr>bu_schema_version = ''1'', bu_collector_version = ''0.1.0'', bu_collected_at = stamp,
       bu_scope = scope_json sc, bu_items = map received_item items'\<rparr>)) \<and>
    list_all2 (filed cd) items items'"
  using build_parses [OF assms] by (simp add: SchemaVersion_def CollectorVersion_def)

theorem built_bundle_parses_witness:
  "parse_bundle sample_tar (\<lambda>b. Decoded sample_manifest_json) (\<lambda>s. Inr 0) [2] =
     Inr \<lparr>bu_schema_version = ''1'', bu_collector_version = ''0.1.0'', bu_collected_at = 0,
       bu_scope = scope_json sample_scope, bu_items = [received_item sample_filed]\<rparr>"
  using built_bundle_parses [OF sample_builds sample_understood] by simp

end
