(* ===== verification/Domains.thy ===== *)
theory Domains
  imports Models
begin

text \<open>
  \<open>auditcore_orchestrator/domains.py\<close>: which agent describes the evidence of a category, and
  under which \<open>Observation.domain\<close> value.
\<close>

record domain_binding =
  db_domain :: string
  db_agent :: string

definition binding :: "string \<Rightarrow> string \<Rightarrow> domain_binding" where
  "binding d a = \<lparr>db_domain = d, db_agent = a\<rparr>"

definition CATEGORY_BINDINGS :: "(string \<times> domain_binding) list" where
  "CATEGORY_BINDINGS =
     [(''security'', binding ''security'' ''security_analysis''),
      (''performance'', binding ''performance'' ''performance_analysis''),
      (''cloud'', binding ''cloud'' ''cloud_analysis''),
      (''kubernetes'', binding ''k8s'' ''kubernetes''),
      (''database'', binding ''db'' ''database''),
      (''hardware'', binding ''hardware'' ''hardware''),
      (''inventory'', binding ''hardware'' ''hardware'')]"

definition binding_for :: "string \<Rightarrow> domain_binding option" where
  "binding_for category = map_of CATEGORY_BINDINGS category"

lemma binding_simps [simp]: "db_domain (binding d a) = d" "db_agent (binding d a) = a"
  by (simp_all add: binding_def)

lemma binding_for_mem: "binding_for c = Some b \<Longrightarrow> (c, b) \<in> set CATEGORY_BINDINGS"
  by (auto simp: binding_for_def dest: map_of_SomeD)

text \<open>An agent is bound under one domain only, so grouping by agent loses no domain.\<close>

lemma binding_agent_domain:
  assumes "binding_for c = Some b" and "binding_for c' = Some b'" and "db_agent b = db_agent b'"
  shows "db_domain b = db_domain b'"
  using binding_for_mem [OF assms(1)] binding_for_mem [OF assms(2)] assms(3)
  by (auto simp: CATEGORY_BINDINGS_def)

text \<open>Every bound domain is a value of the \<open>Domain\<close> enumeration.\<close>

lemma binding_domain_valid:
  assumes "binding_for c = Some b"
  shows "\<exists>d. domain_of (db_domain b) = Some d"
  using binding_for_mem [OF assms]
  by (auto simp: CATEGORY_BINDINGS_def domain_of_def all_domains_def)

end
