(* ===== verification/Registry.thy ===== *)
theory Registry
  imports Py_Uuid "HOL-Library.AList"
begin

text \<open>
  \<open>packages/agents-py/auditcore_agents/registry.py\<close>: the agent registry and its loader.

  The file system is an argument: a map from absolute paths (component lists) to files with
  their text or directories with the names of their entries; symbolic links and undecodable
  files are not modelled. \<open>yaml\<close> is PyYAML's \<open>safe_load\<close> and \<open>jload\<close> is \<open>json.loads\<close>, both
  arbitrary functions here; \<open>jload\<close> gives \<open>Inl m\<close> where it raises a \<open>JSONDecodeError\<close> with text \<open>m\<close>.
\<close>

section \<open>Paths\<close>

type_synonym path = "string list"

datatype fs_node = FFile string | FDir "string list"

type_synonym fs = "path \<Rightarrow> fs_node option"

definition path_parts :: "string \<Rightarrow> string list" where
  "path_parts s = filter (\<lambda>p. p \<noteq> [] \<and> p \<noteq> ''.'') (str_split CHR ''/'' s)"

text \<open>\<open>directory / value\<close>: an absolute \<open>value\<close> replaces the directory.\<close>

definition path_join :: "path \<Rightarrow> string \<Rightarrow> path" where
  "path_join d v = (if prefix ''/'' v then path_parts v else d @ path_parts v)"

text \<open>\<open>p.resolve()\<close> without symbolic links.\<close>

definition path_resolve :: "path \<Rightarrow> path" where
  "path_resolve p = foldl (\<lambda>acc x. if x = ''..'' then butlast acc else acc @ [x]) [] p"

definition is_dir :: "fs \<Rightarrow> path \<Rightarrow> bool" where
  "is_dir fs p = (case fs p of Some (FDir _) \<Rightarrow> True | _ \<Rightarrow> False)"

definition path_exists :: "fs \<Rightarrow> path \<Rightarrow> bool" where
  "path_exists fs p = (fs p \<noteq> None)"

definition read_text :: "fs \<Rightarrow> path \<Rightarrow> string res" where
  "read_text fs p =
     (case fs p of
        Some (FFile t) \<Rightarrow> Inr t
      | Some (FDir _) \<Rightarrow> Inl (OSError ''Is a directory'')
      | None \<Rightarrow> Inl (OSError ''No such file or directory''))"

text \<open>\<open>f"{p}"\<close>, and the error message that starts with the path of the specification.\<close>

definition path_str :: "path \<Rightarrow> string" where
  "path_str p = ''/'' @ str_join ''/'' p"

definition spec_error :: "path \<Rightarrow> string \<Rightarrow> 'a res" where
  "spec_error spec_path msg = Inl (AgentSpecError (path_str spec_path @ '': '' @ msg))"

section \<open>Agent definitions\<close>

type_synonym json_decoder = "string \<Rightarrow> string + pyval"

definition VALID_TASK_KINDS :: "string list" where
  "VALID_TASK_KINDS = [''SUMMARIZE'', ''CLASSIFY'', ''REASON'', ''LONG_CONTEXT'', ''CODE'']"

definition VALID_BUDGETS :: "string list" where
  "VALID_BUDGETS = [''low'', ''normal'', ''high'']"

definition VALID_PRIVACY :: "string list" where
  "VALID_PRIVACY = [''standard'', ''sensitive'', ''air_gapped'']"

record agent_definition =
  ag_name :: string
  ag_version :: string
  ag_purpose :: string
  ag_task_kind :: string
  ag_budget_hint :: string
  ag_privacy :: string
  ag_system_prompt :: string
  ag_output_schema :: "pyval option"
  ag_contract :: "pyval list"
  ag_directory :: path

definition routing :: "agent_definition \<Rightarrow> (string \<times> string) list" where
  "routing a = [(''task_kind'', ag_task_kind a), (''budget_hint'', ag_budget_hint a), (''privacy'', ag_privacy a)]"

text \<open>\<open>v in S\<close> for a Python set of strings: an unhashable \<open>v\<close> raises.\<close>

fun in_str_set :: "string list \<Rightarrow> pyval \<Rightarrow> bool res" where
  "in_str_set xs (PyStr s) = Inr (s \<in> set xs)"
| "in_str_set xs (PyList _) = Inl (TypeError ''unhashable type: list'')"
| "in_str_set xs (PyDict _) = Inl (TypeError ''unhashable type: dict'')"
| "in_str_set xs _ = Inr False"

definition require :: "pydict \<Rightarrow> string \<Rightarrow> path \<Rightarrow> string res" where
  "require raw key spec_path =
     (case map_of raw key of
        None \<Rightarrow> spec_error spec_path (''missing required key '' @ str_repr key)
      | Some v \<Rightarrow>
          if v = PyNone \<or> v = PyStr [] then spec_error spec_path (''missing required key '' @ str_repr key)
          else Inr (py_str v))"

definition as_path_text :: "pyval \<Rightarrow> string res" where
  "as_path_text v = (case v of PyStr s \<Rightarrow> Inr s | _ \<Rightarrow> Inl (TypeError (''unsupported operand type for /: '' @ py_type v)))"

definition resolve_prompt :: "fs \<Rightarrow> path \<Rightarrow> pyval \<Rightarrow> path \<Rightarrow> string res" where
  "resolve_prompt fs directory value spec_path =
     (if \<not> py_truthy value then spec_error spec_path ''system_prompt is required''
      else bindE (as_path_text value) (\<lambda>v.
        let prompt_path = path_resolve (path_join directory v) in
        if \<not> path_exists fs prompt_path
        then spec_error spec_path (''system_prompt file not found: '' @ v)
        else read_text fs prompt_path))"

definition resolve_schema ::
  "fs \<Rightarrow> json_decoder \<Rightarrow> path \<Rightarrow> pyval \<Rightarrow> path \<Rightarrow> pyval option res" where
  "resolve_schema fs jload directory value spec_path =
     (if \<not> py_truthy value then Inr None
      else bindE (as_path_text value) (\<lambda>v.
        let schema_path = path_resolve (path_join directory v) in
        if \<not> path_exists fs schema_path
        then spec_error spec_path (''output_schema file not found: '' @ v)
        else bindE (read_text fs schema_path) (\<lambda>t.
          case jload t of
            Inl m \<Rightarrow> spec_error spec_path (''output_schema is not valid JSON: '' @ m)
          | Inr j \<Rightarrow> Inr (Some j))))"

definition dir_name :: "path \<Rightarrow> string" where
  "dir_name p = (if p = [] then [] else last p)"

definition load_one ::
  "fs \<Rightarrow> (string \<Rightarrow> pyval res) \<Rightarrow> json_decoder \<Rightarrow> path \<Rightarrow> path \<Rightarrow> agent_definition res" where
  "load_one fs yaml jload directory spec_path =
     bindE (read_text fs spec_path) (\<lambda>text.
     bindE (yaml text) (\<lambda>doc.
     case doc of
       PyDict raw \<Rightarrow>
         bindE (require raw ''name'' spec_path) (\<lambda>name.
         if name \<noteq> dir_name directory
         then spec_error spec_path (''name '' @ str_repr name @ '' does not match directory ''
               @ str_repr (dir_name directory))
         else bindE (require raw ''task_kind'' spec_path) (\<lambda>task_kind.
         if task_kind \<notin> set VALID_TASK_KINDS
         then spec_error spec_path (''task_kind '' @ str_repr task_kind @ '' not in ''
               @ py_repr (PyList (map PyStr (sort VALID_TASK_KINDS))))
         else
         let budget = dict_get raw ''budget_hint'' (PyStr ''normal'') in
         bindE (in_str_set VALID_BUDGETS budget) (\<lambda>budget_ok.
         if \<not> budget_ok then spec_error spec_path (''budget_hint '' @ py_repr budget @ '' invalid'')
         else
         let privacy = dict_get raw ''privacy'' (PyStr ''standard'') in
         bindE (in_str_set VALID_PRIVACY privacy) (\<lambda>privacy_ok.
         if \<not> privacy_ok then spec_error spec_path (''privacy '' @ py_repr privacy @ '' invalid'')
         else
         bindE (resolve_prompt fs directory (dict_get raw ''system_prompt'' PyNone) spec_path) (\<lambda>system_prompt.
         bindE (resolve_schema fs jload directory (dict_get raw ''output_schema'' PyNone) spec_path) (\<lambda>output_schema.
         bindE (py_iter (py_or (dict_get raw ''contract'' (PyList [])) (PyList []))) (\<lambda>contract.
         Inr \<lparr>ag_name = name,
              ag_version = py_str (dict_get raw ''version'' (PyStr ''0.0.0'')),
              ag_purpose = strip py_space (py_str (dict_get raw ''purpose'' (PyStr []))),
              ag_task_kind = task_kind,
              ag_budget_hint = py_str budget,
              ag_privacy = py_str privacy,
              ag_system_prompt = system_prompt,
              ag_output_schema = output_schema,
              ag_contract = contract,
              ag_directory = directory\<rparr>)))))))
     | _ \<Rightarrow> spec_error spec_path ''top-level YAML must be a mapping''))"

section \<open>The registry\<close>

type_synonym agent_registry = "(string \<times> agent_definition) list"

definition reg_contains :: "agent_registry \<Rightarrow> string \<Rightarrow> bool" where
  "reg_contains r name = (map_of r name \<noteq> None)"

definition reg_len :: "agent_registry \<Rightarrow> nat" where
  "reg_len r = length r"

definition reg_names :: "agent_registry \<Rightarrow> string list" where
  "reg_names r = sort (map fst r)"

definition reg_get :: "agent_registry \<Rightarrow> string \<Rightarrow> agent_definition res" where
  "reg_get r name =
     (case map_of r name of
        None \<Rightarrow> Inl (KeyError (''no such agent: '' @ str_repr name @ '' (have: ''
               @ py_repr (PyList (map PyStr (reg_names r))) @ '')''))
      | Some a \<Rightarrow> Inr a)"

definition reg_all :: "agent_registry \<Rightarrow> agent_definition list res" where
  "reg_all r = mapE (reg_get r) (reg_names r)"

fun load_loop ::
  "fs \<Rightarrow> (string \<Rightarrow> pyval res) \<Rightarrow> json_decoder \<Rightarrow> path \<Rightarrow> string list \<Rightarrow>
   agent_registry \<Rightarrow> agent_registry res" where
  "load_loop fs yaml jload agents_dir [] agents = Inr agents"
| "load_loop fs yaml jload agents_dir (child # children) agents =
     (if \<not> is_dir fs (agents_dir @ [child]) \<or> prefix ''_'' child
      then load_loop fs yaml jload agents_dir children agents
      else if \<not> path_exists fs (agents_dir @ [child, ''agent.yaml''])
      then load_loop fs yaml jload agents_dir children agents
      else bindE (load_one fs yaml jload (agents_dir @ [child]) (agents_dir @ [child, ''agent.yaml''])) (\<lambda>d.
        load_loop fs yaml jload agents_dir children (AList.update (ag_name d) d agents)))"

definition registry_load ::
  "fs \<Rightarrow> (string \<Rightarrow> pyval res) \<Rightarrow> json_decoder \<Rightarrow> path \<Rightarrow> agent_registry res" where
  "registry_load fs yaml jload agents_dir =
     (case fs agents_dir of
        Some (FDir entries) \<Rightarrow>
          bindE (load_loop fs yaml jload agents_dir (sort entries) []) (\<lambda>agents.
            if agents = [] then Inl (AgentSpecError (''no agent definitions found under '' @ path_str agents_dir)) else Inr agents)
      | _ \<Rightarrow> Inl (AgentSpecError (''agents dir not found: '' @ path_str agents_dir)))"

section \<open>What the loader guarantees\<close>

text \<open>Which directory entries the loader turns into agents.\<close>

definition eligible :: "fs \<Rightarrow> path \<Rightarrow> string \<Rightarrow> bool" where
  "eligible fs agents_dir child \<longleftrightarrow>
     is_dir fs (agents_dir @ [child]) \<and> \<not> prefix ''_'' child \<and>
     path_exists fs (agents_dir @ [child, ''agent.yaml''])"

definition load_child ::
  "fs \<Rightarrow> (string \<Rightarrow> pyval res) \<Rightarrow> json_decoder \<Rightarrow> path \<Rightarrow> string \<Rightarrow> agent_definition res" where
  "load_child fs yaml jload agents_dir child =
     load_one fs yaml jload (agents_dir @ [child]) (agents_dir @ [child, ''agent.yaml''])"

definition agent_ok :: "agent_definition \<Rightarrow> bool" where
  "agent_ok a \<longleftrightarrow>
     ag_name a = dir_name (ag_directory a) \<and> ag_task_kind a \<in> set VALID_TASK_KINDS \<and>
     ag_budget_hint a \<in> set VALID_BUDGETS \<and> ag_privacy a \<in> set VALID_PRIVACY"

definition registry_ok :: "agent_registry \<Rightarrow> bool" where
  "registry_ok r \<longleftrightarrow> distinct (map fst r) \<and> (\<forall>(n, a) \<in> set r. n = ag_name a \<and> agent_ok a)"

lemma in_str_set_True: "in_str_set xs v = Inr True \<Longrightarrow> \<exists>s. v = PyStr s \<and> s \<in> set xs"
  by (cases v) auto

lemma spec_error_not_Inr [simp]: "spec_error p m \<noteq> Inr x" "Inr x \<noteq> spec_error p m"
  by (simp_all add: spec_error_def)

lemma load_one_ok:
  assumes "load_one fs yaml jload d sp = Inr a"
  shows "ag_name a = dir_name d" and "ag_directory a = d" and "agent_ok a"
  using assms unfolding load_one_def
  by (auto simp: agent_ok_def Let_def split: pyval.splits if_splits dest!: in_str_set_True)

lemma load_child_name:
  "load_child fs yaml jload ad c = Inr a \<Longrightarrow> ag_name a = c"
  unfolding load_child_def by (drule load_one_ok(1)) (simp add: dir_name_def)

lemma load_loop_Cons:
  "load_loop fs yaml jload ad (c # cs) r =
     (if eligible fs ad c
      then bindE (load_child fs yaml jload ad c) (\<lambda>d. load_loop fs yaml jload ad cs (AList.update (ag_name d) d r))
      else load_loop fs yaml jload ad cs r)"
  by (auto simp: eligible_def load_child_def)

lemma update_fresh: "k \<notin> fst ` set r \<Longrightarrow> AList.update k v r = r @ [(k, v)]"
  by (induction r) auto

text \<open>On distinct entries the loop appends one loaded definition per eligible entry, in order.\<close>

lemma load_loop_entries:
  assumes "load_loop fs yaml jload ad cs r = Inr r'"
    and "distinct cs" and "set cs \<inter> fst ` set r = {}"
  shows "\<exists>new. r' = r @ new \<and> map fst new = filter (eligible fs ad) cs \<and>
           (\<forall>(c, a) \<in> set new. load_child fs yaml jload ad c = Inr a)"
  using assms
proof (induction cs arbitrary: r)
  case Nil
  then show ?case by simp
next
  case (Cons c cs)
  show ?case
  proof (cases "eligible fs ad c")
    case False
    with Cons show ?thesis by (simp add: load_loop_Cons del: load_loop.simps)
  next
    case True
    with Cons.prems(1) obtain a where a: "load_child fs yaml jload ad c = Inr a"
      and rest: "load_loop fs yaml jload ad cs (AList.update (ag_name a) a r) = Inr r'"
      by (auto simp: load_loop_Cons simp del: load_loop.simps)
    have upd: "AList.update (ag_name a) a r = r @ [(c, a)]"
      using Cons.prems(3) load_child_name [OF a] by (simp add: update_fresh)
    have "set cs \<inter> fst ` set (r @ [(c, a)]) = {}"
      using Cons.prems(2,3) by auto
    from Cons.IH [OF rest [unfolded upd] _ this] Cons.prems(2) obtain new where
      "r' = (r @ [(c, a)]) @ new" "map fst new = filter (eligible fs ad) cs"
      "\<forall>(c, a) \<in> set new. load_child fs yaml jload ad c = Inr a"
      by auto
    then have "r' = r @ ((c, a) # new) \<and> map fst ((c, a) # new) = filter (eligible fs ad) (c # cs) \<and>
        (\<forall>(c, a) \<in> set ((c, a) # new). load_child fs yaml jload ad c = Inr a)"
      using True a by simp
    then show ?thesis by blast
  qed
qed

lemma registry_load_entries:
  assumes "registry_load fs yaml jload ad = Inr r" and "fs ad = Some (FDir entries)" and "distinct entries"
  shows "map fst r = filter (eligible fs ad) (sort entries)"
    and "(c, a) \<in> set r \<Longrightarrow> load_child fs yaml jload ad c = Inr a"
    and "r \<noteq> []"
proof -
  from assms(1,2) have l: "load_loop fs yaml jload ad (sort entries) [] = Inr r" and ne: "r \<noteq> []"
    by (auto simp: registry_load_def split: if_splits)
  from load_loop_entries [OF l] assms(3)
  show "map fst r = filter (eligible fs ad) (sort entries)"
    and "(c, a) \<in> set r \<Longrightarrow> load_child fs yaml jload ad c = Inr a" and "r \<noteq> []"
    using ne by auto
qed

lemma registry_load_ok:
  assumes "registry_load fs yaml jload ad = Inr r" and "fs ad = Some (FDir entries)" and "distinct entries"
  shows "registry_ok r"
  unfolding registry_ok_def
proof (intro conjI ballI)
  show "distinct (map fst r)"
    using registry_load_entries(1) [OF assms] assms(3) by simp
next
  fix p
  assume pr: "p \<in> set r"
  obtain n a where p: "p = (n, a)" by (cases p)
  with pr have mem: "(n, a) \<in> set r" by simp
  from registry_load_entries(2) [OF assms mem] have l: "load_child fs yaml jload ad n = Inr a" .
  then have "n = ag_name a" using load_child_name by fastforce
  moreover from l have "agent_ok a" unfolding load_child_def by (rule load_one_ok(3))
  ultimately show "case p of (n, a) \<Rightarrow> n = ag_name a \<and> agent_ok a" by (simp add: p)
qed

section \<open>The catalogue interface\<close>

text \<open>
  What the orchestrator relies on when it looks agents up: membership decides whether \<open>get\<close>
  returns, and the names listed are the members.
\<close>

locale agent_catalog =
  fixes contains :: "'r \<Rightarrow> string \<Rightarrow> bool"
    and get :: "'r \<Rightarrow> string \<Rightarrow> 'a res"
    and names :: "'r \<Rightarrow> string list"
    and name_of :: "'a \<Rightarrow> string"
    and wf :: "'r \<Rightarrow> bool"
  assumes get_returns: "contains r n \<Longrightarrow> \<exists>a. get r n = Inr a"
    and get_raises: "\<not> contains r n \<Longrightarrow> \<exists>e. get r n = Inl (KeyError e)"
    and names_iff: "n \<in> set (names r) \<longleftrightarrow> contains r n"
    and get_name: "wf r \<Longrightarrow> get r n = Inr a \<Longrightarrow> name_of a = n"
begin

lemma get_cases: "(\<exists>a. contains r n \<and> get r n = Inr a) \<or> (\<not> contains r n \<and> (\<exists>e. get r n = Inl (KeyError e)))"
  using get_returns get_raises by blast

lemma mapE_get:
  assumes "wf r" and "\<And>n. n \<in> set ns \<Longrightarrow> contains r n"
  shows "\<exists>as. mapE (get r) ns = Inr as \<and> map name_of as = ns"
  using assms(2)
proof (induction ns)
  case Nil
  show ?case by simp
next
  case (Cons n ns)
  then obtain as where as: "mapE (get r) ns = Inr as" "map name_of as = ns" by auto
  have "contains r n" using Cons.prems by simp
  then obtain a where "get r n = Inr a" using get_returns by blast
  with as get_name [OF assms(1)] show ?case by auto
qed

lemma all_returns: "wf r \<Longrightarrow> \<exists>as. mapE (get r) (names r) = Inr as \<and> map name_of as = names r"
  by (rule mapE_get) (simp_all add: names_iff)

end

lemma map_of_registry: "registry_ok r \<Longrightarrow> map_of r n = Some a \<Longrightarrow> ag_name a = n \<and> agent_ok a"
  by (auto simp: registry_ok_def dest!: map_of_SomeD)

interpretation catalog: agent_catalog reg_contains reg_get reg_names ag_name registry_ok
proof unfold_locales
  fix r :: agent_registry and n :: string
  show "n \<in> set (reg_names r) \<longleftrightarrow> reg_contains r n"
    by (auto simp: reg_names_def reg_contains_def map_of_eq_None_iff)
qed (auto simp: reg_contains_def reg_get_def split: option.splits dest: map_of_registry)

section \<open>Properties\<close>

text \<open>A directory with one agent, a shared directory and a stray file, used by the witnesses.\<close>

definition sample_fs :: fs where
  "sample_fs = map_of
     [([''agents''], FDir [''hardware'', ''_shared'', ''notes'']),
      ([''agents'', ''hardware''], FDir [''agent.yaml'', ''p.md'']),
      ([''agents'', ''hardware'', ''agent.yaml''], FFile ''spec''),
      ([''agents'', ''hardware'', ''p.md''], FFile ''prompt''),
      ([''agents'', ''_shared''], FDir []),
      ([''agents'', ''notes''], FFile ''memo'')]"

definition sample_yaml :: "string \<Rightarrow> pyval res" where
  "sample_yaml t = (if t = ''spec''
     then Inr (PyDict [(''name'', PyStr ''hardware''), (''task_kind'', PyStr ''REASON''),
                       (''system_prompt'', PyStr ''p.md'')])
     else Inr PyNone)"

definition sample_json :: json_decoder where
  "sample_json t = Inl ''Expecting value''"

definition sample_agent :: agent_definition where
  "sample_agent = \<lparr>ag_name = ''hardware'', ag_version = ''0.0.0'', ag_purpose = [],
     ag_task_kind = ''REASON'', ag_budget_hint = ''normal'', ag_privacy = ''standard'',
     ag_system_prompt = ''prompt'', ag_output_schema = None, ag_contract = [],
     ag_directory = [''agents'', ''hardware'']\<rparr>"

lemma sample_load: "registry_load sample_fs sample_yaml sample_json [''agents''] = Inr [(''hardware'', sample_agent)]"
  by code_simp

lemma sample_fs_agents: "sample_fs [''agents''] = Some (FDir [''hardware'', ''_shared'', ''notes''])"
  by (simp add: sample_fs_def)

lemma loaded_entries:
  assumes "registry_load fs yaml jload ad = Inr r"
    and "fs ad = Some (FDir entries)" and "distinct entries"
  shows "reg_names r = filter (eligible fs ad) (sort entries) \<and>
    (\<forall>c \<in> set entries. eligible fs ad c \<longrightarrow>
       reg_get r c = load_one fs yaml jload (ad @ [c]) (ad @ [c, ''agent.yaml'']))"
proof (intro conjI ballI impI)
  note e = registry_load_entries [OF assms]
  have "sorted (filter (eligible fs ad) (sort entries))"
    by (rule sorted_filter [where f = "\<lambda>x. x", simplified]) simp
  with e(1) show "reg_names r = filter (eligible fs ad) (sort entries)"
    by (simp add: reg_names_def sorted_sort_id)
  fix c
  assume "c \<in> set entries" and "eligible fs ad c"
  then have "c \<in> fst ` set r"
    using arg_cong [OF e(1), of set] by auto
  then obtain a where a: "map_of r c = Some a"
    by (metis map_of_eq_None_iff not_None_eq)
  from e(2) [OF map_of_SomeD [OF a]] a show "reg_get r c = load_one fs yaml jload (ad @ [c]) (ad @ [c, ''agent.yaml''])"
    by (simp add: reg_get_def load_child_def)
qed

lemma loaded_definition_ok:
  assumes "registry_load fs yaml jload ad = Inr r"
    and "fs ad = Some (FDir entries)" and "distinct entries" and "reg_get r n = Inr a"
  shows "ag_name a = n \<and> dir_name (ag_directory a) = n \<and> ag_task_kind a \<in> set VALID_TASK_KINDS \<and>
    ag_budget_hint a \<in> set VALID_BUDGETS \<and> ag_privacy a \<in> set VALID_PRIVACY"
proof -
  have ok: "registry_ok r" by (rule registry_load_ok [OF assms(1-3)])
  from assms(4) have "map_of r n = Some a" by (auto simp: reg_get_def split: option.splits)
  from map_of_registry [OF ok this] show ?thesis by (auto simp: agent_ok_def)
qed

text \<open>
  C35. The loader is exact and its result well formed: when it returns, the names are the eligible
  directory entries in sorted order, looking a name up gives the definition loaded from that
  directory, and every definition found is keyed by its own name, which is its directory's name, and
  has a task kind, a budget and a privacy tier the gateway knows.
\<close>

theorem registry_load_exact:
  assumes "registry_load fs yaml jload ad = Inr r"
    and "fs ad = Some (FDir entries)" and "distinct entries"
  shows "reg_names r = filter (eligible fs ad) (sort entries) \<and>
    (\<forall>c \<in> set entries. eligible fs ad c \<longrightarrow>
       reg_get r c = load_one fs yaml jload (ad @ [c]) (ad @ [c, ''agent.yaml''])) \<and>
    (\<forall>n a. reg_get r n = Inr a \<longrightarrow>
       ag_name a = n \<and> dir_name (ag_directory a) = n \<and> ag_task_kind a \<in> set VALID_TASK_KINDS \<and>
       ag_budget_hint a \<in> set VALID_BUDGETS \<and> ag_privacy a \<in> set VALID_PRIVACY)"
  using loaded_entries [OF assms] loaded_definition_ok [OF assms] by blast

theorem registry_load_exact_witness:
  "reg_names [(''hardware'', sample_agent)] =
     filter (eligible sample_fs [''agents'']) (sort [''hardware'', ''_shared'', ''notes'']) \<and>
   ag_name sample_agent = ''hardware'' \<and> ag_privacy sample_agent \<in> set VALID_PRIVACY"
proof -
  have "reg_get [(''hardware'', sample_agent)] ''hardware'' = Inr sample_agent" by (simp add: reg_get_def)
  with registry_load_exact [OF sample_load sample_fs_agents] show ?thesis by simp
qed

text \<open>
  The loader fails fast: one malformed definition among the eligible directories makes the
  whole load raise.
\<close>

lemma registry_load_fails_fast:
  assumes "fs ad = Some (FDir entries)" and "distinct entries" and "c \<in> set entries"
    and "eligible fs ad c" and "load_one fs yaml jload (ad @ [c]) (ad @ [c, ''agent.yaml'']) = Inl e"
  shows "\<exists>e'. registry_load fs yaml jload ad = Inl e'"
proof (cases "registry_load fs yaml jload ad")
  case (Inr r)
  note ent = registry_load_entries [OF Inr assms(1,2)]
  from assms(3,4) have "c \<in> fst ` set r"
    using arg_cong [OF ent(1), of set] by auto
  then show ?thesis using ent(2) assms(5) by (auto simp: load_child_def)
qed simp

lemma registry_load_fails_fast_witness:
  "\<exists>e'. registry_load sample_fs (\<lambda>t. Inr PyNone) sample_json [''agents''] = Inl e'"
proof (rule registry_load_fails_fast [where fs = sample_fs and ad = "[''agents'']" and c = "''hardware''", OF sample_fs_agents])
  show "eligible sample_fs [''agents''] ''hardware''" by code_simp
  show "load_one sample_fs (\<lambda>t. Inr PyNone) sample_json ([''agents''] @ [''hardware''])
      ([''agents''] @ [''hardware'', ''agent.yaml'']) =
      Inl (AgentSpecError ''/agents/hardware/agent.yaml: top-level YAML must be a mapping'')"
    by code_simp
qed simp_all

text \<open>\<open>all()\<close> of a well-formed registry returns exactly one definition per name, in the order of the names.\<close>

lemma registry_all_by_name:
  assumes "registry_ok r"
  shows "\<exists>as. reg_all r = Inr as \<and> map ag_name as = reg_names r \<and> sorted (reg_names r) \<and> distinct (reg_names r)"
  using catalog.all_returns [OF assms] assms
  by (auto simp: reg_all_def reg_names_def registry_ok_def)

lemma registry_all_by_name_witness:
  "\<exists>as. reg_all [(''hardware'', sample_agent)] = Inr as \<and> map ag_name as = [''hardware'']"
  using registry_all_by_name [of "[(''hardware'', sample_agent)]"]
  by (simp add: registry_ok_def agent_ok_def sample_agent_def dir_name_def VALID_TASK_KINDS_def
      VALID_BUDGETS_def VALID_PRIVACY_def reg_names_def)

end
