(* ===== verification/Gateway_Client.thy ===== *)
theory Gateway_Client
  imports Py_Text
begin

text \<open>
  \<open>auditcore_orchestrator/gateway_client.py\<close>: the protocol \<open>GatewayClient\<close>, its result, and the
  HTTP client. A client is a command on the state of the gateway side, so that a model may
  answer differently each time. \<open>post\<close> stands for httpx: it sends a body to a URL and returns the
  decoded response, or raises (\<open>raise_for_status\<close> included). The response fields are optional,
  as the client reads them with defaults.
\<close>

record gateway_result =
  gr_parsed :: pyval
  gr_schema_valid :: "bool option"
  gr_schema_errors :: "string list"
  gr_model :: string
  gr_provider :: string
  gr_cost_usd :: rat
  gr_content :: string

record complete_args =
  ca_task_kind :: string
  ca_system_prompt :: string
  ca_user_content :: string
  ca_output_schema :: "pyval option"
  ca_tenant_id :: string
  ca_agent :: string
  ca_budget_hint :: string
  ca_privacy :: string

type_synonym 'g gateway_client = "complete_args \<Rightarrow> ('g, gateway_result) cmd"

record wire_response =
  wr_parsed :: "pyval option"
  wr_schema_valid :: "bool option option"
  wr_schema_errors :: "string list option"
  wr_model :: "string option"
  wr_provider :: "string option"
  wr_cost_usd :: "rat option"
  wr_content :: "string option"

definition json_opt :: "pyval option \<Rightarrow> pyval" where
  "json_opt v = (case v of None \<Rightarrow> PyNone | Some x \<Rightarrow> x)"

definition request_body :: "complete_args \<Rightarrow> pyval" where
  "request_body a = PyDict
     [(''task_kind'', PyStr (ca_task_kind a)),
      (''messages'', PyList
         [PyDict [(''role'', PyStr ''system''), (''content'', PyStr (ca_system_prompt a))],
          PyDict [(''role'', PyStr ''user''), (''content'', PyStr (ca_user_content a))]]),
      (''output_schema'', json_opt (ca_output_schema a)),
      (''tenant_id'', PyStr (ca_tenant_id a)),
      (''agent'', PyStr (ca_agent a)),
      (''budget_hint'', PyStr (ca_budget_hint a)),
      (''privacy'', PyStr (ca_privacy a))]"

definition with_default :: "'a option \<Rightarrow> 'a \<Rightarrow> 'a" where
  "with_default x dflt = (case x of None \<Rightarrow> dflt | Some v \<Rightarrow> v)"

definition read_result :: "wire_response \<Rightarrow> gateway_result" where
  "read_result w =
     \<lparr>gr_parsed = with_default (wr_parsed w) PyNone,
      gr_schema_valid = with_default (wr_schema_valid w) None,
      gr_schema_errors = with_default (wr_schema_errors w) [],
      gr_model = with_default (wr_model w) [],
      gr_provider = with_default (wr_provider w) [],
      gr_cost_usd = with_default (wr_cost_usd w) 0,
      gr_content = with_default (wr_content w) []\<rparr>"

definition http_complete ::
  "(string \<Rightarrow> pyval \<Rightarrow> ('g, wire_response) cmd) \<Rightarrow> string \<Rightarrow> 'g gateway_client" where
  "http_complete post base_url a =
     bindC (post (rstrip (\<lambda>c. c = CHR ''/'') base_url @ ''/v1/complete'') (request_body a))
       (\<lambda>data. returnC (read_result data))"

end
