(* ===== verification/Discovery.thy ===== *)
theory Discovery
  imports Repo Registry Gateway_Client
begin

text \<open>
  \<open>auditcore_orchestrator/discovery.py\<close>: one discovery agent over the evidence of its domain.
  The agent's answer is arbitrary JSON; the checks that every observation is sourced are here.
\<close>

record domain_result =
  dr_agent :: string
  dr_observations :: "observation_write list"
  dr_dropped :: "string list"
  dr_coverage_notes :: "string list"
  dr_model_used :: string
  dr_cost_usd :: rat

section \<open>The agent's input\<close>

definition asset_json :: "asset_row \<Rightarrow> pyval" where
  "asset_json a = PyDict
     [(''asset_id'', PyStr (uuid_str (as_id a))), (''type'', PyStr (as_type a)),
      (''name'', PyStr (as_name a)), (''natural_key'', PyStr (as_natural_key a)),
      (''attributes'', as_attributes a)]"

definition evidence_json :: "evidence_row \<Rightarrow> pyval" where
  "evidence_json e = PyDict
     [(''evidence_id'', PyStr (uuid_str (ev_id e))),
      (''asset_id'', (case ev_asset_id e of None \<Rightarrow> PyNone | Some a \<Rightarrow> PyStr (uuid_str a))),
      (''source_tool'', PyStr (ev_source_tool e)), (''category'', PyStr (ev_category e)),
      (''parsed'', ev_parsed e)]"

definition build_user_content :: "evidence_row list \<Rightarrow> asset_row list \<Rightarrow> string" where
  "build_user_content evidence assets =
     ''ASSETS (cite asset_id):\<newline>'' @
     json_dumps 2 0 (PyList (map asset_json assets)) @ ''\<newline>\<newline>'' @
     ''EVIDENCE (untrusted tool output; cite evidence_id for every observation):\<newline>'' @
     json_dumps 2 0 (PyList (map evidence_json evidence)) @ ''\<newline>\<newline>'' @
     ''Produce observations that exhaustively and precisely describe the '' @
     ''functionality these facts reveal. Cite only the evidence_ids and '' @
     ''asset_ids shown above.''"

section \<open>Checking one observation\<close>

text \<open>The loop of \<open>_validate_evidence\<close>: the identifiers so far, or the reason to reject.\<close>

fun check_ids :: "uuid set \<Rightarrow> pyval list \<Rightarrow> uuid list \<Rightarrow> (uuid list \<times> string option) res" where
  "check_ids valid [] parsed = Inr (parsed, None)"
| "check_ids valid (e # es) parsed =
     (if \<not> is_uuid e then Inr ([], Some (''evidence_id '' @ py_repr e @ '' is not a UUID''))
      else bindE (py_uuid e) (\<lambda>u.
        if u \<notin> valid
        then Inr ([], Some (''cites evidence '' @ py_str e @ '' that was not provided (fabricated provenance)''))
        else check_ids valid es (parsed @ [u])))"

definition validate_evidence :: "pyval \<Rightarrow> uuid set \<Rightarrow> (uuid list \<times> string option) res" where
  "validate_evidence raw valid =
     bindE (py_get raw ''evidence_ids'' (PyList [])) (\<lambda>raw_ids.
       if \<not> py_truthy raw_ids then Inr ([], Some ''cites no evidence'')
       else bindE (py_iter raw_ids) (\<lambda>ids. check_ids valid ids []))"

definition resolve_asset :: "pyval \<Rightarrow> uuid set \<Rightarrow> uuid option res" where
  "resolve_asset raw valid =
     bindE (py_get raw ''asset_id'' PyNone) (\<lambda>a.
       if \<not> is_uuid a then Inr None
       else bindE (py_uuid a) (\<lambda>u. Inr (if u \<in> valid then Some u else None)))"

text \<open>\<open>[UUID(a) for a in xs if _is_uuid(a) and UUID(a) in valid]\<close>.\<close>

fun known_ids :: "uuid set \<Rightarrow> pyval list \<Rightarrow> uuid list res" where
  "known_ids valid [] = Inr []"
| "known_ids valid (a # as) =
     (if \<not> is_uuid a then known_ids valid as
      else bindE (py_uuid a) (\<lambda>u.
        if u \<in> valid then bindE (known_ids valid as) (\<lambda>us. Inr (u # us)) else known_ids valid as))"

definition topic_label :: "nat \<Rightarrow> pyval \<Rightarrow> string res" where
  "topic_label i raw =
     bindE (py_get raw ''topic'' (PyStr ''?'')) (\<lambda>t. Inr (''obs['' @ nat_str i @ ''] ('' @ py_str t @ '')''))"

text \<open>One iteration of the loop of \<open>run_domain\<close>: an observation to write or a reason.\<close>

definition check_observation ::
  "uuid \<Rightarrow> string \<Rightarrow> uuid set \<Rightarrow> uuid set \<Rightarrow> string \<Rightarrow> string \<Rightarrow> nat \<Rightarrow> pyval \<Rightarrow>
   (string + observation_write) res" where
  "check_observation rid dmn valid_evidence valid_assets produced_by model i raw =
     bindE (validate_evidence raw valid_evidence) (\<lambda>(ev_ids, reason).
     case reason of
       Some why \<Rightarrow> bindE (topic_label i raw) (\<lambda>l. Inr (Inl (l @ '': '' @ why)))
     | None \<Rightarrow>
         bindE (resolve_asset raw valid_assets) (\<lambda>asset.
         case asset of
           None \<Rightarrow> bindE (topic_label i raw) (\<lambda>l. Inr (Inl (l @ '': asset_id not in run assets'')))
         | Some aid \<Rightarrow>
             bindE (py_get raw ''related_asset_ids'' (PyList [])) (\<lambda>rel.
             bindE (py_iter rel) (\<lambda>rels.
             bindE (known_ids valid_assets rels) (\<lambda>related.
             bindE (py_index raw ''topic'') (\<lambda>topic.
             bindE (py_index raw ''summary'') (\<lambda>summary.
             bindE (py_index raw ''detail'') (\<lambda>detail.
             bindE (py_get raw ''facts'' (PyDict [])) (\<lambda>facts.
             Inr (Inr
               \<lparr>ow_run_id = rid, ow_asset_id = aid, ow_domain = dmn,
                ow_topic = py_str topic, ow_summary = py_str summary, ow_detail = py_str detail,
                ow_facts = py_or facts (PyDict []),
                ow_related_asset_ids = related, ow_evidence_ids = ev_ids,
                ow_produced_by_agent = produced_by, ow_model_used = model\<rparr>))))))))))"

text \<open>The loop itself, with the two lists it appends to.\<close>

fun check_loop ::
  "(nat \<Rightarrow> pyval \<Rightarrow> (string + observation_write) res) \<Rightarrow> nat \<Rightarrow> pyval list \<Rightarrow>
   observation_write list \<Rightarrow> string list \<Rightarrow> (observation_write list \<times> string list) res" where
  "check_loop chk i [] writes dropped = Inr (writes, dropped)"
| "check_loop chk i (raw # raws) writes dropped =
     bindE (chk i raw) (\<lambda>x. case x of
         Inl why \<Rightarrow> check_loop chk (Suc i) raws writes (dropped @ [why])
       | Inr ow \<Rightarrow> check_loop chk (Suc i) raws (writes @ [ow]) dropped)"

section \<open>run_domain\<close>

definition produced_by :: "agent_definition \<Rightarrow> string" where
  "produced_by agent = ag_name agent @ ''@'' @ ag_version agent"

definition schema_failure :: "string \<Rightarrow> gateway_result \<Rightarrow> string" where
  "schema_failure what result =
     (let errs = str_join ''; '' (gr_schema_errors result) in
      what @ '' output failed schema validation: '' @ (if errs = [] then ''no JSON returned'' else errs))"

definition read_domain_result ::
  "uuid \<Rightarrow> agent_definition \<Rightarrow> string \<Rightarrow> evidence_row list \<Rightarrow> asset_row list \<Rightarrow> gateway_result \<Rightarrow>
   domain_result res" where
  "read_domain_result rid agent dmn evidence assets result =
     (if \<not> py_truthy (gr_parsed result)
      then Inr \<lparr>dr_agent = ag_name agent, dr_observations = [],
                dr_dropped = [schema_failure ''agent'' result], dr_coverage_notes = [],
                dr_model_used = gr_model result, dr_cost_usd = gr_cost_usd result\<rparr>
      else
        bindE (py_get (gr_parsed result) ''observations'' (PyList [])) (\<lambda>obs.
        bindE (py_iter obs) (\<lambda>raws.
        bindE (check_loop
                 (check_observation rid dmn (set (map ev_id evidence)) (set (map as_id assets))
                    (produced_by agent) (gr_model result)) 0 raws [] []) (\<lambda>(writes, dropped).
        bindE (py_get (gr_parsed result) ''coverage_notes'' (PyList [])) (\<lambda>notes.
        bindE (py_iter notes) (\<lambda>ns.
        Inr \<lparr>dr_agent = ag_name agent, dr_observations = writes, dr_dropped = dropped,
             dr_coverage_notes = map py_str ns,
             dr_model_used = gr_model result, dr_cost_usd = gr_cost_usd result\<rparr>))))))"

definition domain_request ::
  "agent_definition \<Rightarrow> evidence_row list \<Rightarrow> asset_row list \<Rightarrow> string \<Rightarrow> string \<Rightarrow> string \<Rightarrow> complete_args" where
  "domain_request agent evidence assets tenant budget privacy =
     \<lparr>ca_task_kind = ag_task_kind agent, ca_system_prompt = ag_system_prompt agent,
      ca_user_content = build_user_content evidence assets,
      ca_output_schema = ag_output_schema agent, ca_tenant_id = tenant, ca_agent = ag_name agent,
      ca_budget_hint = budget, ca_privacy = privacy\<rparr>"

definition run_domain ::
  "'g gateway_client \<Rightarrow> uuid \<Rightarrow> agent_definition \<Rightarrow> string \<Rightarrow> evidence_row list \<Rightarrow> asset_row list \<Rightarrow>
   string \<Rightarrow> string \<Rightarrow> string \<Rightarrow> ('g, domain_result) cmd" where
  "run_domain gateway rid agent dmn evidence assets tenant budget privacy =
     bindC (gateway (domain_request agent evidence assets tenant budget privacy))
       (\<lambda>result. liftC (read_domain_result rid agent dmn evidence assets result))"

section \<open>What passes the checks\<close>

text \<open>
  The integrity rules: at least one evidence identifier, all of them given to the agent, the
  asset and the related assets among the run's assets.
\<close>

definition sourced :: "uuid set \<Rightarrow> uuid set \<Rightarrow> observation_write \<Rightarrow> bool" where
  "sourced E A ow \<longleftrightarrow>
     ow_evidence_ids ow \<noteq> [] \<and> set (ow_evidence_ids ow) \<subseteq> E \<and> ow_asset_id ow \<in> A \<and>
     set (ow_related_asset_ids ow) \<subseteq> A"

lemma check_ids_accepts:
  assumes "check_ids valid es acc = Inr (ids, None)"
  shows "\<exists>us. ids = acc @ us \<and> length us = length es \<and> set us \<subseteq> valid"
  using assms
proof (induction es arbitrary: acc)
  case Nil
  then show ?case by simp
next
  case (Cons e es)
  from Cons.prems obtain u where u: "py_uuid e = Inr u" "u \<in> valid"
    and rest: "check_ids valid es (acc @ [u]) = Inr (ids, None)"
    by (auto split: if_splits)
  from Cons.IH [OF rest] obtain us where "ids = (acc @ [u]) @ us" "length us = length es" "set us \<subseteq> valid"
    by blast
  with u show ?case by (intro exI [of _ "u # us"]) simp
qed

lemma py_iter_truthy: "py_iter v = Inr xs \<Longrightarrow> py_truthy v \<Longrightarrow> xs \<noteq> []"
  by (cases v) auto

lemma validate_evidence_accepts:
  assumes "validate_evidence raw valid = Inr (ids, None)"
  shows "ids \<noteq> [] \<and> set ids \<subseteq> valid"
proof -
  from assms obtain v es where "py_truthy v" and es: "py_iter v = Inr es"
    and "check_ids valid es [] = Inr (ids, None)"
    by (auto simp: validate_evidence_def split: if_splits)
  with check_ids_accepts [of valid es "[]" ids] py_iter_truthy [OF es] show ?thesis by auto
qed

lemma resolve_asset_accepts: "resolve_asset raw valid = Inr (Some u) \<Longrightarrow> u \<in> valid"
  by (auto simp: resolve_asset_def split: if_splits)

lemma known_ids_accepts: "known_ids valid as = Inr us \<Longrightarrow> set us \<subseteq> valid"
proof (induction as arbitrary: us)
  case Nil
  then show ?case by simp
next
  case (Cons a as)
  then show ?case by (fastforce split: if_splits)
qed

lemma check_observation_accepts:
  assumes "check_observation rid dmn E A pb model i raw = Inr (Inr ow)"
  shows "sourced E A ow" and "ow_run_id ow = rid" and "ow_domain ow = dmn"
    and "ow_produced_by_agent ow = pb" and "ow_model_used ow = model"
proof -
  from assms obtain ids aid rels related where
    ids: "validate_evidence raw E = Inr (ids, None)" and aid: "resolve_asset raw A = Inr (Some aid)"
    and related: "known_ids A rels = Inr related"
    and fields: "ow_run_id ow = rid" "ow_asset_id ow = aid" "ow_domain ow = dmn"
      "ow_related_asset_ids ow = related" "ow_evidence_ids ow = ids"
      "ow_produced_by_agent ow = pb" "ow_model_used ow = model"
    unfolding check_observation_def by (auto split: option.splits)
  show "sourced E A ow"
    using validate_evidence_accepts [OF ids] resolve_asset_accepts [OF aid] known_ids_accepts [OF related]
    by (simp add: sourced_def fields)
qed (use assms in \<open>auto simp: check_observation_def split: option.splits\<close>)

lemma check_loop_all:
  assumes "check_loop chk i raws ws ds = Inr (ws', ds')"
    and "\<And>i raw ow. chk i raw = Inr (Inr ow) \<Longrightarrow> P ow" and "\<And>w. w \<in> set ws \<Longrightarrow> P w"
  shows "w \<in> set ws' \<Longrightarrow> P w"
  using assms(1,3)
proof (induction raws arbitrary: i ws ds)
  case Nil
  then show ?case by simp
next
  case (Cons raw raws)
  from Cons.prems(2) obtain x where x: "chk i raw = Inr x" by auto
  show ?case
  proof (cases x)
    case (Inl why)
    with Cons x show ?thesis by auto
  next
    case (Inr ow)
    from x Inr have "P ow" by (simp add: assms(2))
    with Cons.prems(3) have "v \<in> set (ws @ [ow]) \<Longrightarrow> P v" for v by auto
    with Cons.prems x Inr show ?thesis by (intro Cons.IH [of "Suc i" "ws @ [ow]" ds]) auto
  qed
qed

lemma check_loop_count:
  "check_loop chk i raws ws ds = Inr (ws', ds') \<Longrightarrow>
     length ws' + length ds' = length ws + length ds + length raws"
  by (induction raws arbitrary: i ws ds) (fastforce split: sum.splits)+

text \<open>When every check returns, the loop keeps the accepted ones and the reasons of the others, in order.\<close>

lemma check_loop_exact:
  assumes "\<And>i r. r \<in> set rs \<Longrightarrow> chk i (enc r) = Inr (if ok r then Inr (f r) else Inl (why i r))"
  shows "check_loop chk i (map enc rs) ws ds =
    Inr (ws @ map f (filter ok rs),
         ds @ map (\<lambda>(j, r). why j r) (filter (\<lambda>(j, r). \<not> ok r) (enumerate i rs)))"
  using assms
proof (induction rs arbitrary: i ws ds)
  case Nil
  show ?case by simp
next
  case (Cons r rs)
  have IH: "check_loop chk i (map enc rs) ws ds =
    Inr (ws @ map f (filter ok rs),
         ds @ map (\<lambda>(j, r). why j r) (filter (\<lambda>(j, r). \<not> ok r) (enumerate i rs)))" for i ws ds
    by (rule Cons.IH) (simp add: Cons.prems)
  show ?case by (simp add: Cons.prems IH)
qed

lemma read_domain_result_accepts:
  assumes "read_domain_result rid agent dmn evidence assets result = Inr dr" and "ow \<in> set (dr_observations dr)"
  shows "sourced (set (map ev_id evidence)) (set (map as_id assets)) ow" and "ow_run_id ow = rid"
    and "ow_domain ow = dmn" and "ow_produced_by_agent ow = produced_by agent"
    and "ow_model_used ow = gr_model result"
proof -
  let ?chk = "check_observation rid dmn (set (map ev_id evidence)) (set (map as_id assets))
    (produced_by agent) (gr_model result)"
  let ?P = "\<lambda>ow. sourced (set (map ev_id evidence)) (set (map as_id assets)) ow \<and> ow_run_id ow = rid \<and>
     ow_domain ow = dmn \<and> ow_produced_by_agent ow = produced_by agent \<and> ow_model_used ow = gr_model result"
  from assms obtain raws ws ds where l: "check_loop ?chk 0 raws [] [] = Inr (ws, ds)" and w: "ow \<in> set ws"
    by (auto simp: read_domain_result_def split: if_splits)
  have "?P ow"
    by (rule check_loop_all [where P = ?P, OF l _ _ w]) (auto dest: check_observation_accepts)
  then show "sourced (set (map ev_id evidence)) (set (map as_id assets)) ow" and "ow_run_id ow = rid"
    and "ow_domain ow = dmn" and "ow_produced_by_agent ow = produced_by agent"
    and "ow_model_used ow = gr_model result" by auto
qed

lemma read_domain_result_model:
  "read_domain_result rid agent dmn evidence assets result = Inr dr \<Longrightarrow>
     dr_agent dr = ag_name agent \<and> dr_model_used dr = gr_model result \<and> dr_cost_usd dr = gr_cost_usd result"
  by (auto simp: read_domain_result_def split: if_splits)

section \<open>Schema-conforming answers\<close>

text \<open>
  The types \<open>agents/_shared/discovery_agent_output.json\<close> gives the fields of an answer: required
  ones are present, optional ones present or absent. Formats and lengths are not asked for.
\<close>

fun is_str :: "pyval \<Rightarrow> bool" where
  "is_str (PyStr _) = True"
| "is_str _ = False"

fun is_strs :: "pyval \<Rightarrow> bool" where
  "is_strs (PyList xs) = list_all is_str xs"
| "is_strs _ = False"

fun is_dict :: "pyval \<Rightarrow> bool" where
  "is_dict (PyDict _) = True"
| "is_dict _ = False"

definition has_field :: "(pyval \<Rightarrow> bool) \<Rightarrow> pydict \<Rightarrow> string \<Rightarrow> bool" where
  "has_field P d k = (case map_of d k of None \<Rightarrow> False | Some v \<Rightarrow> P v)"

definition may_field :: "(pyval \<Rightarrow> bool) \<Rightarrow> pydict \<Rightarrow> string \<Rightarrow> bool" where
  "may_field P d k = (case map_of d k of None \<Rightarrow> True | Some v \<Rightarrow> P v)"

fun schema_observation :: "pyval \<Rightarrow> bool" where
  "schema_observation (PyDict ob) \<longleftrightarrow>
     has_field is_str ob ''asset_id'' \<and> has_field is_str ob ''topic'' \<and> has_field is_str ob ''summary'' \<and>
     has_field is_str ob ''detail'' \<and> has_field is_strs ob ''evidence_ids'' \<and>
     may_field is_dict ob ''facts'' \<and> may_field is_strs ob ''related_asset_ids''"
| "schema_observation _ = False"

fun schema_answer :: "pyval \<Rightarrow> bool" where
  "schema_answer (PyDict d) \<longleftrightarrow>
     has_field (\<lambda>v. case v of PyList xs \<Rightarrow> list_all schema_observation xs | _ \<Rightarrow> False) d ''observations'' \<and>
     may_field is_strs d ''coverage_notes''"
| "schema_answer _ = False"

text \<open>What a field holds, with the default of an absent one.\<close>

definition str_field :: "pydict \<Rightarrow> string \<Rightarrow> string" where
  "str_field d k = (case map_of d k of Some (PyStr s) \<Rightarrow> s | _ \<Rightarrow> [])"

definition strs_field :: "pydict \<Rightarrow> string \<Rightarrow> string list" where
  "strs_field d k = (case map_of d k of Some (PyList xs) \<Rightarrow> map py_str xs | _ \<Rightarrow> [])"

definition dict_field :: "pydict \<Rightarrow> string \<Rightarrow> pydict" where
  "dict_field d k = (case map_of d k of Some (PyDict x) \<Rightarrow> x | _ \<Rightarrow> [])"

fun the_dict :: "pyval \<Rightarrow> pydict" where
  "the_dict (PyDict d) = d"
| "the_dict _ = []"

definition dicts_field :: "pydict \<Rightarrow> string \<Rightarrow> pydict list" where
  "dicts_field d k = (case map_of d k of Some (PyList xs) \<Rightarrow> map the_dict xs | _ \<Rightarrow> [])"

text \<open>The identifier a string is, and whether it is one of a set.\<close>

definition the_id :: "string \<Rightarrow> uuid" where
  "the_id s = (case uuid_parse s of Inl _ \<Rightarrow> 0 | Inr u \<Rightarrow> u)"

definition known_id :: "uuid set \<Rightarrow> string \<Rightarrow> bool" where
  "known_id V s = (case uuid_parse s of Inl _ \<Rightarrow> False | Inr u \<Rightarrow> u \<in> V)"

text \<open>The integrity rules of the module's header, the row an observation becomes, and why one is dropped.\<close>

definition well_sourced :: "uuid set \<Rightarrow> uuid set \<Rightarrow> pydict \<Rightarrow> bool" where
  "well_sourced E A ob \<longleftrightarrow>
     strs_field ob ''evidence_ids'' \<noteq> [] \<and> list_all (known_id E) (strs_field ob ''evidence_ids'') \<and>
     known_id A (str_field ob ''asset_id'')"

definition to_write :: "uuid \<Rightarrow> string \<Rightarrow> uuid set \<Rightarrow> string \<Rightarrow> string \<Rightarrow> pydict \<Rightarrow> observation_write" where
  "to_write rid dmn A pb model ob =
     \<lparr>ow_run_id = rid, ow_asset_id = the_id (str_field ob ''asset_id''), ow_domain = dmn,
      ow_topic = str_field ob ''topic'', ow_summary = str_field ob ''summary'',
      ow_detail = str_field ob ''detail'', ow_facts = PyDict (dict_field ob ''facts''),
      ow_related_asset_ids = map the_id (filter (known_id A) (strs_field ob ''related_asset_ids'')),
      ow_evidence_ids = map the_id (strs_field ob ''evidence_ids''),
      ow_produced_by_agent = pb, ow_model_used = model\<rparr>"

definition why_dropped :: "uuid set \<Rightarrow> nat \<Rightarrow> pydict \<Rightarrow> string" where
  "why_dropped E i ob =
     ''obs['' @ nat_str i @ ''] ('' @ str_field ob ''topic'' @ ''): '' @
     (if strs_field ob ''evidence_ids'' = [] then ''cites no evidence''
      else case find (\<lambda>s. \<not> known_id E s) (strs_field ob ''evidence_ids'') of
          None \<Rightarrow> ''asset_id not in run assets''
        | Some s \<Rightarrow>
            (case uuid_parse s of
               Inl _ \<Rightarrow> ''evidence_id '' @ str_repr s @ '' is not a UUID''
             | Inr _ \<Rightarrow> ''cites evidence '' @ s @ '' that was not provided (fabricated provenance)''))"

lemma is_str_iff: "is_str v \<longleftrightarrow> v = PyStr (py_str v)"
  by (cases v) auto

lemma has_str: "has_field is_str d k \<Longrightarrow> map_of d k = Some (PyStr (str_field d k))"
  by (auto simp: has_field_def str_field_def split: option.splits elim!: is_str.elims)

lemma is_strs_iff: "is_strs v \<longleftrightarrow> (\<exists>ss. v = PyList (map PyStr ss))"
proof
  assume "is_strs v"
  then obtain xs where v: "v = PyList xs" and xs: "list_all is_str xs" by (cases v) auto
  from xs have "xs = map PyStr (map py_str xs)"
    by (induction xs) (auto simp: is_str_iff)
  with v show "\<exists>ss. v = PyList (map PyStr ss)" by blast
qed (auto simp: list_all_length)

lemma has_strs: "has_field is_strs d k \<Longrightarrow> map_of d k = Some (PyList (map PyStr (strs_field d k)))"
  by (auto simp: has_field_def strs_field_def is_strs_iff comp_def split: option.splits)

lemma may_strs: "may_field is_strs d k \<Longrightarrow> dict_get d k (PyList []) = PyList (map PyStr (strs_field d k))"
  by (auto simp: may_field_def strs_field_def is_strs_iff comp_def dict_get_def split: option.splits)

lemma may_dict: "may_field is_dict d k \<Longrightarrow> py_or (dict_get d k (PyDict [])) (PyDict []) = PyDict (dict_field d k)"
  by (auto simp: may_field_def dict_field_def dict_get_def py_or_def split: option.splits elim!: is_dict.elims)

lemma is_uuid_PyStr: "is_uuid (PyStr s) \<longleftrightarrow> (\<exists>u. uuid_parse s = Inr u)"
  by (simp add: is_uuid_iff)

lemma known_id_bad: "uuid_parse s = Inl e \<Longrightarrow> \<not> known_id V s"
  by (simp add: known_id_def)

lemma known_id_good: "uuid_parse s = Inr u \<Longrightarrow> known_id V s = (u \<in> V) \<and> the_id s = u"
  by (simp add: known_id_def the_id_def)

lemma check_ids_strs:
  "check_ids E (map PyStr ss) acc =
     (case find (\<lambda>s. \<not> known_id E s) ss of
        None \<Rightarrow> Inr (acc @ map the_id ss, None)
      | Some s \<Rightarrow> Inr ([], Some
          (case uuid_parse s of
             Inl _ \<Rightarrow> ''evidence_id '' @ str_repr s @ '' is not a UUID''
           | Inr _ \<Rightarrow> ''cites evidence '' @ s @ '' that was not provided (fabricated provenance)'')))"
proof (induction ss arbitrary: acc)
  case (Cons s ss)
  then show ?case
    by (cases "uuid_parse s")
      (auto simp: is_uuid_PyStr known_id_bad known_id_good simp del: is_uuid.simps split: option.split)
qed simp

lemma known_ids_strs: "known_ids A (map PyStr ss) = Inr (map the_id (filter (known_id A) ss))"
proof (induction ss)
  case (Cons s ss)
  then show ?case
    by (cases "uuid_parse s") (auto simp: is_uuid_PyStr known_id_bad known_id_good simp del: is_uuid.simps)
qed simp

lemma resolve_asset_str:
  "map_of ob ''asset_id'' = Some (PyStr s) \<Longrightarrow>
     resolve_asset (PyDict ob) A = Inr (if known_id A s then Some (the_id s) else None)"
  by (auto simp: resolve_asset_def dict_get_def is_uuid_PyStr known_id_def the_id_def
      simp del: is_uuid.simps split: sum.splits)

lemma validate_evidence_strs:
  "map_of ob ''evidence_ids'' = Some (PyList (map PyStr ss)) \<Longrightarrow>
     validate_evidence (PyDict ob) E =
       (if ss = [] then Inr ([], Some ''cites no evidence'') else check_ids E (map PyStr ss) [])"
  by (simp add: validate_evidence_def dict_get_def)

lemma find_None_list_all: "find (\<lambda>s. \<not> P s) xs = None \<longleftrightarrow> list_all P xs"
  by (auto simp: find_None_iff list_all_iff)

lemma check_observation_schema:
  assumes "schema_observation (PyDict ob)"
  shows "check_observation rid dmn E A pb model i (PyDict ob) =
    Inr (if well_sourced E A ob then Inr (to_write rid dmn A pb model ob) else Inl (why_dropped E i ob))"
proof -
  have a: "map_of ob ''asset_id'' = Some (PyStr (str_field ob ''asset_id''))"
    and t: "map_of ob ''topic'' = Some (PyStr (str_field ob ''topic''))"
    and s: "map_of ob ''summary'' = Some (PyStr (str_field ob ''summary''))"
    and d: "map_of ob ''detail'' = Some (PyStr (str_field ob ''detail''))"
    and e: "map_of ob ''evidence_ids'' = Some (PyList (map PyStr (strs_field ob ''evidence_ids'')))"
    and f: "py_or (dict_get ob ''facts'' (PyDict [])) (PyDict []) = PyDict (dict_field ob ''facts'')"
    and r: "dict_get ob ''related_asset_ids'' (PyList []) =
      PyList (map PyStr (strs_field ob ''related_asset_ids''))"
    using assms by (simp_all add: has_str has_strs may_dict may_strs)
  have l: "topic_label i (PyDict ob) = Inr (''obs['' @ nat_str i @ ''] ('' @ str_field ob ''topic'' @ '')'')"
    by (simp add: topic_label_def dict_get_def t)
  show ?thesis
    by (cases "find (\<lambda>s. \<not> known_id E s) (strs_field ob ''evidence_ids'')")
      (auto simp: check_observation_def validate_evidence_strs [OF e] check_ids_strs resolve_asset_str [OF a]
        l t s d f r known_ids_strs well_sourced_def to_write_def why_dropped_def
        simp flip: find_None_list_all)
qed

lemma schema_dicts:
  assumes "schema_answer (PyDict d)"
  shows "map_of d ''observations'' = Some (PyList (map PyDict (dicts_field d ''observations'')))"
    and "ob \<in> set (dicts_field d ''observations'') \<Longrightarrow> schema_observation (PyDict ob)"
proof -
  from assms obtain xs where d: "map_of d ''observations'' = Some (PyList xs)" and xs: "list_all schema_observation xs"
    by (auto simp: has_field_def split: option.splits pyval.splits)
  have x: "x = PyDict (the_dict x)" if "x \<in> set xs" for x
    using that xs by (auto simp: list_all_iff elim!: schema_observation.elims)
  then show "map_of d ''observations'' = Some (PyList (map PyDict (dicts_field d ''observations'')))"
    by (simp add: d dicts_field_def map_idI comp_def)
  show "schema_observation (PyDict ob)" if "ob \<in> set (dicts_field d ''observations'')"
  proof -
    from that obtain y where y: "y \<in> set xs" and ob: "ob = the_dict y" by (auto simp: d dicts_field_def)
    from y xs have "schema_observation y" by (simp add: list_all_iff)
    with x [OF y] ob show ?thesis by simp
  qed
qed

text \<open>The result of a run over an answer that conforms.\<close>

definition result_of ::
  "uuid \<Rightarrow> agent_definition \<Rightarrow> string \<Rightarrow> uuid set \<Rightarrow> uuid set \<Rightarrow> gateway_result \<Rightarrow> pydict \<Rightarrow> domain_result" where
  "result_of rid agent dmn E A result d =
     (let obs = dicts_field d ''observations'' in
      \<lparr>dr_agent = ag_name agent,
       dr_observations = map (to_write rid dmn A (produced_by agent) (gr_model result)) (filter (well_sourced E A) obs),
       dr_dropped = map (\<lambda>(i, ob). why_dropped E i ob) (filter (\<lambda>(i, ob). \<not> well_sourced E A ob) (enumerate 0 obs)),
       dr_coverage_notes = strs_field d ''coverage_notes'',
       dr_model_used = gr_model result, dr_cost_usd = gr_cost_usd result\<rparr>)"

lemma read_domain_result_schema:
  assumes "gr_parsed result = PyDict d" and "schema_answer (PyDict d)"
  shows "read_domain_result rid agent dmn evidence assets result =
    Inr (result_of rid agent dmn (set (map ev_id evidence)) (set (map as_id assets)) result d)"
proof -
  let ?E = "set (map ev_id evidence)" and ?A = "set (map as_id assets)" and ?obs = "dicts_field d ''observations''"
  let ?chk = "check_observation rid dmn ?E ?A (produced_by agent) (gr_model result)"
  from assms(2) have o: "map_of d ''observations'' = Some (PyList (map PyDict ?obs))" by (rule schema_dicts)
  from assms(2) have n: "dict_get d ''coverage_notes'' (PyList []) = PyList (map PyStr (strs_field d ''coverage_notes''))"
    by (simp add: may_strs)
  have "check_loop ?chk 0 (map PyDict ?obs) [] [] =
    Inr ([] @ map (to_write rid dmn ?A (produced_by agent) (gr_model result)) (filter (well_sourced ?E ?A) ?obs),
         [] @ map (\<lambda>(i, ob). why_dropped ?E i ob) (filter (\<lambda>(i, ob). \<not> well_sourced ?E ?A ob) (enumerate 0 ?obs)))"
    by (rule check_loop_exact) (rule check_observation_schema, rule schema_dicts(2) [OF assms(2)])
  moreover from o have "d \<noteq> []" by auto
  ultimately show ?thesis
    by (simp add: read_domain_result_def assms(1) o n dict_get_def [of d "''observations''"] result_of_def Let_def comp_def)
qed

section \<open>Properties\<close>

text \<open>
  A run with one asset and one evidence item and a gateway that cites it, for the witnesses:
  the answer holds one sourced observation and one that cites an identifier it was not given.
\<close>

definition sample_asset :: asset_row where
  "sample_asset = \<lparr>as_id = 1, as_type = ''host'', as_natural_key = ''host:abc'', as_name = ''host-a'',
     as_attributes = PyDict [(''cpu_model'', PyStr ''Xeon'')]\<rparr>"

definition sample_evidence :: evidence_row where
  "sample_evidence = \<lparr>ev_id = 2, ev_asset_id = Some 1, ev_source_tool = ''lscpu'', ev_category = ''hardware'',
     ev_parsed = PyDict [(''CPU(s)'', PyInt 16)]\<rparr>"

definition sample_raw :: "uuid \<Rightarrow> pydict" where
  "sample_raw e =
     [(''asset_id'', PyStr (uuid_str 1)), (''topic'', PyStr ''CPU''), (''summary'', PyStr ''16 CPUs''),
      (''detail'', PyStr ''one socket''), (''facts'', PyDict [(''cpus'', PyInt 16)]),
      (''related_asset_ids'', PyList [PyStr (uuid_str 7)]), (''evidence_ids'', PyList [PyStr (uuid_str e)])]"

definition sample_answer :: pydict where
  "sample_answer = [(''observations'', PyList (map PyDict [sample_raw 2, sample_raw 3]))]"

definition sample_result :: gateway_result where
  "sample_result = \<lparr>gr_parsed = PyDict sample_answer,
     gr_schema_valid = Some True, gr_schema_errors = [], gr_model = ''m'', gr_provider = ''p'',
     gr_cost_usd = 1 / 100, gr_content = []\<rparr>"

lemma to_write_sample:
  "to_write rid dmn A pb model (sample_raw e) =
     \<lparr>ow_run_id = rid, ow_asset_id = 1, ow_domain = dmn, ow_topic = ''CPU'', ow_summary = ''16 CPUs'',
      ow_detail = ''one socket'', ow_facts = PyDict [(''cpus'', PyInt 16)],
      ow_related_asset_ids = (if 7 \<in> A then [7] else []), ow_evidence_ids = [e],
      ow_produced_by_agent = pb, ow_model_used = model\<rparr>"
  by (simp add: to_write_def sample_raw_def str_field_def strs_field_def dict_field_def the_id_def known_id_def)

lemma sample_answer_schema: "schema_answer (PyDict sample_answer)"
  by (simp add: sample_answer_def sample_raw_def has_field_def may_field_def)

lemma sample_answer_obs: "dicts_field sample_answer ''observations'' = [sample_raw 2, sample_raw 3]"
  by (simp add: sample_answer_def dicts_field_def)

lemma sample_raw_sourced: "well_sourced E A (sample_raw e) \<longleftrightarrow> e \<in> E \<and> 1 \<in> A"
  by (simp add: well_sourced_def sample_raw_def str_field_def strs_field_def known_id_def)

definition sample_gateway :: "unit gateway_client" where
  "sample_gateway a = returnC sample_result"

lemma run_domain_returned:
  assumes "run_domain gateway rid agent dmn evidence assets tenant budget privacy g = (Inr dr, g')"
  obtains result where
    "gateway (domain_request agent evidence assets tenant budget privacy) g = (Inr result, g')"
    and "read_domain_result rid agent dmn evidence assets result = Inr dr"
  using assms unfolding run_domain_def by (auto elim!: bindC_cases)

lemma run_domain_answered:
  "gateway (domain_request agent evidence assets tenant budget privacy) g = (Inr result, g') \<Longrightarrow>
   run_domain gateway rid agent dmn evidence assets tenant budget privacy g =
     (read_domain_result rid agent dmn evidence assets result, g')"
  by (simp add: run_domain_def bindC_def)

text \<open>
  Whatever the model answers, every observation an agent run returns is sourced: it cites at
  least one identifier, all of them of evidence the agent was given, and its asset and related
  assets are assets of the run. Run, domain, producer and model are set by the orchestrator.
\<close>

lemma run_domain_sourced:
  assumes "run_domain gateway rid agent dmn evidence assets tenant budget privacy g = (Inr dr, g')"
    and "ow \<in> set (dr_observations dr)"
  shows "sourced (ev_id ` set evidence) (as_id ` set assets) ow \<and> ow_run_id ow = rid \<and> ow_domain ow = dmn \<and>
    ow_produced_by_agent ow = ag_name agent @ ''@'' @ ag_version agent \<and> ow_model_used ow = dr_model_used dr"
proof -
  from assms(1) obtain result where r: "read_domain_result rid agent dmn evidence assets result = Inr dr"
    by (rule run_domain_returned)
  from read_domain_result_accepts [OF r assms(2)] read_domain_result_model [OF r] show ?thesis
    by (simp add: produced_by_def)
qed

lemma sample_run:
  "\<exists>dr. run_domain sample_gateway 9 sample_agent ''hardware'' [sample_evidence] [sample_asset] ''t'' ''normal''
     ''standard'' () = (Inr dr, ()) \<and> dr_observations dr =
       [to_write 9 ''hardware'' {1} ''hardware@0.0.0'' ''m'' (sample_raw 2)]"
  by (simp add: run_domain_def bindC_def sample_gateway_def
      read_domain_result_schema [OF _ sample_answer_schema] sample_result_def result_of_def Let_def
      sample_answer_obs sample_raw_sourced sample_asset_def sample_evidence_def sample_agent_def produced_by_def)

lemma run_domain_sourced_witness:
  "sourced {2} {1} (to_write 9 ''hardware'' {1} ''hardware@0.0.0'' ''m'' (sample_raw 2))"
proof -
  obtain dr where run: "run_domain sample_gateway 9 sample_agent ''hardware'' [sample_evidence] [sample_asset] ''t''
      ''normal'' ''standard'' () = (Inr dr, ())"
    and obs: "dr_observations dr = [to_write 9 ''hardware'' {1} ''hardware@0.0.0'' ''m'' (sample_raw 2)]"
    using sample_run by blast
  from run_domain_sourced [OF run, of "to_write 9 ''hardware'' {1} ''hardware@0.0.0'' ''m'' (sample_raw 2)"] obs
  show ?thesis by (simp add: sample_evidence_def sample_asset_def)
qed

text \<open>
  C33. For an answer of the types the agents' output schema gives, optional fields present or
  absent, the result of an agent run is determined: the observations are the sourced ones, in
  order, with their fields unchanged but for the related assets, of which those of the run are
  kept; each of the others is dropped with its index, topic and the reason; the coverage notes,
  the model and the cost are the answer's.
\<close>

theorem run_domain_exact:
  assumes "gateway (domain_request agent evidence assets tenant budget privacy) g = (Inr result, g')"
    and "gr_parsed result = PyDict d" and "schema_answer (PyDict d)"
  shows "run_domain gateway rid agent dmn evidence assets tenant budget privacy g =
    (let obs = dicts_field d ''observations''; E = ev_id ` set evidence; A = as_id ` set assets in
     (Inr \<lparr>dr_agent = ag_name agent,
       dr_observations = map (to_write rid dmn A (ag_name agent @ ''@'' @ ag_version agent) (gr_model result))
         (filter (well_sourced E A) obs),
       dr_dropped = map (\<lambda>(i, ob). why_dropped E i ob)
         (filter (\<lambda>(i, ob). \<not> well_sourced E A ob) (enumerate 0 obs)),
       dr_coverage_notes = strs_field d ''coverage_notes'',
       dr_model_used = gr_model result, dr_cost_usd = gr_cost_usd result\<rparr>, g'))"
  by (simp add: run_domain_answered [of gateway agent evidence assets tenant budget privacy g, OF assms(1)] read_domain_result_schema [OF assms(2,3)] result_of_def
      produced_by_def Let_def)

text \<open>An answer without optional fields, next to one that cites no identifier at all.\<close>

definition brief_raw :: "string \<Rightarrow> pydict" where
  "brief_raw e =
     [(''asset_id'', PyStr (uuid_str 1)), (''topic'', PyStr ''RAM''), (''summary'', PyStr ''64 GB''),
      (''detail'', PyStr ''four modules''), (''evidence_ids'', PyList [PyStr e])]"

definition brief_answer :: pydict where
  "brief_answer = [(''observations'', PyList [PyDict (brief_raw ''lscpu''), PyDict (brief_raw (uuid_str 2))])]"

definition brief_result :: gateway_result where
  "brief_result = sample_result\<lparr>gr_parsed := PyDict brief_answer\<rparr>"

theorem run_domain_exact_witness:
  "run_domain (\<lambda>a. returnC brief_result) 9 sample_agent ''hardware'' [sample_evidence] [sample_asset] ''t'' ''normal''
      ''standard'' () =
    (Inr \<lparr>dr_agent = ''hardware'',
       dr_observations = [\<lparr>ow_run_id = 9, ow_asset_id = 1, ow_domain = ''hardware'', ow_topic = ''RAM'',
         ow_summary = ''64 GB'', ow_detail = ''four modules'', ow_facts = PyDict [], ow_related_asset_ids = [],
         ow_evidence_ids = [2], ow_produced_by_agent = ''hardware@0.0.0'', ow_model_used = ''m''\<rparr>],
       dr_dropped = [''obs[0] (RAM): evidence_id '' @ str_repr ''lscpu'' @ '' is not a UUID''],
       dr_coverage_notes = [], dr_model_used = ''m'', dr_cost_usd = 1 / 100\<rparr>, ())"
proof -
  have lscpu: "uuid_parse ''lscpu'' = Inl (ValueError ''badly formed hexadecimal UUID string'')"
    by code_simp
  have zero: "nat_str 0 = ''0''" by code_simp
  show ?thesis
    by (subst run_domain_exact [of "\<lambda>a. returnC brief_result" _ _ _ _ _ _ _ brief_result "()" brief_answer])
      (simp_all add: Let_def brief_result_def brief_answer_def sample_result_def sample_evidence_def sample_asset_def sample_agent_def
        brief_raw_def has_field_def may_field_def dicts_field_def strs_field_def str_field_def dict_field_def
        well_sourced_def to_write_def why_dropped_def known_id_def the_id_def lscpu zero)
qed

text \<open>
  Nothing is lost silently: of an answer's observations, each is either returned or has a
  reason among the dropped ones.
\<close>

lemma run_domain_accounts:
  assumes "gateway (domain_request agent evidence assets tenant budget privacy) g = (Inr result, g')"
    and "gr_parsed result = PyDict d" and "map_of d ''observations'' = Some (PyList raws)"
    and "run_domain gateway rid agent dmn evidence assets tenant budget privacy g = (Inr dr, g')"
  shows "length (dr_observations dr) + length (dr_dropped dr) = length raws"
proof -
  have "d \<noteq> []" using assms(3) by auto
  with assms have "read_domain_result rid agent dmn evidence assets result = Inr dr"
    by (simp add: run_domain_answered)
  with assms(2,3) \<open>d \<noteq> []\<close> show ?thesis
    by (auto simp: read_domain_result_def dict_get_def dest!: check_loop_count)
qed

lemma run_domain_accounts_witness:
  "\<exists>dr. run_domain sample_gateway 9 sample_agent ''hardware'' [sample_evidence] [sample_asset] ''t'' ''normal''
      ''standard'' () = (Inr dr, ()) \<and> length (dr_dropped dr) = 1"
proof -
  obtain dr where run: "run_domain sample_gateway 9 sample_agent ''hardware'' [sample_evidence] [sample_asset] ''t''
      ''normal'' ''standard'' () = (Inr dr, ())"
    and obs: "dr_observations dr = [to_write 9 ''hardware'' {1} ''hardware@0.0.0'' ''m'' (sample_raw 2)]"
    using sample_run by blast
  have "length (dr_observations dr) + length (dr_dropped dr) = length (map PyDict [sample_raw 2, sample_raw 3])"
    by (rule run_domain_accounts [OF _ _ _ run, where result = sample_result and d = sample_answer])
      (simp_all add: sample_gateway_def sample_result_def sample_answer_def)
  with obs run show ?thesis by simp
qed

text \<open>
  An answer without valid JSON yields no observation, one reason that quotes the schema
  errors, and no exception.
\<close>

lemma run_domain_schema_failure:
  assumes "gateway (domain_request agent evidence assets tenant budget privacy) g = (Inr result, g')"
    and "\<not> py_truthy (gr_parsed result)"
  shows "\<exists>dr why. run_domain gateway rid agent dmn evidence assets tenant budget privacy g = (Inr dr, g') \<and>
    dr_observations dr = [] \<and> dr_coverage_notes dr = [] \<and> dr_cost_usd dr = gr_cost_usd result \<and>
    dr_dropped dr = [''agent output failed schema validation: '' @ why] \<and>
    why = (if str_join ''; '' (gr_schema_errors result) = [] then ''no JSON returned''
           else str_join ''; '' (gr_schema_errors result))"
  using assms(2)
  by (simp add: run_domain_def bindC_def assms(1) read_domain_result_def schema_failure_def Let_def)

lemma run_domain_schema_failure_witness:
  "\<exists>dr. run_domain (\<lambda>a. returnC (sample_result\<lparr>gr_parsed := PyNone\<rparr>)) 9 sample_agent ''hardware''
      [sample_evidence] [sample_asset] ''t'' ''normal'' ''standard'' () = (Inr dr, ()) \<and>
      dr_dropped dr = [''agent output failed schema validation: no JSON returned'']"
  using run_domain_schema_failure [of "\<lambda>a. returnC (sample_result\<lparr>gr_parsed := PyNone\<rparr>)" sample_agent
      "[sample_evidence]" "[sample_asset]" "''t''" "''normal''" "''standard''" "()"
      "sample_result\<lparr>gr_parsed := PyNone\<rparr>" "()" 9 "''hardware''"]
  by (auto simp: sample_result_def)

text \<open>
  The routing an agent declares is not used: the request carries the budget and privacy of
  the run, so changing an agent's declared budget or privacy tier changes nothing.
\<close>

lemma run_domain_ignores_declared_routing:
  "run_domain gateway rid (agent\<lparr>ag_budget_hint := bh, ag_privacy := pr\<rparr>) dmn evidence assets tenant budget privacy =
   run_domain gateway rid agent dmn evidence assets tenant budget privacy"
  by (rule ext)
    (simp add: run_domain_def domain_request_def read_domain_result_def produced_by_def cong: if_cong)

lemma content_cites_evidence:
  assumes "e \<in> set evidence"
  shows "sublist (json_str (uuid_str (ev_id e))) (build_user_content evidence assets)"
proof -
  let ?x = "json_str (uuid_str (ev_id e))"
  have "sublist ?x (json_str ''evidence_id'' @ '': '' @ json_dumps 2 4 (PyStr (uuid_str (ev_id e))))"
    using sublist_in_append [of ?x ?x "json_str ''evidence_id'' @ '': ''" "[]"] by simp
  moreover have "sublist (json_str ''evidence_id'' @ '': '' @ json_dumps 2 4 (PyStr (uuid_str (ev_id e))))
      (json_dumps 2 2 (evidence_json e))"
    unfolding evidence_json_def by (simp add: sublist_json_block)
  moreover have "sublist (json_dumps 2 2 (evidence_json e)) (json_dumps 2 0 (PyList (map evidence_json evidence)))"
    unfolding json_dumps.simps using assms by (intro sublist_json_block) (simp add: numeral_2_eq_2)
  ultimately have x: "sublist ?x (json_dumps 2 0 (PyList (map evidence_json evidence)))"
    by (rule sublist_order.order_trans [OF _ sublist_order.order_trans])
  show ?thesis
    unfolding build_user_content_def
    by (rule sublist_append_before, rule sublist_append_before, rule sublist_append_before,
        rule sublist_append_before, rule sublist_append_after [OF x])
qed

text \<open>
  The agent is shown what it may cite: the rendered content holds the identifier of every
  evidence item it is given, as a JSON string.
\<close>

lemma user_content_shows_evidence:
  "\<forall>e \<in> set evidence. sublist (json_str (uuid_str (ev_id e))) (build_user_content evidence assets)"
  by (simp add: content_cites_evidence)

lemma user_content_shows_evidence_witness:
  "sublist (json_str (uuid_str 2)) (build_user_content [sample_evidence] [sample_asset])"
  using user_content_shows_evidence [of "[sample_evidence]" "[sample_asset]"] by (simp add: sample_evidence_def)

end
