(* ===== verification/Py_Float.thy ===== *)
theory Py_Float
  imports Complex_Main "HOL-Library.Log_Nat"
begin

text \<open>
  Python's float arithmetic: a finite float is the rational it denotes, and an operation rounds its
  exact result to the nearest binary64 value, ties to even. \<open>float_round\<close> rounds with the exponent
  bounded below (subnormals) and not above; it is monotone, keeps the sign and fixes what it yields.
  \<open>to_float\<close> adds the upper bound: a result that reaches \<open>2 ^ 1024\<close> is not finite.
\<close>

section \<open>Rounding to an integer\<close>

definition round_even :: "rat \<Rightarrow> int" where
  "round_even x =
     (let f = \<lfloor>x\<rfloor>; r = x - of_int f in
      if r < 1 / 2 then f else if 1 / 2 < r then f + 1 else if even f then f else f + 1)"

lemma round_even_bounds: "\<lfloor>x\<rfloor> \<le> round_even x \<and> round_even x \<le> \<lfloor>x\<rfloor> + 1"
  by (simp add: round_even_def Let_def)

lemma round_even_of_int [simp]: "round_even (of_int n) = n"
  by (simp add: round_even_def)

lemma round_even_mono:
  assumes "x \<le> y"
  shows "round_even x \<le> round_even y"
proof (cases "\<lfloor>x\<rfloor> = \<lfloor>y\<rfloor>")
  case True
  with assms show ?thesis by (auto simp: round_even_def Let_def)
next
  case False
  with floor_mono [OF assms] have "\<lfloor>x\<rfloor> + 1 \<le> \<lfloor>y\<rfloor>" by linarith
  with round_even_bounds [of x] round_even_bounds [of y] show ?thesis by linarith
qed

lemma round_even_le: "x \<le> of_int n \<Longrightarrow> round_even x \<le> n"
  using round_even_mono [of x "of_int n"] by simp

lemma round_even_ge: "of_int n \<le> x \<Longrightarrow> n \<le> round_even x"
  using round_even_mono [of "of_int n" x] by simp

section \<open>Binades\<close>

text \<open>The exponent of the leading bit of a positive rational.\<close>

definition binade :: "rat \<Rightarrow> int" where
  "binade x =
     (let (p, q) = quotient_of x; e = int (floorlog 2 (nat p)) - int (floorlog 2 (nat q)) in
      if 2 powi e \<le> x then e else e - 1)"

lemma powi_quotient:
  assumes "k \<le> n"
  shows "(2::rat) powi n / 2 powi k = of_int (2 ^ nat (n - k))"
proof -
  have "(2::rat) powi n / 2 powi k = 2 powi (n - k)" by (simp add: power_int_diff)
  also have "\<dots> = of_int (2 ^ nat (n - k))" using assms by (simp only: power_int_def) simp
  finally show ?thesis .
qed

lemma floorlog_rat_bounds:
  assumes "0 < (n::nat)"
  shows "(2::rat) powi (int (floorlog 2 n) - 1) \<le> of_nat n" and "of_nat n < (2::rat) powi (int (floorlog 2 n))"
proof -
  from floorlog_bounds [of n 2] assms have b: "2 ^ (floorlog 2 n - 1) \<le> n" "n < 2 ^ floorlog 2 n" by auto
  from assms have "0 < floorlog 2 n" by (simp add: floorlog_def)
  then have "int (floorlog 2 n) - 1 = int (floorlog 2 n - 1)" by simp
  then show "(2::rat) powi (int (floorlog 2 n) - 1) \<le> of_nat n"
    using b(1) by (simp only: power_int_of_nat) (metis of_nat_le_iff of_nat_numeral of_nat_power)
  show "of_nat n < (2::rat) powi (int (floorlog 2 n))"
    using b(2) by (simp only: power_int_of_nat) (metis of_nat_less_iff of_nat_numeral of_nat_power)
qed

lemma binade_bounds:
  assumes "0 < x"
  shows "2 powi binade x \<le> x" and "x < 2 powi (binade x + 1)"
proof -
  obtain p q where pq: "quotient_of x = (p, q)" by fastforce
  then have x: "x = of_int p / of_int q" and q: "0 < q"
    by (auto dest: quotient_of_div quotient_of_denom_pos)
  from assms x q have p: "0 < p" and p0: "0 \<le> p" by (simp_all add: zero_less_divide_iff)
  define a b where "a = int (floorlog 2 (nat p))" and "b = int (floorlog 2 (nat q))"
  from floorlog_rat_bounds [of "nat p"] p have P: "(2::rat) powi (a - 1) \<le> of_int p" "of_int p < (2::rat) powi a"
    by (simp_all add: a_def)
  from floorlog_rat_bounds [of "nat q"] q have Q: "(2::rat) powi (b - 1) \<le> of_int q" "of_int q < (2::rat) powi b"
    by (simp_all add: b_def)
  have "x < 2 powi a / 2 powi (b - 1)"
    unfolding x using P(2) Q(1) p0 by (intro frac_less) auto
  also have "\<dots> = 2 powi (a - b + 1)" by (simp add: power_int_diff power_int_add)
  finally have hi: "x < 2 powi (a - b + 1)" .
  have "2 powi (a - b - 1) = 2 powi (a - 1) / (2::rat) powi b" by (simp add: power_int_diff power_int_add)
  also have "\<dots> \<le> x"
    unfolding x using P Q q p0 by (intro frac_le) auto
  finally have lo: "2 powi (a - b - 1) \<le> x" .
  have e: "binade x = (if 2 powi (a - b) \<le> x then a - b else a - b - 1)"
    by (simp add: binade_def pq a_def b_def)
  from e lo show "2 powi binade x \<le> x" by (simp split: if_splits)
  from e hi show "x < 2 powi (binade x + 1)" by (simp split: if_splits)
qed

lemma binade_unique: "0 < x \<Longrightarrow> 2 powi n \<le> x \<Longrightarrow> n \<le> binade x"
  using binade_bounds(2) [of x] power_int_increasing [of "binade x + 1" n "2::rat"] by (cases "n \<le> binade x") auto

lemma binade_mono: "0 < x \<Longrightarrow> x \<le> y \<Longrightarrow> binade x \<le> binade y"
  using binade_bounds(1) [of x] by (intro binade_unique) auto

section \<open>Binary64\<close>

text \<open>The exponent of the last place of the float nearest to \<open>x\<close>: 53 significant bits, or subnormal.\<close>

definition last_place :: "rat \<Rightarrow> int" where
  "last_place x = max (binade x - 52) (- 1074)"

definition round_pos :: "rat \<Rightarrow> rat" where
  "round_pos x = of_int (round_even (x / 2 powi last_place x)) * 2 powi last_place x"

definition float_round :: "rat \<Rightarrow> rat" where
  "float_round x = (if x = 0 then 0 else if 0 < x then round_pos x else - round_pos (- x))"

definition float_add :: "rat \<Rightarrow> rat \<Rightarrow> rat" where
  "float_add x y = float_round (x + y)"

definition float_mult :: "rat \<Rightarrow> rat \<Rightarrow> rat" where
  "float_mult x y = float_round (x * y)"

definition float_divide :: "rat \<Rightarrow> rat \<Rightarrow> rat" where
  "float_divide x y = float_round (x / y)"

lemma float_round_0 [simp]: "float_round 0 = 0"
  by (simp add: float_round_def)

lemma round_pos_nonneg: "0 < x \<Longrightarrow> 0 \<le> round_pos x"
  using round_even_ge [of 0 "x / 2 powi last_place x"] by (simp add: round_pos_def)

lemma round_pos_above:
  assumes "0 < x" and "2 powi n \<le> x" and "last_place x \<le> n"
  shows "2 powi n \<le> round_pos x"
proof -
  let ?k = "last_place x"
  from assms(3) have n: "(2::rat) powi n / 2 powi ?k = of_int (2 ^ nat (n - ?k))" by (rule powi_quotient)
  have "2 powi n / 2 powi ?k \<le> x / (2::rat) powi ?k" using assms(2) by (simp add: divide_right_mono)
  then have "2 ^ nat (n - ?k) \<le> round_even (x / 2 powi ?k)" unfolding n by (rule round_even_ge)
  then have "2 powi n / (2::rat) powi ?k \<le> of_int (round_even (x / 2 powi ?k))" unfolding n by linarith
  then show ?thesis by (simp add: round_pos_def pos_divide_le_eq)
qed

lemma round_pos_below:
  assumes "0 < x" and "x \<le> 2 powi n" and "last_place x \<le> n"
  shows "round_pos x \<le> 2 powi n"
proof -
  let ?k = "last_place x"
  from assms(3) have n: "(2::rat) powi n / 2 powi ?k = of_int (2 ^ nat (n - ?k))" by (rule powi_quotient)
  have "x / (2::rat) powi ?k \<le> 2 powi n / 2 powi ?k" using assms(2) by (simp add: divide_right_mono)
  then have "round_even (x / 2 powi ?k) \<le> 2 ^ nat (n - ?k)" unfolding n by (rule round_even_le)
  then have "of_int (round_even (x / 2 powi ?k)) \<le> 2 powi n / (2::rat) powi ?k" unfolding n by linarith
  then show ?thesis by (simp add: round_pos_def pos_le_divide_eq)
qed

lemma round_pos_mono:
  assumes "0 < x" and "x \<le> y"
  shows "round_pos x \<le> round_pos y"
proof (cases "last_place x = last_place y")
  case True
  have "x / 2 powi last_place y \<le> y / 2 powi last_place y" using assms(2) by (simp add: divide_right_mono)
  then have "round_even (x / 2 powi last_place y) \<le> round_even (y / 2 powi last_place y)" by (rule round_even_mono)
  with True show ?thesis by (simp add: round_pos_def)
next
  case False
  from assms have y: "0 < y" by simp
  let ?n = "binade y"
  from binade_mono [OF assms] False have lt: "binade x + 1 \<le> ?n" and k: "last_place y = ?n - 52"
    and kx: "last_place x \<le> ?n"
    by (auto simp: last_place_def)
  from binade_bounds(2) [OF assms(1)] power_int_increasing [OF lt, of "2::rat"] have "x \<le> 2 powi ?n" by simp
  then have "round_pos x \<le> 2 powi ?n" using assms(1) kx by (intro round_pos_below)
  also have "\<dots> \<le> round_pos y" using binade_bounds(1) [OF y] y k by (intro round_pos_above) auto
  finally show ?thesis .
qed

lemma float_round_nonneg: "0 \<le> x \<Longrightarrow> 0 \<le> float_round x"
  by (auto simp: float_round_def round_pos_nonneg)

lemma float_round_nonpos: "x \<le> 0 \<Longrightarrow> float_round x \<le> 0"
  using round_pos_nonneg [of "- x"] by (auto simp: float_round_def)

lemma float_round_mono: "x \<le> y \<Longrightarrow> float_round x \<le> float_round y"
proof -
  assume le: "x \<le> y"
  consider "0 < x" | "x \<le> 0 \<and> 0 \<le> y" | "y < 0" by linarith
  then show ?thesis
  proof cases
    case 1
    with le round_pos_mono show ?thesis by (auto simp: float_round_def)
  next
    case 2
    with float_round_nonneg [of y] float_round_nonpos [of x] show ?thesis by linarith
  next
    case 3
    with le round_pos_mono [of "- y" "- x"] show ?thesis by (auto simp: float_round_def)
  qed
qed

text \<open>A number of up to 53 significant bits is a float, and every result is one.\<close>

definition is_float :: "rat \<Rightarrow> bool" where
  "is_float x \<longleftrightarrow> (\<exists>k e. x = of_int k * 2 powi e \<and> \<bar>k\<bar> < 2 ^ 53 \<and> - 1074 \<le> e)"

lemma round_pos_exact:
  assumes "0 < k" and "k < 2 ^ 53" and "- 1074 \<le> e"
  shows "round_pos (of_int k * 2 powi e) = of_int k * 2 powi e"
proof -
  let ?x = "of_int k * 2 powi e :: rat"
  have pos: "0 < ?x" using assms(1) by simp
  have "(of_int k :: rat) < 2 ^ 53" using assms(2) by (metis of_int_less_iff of_int_numeral of_int_power)
  then have "?x < 2 ^ 53 * 2 powi e" by (intro mult_strict_right_mono) auto
  also have "\<dots> = 2 powi (53 + e)" by (simp add: power_int_add)
  finally have "\<not> 53 + e \<le> binade ?x"
    using binade_bounds(1) [OF pos] power_int_increasing [of "53 + e" "binade ?x" "2::rat"] by auto
  with assms(3) have le: "last_place ?x \<le> e" by (simp add: last_place_def)
  have "?x / 2 powi last_place ?x = of_int (k * 2 ^ nat (e - last_place ?x))"
    by (simp only: of_int_mult powi_quotient [OF le, symmetric]) simp
  then show ?thesis
    unfolding round_pos_def by (metis nonzero_divide_eq_eq power_int_not_zero round_even_of_int zero_neq_numeral)
qed

lemma float_round_exact:
  assumes "is_float x"
  shows "float_round x = x"
proof -
  from assms obtain k e where x: "x = of_int k * 2 powi e" and k: "\<bar>k\<bar> < 2 ^ 53" and e: "- 1074 \<le> e"
    by (auto simp: is_float_def)
  have sgn: "0 < x \<longleftrightarrow> 0 < k" "x = 0 \<longleftrightarrow> k = 0"
    unfolding x by (auto simp: zero_less_mult_iff) (simp add: zero_less_power_int leD order_less_imp_le)
  consider "k = 0" | "0 < k" | "k < 0" by linarith
  then show ?thesis
  proof cases
    case 3
    then have "round_pos (- x) = - x"
      using round_pos_exact [of "- k" e] k e by (simp add: x)
    with 3 sgn show ?thesis by (simp add: float_round_def)
  qed (use sgn round_pos_exact [of k e] k e in \<open>auto simp: float_round_def x\<close>)
qed

section \<open>Overflow\<close>

text \<open>
  A float is \<open>Some\<close> of the rational it denotes, or \<open>None\<close>: an infinity or a NaN. Sums and products with an
  operand that is not finite are not finite, and neither is its quotient by a number.
\<close>

type_synonym pyfloat = "rat option"

definition overflow :: rat where
  "overflow = 2 ^ 1024"

definition to_float :: "rat \<Rightarrow> pyfloat" where
  "to_float x = (if \<bar>float_round x\<bar> < overflow then Some (float_round x) else None)"

definition py_add :: "pyfloat \<Rightarrow> pyfloat \<Rightarrow> pyfloat" where
  "py_add x y = Option.bind x (\<lambda>a. Option.bind y (\<lambda>b. to_float (a + b)))"

definition py_mult :: "pyfloat \<Rightarrow> pyfloat \<Rightarrow> pyfloat" where
  "py_mult x y = Option.bind x (\<lambda>a. Option.bind y (\<lambda>b. to_float (a * b)))"

definition py_divide :: "pyfloat \<Rightarrow> rat \<Rightarrow> pyfloat" where
  "py_divide x y = Option.bind x (\<lambda>a. to_float (a / y))"

text \<open>Below a finite result everything is finite.\<close>

lemma to_float_mono:
  assumes "to_float y = Some y'" and "0 \<le> x" and "x \<le> y"
  obtains x' where "to_float x = Some x'" and "0 \<le> x'" and "x' \<le> y'"
  using assms float_round_mono [OF assms(3)] float_round_nonneg [OF assms(2)]
  by (auto simp: to_float_def split: if_splits)

lemma to_float_bounded:
  assumes "0 \<le> x" and "x \<le> 2 ^ k" and "k < 1024"
  obtains x' where "to_float x = Some x'" and "0 \<le> x'" and "x' \<le> 2 ^ k"
proof -
  have "is_float (2 ^ k)"
    unfolding is_float_def by (intro exI [of _ 1] exI [of _ "int k"]) (simp add: power_int_def)
  moreover have "(2::rat) ^ k < overflow" unfolding overflow_def using assms(3) by (rule power_strict_increasing) simp
  ultimately have "to_float (2 ^ k) = Some (2 ^ k)" by (simp add: to_float_def float_round_exact)
  from to_float_mono [OF this assms(1,2)] that show thesis by blast
qed

lemma to_float_0 [simp]: "to_float 0 = Some 0"
  by (simp add: to_float_def overflow_def)

end
