(* ===== verification/Runner.thy ===== *)
theory Runner
  imports Domains Discovery Py_Float
begin

text \<open>
  \<open>auditcore_orchestrator/runner.py\<close>, the discovery pass: \<open>discover_run\<close> groups the categories of a
  run by agent, runs each agent once over the union of its categories' evidence and persists what
  passed the checks. The world of a pass is a pair: the store and the state of the gateway.

  The lemmas inside \<open>repo_store\<close> hold for every implementation of the protocol; the properties
  state them of PgRepo.
\<close>

record run_report =
  rr_run_id :: uuid
  rr_observations_written :: nat
  rr_dropped :: "string list"
  rr_coverage_notes :: "string list"
  rr_cost_usd :: rat
  rr_domains_run :: "string list"

definition new_report :: "uuid \<Rightarrow> run_report" where
  "new_report rid =
     \<lparr>rr_run_id = rid, rr_observations_written = 0, rr_dropped = [], rr_coverage_notes = [],
      rr_cost_usd = 0, rr_domains_run = []\<rparr>"

text \<open>The keyword arguments of both passes, but for the repository.\<close>

record 'g run_args =
  ra_run_id :: uuid
  ra_registry :: agent_registry
  ra_gateway :: "'g gateway_client"
  ra_tenant_id :: string
  ra_budget_hint :: string
  ra_privacy :: string

section \<open>Grouping the categories by agent\<close>

text \<open>A dict in insertion order: agent name to domain and categories.\<close>

type_synonym by_agent = "(string \<times> string \<times> string list) list"

definition add_category :: "domain_binding \<Rightarrow> string \<Rightarrow> by_agent \<Rightarrow> by_agent" where
  "add_category b category m =
     (case map_of m (db_agent b) of
        None \<Rightarrow> AList.update (db_agent b) (db_domain b, [category]) m
      | Some (dmn, cats) \<Rightarrow> AList.update (db_agent b) (dmn, cats @ [category]) m)"

definition no_agent_for :: "string \<Rightarrow> string" where
  "no_agent_for category = ''no discovery agent for category '' @ str_repr category"

fun group_categories :: "string list \<Rightarrow> string list \<Rightarrow> by_agent \<Rightarrow> string list \<times> by_agent" where
  "group_categories [] dropped m = (dropped, m)"
| "group_categories (c # cs) dropped m =
     (case binding_for c of
        None \<Rightarrow> group_categories cs (dropped @ [no_agent_for c]) m
      | Some b \<Rightarrow> group_categories cs dropped (add_category b c m))"

section \<open>discover_run\<close>

definition not_in_registry :: "string \<Rightarrow> string" where
  "not_in_registry a = ''agent '' @ str_repr a @ '' not in registry''"

definition agent_run_metadata :: "string \<Rightarrow> string \<Rightarrow> nat \<Rightarrow> nat \<Rightarrow> domain_result \<Rightarrow> audit_metadata" where
  "agent_run_metadata agent_name dmn evidence written result =
     [(''agent'', AText agent_name), (''domain'', AText dmn), (''evidence'', ACount evidence),
      (''written'', ACount written), (''dropped'', ACount (length (dr_dropped result))),
      (''model'', AText (dr_model_used result)), (''cost_usd'', AFloat (dr_cost_usd result))]"

definition add_result :: "string \<Rightarrow> nat \<Rightarrow> domain_result \<Rightarrow> run_report \<Rightarrow> run_report" where
  "add_result agent_name written result report = report
     \<lparr>rr_observations_written := rr_observations_written report + written,
      rr_dropped := rr_dropped report @ dr_dropped result,
      rr_coverage_notes := rr_coverage_notes report @ dr_coverage_notes result,
      rr_cost_usd := float_add (rr_cost_usd report) (dr_cost_usd result),
      rr_domains_run := rr_domains_run report @ [agent_name]\<rparr>"

text \<open>One iteration of the loop over the agents.\<close>

definition agent_step ::
  "'s repo_ops \<Rightarrow> 'g run_args \<Rightarrow> asset_row list \<Rightarrow> run_report \<Rightarrow> string \<times> string \<times> string list \<Rightarrow>
   ('s \<times> 'g, run_report) cmd" where
  "agent_step ops ra assets report grp =
     (case grp of (agent_name, dmn, cats) \<Rightarrow>
      if \<not> reg_contains (ra_registry ra) agent_name
      then returnC (report\<lparr>rr_dropped := rr_dropped report @ [not_in_registry agent_name]\<rparr>)
      else bindC (liftC (reg_get (ra_registry ra) agent_name)) (\<lambda>agent.
        bindC (mapC (\<lambda>cat. on_fst (evidence_for_category ops (ra_run_id ra) cat)) cats) (\<lambda>chunks.
        let evidence = concat chunks in
        if evidence = [] then returnC report
        else bindC (on_snd (run_domain (ra_gateway ra) (ra_run_id ra) agent dmn evidence assets
                              (ra_tenant_id ra) (ra_budget_hint ra) (ra_privacy ra))) (\<lambda>result.
          bindC (on_fst (write_observations ops (dr_observations result))) (\<lambda>written.
          bindC (on_fst (audit ops (ra_run_id ra) ''discovery.agent_run''
                   (agent_run_metadata agent_name dmn (length evidence) written result))) (\<lambda>_.
          returnC (add_result agent_name written result report)))))))"

fun agent_loop ::
  "'s repo_ops \<Rightarrow> 'g run_args \<Rightarrow> asset_row list \<Rightarrow> run_report \<Rightarrow> by_agent \<Rightarrow> ('s \<times> 'g, run_report) cmd" where
  "agent_loop ops ra assets report [] = returnC report"
| "agent_loop ops ra assets report (grp # grps) =
     bindC (agent_step ops ra assets report grp) (\<lambda>report'. agent_loop ops ra assets report' grps)"

definition discover_run :: "'s repo_ops \<Rightarrow> 'g run_args \<Rightarrow> ('s \<times> 'g, run_report) cmd" where
  "discover_run ops ra =
     bindC (on_fst (set_run_status ops (ra_run_id ra) ''discovering'')) (\<lambda>_.
     bindC (on_fst (categories_present ops (ra_run_id ra))) (\<lambda>categories.
     bindC (on_fst (assets_for_run ops (ra_run_id ra))) (\<lambda>assets.
     let (dropped, m) = group_categories categories [] [] in
     bindC (agent_loop ops ra assets ((new_report (ra_run_id ra))\<lparr>rr_dropped := dropped\<rparr>) m) (\<lambda>report.
     bindC (on_fst (set_run_status ops (ra_run_id ra) ''reporting'')) (\<lambda>_.
     bindC (on_fst (audit ops (ra_run_id ra) ''discovery.complete''
              [(''observations'', ACount (rr_observations_written report)),
               (''dropped'', ACount (length (rr_dropped report))),
               (''cost_usd'', AFloat (rr_cost_usd report))])) (\<lambda>_.
     returnC report))))))"

section \<open>What the grouping computes\<close>

text \<open>Every agent once, with exactly the categories bound to it, in their order.\<close>

definition grouped :: "string list \<Rightarrow> by_agent \<Rightarrow> bool" where
  "grouped cs m \<longleftrightarrow> distinct (map fst m) \<and>
     (\<forall>(a, d, ccs) \<in> set m. ccs \<noteq> [] \<and> ccs = filter (\<lambda>c. binding_for c = Some (binding d a)) cs) \<and>
     (\<forall>c \<in> set cs. \<forall>b. binding_for c = Some b \<longrightarrow> db_agent b \<in> fst ` set m)"

lemma binding_eta: "binding (db_domain b) (db_agent b) = b"
  by (simp add: binding_def)

lemma update_entries:
  "distinct (map fst m) \<Longrightarrow> set (AList.update k v m) = {(k, v)} \<union> {p \<in> set m. fst p \<noteq> k}"
  by (induction m) (auto simp: image_iff)

lemma grouped_add:
  assumes g: "grouped cs m" and b: "binding_for c = Some b"
  shows "grouped (cs @ [c]) (add_category b c m)"
proof -
  let ?a = "db_agent b"
  from g have dist: "distinct (map fst m)"
    and entry: "(a, d, ccs) \<in> set m \<Longrightarrow> ccs \<noteq> [] \<and> ccs = filter (\<lambda>c. binding_for c = Some (binding d a)) cs"
    and all: "c' \<in> set cs \<Longrightarrow> binding_for c' = Some b' \<Longrightarrow> db_agent b' \<in> fst ` set m" for a d ccs c' b'
    by (auto simp: grouped_def)
  have upd: "add_category b c m =
      AList.update ?a (db_domain b, filter (\<lambda>c. binding_for c = Some b) (cs @ [c])) m"
  proof (cases "map_of m ?a")
    case None
    then have "?a \<notin> fst ` set m" by (simp add: map_of_eq_None_iff)
    with all have "filter (\<lambda>c. binding_for c = Some b) cs = []" by (auto simp: filter_empty_conv)
    with None b show ?thesis by (simp add: add_category_def)
  next
    case (Some p)
    then obtain d ccs where p: "p = (d, ccs)" and m: "(?a, d, ccs) \<in> set m"
      by (cases p) (auto dest: map_of_SomeD)
    from entry [OF m] obtain c' where "binding_for c' = Some (binding d ?a)"
      by (metis (mono_tags, lifting) filter_empty_conv)
    with b have d: "d = db_domain b" using binding_agent_domain [of c' "binding d ?a" c b] by simp
    with entry [OF m] have "ccs = filter (\<lambda>c. binding_for c = Some b) cs" by (simp add: binding_eta)
    with Some p d b show ?thesis by (simp add: add_category_def)
  qed
  have other: "binding_for c \<noteq> Some (binding d a)" if "a \<noteq> ?a" for a d
    using b that by auto
  show ?thesis
    unfolding upd grouped_def
  proof (intro conjI ballI allI impI)
    show "distinct (map fst (AList.update ?a (db_domain b, filter (\<lambda>c. binding_for c = Some b) (cs @ [c])) m))"
      using dist by (rule distinct_update)
  next
    fix p
    assume "p \<in> set (AList.update ?a (db_domain b, filter (\<lambda>c. binding_for c = Some b) (cs @ [c])) m)"
    then show "case p of (a, d, ccs) \<Rightarrow>
        ccs \<noteq> [] \<and> ccs = filter (\<lambda>c. binding_for c = Some (binding d a)) (cs @ [c])"
      using entry other b by (auto simp: update_entries [OF dist] binding_eta)
  next
    fix c' b'
    assume "c' \<in> set (cs @ [c])" and "binding_for c' = Some b'"
    with all b show "db_agent b' \<in> fst ` set (AList.update ?a (db_domain b, filter (\<lambda>c. binding_for c = Some b) (cs @ [c])) m)"
      by (auto simp: dom_update)
  qed
qed

lemma grouped_skip: "grouped cs m \<Longrightarrow> binding_for c = None \<Longrightarrow> grouped (cs @ [c]) m"
  by (auto simp: grouped_def)

lemma group_categories_from:
  "group_categories cs dropped m = (dropped', m') \<Longrightarrow> grouped done m \<Longrightarrow>
     grouped (done @ cs) m' \<and> dropped' = dropped @ map no_agent_for (filter (\<lambda>c. binding_for c = None) cs)"
proof (induction cs arbitrary: dropped m "done")
  case Nil
  then show ?case by simp
next
  case (Cons c cs)
  show ?case
  proof (cases "binding_for c")
    case None
    with Cons.prems Cons.IH [of "dropped @ [no_agent_for c]" m "done @ [c]"] show ?thesis
      by (simp add: grouped_skip)
  next
    case (Some b)
    with Cons.prems Cons.IH [of dropped "add_category b c m" "done @ [c]"] show ?thesis
      by (simp add: grouped_add)
  qed
qed

lemma group_categories_grouped:
  "group_categories cs [] [] = (dropped, m) \<Longrightarrow>
     grouped cs m \<and> dropped = map no_agent_for (filter (\<lambda>c. binding_for c = None) cs)"
  using group_categories_from [of cs "[]" "[]" dropped m "[]"] by (simp add: grouped_def)

section \<open>What a pass adds to the store\<close>

text \<open>A store that has grown by observations and audit entries and is otherwise the same.\<close>

definition grows :: "repo_view \<Rightarrow> observation_write list \<Rightarrow> (uuid \<times> string \<times> audit_metadata) list \<Rightarrow> repo_view" where
  "grows v new auds = v\<lparr>rv_written := rv_written v @ new, rv_audit := rv_audit v @ auds\<rparr>"

lemma grows_nil [simp]: "grows v [] [] = v"
  by (simp add: grows_def)

lemma grows_grows [simp]: "grows (grows v new auds) new' auds' = grows v (new @ new') (auds @ auds')"
  by (simp add: grows_def)

lemma grows_fields [simp]:
  "rv_evidence (grows v new auds) = rv_evidence v" "rv_assets (grows v new auds) = rv_assets v"
  "rv_categories (grows v new auds) = rv_categories v" "rv_status (grows v new auds) = rv_status v"
  "rv_sections (grows v new auds) = rv_sections v" "rv_written (grows v new auds) = rv_written v @ new"
  "rv_audit (grows v new auds) = rv_audit v @ auds"
  by (simp_all add: grows_def)

text \<open>The evidence of the categories bound to an agent, among some categories.\<close>

definition bound_evidence :: "repo_view \<Rightarrow> uuid \<Rightarrow> string list \<Rightarrow> domain_binding \<Rightarrow> evidence_row list" where
  "bound_evidence v rid cs b = concat (map (rv_evidence v rid) (filter (\<lambda>c. binding_for c = Some b) cs))"

text \<open>
  An observation with provenance: some binding's agent of the registry produced it, under the
  binding's domain, from the run's evidence in the categories bound to that agent.
\<close>

definition discovered :: "repo_view \<Rightarrow> uuid \<Rightarrow> agent_registry \<Rightarrow> observation_write \<Rightarrow> bool" where
  "discovered v rid registry ow \<longleftrightarrow>
     (\<exists>(c, b) \<in> set CATEGORY_BINDINGS. \<exists>agent.
        reg_get registry (db_agent b) = Inr agent \<and> ow_run_id ow = rid \<and> ow_domain ow = db_domain b \<and>
        ow_produced_by_agent ow = produced_by agent \<and>
        sourced (ev_id ` set (bound_evidence v rid (rv_categories v rid) b)) (as_id ` set (rv_assets v rid)) ow)"

definition evidence_of :: "repo_view \<Rightarrow> uuid \<Rightarrow> string list \<Rightarrow> evidence_row list" where
  "evidence_of v rid cats = concat (map (rv_evidence v rid) cats)"

lemma evidence_of_grows [simp]: "evidence_of (grows v new auds) rid cats = evidence_of v rid cats"
  by (simp add: evidence_of_def)

text \<open>The groups whose agent runs, and what the completed runs amount to.\<close>

definition runnable :: "agent_registry \<Rightarrow> repo_view \<Rightarrow> uuid \<Rightarrow> string \<times> string \<times> string list \<Rightarrow> bool" where
  "runnable registry v rid grp =
     (case grp of (a, d, cats) \<Rightarrow> reg_contains registry a \<and> evidence_of v rid cats \<noteq> [])"

text \<open>
  The reference for a pass: what the agents of some groups answer, one after the other, over the
  evidence and the assets the store held before the pass. A group that does not run has no answer.
\<close>

definition agent_answer ::
  "'g run_args \<Rightarrow> repo_view \<Rightarrow> string \<times> string \<times> string list \<Rightarrow> ('g, domain_result option) cmd" where
  "agent_answer ra v grp =
     (case grp of (a, d, cats) \<Rightarrow>
      if \<not> runnable (ra_registry ra) v (ra_run_id ra) grp then returnC None
      else bindC (liftC (reg_get (ra_registry ra) a)) (\<lambda>agent.
        bindC (run_domain (ra_gateway ra) (ra_run_id ra) agent d (evidence_of v (ra_run_id ra) cats)
                 (rv_assets v (ra_run_id ra)) (ra_tenant_id ra) (ra_budget_hint ra) (ra_privacy ra))
          (\<lambda>r. returnC (Some r))))"

definition agent_answers :: "'g run_args \<Rightarrow> repo_view \<Rightarrow> by_agent \<Rightarrow> ('g, domain_result option list) cmd" where
  "agent_answers ra v grps = mapC (agent_answer ra v) grps"

type_synonym agent_outcome = "(string \<times> string \<times> string list) \<times> domain_result option"

text \<open>The groups that ran with their results, and the reasons a group adds to the dropped ones.\<close>

definition agent_runs :: "agent_outcome list \<Rightarrow> ((string \<times> string \<times> string list) \<times> domain_result) list" where
  "agent_runs outs = List.map_filter (\<lambda>(grp, out). map_option (Pair grp) out) outs"

definition group_reasons :: "agent_registry \<Rightarrow> agent_outcome \<Rightarrow> string list" where
  "group_reasons registry oc =
     (case oc of
        (grp, Some r) \<Rightarrow> dr_dropped r
      | (grp, None) \<Rightarrow> if reg_contains registry (fst grp) then [] else [not_in_registry (fst grp)])"

definition observed_by :: "agent_outcome list \<Rightarrow> observation_write list" where
  "observed_by outs = concat (map (\<lambda>(grp, r). dr_observations r) (agent_runs outs))"

definition run_entry :: "repo_view \<Rightarrow> uuid \<Rightarrow> (string \<times> string \<times> string list) \<times> domain_result \<Rightarrow>
    uuid \<times> string \<times> audit_metadata" where
  "run_entry v rid = (\<lambda>((a, d, cats), r). (rid, ''discovery.agent_run'',
     [(''agent'', AText a), (''domain'', AText d), (''evidence'', ACount (length (evidence_of v rid cats))),
      (''written'', ACount (length (dr_observations r))), (''dropped'', ACount (length (dr_dropped r))),
      (''model'', AText (dr_model_used r)), (''cost_usd'', AFloat (dr_cost_usd r))]))"

definition summed_up :: "agent_registry \<Rightarrow> run_report \<Rightarrow> agent_outcome list \<Rightarrow> run_report" where
  "summed_up registry before outs =
     \<lparr>rr_run_id = rr_run_id before,
      rr_observations_written = rr_observations_written before + length (observed_by outs),
      rr_dropped = rr_dropped before @ concat (map (group_reasons registry) outs),
      rr_coverage_notes = rr_coverage_notes before @ concat (map (\<lambda>(grp, r). dr_coverage_notes r) (agent_runs outs)),
      rr_cost_usd = foldl float_add (rr_cost_usd before) (map (\<lambda>(grp, r). dr_cost_usd r) (agent_runs outs)),
      rr_domains_run = rr_domains_run before @ map (\<lambda>(grp, r). fst grp) (agent_runs outs)\<rparr>"

lemma agent_runs_Nil [simp]: "agent_runs [] = []"
  by (simp add: agent_runs_def map_filter_simps)

lemma agent_runs_Cons [simp]:
  "agent_runs ((grp, None) # outs) = agent_runs outs" "agent_runs ((grp, Some r) # outs) = (grp, r) # agent_runs outs"
  by (simp_all add: agent_runs_def map_filter_simps)

lemma observed_by_Cons [simp]:
  "observed_by [] = []" "observed_by ((grp, None) # outs) = observed_by outs"
  "observed_by ((grp, Some r) # outs) = dr_observations r @ observed_by outs"
  by (simp_all add: observed_by_def)

lemma summed_up_Nil [simp]: "summed_up registry r [] = r"
  by (simp add: summed_up_def)

lemma summed_up_missing:
  "\<not> reg_contains registry (fst grp) \<Longrightarrow>
     summed_up registry (r\<lparr>rr_dropped := rr_dropped r @ [not_in_registry (fst grp)]\<rparr>) outs =
     summed_up registry r ((grp, None) # outs)"
  by (simp add: summed_up_def group_reasons_def)

lemma summed_up_idle:
  "reg_contains registry (fst grp) \<Longrightarrow> summed_up registry r ((grp, None) # outs) = summed_up registry r outs"
  by (simp add: summed_up_def group_reasons_def)

lemma summed_up_run:
  "summed_up registry (add_result a (length (dr_observations result)) result r) outs =
   summed_up registry r (((a, d, cats), Some result) # outs)"
  by (simp add: summed_up_def group_reasons_def add_result_def)

context repo_store
begin

lemma read_evidence:
  "mapC (\<lambda>cat. on_fst (evidence_for_category ops r cat)) cats p =
     (Inr (map (rv_evidence (view (fst p)) r) cats), p)"
  by (induction cats) (simp_all add: bindC_def on_fst_def evidence_for_category)

text \<open>The ways an iteration ends.\<close>

lemma agent_step_cases:
  assumes "agent_step ops ra assets report (a, d, cats) p = (res, q)"
  obtains (missing) "\<not> reg_contains (ra_registry ra) a" and "q = p"
      and "res = Inr (report\<lparr>rr_dropped := rr_dropped report @ [not_in_registry a]\<rparr>)"
    | (idle) "reg_contains (ra_registry ra) a" and "evidence_of (view (fst p)) (ra_run_id ra) cats = []"
      and "q = p" and "res = Inr report"
    | (raised) e where "res = Inl e" and "view (fst q) = view (fst p)"
    | (wrote) agent result auds g' where "reg_get (ra_registry ra) a = Inr agent"
      and "runnable (ra_registry ra) (view (fst p)) (ra_run_id ra) (a, d, cats)"
      and "run_domain (ra_gateway ra) (ra_run_id ra) agent d (evidence_of (view (fst p)) (ra_run_id ra) cats)
             assets (ra_tenant_id ra) (ra_budget_hint ra) (ra_privacy ra) (snd p) = (Inr result, g')"
      and "view (fst q) = grows (view (fst p)) (dr_observations result) auds" and "snd q = g'"
      and "(\<exists>e. res = Inl e) \<or>
           res = Inr (add_result a (length (dr_observations result)) result report) \<and>
           auds = [run_entry (view (fst p)) (ra_run_id ra) ((a, d, cats), result)]"
proof (cases "reg_contains (ra_registry ra) a")
  case False
  with assms have "q = p" and "res = Inr (report\<lparr>rr_dropped := rr_dropped report @ [not_in_registry a]\<rparr>)"
    by (simp_all add: agent_step_def)
  then show thesis by (rule missing [OF False])
next
  case contains: True
  show thesis
  proof (cases "reg_get (ra_registry ra) a")
    case (Inl e)
    with assms contains have "res = Inl e" "q = p" by (simp_all add: agent_step_def bindC_def)
    then show thesis by (intro raised) simp_all
  next
    case agent: (Inr agent)
    let ?ev = "evidence_of (view (fst p)) (ra_run_id ra) cats"
    show thesis
    proof (cases "?ev = []")
      case True
      with assms contains agent have "q = p" and "res = Inr report"
        by (simp_all add: agent_step_def bindC_def read_evidence evidence_of_def)
      then show thesis by (rule idle [OF contains True])
    next
      case False
      let ?run = "run_domain (ra_gateway ra) (ra_run_id ra) agent d ?ev assets (ra_tenant_id ra)
        (ra_budget_hint ra) (ra_privacy ra)"
      have runnable: "runnable (ra_registry ra) (view (fst p)) (ra_run_id ra) (a, d, cats)"
        using contains False by (simp add: runnable_def)
      have step: "bindC (on_snd ?run) (\<lambda>result.
          bindC (on_fst (write_observations ops (dr_observations result))) (\<lambda>written.
          bindC (on_fst (audit ops (ra_run_id ra) ''discovery.agent_run''
                   (agent_run_metadata a d (length ?ev) written result))) (\<lambda>_.
          returnC (add_result a written result report)))) p = (res, q)"
        using assms contains agent False
        by (simp add: agent_step_def bindC_Inr [OF read_evidence] evidence_of_def Let_def del: concat_eq_Nil_conv)
      show thesis
      proof (cases rule: bindC_cases [OF step])
        case (1 e)
        then show thesis by (intro raised [of e]) (simp_all add: on_snd_eq)
      next
        case run: (2 result p1)
        then have r: "?run (snd p) = (Inr result, snd p1)" and p1: "fst p1 = fst p" by (simp_all add: on_snd_eq)
        from run(2) show thesis
        proof (cases rule: bindC_cases)
          case (raised e)
          then have "view (fst q) = view (fst p)" by (auto simp: on_fst_eq p1 dest: write_observations_raises)
          with raised(2) show thesis by (rule that(3))
        next
          case (normal n p2)
          then have n: "n = length (dr_observations result)"
            and w: "view (fst p2) = grows (view (fst p)) (dr_observations result) []" "snd p2 = snd p1"
            by (auto simp: on_fst_eq p1 grows_def dest: write_observations_returns)
          from normal(2) show thesis
          proof (cases rule: bindC_cases)
            case (raised e)
            then have "view (fst q) = grows (view (fst p)) (dr_observations result) []"
              by (auto simp: on_fst_eq w dest: audit_raises)
            moreover from raised have "snd q = snd p1" by (simp add: on_fst_eq w)
            ultimately show thesis by (rule wrote [OF agent runnable r]) (simp add: raised(2))
          next
            case (normal u p3)
            let ?entry = "(ra_run_id ra, ''discovery.agent_run'',
              agent_run_metadata a d (length ?ev) (length (dr_observations result)) result)"
            from normal(2) have q: "q = p3" and res: "res = Inr (add_result a n result report)" by simp_all
            from normal(1) have v: "view (fst q) = grows (view (fst p)) (dr_observations result) [?entry]"
              by (auto simp: on_fst_eq w grows_def n q dest!: audit_returns)
            have "?entry = run_entry (view (fst p)) (ra_run_id ra) ((a, d, cats), result)"
              by (simp add: run_entry_def agent_run_metadata_def)
            moreover from normal(1) q have "snd q = snd p1" by (simp add: on_fst_eq w)
            ultimately show thesis using res n by (intro wrote [OF agent runnable r v]) simp_all
          qed
        qed
      qed
    qed
  qed
qed

end

section \<open>The loop over the agents\<close>

text \<open>What a loop that returned has done: what the reference says, and no more.\<close>

definition completed ::
  "'g run_args \<Rightarrow> repo_view \<Rightarrow> run_report \<Rightarrow> by_agent \<Rightarrow> 'g \<Rightarrow> 'g \<Rightarrow> run_report \<Rightarrow> observation_write list \<Rightarrow>
   (uuid \<times> string \<times> audit_metadata) list \<Rightarrow> bool" where
  "completed ra v before grps g g' after new auds \<longleftrightarrow>
     (\<exists>outs. agent_answers ra v grps g = (Inr outs, g') \<and> after = summed_up (ra_registry ra) before (zip grps outs) \<and>
        new = observed_by (zip grps outs) \<and> auds = map (run_entry v (ra_run_id ra)) (agent_runs (zip grps outs)))"

definition bound_groups :: "string list \<Rightarrow> by_agent \<Rightarrow> bool" where
  "bound_groups cs grps \<longleftrightarrow>
     (\<forall>(a, d, cats) \<in> set grps. binding d a \<in> snd ` set CATEGORY_BINDINGS \<and>
        cats = filter (\<lambda>c. binding_for c = Some (binding d a)) cs)"

lemma agent_answers_Nil [simp]: "agent_answers ra v [] = returnC []"
  by (simp add: agent_answers_def)

lemma completed_nil [simp]: "completed ra v r [] g g r [] []"
  by (simp add: completed_def)

lemma agent_answers_Cons:
  "agent_answer ra v grp g = (Inr out, g1) \<Longrightarrow> agent_answers ra v grps g1 = (Inr outs, g2) \<Longrightarrow>
   agent_answers ra v (grp # grps) g = (Inr (out # outs), g2)"
  by (simp add: agent_answers_def bindC_def)

lemma completed_cons:
  assumes "completed ra v r1 grps g1 g' r2 new auds" and "agent_answer ra v grp g = (Inr out, g1)"
    and "\<And>outs. summed_up (ra_registry ra) r1 outs = summed_up (ra_registry ra) r ((grp, out) # outs)"
  shows "completed ra v r (grp # grps) g g' r2 (observed_by [(grp, out)] @ new)
    (map (run_entry v (ra_run_id ra)) (agent_runs [(grp, out)]) @ auds)"
proof -
  from assms(1) obtain outs where o: "agent_answers ra v grps g1 = (Inr outs, g')"
    and "r2 = summed_up (ra_registry ra) r1 (zip grps outs)" "new = observed_by (zip grps outs)"
      "auds = map (run_entry v (ra_run_id ra)) (agent_runs (zip grps outs))"
    by (auto simp: completed_def)
  with assms(3) agent_answers_Cons [OF assms(2) o] show ?thesis
    unfolding completed_def by (intro exI [of _ "out # outs"]) (cases out; simp)
qed

lemma completed_cons_missing:
  assumes "completed ra v (r\<lparr>rr_dropped := rr_dropped r @ [not_in_registry a]\<rparr>) grps g g' r2 new auds"
    and "\<not> reg_contains (ra_registry ra) a"
  shows "completed ra v r ((a, d, cats) # grps) g g' r2 new auds"
  using completed_cons [OF assms(1), of "(a, d, cats)" g None r] assms(2)
    summed_up_missing [of "ra_registry ra" "(a, d, cats)" r]
  by (simp add: agent_answer_def runnable_def)

lemma completed_cons_idle:
  assumes "completed ra v r grps g g' r2 new auds"
    and "reg_contains (ra_registry ra) a" and "evidence_of v (ra_run_id ra) cats = []"
  shows "completed ra v r ((a, d, cats) # grps) g g' r2 new auds"
  using completed_cons [OF assms(1), of "(a, d, cats)" g None r] assms(2,3)
    summed_up_idle [of "ra_registry ra" "(a, d, cats)" r]
  by (simp add: agent_answer_def runnable_def)

lemma completed_cons_run:
  assumes "completed ra v (add_result a (length (dr_observations result)) result r) grps g1 g' r2 new auds"
    and "runnable (ra_registry ra) v (ra_run_id ra) (a, d, cats)" and "reg_get (ra_registry ra) a = Inr agent"
    and "run_domain (ra_gateway ra) (ra_run_id ra) agent d (evidence_of v (ra_run_id ra) cats)
           (rv_assets v (ra_run_id ra)) (ra_tenant_id ra) (ra_budget_hint ra) (ra_privacy ra) g = (Inr result, g1)"
  shows "completed ra v r ((a, d, cats) # grps) g g' r2 (dr_observations result @ new)
    (run_entry v (ra_run_id ra) ((a, d, cats), result) # auds)"
  using completed_cons [OF assms(1), of "(a, d, cats)" g "Some result" r] assms(2-4)
    summed_up_run [of "ra_registry ra" a result r _ d cats]
  by (simp add: agent_answer_def bindC_def)

lemma discovered_grows [simp]: "discovered (grows v new auds) = discovered v"
  by (intro ext) (simp add: discovered_def bound_evidence_def)

lemma runnable_grows [simp]: "runnable registry (grows v new auds) = runnable registry v"
  by (intro ext) (simp add: runnable_def split: prod.split)

lemma agent_answer_grows [simp]: "agent_answer ra (grows v new auds) = agent_answer ra v"
  by (intro ext) (simp add: agent_answer_def split: prod.split)

lemma run_entry_grows [simp]: "run_entry (grows v new auds) = run_entry v"
  by (intro ext) (simp add: run_entry_def)

lemma completed_grows [simp]: "completed ra (grows v new auds) = completed ra v"
  by (intro ext) (simp add: completed_def agent_answers_def)

lemma run_domain_discovered:
  assumes "run_domain gateway rid agent d (evidence_of v rid cats) assets tenant budget privacy g = (Inr result, g')"
    and "reg_get registry a = Inr agent" and "bound_groups (rv_categories v rid) [(a, d, cats)]"
    and "assets = rv_assets v rid"
  shows "\<forall>ow \<in> set (dr_observations result). discovered v rid registry ow"
proof
  fix ow
  assume ow: "ow \<in> set (dr_observations result)"
  from assms(1) obtain res where r: "read_domain_result rid agent d (evidence_of v rid cats) assets res = Inr result"
    by (rule run_domain_returned)
  from assms(3) obtain c where c: "(c, binding d a) \<in> set CATEGORY_BINDINGS"
    and ev: "evidence_of v rid cats = bound_evidence v rid (rv_categories v rid) (binding d a)"
    by (auto simp: bound_groups_def evidence_of_def bound_evidence_def)
  show "discovered v rid registry ow"
    unfolding discovered_def
    using read_domain_result_accepts [OF r ow] assms(2,4) ev by (intro bexI [OF _ c]) auto
qed

context repo_store
begin

lemma agent_loop_grows:
  assumes "agent_loop ops ra assets report grps p = (res, q)"
    and "bound_groups (rv_categories (view (fst p)) (ra_run_id ra)) grps"
    and "assets = rv_assets (view (fst p)) (ra_run_id ra)"
  shows "\<exists>new auds. view (fst q) = grows (view (fst p)) new auds \<and>
     (\<forall>ow \<in> set new. discovered (view (fst p)) (ra_run_id ra) (ra_registry ra) ow) \<and>
     (case res of Inl e \<Rightarrow> True | Inr after \<Rightarrow> completed ra (view (fst p)) report grps (snd p) (snd q) after new auds)"
  using assms
proof (induction grps arbitrary: report p)
  case Nil
  then show ?case by (intro exI [of _ "[]"]) auto
next
  case (Cons grp grps)
  obtain a d cats where grp: "grp = (a, d, cats)" by (cases grp)
  let ?v = "view (fst p)"
  from Cons.prems(2) have bound: "bound_groups (rv_categories ?v (ra_run_id ra)) grps"
    and bound1: "bound_groups (rv_categories ?v (ra_run_id ra)) [(a, d, cats)]"
    by (auto simp: bound_groups_def grp)
  from Cons.prems(1) consider
      (stop) e where "agent_step ops ra assets report (a, d, cats) p = (Inl e, q)" and "res = Inl e"
    | (cont) report1 p1 where "agent_step ops ra assets report (a, d, cats) p = (Inr report1, p1)"
        and "agent_loop ops ra assets report1 grps p1 = (res, q)"
    by (auto simp: grp elim: bindC_cases)
  then show ?case
  proof cases
    case stop
    from stop(1) show ?thesis
    proof (cases rule: agent_step_cases)
      case (raised e')
      with stop(2) show ?thesis by (intro exI [of _ "[]"]) auto
    next
      case (wrote agent result auds g')
      from run_domain_discovered [OF wrote(3,1) bound1 Cons.prems(3)] wrote(4) stop(2) show ?thesis
        by (intro exI [of _ "dr_observations result"] exI [of _ auds]) auto
    qed simp_all
  next
    case cont
    from cont(1) show ?thesis
    proof (cases rule: agent_step_cases)
      case missing
      with Cons.IH [OF cont(2)] bound Cons.prems(3) obtain new auds where
        "view (fst q) = grows ?v new auds" and "\<forall>ow \<in> set new. discovered ?v (ra_run_id ra) (ra_registry ra) ow"
        and "case res of Inl e \<Rightarrow> True | Inr after \<Rightarrow> completed ra ?v report1 grps (snd p) (snd q) after new auds"
        by auto
      with missing show ?thesis
        by (intro exI [of _ new] exI [of _ auds]) (auto simp: grp intro: completed_cons_missing split: sum.splits)
    next
      case idle
      with Cons.IH [OF cont(2)] bound Cons.prems(3) obtain new auds where
        "view (fst q) = grows ?v new auds" and "\<forall>ow \<in> set new. discovered ?v (ra_run_id ra) (ra_registry ra) ow"
        and "case res of Inl e \<Rightarrow> True | Inr after \<Rightarrow> completed ra ?v report1 grps (snd p) (snd q) after new auds"
        by auto
      with idle show ?thesis
        by (intro exI [of _ new] exI [of _ auds]) (auto simp: grp intro: completed_cons_idle split: sum.splits)
    next
      case (raised e)
      then show ?thesis by simp
    next
      case (wrote agent result auds1 g')
      let ?entry = "run_entry ?v (ra_run_id ra) ((a, d, cats), result)"
      from wrote have r1: "report1 = add_result a (length (dr_observations result)) result report"
        and entry: "auds1 = [?entry]" by auto
      have "\<exists>new auds. view (fst q) = grows ?v (dr_observations result @ new) (auds1 @ auds) \<and>
          (\<forall>ow \<in> set new. discovered ?v (ra_run_id ra) (ra_registry ra) ow) \<and>
          (case res of Inl e \<Rightarrow> True | Inr after \<Rightarrow> completed ra ?v report1 grps g' (snd q) after new auds)"
        using Cons.IH [OF cont(2)] bound Cons.prems(3) by (simp add: wrote(4,5) cong: sum.case_cong)
      then obtain new auds where
        q: "view (fst q) = grows ?v (dr_observations result @ new) (auds1 @ auds)"
        and new: "\<forall>ow \<in> set new. discovered ?v (ra_run_id ra) (ra_registry ra) ow"
        and c: "case res of Inl e \<Rightarrow> True | Inr after \<Rightarrow> completed ra ?v report1 grps g' (snd q) after new auds" by blast
      have "case res of Inl e \<Rightarrow> True
          | Inr after \<Rightarrow> completed ra ?v report (grp # grps) (snd p) (snd q) after (dr_observations result @ new)
              (?entry # auds)"
        using c wrote(1-3) Cons.prems(3) by (cases res) (simp_all add: grp r1 completed_cons_run)
      with q new run_domain_discovered [OF wrote(3,1) bound1 Cons.prems(3)] entry show ?thesis
        by (intro exI [of _ "dr_observations result @ new"] exI [of _ "?entry # auds"]) auto
    qed
  qed
qed

end

section \<open>The whole pass\<close>

lemma view_status_grows: "view_status r st (grows v new auds) = grows (view_status r st v) new auds"
  by (cases v) (simp add: view_status_def grows_def fun_eq_iff)

lemma view_status_twice [simp]: "view_status r st (view_status r st' v) = view_status r st v"
  by (auto simp: view_status_def fun_eq_iff)

lemma view_status_fields [simp]:
  "rv_evidence (view_status r st v) = rv_evidence v" "rv_assets (view_status r st v) = rv_assets v"
  "rv_categories (view_status r st v) = rv_categories v" "rv_written (view_status r st v) = rv_written v"
  "rv_sections (view_status r st v) = rv_sections v" "rv_audit (view_status r st v) = rv_audit v"
  "rv_status (view_status r st v) r = (if rv_status v r = None then None else Some st)"
  by (simp_all add: view_status_def)

lemma discovered_status [simp]: "discovered (view_status r st v) = discovered v"
  by (intro ext) (simp add: discovered_def bound_evidence_def)

lemma completed_status [simp]: "completed ra (view_status r st v) = completed ra v"
proof -
  have "runnable registry (view_status r st v) rid = runnable registry v rid" for registry rid
    by (intro ext) (simp add: runnable_def evidence_of_def split: prod.split)
  then have "agent_answer ra (view_status r st v) = agent_answer ra v"
    and "run_entry (view_status r st v) = run_entry v"
    by (intro ext; simp add: agent_answer_def run_entry_def evidence_of_def split: prod.split)+
  then show ?thesis by (intro ext) (simp add: completed_def agent_answers_def)
qed

lemma grouped_bound: "grouped cs m \<Longrightarrow> bound_groups cs m"
  unfolding grouped_def bound_groups_def
proof (elim conjE, intro ballI)
  fix p
  assume m: "\<forall>(a, d, ccs) \<in> set m. ccs \<noteq> [] \<and> ccs = filter (\<lambda>c. binding_for c = Some (binding d a)) cs" and "p \<in> set m"
  moreover obtain a d ccs where p: "p = (a, d, ccs)" by (cases p)
  ultimately have ccs: "ccs \<noteq> []" "ccs = filter (\<lambda>c. binding_for c = Some (binding d a)) cs" by auto
  then obtain c where "binding_for c = Some (binding d a)" by (metis (mono_tags, lifting) filter_empty_conv)
  then have "binding d a \<in> snd ` set CATEGORY_BINDINGS" by (force dest: binding_for_mem)
  with p ccs show "case p of (a, d, cats) \<Rightarrow> binding d a \<in> snd ` set CATEGORY_BINDINGS \<and>
      cats = filter (\<lambda>c. binding_for c = Some (binding d a)) cs" by simp
qed

definition complete_metadata :: "run_report \<Rightarrow> audit_metadata" where
  "complete_metadata report =
     [(''observations'', ACount (rr_observations_written report)),
      (''dropped'', ACount (length (rr_dropped report))), (''cost_usd'', AFloat (rr_cost_usd report))]"

lemma run_status_of_values [simp]:
  "run_status_of ''discovering'' = Some DISCOVERING" "run_status_of ''reporting'' = Some REPORTING"
  "run_status_of ''complete'' = Some COMPLETE"
  by (simp_all add: run_status_of_def all_run_statuses_def)

context repo_store
begin

lemma status_step:
  assumes "on_fst (set_run_status ops r x) p = (res, q)" and "run_status_of x = Some st"
  shows "case res of Inl e \<Rightarrow> view (fst q) = view (fst p) | Inr u \<Rightarrow> view (fst q) = view_status r st (view (fst p))"
  using assms by (cases res) (auto simp: on_fst_eq dest: set_status_returns set_status_raises)

lemma audit_step:
  assumes "on_fst (audit ops r a md) p = (res, q)"
  shows "case res of Inl e \<Rightarrow> view (fst q) = view (fst p) | Inr u \<Rightarrow> view (fst q) = grows (view (fst p)) [] [(r, a, md)]"
  using assms by (cases res) (auto simp: on_fst_eq grows_def dest: audit_returns audit_raises)

text \<open>The ways a pass ends: before it started, on the way, or after the last audit entry.\<close>

lemma discover_run_cases:
  assumes "discover_run ops ra p = (res, q)"
  obtains (not_started) e where "res = Inl e" and "view (fst q) = view (fst p)"
    | (failed) e new auds st where "res = Inl e" and "st \<in> {DISCOVERING, REPORTING}"
      and "view (fst q) = grows (view_status (ra_run_id ra) st (view (fst p))) new auds"
      and "\<forall>ow \<in> set new. discovered (view (fst p)) (ra_run_id ra) (ra_registry ra) ow"
    | (finished) report new auds dropped m where "res = Inr report"
      and "view (fst q) = grows (view_status (ra_run_id ra) REPORTING (view (fst p))) new
             (auds @ [(ra_run_id ra, ''discovery.complete'', complete_metadata report)])"
      and "\<forall>ow \<in> set new. discovered (view (fst p)) (ra_run_id ra) (ra_registry ra) ow"
      and "group_categories (rv_categories (view (fst p)) (ra_run_id ra)) [] [] = (dropped, m)"
      and "completed ra (view (fst p)) ((new_report (ra_run_id ra))\<lparr>rr_dropped := dropped\<rparr>) m (snd p) (snd q) report new auds"
proof -
  let ?rid = "ra_run_id ra" and ?v = "view (fst p)"
  obtain dropped m where g: "group_categories (rv_categories ?v ?rid) [] [] = (dropped, m)" by fastforce
  from assms consider
      (a) e where "on_fst (set_run_status ops ?rid ''discovering'') p = (Inl e, q)" and "res = Inl e"
    | (b) u p1 where "on_fst (set_run_status ops ?rid ''discovering'') p = (Inr u, p1)"
        and "bindC (on_fst (categories_present ops ?rid)) (\<lambda>categories.
               bindC (on_fst (assets_for_run ops ?rid)) (\<lambda>assets.
               let (dropped, m) = group_categories categories [] [] in
               bindC (agent_loop ops ra assets ((new_report ?rid)\<lparr>rr_dropped := dropped\<rparr>) m) (\<lambda>report.
               bindC (on_fst (set_run_status ops ?rid ''reporting'')) (\<lambda>_.
               bindC (on_fst (audit ops ?rid ''discovery.complete'' (complete_metadata report))) (\<lambda>_.
               returnC report))))) p1 = (res, q)"
    unfolding discover_run_def complete_metadata_def by (rule bindC_cases)
  then show thesis
  proof cases
    case a
    from status_step [OF a(1)] have "view (fst q) = ?v" by simp
    with a(2) show thesis by (rule not_started)
  next
    case b
    from status_step [OF b(1)] have p1: "view (fst p1) = view_status ?rid DISCOVERING ?v" by simp
    from b(1) have s1: "snd p1 = snd p" by (simp add: on_fst_eq)
    let ?r0 = "(new_report ?rid)\<lparr>rr_dropped := dropped\<rparr>" and ?assets = "rv_assets ?v ?rid"
    from b(2) have loop: "bindC (agent_loop ops ra ?assets ?r0 m) (\<lambda>report.
        bindC (on_fst (set_run_status ops ?rid ''reporting'')) (\<lambda>_.
        bindC (on_fst (audit ops ?rid ''discovery.complete'' (complete_metadata report))) (\<lambda>_.
        returnC report))) p1 = (res, q)"
      by (simp add: bindC_def [of "on_fst (categories_present ops ?rid)"]
          bindC_def [of "on_fst (assets_for_run ops ?rid)"] on_fst_def [of "categories_present ops ?rid"]
          on_fst_def [of "assets_for_run ops ?rid"] categories_present assets_for_run p1 g)
    have bound: "bound_groups (rv_categories (view (fst p1)) ?rid) m" "?assets = rv_assets (view (fst p1)) ?rid"
      using group_categories_grouped [OF g] by (simp_all add: p1 grouped_bound)
    from loop show thesis
    proof (cases rule: bindC_cases)
      case (raised e)
      from agent_loop_grows [OF raised(1) bound] raised(2) show thesis
        by (auto simp: p1 intro: failed [where st = DISCOVERING])
    next
      case (normal report p2)
      from agent_loop_grows [OF normal(1) bound] obtain new auds
        where p2: "view (fst p2) = grows (view_status ?rid DISCOVERING ?v) new auds"
          and new: "\<forall>ow \<in> set new. discovered ?v ?rid (ra_registry ra) ow"
          and fin: "completed ra ?v ?r0 m (snd p) (snd p2) report new auds"
        by (auto simp: p1 s1)
      from normal(2) show thesis
      proof (cases rule: bindC_cases)
        case (raised e)
        from status_step [OF raised(1)] have "view (fst q) = grows (view_status ?rid DISCOVERING ?v) new auds"
          by (simp add: p2)
        then show thesis by (rule failed [OF raised(2) _ _ new, rotated]) simp
      next
        case (normal u p3)
        from status_step [OF normal(1)] have p3: "view (fst p3) = grows (view_status ?rid REPORTING ?v) new auds"
          by (simp add: p2 view_status_grows)
        from normal(1) have s3: "snd p3 = snd p2" by (simp add: on_fst_eq)
        from normal(2) show thesis
        proof (cases rule: bindC_cases)
          case (raised e)
          from audit_step [OF raised(1)] have "view (fst q) = grows (view_status ?rid REPORTING ?v) new auds"
            by (simp add: p3)
          then show thesis by (rule failed [OF raised(2) _ _ new, rotated]) simp
        next
          case (normal u p4)
          from normal have "snd q = snd p2" by (auto simp: on_fst_eq s3)
          with fin have "completed ra ?v ?r0 m (snd p) (snd q) report new auds" by simp
          with audit_step [OF normal(1)] normal(2) show thesis
            by (intro finished [OF _ _ new g]) (simp_all add: p3)
        qed
      qed
    qed
  qed
qed

end

lemma pg_view_fields:
  "rv_written (pg_view d) = map observation_write.truncate (db_observations d)"
  "rv_sections (pg_view d) = map report_section_write.truncate (db_sections d)"
  "rv_status (pg_view d) = status_in (db_runs d)"
  "rv_audit (pg_view d) = map audit_entry (db_audit d)"
  by (simp_all add: pg_view_def)

lemma agent_answer_shape:
  "agent_answer ra v grp g = (Inr out, g') \<Longrightarrow> (out \<noteq> None) = runnable (ra_registry ra) v (ra_run_id ra) grp"
  by (auto simp: agent_answer_def split: prod.splits if_splits elim!: bindC_cases)

lemma agent_answers_shape:
  "agent_answers ra v grps g = (Inr outs, g') \<Longrightarrow>
     length outs = length grps \<and>
     map (\<lambda>(grp, r). grp) (agent_runs (zip grps outs)) = filter (runnable (ra_registry ra) v (ra_run_id ra)) grps"
proof (induction grps arbitrary: g outs)
  case Nil
  then show ?case by simp
next
  case (Cons grp grps)
  from Cons.prems obtain out g1 outs' where
    a: "agent_answer ra v grp g = (Inr out, g1)" and r: "agent_answers ra v grps g1 = (Inr outs', g')" and "outs = out # outs'"
    by (auto simp: agent_answers_def elim!: bindC_cases)
  with Cons.IH [OF r] agent_answer_shape [OF a] show ?case by (cases out) auto
qed

lemma completed_domains:
  assumes "completed ra v ((new_report rid)\<lparr>rr_dropped := dropped\<rparr>) m g g' report new auds"
    and "grouped cs m"
  shows "distinct (rr_domains_run report)"
    and "rr_domains_run report = map fst (filter (runnable (ra_registry ra) v (ra_run_id ra)) m)"
    and "rr_observations_written report = length new" and "rr_run_id report = rid"
    and "set dropped \<subseteq> set (rr_dropped report)"
proof -
  from assms(1) obtain outs where o: "agent_answers ra v m g = (Inr outs, g')"
    and s: "report = summed_up (ra_registry ra) ((new_report rid)\<lparr>rr_dropped := dropped\<rparr>) (zip m outs)"
    and new: "new = observed_by (zip m outs)"
    by (auto simp: completed_def)
  have "rr_domains_run report = map fst (map (\<lambda>(grp, r). grp) (agent_runs (zip m outs)))"
    by (simp add: s summed_up_def new_report_def comp_def split_def)
  also have "\<dots> = map fst (filter (runnable (ra_registry ra) v (ra_run_id ra)) m)"
    using agent_answers_shape [OF o] by simp
  finally show doms: "rr_domains_run report = map fst (filter (runnable (ra_registry ra) v (ra_run_id ra)) m)" .
  show "distinct (rr_domains_run report)"
    unfolding doms using assms(2) by (auto simp: grouped_def intro: distinct_map_filter)
qed (use assms(1) in \<open>auto simp: completed_def summed_up_def new_report_def\<close>)

lemma completed_missing:
  assumes "completed ra v r m g g' report new auds" and "(a, d, cats) \<in> set m"
    and "\<not> reg_contains (ra_registry ra) a"
  shows "not_in_registry a \<in> set (rr_dropped report)"
proof -
  from assms(1) obtain outs where o: "agent_answers ra v m g = (Inr outs, g')"
    and s: "report = summed_up (ra_registry ra) r (zip m outs)"
    by (auto simp: completed_def)
  from agent_answers_shape [OF o] assms(2) obtain out where z: "((a, d, cats), out) \<in> set (zip m outs)"
    by (metis in_set_impl_in_set_zip1)
  have "out = None"
  proof (cases out)
    case (Some x)
    with z have "((a, d, cats), x) \<in> set (agent_runs (zip m outs))"
      by (auto simp: agent_runs_def List.map_filter_def intro!: image_eqI [of _ _ "((a, d, cats), Some x)"])
    then have "(a, d, cats) \<in> set (map (\<lambda>(grp, r). grp) (agent_runs (zip m outs)))" by force
    with agent_answers_shape [OF o] assms(3) show ?thesis by (simp add: runnable_def)
  qed
  then have "not_in_registry a \<in> set (group_reasons (ra_registry ra) ((a, d, cats), out))"
    using assms(3) by (simp add: group_reasons_def)
  with z have "not_in_registry a \<in> set (concat (map (group_reasons (ra_registry ra)) (zip m outs)))"
    by (simp only: set_concat set_map UN_iff image_image) blast
  then show ?thesis by (simp add: s summed_up_def)
qed

context repo_store
begin

text \<open>No category is skipped silently: its agent ran, or a dropped reason says why it did not.\<close>

lemma categories_covered:
  assumes "discover_run ops ra p = (Inr report, q)"
    and "c \<in> set (rv_categories (view (fst p)) (ra_run_id ra))"
  shows "case binding_for c of
      None \<Rightarrow> no_agent_for c \<in> set (rr_dropped report)
    | Some b \<Rightarrow> if reg_contains (ra_registry ra) (db_agent b) then db_agent b \<in> set (rr_domains_run report)
                else not_in_registry (db_agent b) \<in> set (rr_dropped report)"
proof -
  let ?cs = "rv_categories (view (fst p)) (ra_run_id ra)"
  from assms(1) obtain new auds dropped m where g: "group_categories ?cs [] [] = (dropped, m)"
    and fin: "completed ra (view (fst p)) ((new_report (ra_run_id ra))\<lparr>rr_dropped := dropped\<rparr>) m (snd p) (snd q)
      report new auds"
    by (auto elim: discover_run_cases)
  note grp = group_categories_grouped [OF g]
  note r = completed_domains [OF fin conjunct1 [OF grp]]
  show ?thesis
  proof (cases "binding_for c")
    case None
    with assms(2) grp r(5) show ?thesis by auto
  next
    case (Some b)
    with assms(2) grp obtain d ccs where m: "(db_agent b, d, ccs) \<in> set m"
      by (fastforce simp: grouped_def)
    with grp have ccs: "ccs \<noteq> []" "ccs = filter (\<lambda>c. binding_for c = Some (binding d (db_agent b))) ?cs"
      by (auto simp: grouped_def)
    then have "hd ccs \<in> set ?cs" by (metis filter_is_subset hd_in_set subsetD)
    then have "rv_evidence (view (fst p)) (ra_run_id ra) (hd ccs) \<noteq> []" by (rule categories_have_evidence)
    then have "evidence_of (view (fst p)) (ra_run_id ra) ccs \<noteq> []" using ccs(1) by (auto simp: evidence_of_def)
    with m have "reg_contains (ra_registry ra) (db_agent b) \<Longrightarrow> db_agent b \<in> set (rr_domains_run report)"
      unfolding r(2) by (force simp: runnable_def)
    moreover from completed_missing [OF fin m] have "\<not> reg_contains (ra_registry ra) (db_agent b) \<Longrightarrow>
        not_in_registry (db_agent b) \<in> set (rr_dropped report)" .
    ultimately show ?thesis using Some by simp
  qed
qed

end

section \<open>Properties of the discovery pass\<close>

text \<open>A database with one run, one asset and one evidence item, for the witnesses.\<close>

definition sample_db :: db where
  "sample_db =
     \<lparr>db_tenants = [5], db_runs = [\<lparr>run_id = 9, run_tenant = 5, run_scope = PyDict [], run_state = COLLECTING, run_started_at = 0,
        run_completed_at = None, run_cost_cents = 0\<rparr>],
      db_assets = [\<lparr>asset_id = 1, asset_tenant = 5, asset_run_id = 9, asset_kind = HOST, asset_natural_key = ''host:abc'',
        asset_name = ''host-a'', asset_attributes = PyDict [(''cpu_model'', PyStr ''Xeon'')], asset_first_seen = 0,
        asset_last_seen = 0\<rparr>],
      db_evidence = [\<lparr>ei_id = 2, ei_tenant = 5, ei_run_id = 9, ei_asset_id = Some 1, ei_source_tool = ''lscpu'',
        ei_source_tool_version = ''2.39'', ei_collected_at = 0, ei_category = ''hardware'', ei_raw_ref = ''raw'',
        ei_parsed = Some (PyDict [(''CPU(s)'', PyInt 16)]), ei_confidence = 1\<rparr>],
      db_observations = [], db_sections = [], db_audit = [], db_notified = [],
      db_gen = (\<lambda>n. of_nat n), db_next = 100, db_now = 0, db_collate = (\<lambda>s. s)\<rparr>"

definition sample_args :: "unit run_args" where
  "sample_args =
     \<lparr>ra_run_id = 9, ra_registry = [(''hardware'', sample_agent)], ra_gateway = sample_gateway,
      ra_tenant_id = ''t'', ra_budget_hint = ''normal'', ra_privacy = ''standard''\<rparr>"

definition sample_write :: observation_write where
  "sample_write = to_write 9 ''hardware'' {1} ''hardware@0.0.0'' ''m'' (sample_raw 2)"

definition sample_started :: db where
  "sample_started = sample_db\<lparr>db_runs := update_run_status 9 DISCOVERING (db_runs sample_db)\<rparr>"

lemma sample_reads:
  "pg_categories_present 9 sample_started = (Inr [''hardware''], sample_started)"
  "pg_assets_for_run 9 sample_started = (Inr [sample_asset], sample_started)"
  "pg_evidence_for_category 9 ''hardware'' sample_started = (Inr [sample_evidence], sample_started)"
  by (simp_all add: pg_categories_present_def pg_assets_for_run_def pg_evidence_for_category_def run_evidence_def
      sample_db_def sample_started_def sample_asset_def sample_evidence_def to_asset_row_def to_evidence_row_def
      py_or_def)

lemma sample_writes:
  "pg_write_observations 5 [sample_write] sample_started =
     (Inr 1, sample_started\<lparr>db_observations := [observation_write.extend sample_write
        \<lparr>ob_id = 100, ob_tenant = 5, ob_created_at = 0\<rparr>], db_next := 101\<rparr>)"
  by (simp add: pg_write_observations_def transaction_def insert_observation_def bindC_def sample_started_def
      sample_db_def sample_write_def to_write_sample domain_of_def all_domains_def
      evidence_ids_check_def check_passes_def array_length_def has_run_def has_tenant_def has_asset_def update_run_status_def)

lemma sample_pass_with:
  assumes "reg_get reg ''hardware'' = Inr sample_agent"
  obtains report d' where
      "discover_run (pg_repo 5) (sample_args\<lparr>ra_registry := reg, ra_tenant_id := t\<rparr>) (sample_db, ()) = (Inr report, (d', ()))"
    and "rr_observations_written report = 1" and "rr_domains_run report = [''hardware'']"
    and "map observation_write.truncate (db_observations d') = [sample_write]"
proof -
  let ?ra = "sample_args\<lparr>ra_registry := reg, ra_tenant_id := t\<rparr>"
  obtain dr where run: "run_domain sample_gateway 9 sample_agent ''hardware'' [sample_evidence] [sample_asset] t
      ''normal'' ''standard'' () = (Inr dr, ())"
    and obs: "dr_observations dr = [sample_write]"
    using sample_run by (auto simp: sample_write_def run_domain_def sample_gateway_def)
  have start: "pg_set_run_status 9 ''discovering'' sample_db = (Inr (), sample_started)"
    by (simp add: pg_set_run_status_def sample_started_def)
  have stop: "pg_set_run_status 9 ''reporting'' d = (Inr (), d\<lparr>db_runs := update_run_status 9 REPORTING (db_runs d)\<rparr>)"
    for d by (simp add: pg_set_run_status_def)
  have log: "pg_audit 5 9 action md d = (Inr (), d\<lparr>db_audit := db_audit d @
      [\<lparr>au_tenant = 5, au_actor = ''orchestrator'', au_action = action, au_resource_type = ''run'',
        au_resource_id = uuid_str 9, au_metadata = md\<rparr>]\<rparr>)" for action md d
    by (simp add: pg_audit_def transaction_def insert_audit_def)
  have grp: "group_categories [''hardware''] [] [] = ([], [(''hardware'', ''hardware'', [''hardware''])])"
    by (simp add: binding_for_def CATEGORY_BINDINGS_def add_category_def)
  have reg: "reg_contains reg ''hardware''" "reg_get reg ''hardware'' = Inr sample_agent"
    using assms catalog.get_cases [of reg "''hardware''"] by simp_all
  have args: "ra_run_id sample_args = 9" "ra_gateway sample_args = sample_gateway"
    "ra_budget_hint sample_args = ''normal''" "ra_privacy sample_args = ''standard''"
    by (simp_all add: sample_args_def)
  obtain d1 where step: "agent_step (pg_repo 5) ?ra [sample_asset] r (''hardware'', ''hardware'', [''hardware''])
      (sample_started, ()) = (Inr (add_result ''hardware'' 1 dr r), (d1, ()))"
    and d1: "map observation_write.truncate (db_observations d1) = [sample_write]" for r
    by (rule that, simp add: agent_step_def bindC_def on_fst_def on_snd_def reg args sample_reads run obs
        sample_writes log) simp
  show thesis
    by (rule that, simp add: discover_run_def bindC_def on_fst_def args start sample_reads grp step stop log
        del: group_categories.simps)
      (simp_all add: add_result_def new_report_def d1)
qed

lemma sample_pass:
  obtains report d' where "discover_run (pg_repo 5) sample_args (sample_db, ()) = (Inr report, (d', ()))"
    and "rr_observations_written report = 1" and "rr_domains_run report = [''hardware'']"
    and "map observation_write.truncate (db_observations d') = [sample_write]"
proof -
  have "reg_get [(''hardware'', sample_agent)] ''hardware'' = Inr sample_agent" by (simp add: reg_get_def)
  then show thesis
    by (rule sample_pass_with [where t = "''t''"]) (rule that, simp_all add: sample_args_def)
qed

lemma discovery_adds:
  assumes "discover_run (pg_repo tenant) ra (d, g) = (res, (d', g'))"
  shows "\<exists>new. map observation_write.truncate (db_observations d') =
      map observation_write.truncate (db_observations d) @ new \<and>
    (\<forall>ow \<in> set new. discovered (pg_view d) (ra_run_id ra) (ra_registry ra) ow)"
proof -
  have "\<exists>new. rv_written (pg_view d') = rv_written (pg_view d) @ new \<and>
    (\<forall>ow \<in> set new. discovered (pg_view d) (ra_run_id ra) (ra_registry ra) ow)"
    using assms by (rule pg.discover_run_cases) auto
  then show ?thesis by (simp add: pg_view_fields)
qed

text \<open>
  C3. Provenance, however the pass ends (also by an exception half way): rows are only added to the
  observations, and each row added was produced by a registered agent under the domain bound to
  it, cites at least one evidence identifier, all of them of evidence of this run in categories
  bound to that agent, and names only assets of this run.
\<close>

theorem discover_run_provenance:
  assumes "discover_run (pg_repo tenant) ra (d, g) = (res, (d', g'))"
  shows "\<exists>new. map observation_write.truncate (db_observations d') =
      map observation_write.truncate (db_observations d) @ new \<and>
    (\<forall>ow \<in> set new. discovered (pg_view d) (ra_run_id ra) (ra_registry ra) ow)"
  using assms by (rule discovery_adds)

theorem discover_run_provenance_witness:
  "discovered (pg_view sample_db) 9 [(''hardware'', sample_agent)] sample_write"
proof -
  obtain report d' where r: "discover_run (pg_repo 5) sample_args (sample_db, ()) = (Inr report, (d', ()))"
    and o: "map observation_write.truncate (db_observations d') = [sample_write]"
    by (rule sample_pass)
  from discover_run_provenance [OF r] o show ?thesis by (auto simp: sample_db_def sample_args_def)
qed

text \<open>
  C29. A returned report, the rows and the audit log say exactly what happened. The agents of the
  groups answer one after the other over the evidence and the assets the run had before the pass,
  each runnable group once; then the rows added are the observations of these answers, in order;
  the audit log grew by one \<open>discovery.agent_run\<close> entry per answer, with its agent, domain, number
  of evidence items, of observations and of dropped ones, model and cost, and one
  \<open>discovery.complete\<close> entry with the totals; and the report has the categories without a binding,
  then for each group its own drops or that its agent is missing, the notes, the sum of the costs
  and the agents that ran, no agent twice.
\<close>

theorem discover_run_report_exact:
  assumes "discover_run (pg_repo tenant) ra (d, g) = (Inr report, (d', g'))"
  shows "\<exists>m outs pairs. m = snd (group_categories (rv_categories (pg_view d) (ra_run_id ra)) [] []) \<and>
    agent_answers ra (pg_view d) m g = (Inr outs, g') \<and> pairs = zip m outs \<and>
    map (\<lambda>(grp, r). grp) (agent_runs pairs) = filter (runnable (ra_registry ra) (pg_view d) (ra_run_id ra)) m \<and>
    map observation_write.truncate (db_observations d') =
      map observation_write.truncate (db_observations d) @ concat (map (\<lambda>(grp, r). dr_observations r) (agent_runs pairs)) \<and>
    map audit_entry (db_audit d') = map audit_entry (db_audit d) @
      map (run_entry (pg_view d) (ra_run_id ra)) (agent_runs pairs) @
      [(ra_run_id ra, ''discovery.complete'',
        [(''observations'', ACount (rr_observations_written report)),
         (''dropped'', ACount (length (rr_dropped report))), (''cost_usd'', AFloat (rr_cost_usd report))])] \<and>
    report =
      \<lparr>rr_run_id = ra_run_id ra,
       rr_observations_written = length (concat (map (\<lambda>(grp, r). dr_observations r) (agent_runs pairs))),
       rr_dropped = map no_agent_for
           (filter (\<lambda>c. binding_for c = None) (rv_categories (pg_view d) (ra_run_id ra))) @
         concat (map (group_reasons (ra_registry ra)) pairs),
       rr_coverage_notes = concat (map (\<lambda>(grp, r). dr_coverage_notes r) (agent_runs pairs)),
       rr_cost_usd = foldl float_add 0 (map (\<lambda>(grp, r). dr_cost_usd r) (agent_runs pairs)),
       rr_domains_run = map (\<lambda>(grp, r). fst grp) (agent_runs pairs)\<rparr> \<and>
    distinct (rr_domains_run report)"
proof -
  from assms obtain new auds dropped m
    where v: "pg_view d' = grows (view_status (ra_run_id ra) REPORTING (pg_view d)) new
             (auds @ [(ra_run_id ra, ''discovery.complete'', complete_metadata report)])"
      and g: "group_categories (rv_categories (pg_view d) (ra_run_id ra)) [] [] = (dropped, m)"
      and fin: "completed ra (pg_view d) ((new_report (ra_run_id ra))\<lparr>rr_dropped := dropped\<rparr>) m g g' report new auds"
    by (auto elim: pg.discover_run_cases)
  from fin obtain outs where o: "agent_answers ra (pg_view d) m g = (Inr outs, g')"
    and rep: "report = summed_up (ra_registry ra) ((new_report (ra_run_id ra))\<lparr>rr_dropped := dropped\<rparr>) (zip m outs)"
    and new: "new = observed_by (zip m outs)"
    and auds: "auds = map (run_entry (pg_view d) (ra_run_id ra)) (agent_runs (zip m outs))"
    by (auto simp: completed_def)
  note grp = group_categories_grouped [OF g]
  from arg_cong [OF v, of rv_written] arg_cong [OF v, of rv_audit]
    rep completed_domains(1) [OF fin conjunct1 [OF grp]] agent_answers_shape [OF o] conjunct2 [OF grp]
  show ?thesis
    by (intro exI [of _ m] exI [of _ outs] exI [of _ "zip m outs"])
      (simp add: g o new auds observed_by_def summed_up_def new_report_def pg_view_fields complete_metadata_def)
qed

theorem discover_run_report_exact_witness:
  "\<exists>report d'. discover_run (pg_repo 5) sample_args (sample_db, ()) = (Inr report, (d', ())) \<and>
     length (db_observations d') = 1 \<and> length (db_audit d') = 2"
proof -
  obtain report d' where r: "discover_run (pg_repo 5) sample_args (sample_db, ()) = (Inr report, (d', ()))"
    and n: "rr_observations_written report = 1" and dom: "rr_domains_run report = [''hardware'']"
    by (rule sample_pass)
  from discover_run_report_exact [OF r] obtain m outs pairs where
    o: "map observation_write.truncate (db_observations d') =
      map observation_write.truncate (db_observations sample_db) @ concat (map (\<lambda>(grp, r). dr_observations r) (agent_runs pairs))"
    and a: "map audit_entry (db_audit d') = map audit_entry (db_audit sample_db) @
      map (run_entry (pg_view sample_db) 9) (agent_runs pairs) @ [(9, ''discovery.complete'', complete_metadata report)]"
    and rep: "rr_observations_written report = length (concat (map (\<lambda>(grp, r). dr_observations r) (agent_runs pairs)))"
      "rr_domains_run report = map (\<lambda>(grp, r). fst grp) (agent_runs pairs)"
    by (auto simp: sample_args_def complete_metadata_def)
  have "length (db_observations d') = 1" using arg_cong [OF o, of length] n rep(1) by (simp add: sample_db_def)
  moreover have "length (agent_runs pairs) = 1" using arg_cong [OF rep(2), of length] dom by simp
  then have "length (db_audit d') = 2" using arg_cong [OF a, of length] by (simp add: sample_db_def)
  ultimately show ?thesis using r by auto
qed

text \<open>
  The status of the run: a pass that returns leaves it at \<open>reporting\<close>; one that raises leaves it
  as it was, at \<open>discovering\<close> or at \<open>reporting\<close>, and never at \<open>failed\<close> or \<open>complete\<close> unless it was
  there before. No other run and no report section changes.
\<close>

lemma discover_run_status:
  assumes "discover_run (pg_repo tenant) ra (d, g) = (res, (d', g'))"
    and "status_in (db_runs d) (ra_run_id ra) = Some st"
  shows "(case res of
      Inr report \<Rightarrow> status_in (db_runs d') (ra_run_id ra) = Some REPORTING
    | Inl e \<Rightarrow> status_in (db_runs d') (ra_run_id ra) \<in> {Some st, Some DISCOVERING, Some REPORTING}) \<and>
    (\<forall>r. r \<noteq> ra_run_id ra \<longrightarrow> status_in (db_runs d') r = status_in (db_runs d) r) \<and>
    map report_section_write.truncate (db_sections d') = map report_section_write.truncate (db_sections d)"
  using assms
proof (cases rule: pg.discover_run_cases [OF assms(1)])
  case (1 e)
  with arg_cong [OF 1(2), of rv_status] arg_cong [OF 1(2), of rv_sections] assms(2) show ?thesis
    by (simp add: pg_view_fields)
next
  case (2 e new auds st')
  with arg_cong [OF 2(3), of rv_status] arg_cong [OF 2(3), of rv_sections] assms(2) show ?thesis
    by (auto simp: pg_view_fields view_status_def)
next
  case (3 report new auds dropped m)
  with arg_cong [OF 3(2), of rv_status] arg_cong [OF 3(2), of rv_sections] assms(2) show ?thesis
    by (simp add: pg_view_fields view_status_def)
qed

lemma discover_run_status_witness:
  "\<exists>report d'. discover_run (pg_repo 5) sample_args (sample_db, ()) = (Inr report, (d', ())) \<and>
     status_in (db_runs d') 9 = Some REPORTING"
proof -
  obtain report d' where r: "discover_run (pg_repo 5) sample_args (sample_db, ()) = (Inr report, (d', ()))"
    by (rule sample_pass)
  have "status_in (db_runs sample_db) (ra_run_id sample_args) = Some COLLECTING"
    by (simp add: sample_db_def sample_args_def status_in_def)
  from discover_run_status [OF r this] r show ?thesis by (simp add: sample_args_def)
qed

text \<open>
  No category of a run is skipped silently: when a pass returns, the agent bound to the
  category ran, or a dropped reason names the category (no binding) or the agent (not in the
  registry).
\<close>

lemma discover_run_covers_categories:
  assumes "discover_run (pg_repo tenant) ra (d, g) = (Inr report, (d', g'))"
    and "e \<in> set (db_evidence d)" and "ei_run_id e = ra_run_id ra" and "ei_parsed e \<noteq> None"
  shows "case binding_for (ei_category e) of
      None \<Rightarrow> no_agent_for (ei_category e) \<in> set (rr_dropped report)
    | Some b \<Rightarrow> if reg_contains (ra_registry ra) (db_agent b) then db_agent b \<in> set (rr_domains_run report)
                else not_in_registry (db_agent b) \<in> set (rr_dropped report)"
proof -
  from assms(2,3,4) have "ei_category e \<in> set (rv_categories (pg_view (fst (d, g))) (ra_run_id ra))"
    by (auto simp: pg_view_def run_evidence_def)
  with assms(1) show ?thesis by (rule pg.categories_covered)
qed

lemma discover_run_covers_categories_witness:
  "\<exists>report d'. discover_run (pg_repo 5) sample_args (sample_db, ()) = (Inr report, (d', ())) \<and>
     ''hardware'' \<in> set (rr_domains_run report)"
proof -
  obtain report d' where r: "discover_run (pg_repo 5) sample_args (sample_db, ()) = (Inr report, (d', ()))"
    by (rule sample_pass)
  let ?e = "hd (db_evidence sample_db)"
  have e: "?e \<in> set (db_evidence sample_db)" "ei_run_id ?e = ra_run_id sample_args" "ei_parsed ?e \<noteq> None"
    "ei_category ?e = ''hardware''"
    by (simp_all add: sample_db_def sample_args_def)
  from discover_run_covers_categories [OF r e(1-3)] r show ?thesis
    by (auto simp: e(4) binding_for_def CATEGORY_BINDINGS_def sample_args_def reg_contains_def)
qed

text \<open>
  C40. The schema does not enforce what the models promise: PostgreSQL accepts an observation that
  cites no evidence, because \<open>array_length\<close> of an empty array is NULL and a CHECK that is NULL passes.
\<close>

theorem pg_accepts_uncited_observation:
  assumes "has_run d (ow_run_id ow)" and "has_asset d (ow_asset_id ow)" and "domain_of (ow_domain ow) \<noteq> None"
    and "db_gen d (db_next d) \<notin> ob_id ` set (db_observations d)" and "ow_evidence_ids ow = []"
    and "has_tenant d tenant"
  shows "\<exists>d'. pg_write_observations tenant [ow] d = (Inr 1, d') \<and>
    map observation_write.truncate (db_observations d') = map observation_write.truncate (db_observations d) @ [ow] \<and>
    (\<exists>msg. must_cite_evidence (ow_evidence_ids ow) = Inl (ValueError msg))"
  using assms
  by (auto simp: pg_write_observations_def transaction_def bindC_def insert_observation_def Let_def
      evidence_ids_check_def check_passes_def array_length_def must_cite_evidence_def)

theorem pg_accepts_uncited_observation_witness:
  "\<exists>d'. pg_write_observations 5 [sample_write\<lparr>ow_evidence_ids := []\<rparr>] sample_db = (Inr 1, d')"
proof -
  have "has_run sample_db (ow_run_id (sample_write\<lparr>ow_evidence_ids := []\<rparr>))"
    "has_asset sample_db (ow_asset_id (sample_write\<lparr>ow_evidence_ids := []\<rparr>))"
    "domain_of (ow_domain (sample_write\<lparr>ow_evidence_ids := []\<rparr>)) \<noteq> None"
    "db_gen sample_db (db_next sample_db) \<notin> ob_id ` set (db_observations sample_db)"
    by (simp_all add: sample_db_def sample_write_def to_write_sample has_run_def has_asset_def
        domain_of_def all_domains_def)
  note facts = this
  have "has_tenant sample_db 5" by (simp add: sample_db_def has_tenant_def)
  from pg_accepts_uncited_observation [OF facts _ this] show ?thesis by auto
qed

end
