(* ===== verification/Markers.thy ===== *)
theory Markers
  imports Py_Uuid
begin

text \<open>
  The observation markers of report bodies: the pattern \<open>[[observation:([0-9a-fA-F-]{36})]]\<close> that
  \<open>report.py\<close> scans with \<open>findall\<close> and \<open>render.py\<close> replaces with \<open>sub\<close>. A scan goes left to right;
  where the pattern matches it consumes the whole marker, elsewhere one character.
\<close>

definition marker_open :: string where
  "marker_open = ''[[observation:''"

definition marker_char :: "char \<Rightarrow> bool" where
  "marker_char c \<longleftrightarrow> c \<in> set ''0123456789abcdefABCDEF-''"

definition match_marker :: "string \<Rightarrow> (string \<times> string) option" where
  "match_marker s =
     (if prefix marker_open s then
        let t = drop (length marker_open) s; m = take 36 t in
        if length m = 36 \<and> list_all marker_char m \<and> prefix '']]'' (drop 36 t)
        then Some (m, drop 38 t) else None
      else None)"

lemma match_marker_shorter: "match_marker s = Some (m, rest) \<Longrightarrow> length rest < length s"
  by (auto simp: match_marker_def Let_def marker_open_def prefix_def split: if_splits)

function marker_tokens :: "string \<Rightarrow> (char + string) list" where
  "marker_tokens s =
     (case match_marker s of
        Some (m, rest) \<Rightarrow> Inr m # marker_tokens rest
      | None \<Rightarrow> (case s of [] \<Rightarrow> [] | c # cs \<Rightarrow> Inl c # marker_tokens cs))"
  by auto

termination
  by (relation "measure length") (auto dest: match_marker_shorter)

declare marker_tokens.simps [simp del]

fun token_marker :: "char + string \<Rightarrow> string list" where
  "token_marker (Inl c) = []"
| "token_marker (Inr m) = [m]"

definition find_markers :: "string \<Rightarrow> string list" where
  "find_markers body = concat (map token_marker (marker_tokens body))"

fun token_text :: "(string \<Rightarrow> string) \<Rightarrow> char + string \<Rightarrow> string" where
  "token_text f (Inl c) = [c]"
| "token_text f (Inr m) = f m"

definition sub_markers :: "(string \<Rightarrow> string) \<Rightarrow> string \<Rightarrow> string" where
  "sub_markers f body = concat (map (token_text f) (marker_tokens body))"

definition marker :: "string \<Rightarrow> string" where
  "marker m = marker_open @ m @ '']]''"

section \<open>Scanning\<close>

lemma match_marker_Nil [simp]: "match_marker [] = None"
  by (simp add: match_marker_def marker_open_def)

lemma match_marker_Some:
  "match_marker s = Some (m, rest) \<longleftrightarrow> s = marker m @ rest \<and> length m = 36 \<and> list_all marker_char m"
proof
  assume "match_marker s = Some (m, rest)"
  then obtain t u where s: "s = marker_open @ t" and m: "m = take 36 t" "length m = 36" "list_all marker_char m"
    and t: "drop 36 t = '']]'' @ u" and rest: "rest = drop 38 t"
    by (auto simp: match_marker_def Let_def prefix_def split: if_splits)
  have "t = m @ '']]'' @ u" using m(1) t append_take_drop_id [of 36 t] by simp
  with m s rest show "s = marker m @ rest \<and> length m = 36 \<and> list_all marker_char m"
    by (simp add: marker_def)
qed (auto simp: match_marker_def marker_def)

lemma tokens_Nil [simp]: "marker_tokens [] = []"
  by (simp add: marker_tokens.simps [of "[]"])

lemma tokens_marker:
  "length m = 36 \<Longrightarrow> list_all marker_char m \<Longrightarrow> marker_tokens (marker m @ rest) = Inr m # marker_tokens rest"
  by (simp add: marker_tokens.simps [of "marker m @ rest"] match_marker_Some [THEN iffD2])

lemma tokens_char:
  "match_marker (c # cs) = None \<Longrightarrow> marker_tokens (c # cs) = Inl c # marker_tokens cs"
  by (simp add: marker_tokens.simps [of "c # cs"])

lemma marker_induct [case_names Nil char marker]:
  assumes "P []"
    and "\<And>c cs. match_marker (c # cs) = None \<Longrightarrow> P cs \<Longrightarrow> P (c # cs)"
    and "\<And>m rest. length m = 36 \<Longrightarrow> list_all marker_char m \<Longrightarrow> P rest \<Longrightarrow> P (marker m @ rest)"
  shows "P s"
proof (induction s rule: measure_induct_rule [where f = length])
  case (less s)
  show ?case
  proof (cases "match_marker s")
    case None
    with less assms(1,2) show ?thesis by (cases s) auto
  next
    case (Some p)
    then obtain m rest where p: "match_marker s = Some (m, rest)" by (cases p) auto
    with less match_marker_shorter have "P rest" by blast
    with p assms(3) show ?thesis by (simp add: match_marker_Some)
  qed
qed

text \<open>Putting every marker back gives the body.\<close>

lemma sub_markers_id [simp]: "sub_markers marker body = body"
  by (induction body rule: marker_induct) (simp_all add: sub_markers_def tokens_char tokens_marker)

lemma find_markers_ok: "m \<in> set (find_markers body) \<Longrightarrow> length m = 36 \<and> list_all marker_char m"
  by (induction body rule: marker_induct) (auto simp: find_markers_def tokens_char tokens_marker)

text \<open>A marker of a canonical identifier is found, and its text parses back.\<close>

lemma uuid_str_marker: "list_all marker_char (uuid_str u)"
proof -
  have "marker_char c" if "c \<in> set (uuid_str u)" for c
    using uuid_str_chars [OF that] digit_char_mem by (auto simp: marker_char_def)
  then show ?thesis by (simp add: list_all_iff)
qed

lemma find_markers_uuid: "find_markers (marker (uuid_str u) @ rest) = uuid_str u # find_markers rest"
  by (simp add: find_markers_def tokens_marker uuid_str_marker)

lemma sub_markers_uuid: "sub_markers f (marker (uuid_str u) @ rest) = f (uuid_str u) @ sub_markers f rest"
  by (simp add: sub_markers_def tokens_marker uuid_str_marker)

lemma no_marker_char: "c \<noteq> CHR ''['' \<Longrightarrow> match_marker (c # cs) = None"
  by (simp add: match_marker_def marker_open_def)

lemma find_markers_char [simp]: "c \<noteq> CHR ''['' \<Longrightarrow> find_markers (c # cs) = find_markers cs"
  by (simp add: find_markers_def tokens_char no_marker_char)

lemma find_markers_Nil [simp]: "find_markers [] = []"
  by (simp add: find_markers_def)

end
