(* ===== verification/Report.thy ===== *)
theory Report
  imports Runner Markers
begin

text \<open>
  \<open>auditcore_orchestrator/report.py\<close>, the report agent's answer and its integrity rule, and the
  report half of \<open>runner.py\<close>, \<open>assemble_run_report\<close>.
\<close>

record report_result =
  rp_sections :: "report_section_write list"
  rp_dropped :: "string list"
  rp_unknown_refs :: "string list"
  rp_model_used :: string
  rp_cost_usd :: rat

definition observation_json :: "observation_row \<Rightarrow> pyval" where
  "observation_json ob = PyDict
     [(''observation_id'', PyStr (uuid_str (or_id ob))), (''asset_id'', PyStr (uuid_str (or_asset_id ob))),
      (''domain'', PyStr (or_domain ob)), (''topic'', PyStr (or_topic ob)),
      (''summary'', PyStr (or_summary ob)), (''detail'', PyStr (or_detail ob)), (''facts'', or_facts ob)]"

definition build_report_input :: "observation_row list \<Rightarrow> string" where
  "build_report_input observations =
     ''OBSERVATIONS (the discovered facts; reference any with '' @
     ''[[observation:<id>]] and list ids in embedded_observations):\<newline>'' @
     json_dumps 2 0 (PyList (map observation_json observations)) @ ''\<newline>\<newline>'' @
     ''Assemble these into a precise, exhaustive description of the system. '' @
     ''State only what the observations contain.''"

section \<open>Checking one section\<close>

text \<open>The explicit references: the known ones, and the text of the others.\<close>

fun split_refs :: "uuid set \<Rightarrow> pyval list \<Rightarrow> (uuid list \<times> string list) res" where
  "split_refs valid [] = Inr ([], [])"
| "split_refs valid (ref # refs) =
     (if \<not> is_uuid ref
      then bindE (split_refs valid refs) (\<lambda>(emb, unk). Inr (emb, py_str ref # unk))
      else bindE (py_uuid ref) (\<lambda>u.
        bindE (split_refs valid refs) (\<lambda>(emb, unk).
        Inr (if u \<in> valid then (u # emb, unk) else (emb, py_str ref # unk)))))"

fun unknown_markers :: "uuid set \<Rightarrow> string list \<Rightarrow> string list res" where
  "unknown_markers valid [] = Inr []"
| "unknown_markers valid (m # ms) =
     (if \<not> is_uuid (PyStr m)
      then bindE (unknown_markers valid ms) (\<lambda>unk. Inr (m # unk))
      else bindE (py_uuid (PyStr m)) (\<lambda>u.
        bindE (unknown_markers valid ms) (\<lambda>unk. Inr (if u \<in> valid then unk else m # unk))))"

definition audiences :: "string list" where
  "audiences = [''technical'', ''summary'']"

text \<open>One iteration: a section with the references to report, or the reason to drop it.\<close>

definition check_section ::
  "uuid \<Rightarrow> uuid set \<Rightarrow> string \<Rightarrow> string \<Rightarrow> nat \<Rightarrow> pyval \<Rightarrow> (string + report_section_write \<times> string list) res" where
  "check_section rid valid_obs pb model i raw =
     bindE (py_get raw ''audience'' PyNone) (\<lambda>audience.
     if audience \<notin> PyStr ` set audiences
     then Inr (Inl (''section['' @ nat_str i @ '']: invalid audience '' @ py_repr audience))
     else
       bindE (py_get raw ''body_md'' (PyStr [])) (\<lambda>b.
       let body = py_str b in
       bindE (py_get raw ''embedded_observations'' (PyList [])) (\<lambda>emb.
       bindE (py_iter emb) (\<lambda>refs.
       bindE (split_refs valid_obs refs) (\<lambda>(embedded, unknown).
       bindE (unknown_markers valid_obs (find_markers body)) (\<lambda>unknown'.
       bindE (py_get raw ''order'' (PyInt (int i))) (\<lambda>ord.
       bindE (py_int ord) (\<lambda>n.
       bindE (py_get raw ''title'' (PyStr [])) (\<lambda>title.
       Inr (Inr (\<lparr>rs_run_id = rid, rs_audience = py_str audience, rs_order = n, rs_title = py_str title,
                  rs_body_md = body, rs_embedded_observations = embedded,
                  rs_produced_by_agent = pb, rs_model_used = model\<rparr>,
                 unknown @ unknown')))))))))))"

fun section_loop ::
  "(nat \<Rightarrow> pyval \<Rightarrow> (string + report_section_write \<times> string list) res) \<Rightarrow> nat \<Rightarrow> pyval list \<Rightarrow>
   report_result \<Rightarrow> report_result res" where
  "section_loop chk i [] out = Inr out"
| "section_loop chk i (raw # raws) out =
     bindE (chk i raw) (\<lambda>x. case x of
         Inl why \<Rightarrow> section_loop chk (Suc i) raws (out\<lparr>rp_dropped := rp_dropped out @ [why]\<rparr>)
       | Inr (s, unk) \<Rightarrow> section_loop chk (Suc i) raws
           (out\<lparr>rp_unknown_refs := rp_unknown_refs out @ unk, rp_sections := rp_sections out @ [s]\<rparr>))"

section \<open>assemble_report\<close>

definition read_report_result ::
  "uuid \<Rightarrow> agent_definition \<Rightarrow> observation_row list \<Rightarrow> gateway_result \<Rightarrow> report_result res" where
  "read_report_result rid agent observations result =
     (let out = \<lparr>rp_sections = [], rp_dropped = [], rp_unknown_refs = [],
                 rp_model_used = gr_model result, rp_cost_usd = gr_cost_usd result\<rparr> in
      if \<not> py_truthy (gr_parsed result)
      then Inr (out\<lparr>rp_dropped := [schema_failure ''report agent'' result]\<rparr>)
      else
        bindE (py_get (gr_parsed result) ''sections'' (PyList [])) (\<lambda>secs.
        bindE (py_iter secs) (\<lambda>raws.
        section_loop
          (check_section rid (set (map or_id observations)) (produced_by agent) (gr_model result)) 0 raws out)))"

definition report_request ::
  "agent_definition \<Rightarrow> observation_row list \<Rightarrow> string \<Rightarrow> string \<Rightarrow> string \<Rightarrow> complete_args" where
  "report_request agent observations tenant budget privacy =
     \<lparr>ca_task_kind = ag_task_kind agent, ca_system_prompt = ag_system_prompt agent,
      ca_user_content = build_report_input observations,
      ca_output_schema = ag_output_schema agent, ca_tenant_id = tenant, ca_agent = ag_name agent,
      ca_budget_hint = budget, ca_privacy = privacy\<rparr>"

definition assemble_report ::
  "'g gateway_client \<Rightarrow> uuid \<Rightarrow> agent_definition \<Rightarrow> observation_row list \<Rightarrow> string \<Rightarrow> string \<Rightarrow> string \<Rightarrow>
   ('g, report_result) cmd" where
  "assemble_report gateway rid agent observations tenant budget privacy =
     bindC (gateway (report_request agent observations tenant budget privacy))
       (\<lambda>result. liftC (read_report_result rid agent observations result))"

section \<open>assemble_run_report\<close>

record report_run_result =
  rn_run_id :: uuid
  rn_sections_written :: nat
  rn_dropped :: "string list"
  rn_unknown_refs :: "string list"
  rn_cost_usd :: rat

definition nothing_assembled :: "uuid \<Rightarrow> string \<Rightarrow> report_run_result" where
  "nothing_assembled rid why =
     \<lparr>rn_run_id = rid, rn_sections_written = 0, rn_dropped = [why], rn_unknown_refs = [], rn_cost_usd = 0\<rparr>"

definition assembled_metadata :: "report_run_result \<Rightarrow> audit_metadata" where
  "assembled_metadata out =
     [(''sections'', ACount (rn_sections_written out)), (''dropped'', ACount (length (rn_dropped out))),
      (''unknown_refs'', ACount (length (rn_unknown_refs out))), (''cost_usd'', AFloat (rn_cost_usd out))]"

definition assemble_run_report :: "'s repo_ops \<Rightarrow> 'g run_args \<Rightarrow> ('s \<times> 'g, report_run_result) cmd" where
  "assemble_run_report ops ra =
     (if \<not> reg_contains (ra_registry ra) ''report''
      then returnC (nothing_assembled (ra_run_id ra) ''report agent not in registry'')
      else bindC (on_fst (observations_for_run ops (ra_run_id ra))) (\<lambda>observations.
        if observations = [] then returnC (nothing_assembled (ra_run_id ra) ''no observations to describe'')
        else bindC (liftC (reg_get (ra_registry ra) ''report'')) (\<lambda>agent.
          bindC (on_snd (assemble_report (ra_gateway ra) (ra_run_id ra) agent observations
                   (ra_tenant_id ra) (ra_budget_hint ra) (ra_privacy ra))) (\<lambda>result.
          bindC (on_fst (write_report_sections ops (rp_sections result))) (\<lambda>written.
          let out = \<lparr>rn_run_id = ra_run_id ra, rn_sections_written = written, rn_dropped = rp_dropped result,
                     rn_unknown_refs = rp_unknown_refs result, rn_cost_usd = rp_cost_usd result\<rparr> in
          bindC (on_fst (set_run_status ops (ra_run_id ra) ''complete'')) (\<lambda>_.
          bindC (on_fst (audit ops (ra_run_id ra) ''report.assembled'' (assembled_metadata out))) (\<lambda>_.
          returnC out)))))))"

section \<open>What passes the checks\<close>

text \<open>A section that refers to observations of the run only, for one of the two audiences.\<close>

definition grounded :: "uuid set \<Rightarrow> report_section_write \<Rightarrow> bool" where
  "grounded V s \<longleftrightarrow> rs_audience s \<in> set audiences \<and> set (rs_embedded_observations s) \<subseteq> V"

text \<open>Every marker of a body that does not name an observation of the run is in a list.\<close>

definition markers_reported :: "uuid set \<Rightarrow> string list \<Rightarrow> string \<Rightarrow> bool" where
  "markers_reported V reported body \<longleftrightarrow>
     (\<forall>m \<in> set (find_markers body). m \<in> set reported \<or> (\<exists>u. uuid_parse m = Inr u \<and> u \<in> V))"

lemma split_refs_known: "split_refs V refs = Inr (emb, unk) \<Longrightarrow> set emb \<subseteq> V"
  by (induction refs arbitrary: emb unk) (fastforce split: if_splits)+

lemma unknown_markers_all:
  "unknown_markers V ms = Inr unk \<Longrightarrow> m \<in> set ms \<Longrightarrow> m \<in> set unk \<or> (\<exists>u. uuid_parse m = Inr u \<and> u \<in> V)"
  by (induction ms arbitrary: unk) (auto split: if_splits simp del: is_uuid.simps)

lemma check_section_accepts:
  assumes "check_section rid V pb model i raw = Inr (Inr (s, unk))"
  shows "grounded V s \<and> rs_run_id s = rid \<and> rs_produced_by_agent s = pb \<and> rs_model_used s = model \<and>
    markers_reported V unk (rs_body_md s)"
proof -
  from assms obtain refs emb unk1 unk2 where a: "rs_audience s \<in> set audiences"
    and r: "split_refs V refs = Inr (emb, unk1)" and u: "unknown_markers V (find_markers (rs_body_md s)) = Inr unk2"
    and f: "rs_embedded_observations s = emb" "unk = unk1 @ unk2" "rs_run_id s = rid"
      "rs_produced_by_agent s = pb" "rs_model_used s = model"
    by (auto simp: check_section_def Let_def split: if_splits)
  from a f split_refs_known [OF r] unknown_markers_all [OF u] show ?thesis
    by (auto simp: grounded_def markers_reported_def)
qed

lemma section_loop_inv:
  assumes "section_loop chk i raws out = Inr out'"
    and "\<And>i raw s unk. chk i raw = Inr (Inr (s, unk)) \<Longrightarrow> P s \<and> markers_reported V unk (rs_body_md s)"
    and "\<forall>s \<in> set (rp_sections out). P s \<and> markers_reported V (rp_unknown_refs out) (rs_body_md s)"
  shows "(\<forall>s \<in> set (rp_sections out'). P s \<and> markers_reported V (rp_unknown_refs out') (rs_body_md s)) \<and>
    length (rp_sections out') + length (rp_dropped out') = length (rp_sections out) + length (rp_dropped out) + length raws \<and>
    rp_model_used out' = rp_model_used out \<and> rp_cost_usd out' = rp_cost_usd out"
  using assms(1,3)
proof (induction raws arbitrary: i out)
  case Nil
  then show ?case by simp
next
  case (Cons raw raws)
  from Cons.prems(1) obtain x where x: "chk i raw = Inr x" by auto
  show ?case
  proof (cases x)
    case (Inl why)
    with Cons.prems x Cons.IH [of "Suc i" "out\<lparr>rp_dropped := rp_dropped out @ [why]\<rparr>"] show ?thesis by simp
  next
    case (Inr p)
    obtain s unk where p: "p = (s, unk)" by (cases p)
    let ?out = "out\<lparr>rp_unknown_refs := rp_unknown_refs out @ unk, rp_sections := rp_sections out @ [s]\<rparr>"
    from assms(2) x Inr p have "P s" "markers_reported V unk (rs_body_md s)" by auto
    with Cons.prems(2) have "\<forall>s \<in> set (rp_sections ?out). P s \<and> markers_reported V (rp_unknown_refs ?out) (rs_body_md s)"
      by (auto simp: markers_reported_def)
    with Cons.prems(1) x Inr p Cons.IH [of "Suc i" ?out] show ?thesis by simp
  qed
qed

lemma read_report_result_accepts:
  assumes "read_report_result rid agent observations result = Inr out"
  shows "\<forall>s \<in> set (rp_sections out). (grounded (or_id ` set observations) s \<and> rs_run_id s = rid \<and>
      rs_produced_by_agent s = produced_by agent \<and> rs_model_used s = gr_model result) \<and>
      markers_reported (or_id ` set observations) (rp_unknown_refs out) (rs_body_md s)"
    and "rp_cost_usd out = gr_cost_usd result"
proof -
  let ?V = "or_id ` set observations"
  let ?P = "\<lambda>s. grounded ?V s \<and> rs_run_id s = rid \<and>
      rs_produced_by_agent s = produced_by agent \<and> rs_model_used s = gr_model result"
  have "(\<forall>s \<in> set (rp_sections out). ?P s \<and> markers_reported ?V (rp_unknown_refs out) (rs_body_md s)) \<and>
    rp_cost_usd out = gr_cost_usd result"
  proof (cases "py_truthy (gr_parsed result)")
    case False
    with assms show ?thesis by (auto simp: read_report_result_def Let_def)
  next
    case True
    with assms obtain raws where l: "section_loop (check_section rid ?V (produced_by agent) (gr_model result)) 0 raws
        \<lparr>rp_sections = [], rp_dropped = [], rp_unknown_refs = [], rp_model_used = gr_model result,
         rp_cost_usd = gr_cost_usd result\<rparr> = Inr out"
      by (auto simp: read_report_result_def Let_def)
    from section_loop_inv [OF l, of ?P ?V] check_section_accepts show ?thesis by simp
  qed
  then show "\<forall>s \<in> set (rp_sections out). ?P s \<and> markers_reported ?V (rp_unknown_refs out) (rs_body_md s)"
    and "rp_cost_usd out = gr_cost_usd result" by auto
qed

section \<open>Schema-conforming answers\<close>

text \<open>
  The types \<open>agents/report/schemas/output.json\<close> gives the fields of a section. An integer of JSON
  Schema may be read as a float with an integral value; the order and the embedded observations
  may be absent. The audience may be any string.
\<close>

fun is_integer :: "pyval \<Rightarrow> bool" where
  "is_integer (PyInt _) = True"
| "is_integer (PyFloat (Some r) _) = (r = of_int (rat_trunc r))"
| "is_integer _ = False"

fun schema_section :: "pyval \<Rightarrow> bool" where
  "schema_section (PyDict sec) \<longleftrightarrow>
     has_field is_str sec ''audience'' \<and> has_field is_str sec ''title'' \<and> has_field is_str sec ''body_md'' \<and>
     may_field is_integer sec ''order'' \<and> may_field is_strs sec ''embedded_observations''"
| "schema_section _ = False"

fun schema_report :: "pyval \<Rightarrow> bool" where
  "schema_report (PyDict d) \<longleftrightarrow>
     has_field (\<lambda>v. case v of PyList xs \<Rightarrow> list_all schema_section xs | _ \<Rightarrow> False) d ''sections''"
| "schema_report _ = False"

definition int_field :: "pydict \<Rightarrow> string \<Rightarrow> int \<Rightarrow> int" where
  "int_field d k dflt =
     (case map_of d k of Some (PyInt n) \<Rightarrow> n | Some (PyFloat (Some r) _) \<Rightarrow> rat_trunc r | _ \<Rightarrow> dflt)"

text \<open>The section a conforming one becomes, and the references it makes to nothing.\<close>

definition to_section :: "uuid \<Rightarrow> uuid set \<Rightarrow> string \<Rightarrow> string \<Rightarrow> nat \<Rightarrow> pydict \<Rightarrow> report_section_write" where
  "to_section rid V pb model i sec =
     \<lparr>rs_run_id = rid, rs_audience = str_field sec ''audience'', rs_order = int_field sec ''order'' (int i),
      rs_title = str_field sec ''title'', rs_body_md = str_field sec ''body_md'',
      rs_embedded_observations =
        map the_id (filter (known_id V) (strs_field sec ''embedded_observations'')),
      rs_produced_by_agent = pb, rs_model_used = model\<rparr>"

definition unknown_refs_of :: "uuid set \<Rightarrow> pydict \<Rightarrow> string list" where
  "unknown_refs_of V sec =
     filter (\<lambda>m. \<not> known_id V m)
       (strs_field sec ''embedded_observations'' @ find_markers (str_field sec ''body_md''))"

definition for_audience :: "pydict \<Rightarrow> bool" where
  "for_audience sec \<longleftrightarrow> str_field sec ''audience'' \<in> {''technical'', ''summary''}"

definition invalid_audience :: "nat \<Rightarrow> pydict \<Rightarrow> string" where
  "invalid_audience i sec =
     ''section['' @ nat_str i @ '']: invalid audience '' @ str_repr (str_field sec ''audience'')"

lemma may_int: "may_field is_integer d k \<Longrightarrow> py_int (dict_get d k (PyInt n)) = Inr (int_field d k n)"
  by (auto simp: may_field_def int_field_def dict_get_def split: option.splits elim!: is_integer.elims)

lemma split_refs_strs:
  "split_refs V (map PyStr ss) = Inr (map the_id (filter (known_id V) ss), filter (\<lambda>m. \<not> known_id V m) ss)"
proof (induction ss)
  case (Cons s ss)
  then show ?case
    by (cases "uuid_parse s") (auto simp: is_uuid_PyStr known_id_bad known_id_good simp del: is_uuid.simps)
qed simp

lemma unknown_markers_eq: "unknown_markers V ms = Inr (filter (\<lambda>m. \<not> known_id V m) ms)"
proof (induction ms)
  case (Cons m ms)
  then show ?case
    by (cases "uuid_parse m") (auto simp: is_uuid_PyStr known_id_bad known_id_good simp del: is_uuid.simps)
qed simp

lemma check_section_schema:
  assumes "schema_section (PyDict sec)"
  shows "check_section rid V pb model i (PyDict sec) =
    Inr (if for_audience sec then Inr (to_section rid V pb model i sec, unknown_refs_of V sec)
         else Inl (invalid_audience i sec))"
proof -
  have a: "dict_get sec ''audience'' PyNone = PyStr (str_field sec ''audience'')"
    and t: "dict_get sec ''title'' (PyStr []) = PyStr (str_field sec ''title'')"
    and b: "dict_get sec ''body_md'' (PyStr []) = PyStr (str_field sec ''body_md'')"
    and o: "py_int (dict_get sec ''order'' (PyInt (int i))) = Inr (int_field sec ''order'' (int i))"
    and e: "dict_get sec ''embedded_observations'' (PyList []) =
      PyList (map PyStr (strs_field sec ''embedded_observations''))"
    using assms by (simp_all add: has_str dict_get_def [of _ "''audience''"] dict_get_def [of _ "''title''"]
        dict_get_def [of _ "''body_md''"] may_int may_strs)
  show ?thesis
    by (auto simp: check_section_def a t b o e split_refs_strs unknown_markers_eq Let_def to_section_def
        unknown_refs_of_def for_audience_def invalid_audience_def audiences_def)
qed

text \<open>The loop over conforming sections: those for an audience, and the reasons of the others, in order.\<close>

lemma section_loop_schema:
  assumes "\<And>sec. sec \<in> set secs \<Longrightarrow> schema_section (PyDict sec)"
  shows "section_loop (check_section rid V pb model) i (map PyDict secs) out =
    (let shown = filter (\<lambda>(j, sec). for_audience sec) (enumerate i secs) in
     Inr (out\<lparr>rp_sections := rp_sections out @ map (\<lambda>(j, sec). to_section rid V pb model j sec) shown,
              rp_unknown_refs := rp_unknown_refs out @ concat (map (\<lambda>(j, sec). unknown_refs_of V sec) shown),
              rp_dropped := rp_dropped out @ map (\<lambda>(j, sec). invalid_audience j sec)
                (filter (\<lambda>(j, sec). \<not> for_audience sec) (enumerate i secs))\<rparr>))"
  using assms
  by (induction secs arbitrary: i out) (simp_all add: check_section_schema Let_def)

lemma schema_sections:
  assumes "schema_report (PyDict d)"
  shows "map_of d ''sections'' = Some (PyList (map PyDict (dicts_field d ''sections'')))"
    and "sec \<in> set (dicts_field d ''sections'') \<Longrightarrow> schema_section (PyDict sec)"
proof -
  from assms obtain xs where d: "map_of d ''sections'' = Some (PyList xs)" and xs: "list_all schema_section xs"
    by (auto simp: has_field_def split: option.splits pyval.splits)
  have x: "x = PyDict (the_dict x)" if "x \<in> set xs" for x
    using that xs by (auto simp: list_all_iff elim!: schema_section.elims)
  then show "map_of d ''sections'' = Some (PyList (map PyDict (dicts_field d ''sections'')))"
    by (simp add: d dicts_field_def map_idI comp_def)
  show "schema_section (PyDict sec)" if "sec \<in> set (dicts_field d ''sections'')"
  proof -
    from that obtain y where y: "y \<in> set xs" and sec: "sec = the_dict y" by (auto simp: d dicts_field_def)
    from y xs have "schema_section y" by (simp add: list_all_iff)
    with x [OF y] sec show ?thesis by simp
  qed
qed

lemma read_report_result_schema:
  assumes "gr_parsed result = PyDict d" and "schema_report (PyDict d)"
  shows "read_report_result rid agent observations result =
    (let secs = enumerate 0 (dicts_field d ''sections''); V = or_id ` set observations;
         shown = filter (\<lambda>(i, sec). for_audience sec) secs in
     Inr \<lparr>rp_sections = map (\<lambda>(i, sec). to_section rid V (produced_by agent) (gr_model result) i sec) shown,
          rp_dropped = map (\<lambda>(i, sec). invalid_audience i sec) (filter (\<lambda>(i, sec). \<not> for_audience sec) secs),
          rp_unknown_refs = concat (map (\<lambda>(i, sec). unknown_refs_of V sec) shown),
          rp_model_used = gr_model result, rp_cost_usd = gr_cost_usd result\<rparr>)"
proof -
  from assms(2) have o: "map_of d ''sections'' = Some (PyList (map PyDict (dicts_field d ''sections'')))"
    by (rule schema_sections)
  then have "d \<noteq> []" by auto
  then show ?thesis
    using section_loop_schema [OF schema_sections(2) [OF assms(2)], where i = 0]
    by (simp add: read_report_result_def assms(1) o dict_get_def Let_def)
qed

section \<open>The report pass over a store\<close>

definition add_sections :: "report_section_write list \<Rightarrow> repo_view \<Rightarrow> repo_view" where
  "add_sections ss v = v\<lparr>rv_sections := rv_sections v @ ss\<rparr>"

lemma add_sections_fields [simp]:
  "rv_sections (add_sections ss v) = rv_sections v @ ss" "rv_written (add_sections ss v) = rv_written v"
  "rv_status (add_sections ss v) = rv_status v" "rv_audit (add_sections ss v) = rv_audit v"
  by (simp_all add: add_sections_def)

definition assembled :: "uuid \<Rightarrow> report_result \<Rightarrow> report_run_result" where
  "assembled rid result =
     \<lparr>rn_run_id = rid, rn_sections_written = length (rp_sections result), rn_dropped = rp_dropped result,
      rn_unknown_refs = rp_unknown_refs result, rn_cost_usd = rp_cost_usd result\<rparr>"

lemma assembled_written [simp]: "rn_sections_written (assembled rid result) = length (rp_sections result)"
  by (simp add: assembled_def)

context repo_store
begin

lemma assemble_run_report_cases:
  assumes "assemble_run_report ops ra p = (res, q)"
  obtains (skipped) why where "res = Inr (nothing_assembled (ra_run_id ra) why)" and "q = p"
      and "\<not> reg_contains (ra_registry ra) ''report'' \<or> rows (fst p) (ra_run_id ra) = []"
    | (raised) e where "res = Inl e" and "view (fst q) = view (fst p)"
    | (unfinished) agent result g' e where "res = Inl e" and "reg_get (ra_registry ra) ''report'' = Inr agent"
      and "assemble_report (ra_gateway ra) (ra_run_id ra) agent (rows (fst p) (ra_run_id ra)) (ra_tenant_id ra)
             (ra_budget_hint ra) (ra_privacy ra) (snd p) = (Inr result, g')"
      and "view (fst q) = add_sections (rp_sections result) (view (fst p)) \<or>
           view (fst q) = view_status (ra_run_id ra) COMPLETE (add_sections (rp_sections result) (view (fst p)))"
    | (finished) agent result g' where "res = Inr (assembled (ra_run_id ra) result)"
      and "reg_get (ra_registry ra) ''report'' = Inr agent" and "rows (fst p) (ra_run_id ra) \<noteq> []"
      and "reg_contains (ra_registry ra) ''report''"
      and "assemble_report (ra_gateway ra) (ra_run_id ra) agent (rows (fst p) (ra_run_id ra)) (ra_tenant_id ra)
             (ra_budget_hint ra) (ra_privacy ra) (snd p) = (Inr result, g')"
      and "view (fst q) = grows (view_status (ra_run_id ra) COMPLETE (add_sections (rp_sections result) (view (fst p)))) []
             [(ra_run_id ra, ''report.assembled'', assembled_metadata (assembled (ra_run_id ra) result))]"
proof (cases "reg_contains (ra_registry ra) ''report'' \<and> rows (fst p) (ra_run_id ra) \<noteq> []")
  case False
  with assms have "\<exists>why. res = Inr (nothing_assembled (ra_run_id ra) why) \<and> q = p"
    by (auto simp: assemble_run_report_def bindC_def on_fst_def observations_for_run split: if_splits)
  with False skipped show thesis by blast
next
  case True
  let ?rid = "ra_run_id ra" and ?rows = "rows (fst p) (ra_run_id ra)"
  show thesis
  proof (cases "reg_get (ra_registry ra) ''report''")
    case (Inl e)
    with assms True show thesis
      by (intro raised [of e])
        (simp_all add: assemble_run_report_def bindC_def on_fst_def observations_for_run)
  next
    case agent: (Inr agent)
    let ?run = "assemble_report (ra_gateway ra) ?rid agent ?rows (ra_tenant_id ra) (ra_budget_hint ra) (ra_privacy ra)"
    have step: "bindC (on_snd ?run) (\<lambda>result.
        bindC (on_fst (write_report_sections ops (rp_sections result))) (\<lambda>written.
          let out = \<lparr>rn_run_id = ?rid, rn_sections_written = written, rn_dropped = rp_dropped result,
                     rn_unknown_refs = rp_unknown_refs result, rn_cost_usd = rp_cost_usd result\<rparr> in
          bindC (on_fst (set_run_status ops ?rid ''complete'')) (\<lambda>_.
          bindC (on_fst (audit ops ?rid ''report.assembled'' (assembled_metadata out))) (\<lambda>_.
          returnC out)))) p = (res, q)"
    proof -
      have "on_fst (observations_for_run ops ?rid) p = (Inr ?rows, p)"
        by (simp add: on_fst_def observations_for_run)
      with assms True agent show ?thesis
        by (simp add: assemble_run_report_def bindC_Inr)
    qed
    from step show thesis
    proof (cases rule: bindC_cases)
      case (raised e)
      then show thesis by (intro that(2) [of e]) (simp_all add: on_snd_eq)
    next
      case (normal result p1)
      then have r: "?run (snd p) = (Inr result, snd p1)" and p1: "fst p1 = fst p" by (simp_all add: on_snd_eq)
      from normal(2) show thesis
      proof (cases rule: bindC_cases)
        case (raised e)
        then have "view (fst q) = view (fst p)" by (auto simp: on_fst_eq p1 dest: write_sections_raises)
        with raised(2) show thesis by (rule that(2))
      next
        case (normal n p2)
        then have n: "n = length (rp_sections result)"
          and p2: "view (fst p2) = add_sections (rp_sections result) (view (fst p))"
          by (auto simp: on_fst_eq p1 add_sections_def dest: write_sections_returns)
        have tail: "bindC (on_fst (set_run_status ops ?rid ''complete'')) (\<lambda>_.
            bindC (on_fst (audit ops ?rid ''report.assembled'' (assembled_metadata (assembled ?rid result)))) (\<lambda>_.
            returnC (assembled ?rid result))) p2 = (res, q)"
          using normal(2) by (simp add: assembled_def n Let_def)
        from tail show thesis
        proof (cases rule: bindC_cases)
          case (raised e)
          from status_step [OF raised(1)] have "view (fst q) = add_sections (rp_sections result) (view (fst p))"
            by (simp add: p2)
          then show thesis by (intro unfinished [OF raised(2) agent r]) simp
        next
          case (normal u p3)
          from status_step [OF normal(1)]
          have p3: "view (fst p3) = view_status ?rid COMPLETE (add_sections (rp_sections result) (view (fst p)))"
            by (simp add: p2)
          from normal(2) show thesis
          proof (cases rule: bindC_cases)
            case (raised e)
            from audit_step [OF raised(1)] p3 show thesis by (intro unfinished [OF raised(2) agent r]) simp
          next
            case (normal u p4)
            from audit_step [OF normal(1)] normal(2) True show thesis
              by (intro finished [OF _ agent _ _ r]) (simp_all add: p3)
          qed
        qed
      qed
    qed
  qed
qed

end

section \<open>Properties of the report pass\<close>

text \<open>A run with one observation and a report agent that embeds it and one that does not exist.\<close>

definition sample_section :: pydict where
  "sample_section =
     [(''audience'', PyStr ''summary''), (''title'', PyStr ''Host''),
      (''body_md'', PyStr (marker (uuid_str 8) @ marker (uuid_str 100) @ ''.'')),
      (''embedded_observations'', PyList [PyStr (uuid_str 100), PyStr (uuid_str 7)])]"

definition sample_report_answer :: pydict where
  "sample_report_answer = [(''sections'', PyList [PyDict sample_section])]"

definition sample_report_result :: gateway_result where
  "sample_report_result = \<lparr>gr_parsed = PyDict sample_report_answer,
     gr_schema_valid = Some True, gr_schema_errors = [], gr_model = ''m'', gr_provider = ''p'',
     gr_cost_usd = 1 / 128, gr_content = []\<rparr>"

definition sample_row :: observation_row where
  "sample_row = \<lparr>or_id = 100, or_asset_id = 1, or_domain = ''hardware'', or_topic = ''CPU'', or_summary = ''16 CPUs'',
     or_detail = ''one socket'', or_facts = PyDict [(''cpus'', PyInt 16)]\<rparr>"

definition sample_discovered_db :: db where
  "sample_discovered_db = sample_db\<lparr>db_observations := [observation_write.extend sample_write
     \<lparr>ob_id = 100, ob_tenant = 5, ob_created_at = 0\<rparr>], db_next := 101\<rparr>"

definition sample_report_args :: "unit run_args" where
  "sample_report_args = sample_args\<lparr>ra_registry := [(''report'', sample_agent\<lparr>ag_name := ''report''\<rparr>)],
     ra_gateway := (\<lambda>a. returnC sample_report_result)\<rparr>"

definition sample_section_write :: report_section_write where
  "sample_section_write = \<lparr>rs_run_id = 9, rs_audience = ''summary'', rs_order = 0, rs_title = ''Host'',
     rs_body_md = marker (uuid_str 8) @ marker (uuid_str 100) @ ''.'', rs_embedded_observations = [100],
     rs_produced_by_agent = ''report@0.0.0'', rs_model_used = ''m''\<rparr>"

lemma sample_uuid_values: "(100::uuid) \<noteq> 7" "(8::uuid) \<noteq> 100"
  by (simp_all add: word_eq_iff_unsigned)

lemma assemble_report_returned:
  assumes "assemble_report gateway rid agent observations tenant budget privacy g = (Inr out, g')"
  obtains result where "read_report_result rid agent observations result = Inr out"
  using assms unfolding assemble_report_def by (auto elim!: bindC_cases)

lemma assemble_report_sections:
  assumes "assemble_report gateway rid agent observations tenant budget privacy g = (Inr out, g')"
    and "s \<in> set (rp_sections out)"
  shows "rs_audience s \<in> {''technical'', ''summary''} \<and> rs_run_id s = rid \<and>
    set (rs_embedded_observations s) \<subseteq> or_id ` set observations \<and>
    rs_produced_by_agent s = ag_name agent @ ''@'' @ ag_version agent \<and>
    (\<forall>m \<in> set (find_markers (rs_body_md s)). m \<notin> set (rp_unknown_refs out) \<longrightarrow>
       (\<exists>u. uuid_parse m = Inr u \<and> u \<in> or_id ` set observations))"
proof -
  from assms(1) obtain result where "read_report_result rid agent observations result = Inr out"
    by (rule assemble_report_returned)
  from read_report_result_accepts(1) [OF this] assms(2) show ?thesis
    by (auto simp: grounded_def audiences_def markers_reported_def produced_by_def)
qed

text \<open>
  C7. Whatever the model answers, every section a report pass returns is for one of the two
  audiences, embeds only observations the run has, and every marker in its body either names an
  observation of the run or is listed among the unknown references.
\<close>

theorem assemble_report_grounded:
  assumes "assemble_report gateway rid agent observations tenant budget privacy g = (Inr out, g')"
    and "s \<in> set (rp_sections out)"
  shows "rs_audience s \<in> {''technical'', ''summary''} \<and> rs_run_id s = rid \<and>
    set (rs_embedded_observations s) \<subseteq> or_id ` set observations \<and>
    rs_produced_by_agent s = ag_name agent @ ''@'' @ ag_version agent \<and>
    (\<forall>m \<in> set (find_markers (rs_body_md s)). m \<notin> set (rp_unknown_refs out) \<longrightarrow>
       (\<exists>u. uuid_parse m = Inr u \<and> u \<in> or_id ` set observations))"
  using assms by (rule assemble_report_sections)

lemma sample_report_schema: "schema_report (PyDict sample_report_answer)"
  by (simp add: sample_report_answer_def sample_section_def has_field_def may_field_def)

lemma sample_sections: "dicts_field sample_report_answer ''sections'' = [sample_section]"
  by (simp add: sample_report_answer_def dicts_field_def)

lemma sample_to_section:
  "to_section 9 {100} ''report@0.0.0'' ''m'' 0 sample_section = sample_section_write"
  by (simp add: to_section_def sample_section_def sample_section_write_def str_field_def strs_field_def int_field_def
      known_id_def the_id_def)

lemma sample_unknown_refs: "unknown_refs_of {100} sample_section = [uuid_str 7, uuid_str 8]"
  by (simp add: unknown_refs_of_def sample_section_def str_field_def strs_field_def find_markers_uuid known_id_def)

lemma sample_for_audience: "for_audience sample_section"
  by (simp add: for_audience_def sample_section_def str_field_def)

lemma sample_report:
  obtains out where "assemble_report (\<lambda>a. returnC sample_report_result) 9 (sample_agent\<lparr>ag_name := ''report''\<rparr>)
      [sample_row] ''t'' ''normal'' ''standard'' g = (Inr out, g)"
    and "rp_sections out = [sample_section_write]" and "rp_unknown_refs out = [uuid_str 7, uuid_str 8]"
proof -
  have p: "gr_parsed sample_report_result = PyDict sample_report_answer" "gr_model sample_report_result = ''m''"
    by (simp_all add: sample_report_result_def)
  have "produced_by (sample_agent\<lparr>ag_name := ''report''\<rparr>) = ''report@0.0.0''" "or_id ` set [sample_row] = {100}"
    by (simp_all add: produced_by_def sample_agent_def sample_row_def)
  with read_report_result_schema [OF p(1) sample_report_schema, of 9 "sample_agent\<lparr>ag_name := ''report''\<rparr>" "[sample_row]"]
  obtain out where "read_report_result 9 (sample_agent\<lparr>ag_name := ''report''\<rparr>) [sample_row] sample_report_result = Inr out"
    and "rp_sections out = [sample_section_write]" and "rp_unknown_refs out = [uuid_str 7, uuid_str 8]"
    by (auto simp: sample_sections sample_for_audience sample_to_section sample_unknown_refs p Let_def)
  then show thesis
    by (intro that [of out]) (simp_all add: assemble_report_def bindC_def)
qed

theorem assemble_report_grounded_witness:
  "set (rs_embedded_observations sample_section_write) \<subseteq> {100}"
proof -
  obtain out where "assemble_report (\<lambda>a. returnC sample_report_result) 9 (sample_agent\<lparr>ag_name := ''report''\<rparr>)
      [sample_row] ''t'' ''normal'' ''standard'' () = (Inr out, ())" and "rp_sections out = [sample_section_write]"
    by (rule sample_report)
  from assemble_report_grounded [OF this(1), of sample_section_write] this(2) show ?thesis
    by (simp add: sample_row_def)
qed

text \<open>
  C34. For an answer of the types the report schema gives, optional fields present or absent, the
  result is determined: the sections are those with a valid audience, in order, with the known
  embedded observations kept, the order given or else the section's index, and title and body
  unchanged, also where the body has a marker of an unknown observation; the unknown references
  are the unknown embedded identifiers and markers, section by section; every other section is
  dropped with its index and audience.
\<close>

theorem assemble_report_exact:
  assumes "gateway (report_request agent observations tenant budget privacy) g = (Inr result, g')"
    and "gr_parsed result = PyDict d" and "schema_report (PyDict d)"
  shows "assemble_report gateway rid agent observations tenant budget privacy g =
    (let secs = enumerate 0 (dicts_field d ''sections''); V = or_id ` set observations;
         shown = filter (\<lambda>(i, sec). for_audience sec) secs in
     (Inr \<lparr>rp_sections = map (\<lambda>(i, sec). to_section rid V (ag_name agent @ ''@'' @ ag_version agent)
                                 (gr_model result) i sec) shown,
           rp_dropped = map (\<lambda>(i, sec). invalid_audience i sec) (filter (\<lambda>(i, sec). \<not> for_audience sec) secs),
           rp_unknown_refs = concat (map (\<lambda>(i, sec). unknown_refs_of V sec) shown),
           rp_model_used = gr_model result, rp_cost_usd = gr_cost_usd result\<rparr>, g'))"
  by (simp add: assemble_report_def bindC_def assms(1) read_report_result_schema [OF assms(2,3)] produced_by_def Let_def)

text \<open>A section for no audience before one without optional fields.\<close>

definition brief_section :: "string \<Rightarrow> pydict" where
  "brief_section a = [(''audience'', PyStr a), (''title'', PyStr ''RAM''), (''body_md'', PyStr ''64 GB'')]"

definition brief_report_answer :: pydict where
  "brief_report_answer = [(''sections'', PyList (map (\<lambda>a. PyDict (brief_section a)) [''board'', ''technical'']))]"

theorem assemble_report_exact_witness:
  "assemble_report (\<lambda>a. returnC (sample_report_result\<lparr>gr_parsed := PyDict brief_report_answer\<rparr>)) 9 sample_agent
      [sample_row] ''t'' ''normal'' ''standard'' () =
    (Inr \<lparr>rp_sections = [\<lparr>rs_run_id = 9, rs_audience = ''technical'', rs_order = 1, rs_title = ''RAM'',
            rs_body_md = ''64 GB'', rs_embedded_observations = [], rs_produced_by_agent = ''hardware@0.0.0'',
            rs_model_used = ''m''\<rparr>],
          rp_dropped = [''section[0]: invalid audience '' @ str_repr ''board''], rp_unknown_refs = [],
          rp_model_used = ''m'', rp_cost_usd = 1 / 128\<rparr>, ())"
proof -
  have zero: "nat_str 0 = ''0''" and none: "find_markers ''64 GB'' = []" by code_simp+
  have schema: "schema_report (PyDict brief_report_answer)"
    by (simp add: brief_report_answer_def brief_section_def has_field_def may_field_def)
  have secs: "dicts_field brief_report_answer ''sections'' = [brief_section ''board'', brief_section ''technical'']"
    by (simp add: brief_report_answer_def dicts_field_def)
  show ?thesis
    by (subst assemble_report_exact [of "\<lambda>a. returnC (sample_report_result\<lparr>gr_parsed := PyDict brief_report_answer\<rparr>)"
          _ _ _ _ _ _ "sample_report_result\<lparr>gr_parsed := PyDict brief_report_answer\<rparr>" "()" brief_report_answer,
          OF _ _ schema])
      (simp_all add: secs zero none Let_def brief_section_def sample_report_result_def sample_agent_def sample_row_def
        for_audience_def invalid_audience_def to_section_def unknown_refs_of_def
        str_field_def strs_field_def int_field_def)
qed

lemma report_pass_stores:
  assumes "assemble_run_report (pg_repo tenant) ra (d, g) = (res, (d', g'))"
  shows "\<exists>new. map report_section_write.truncate (db_sections d') =
      map report_section_write.truncate (db_sections d) @ new \<and>
    (\<forall>s \<in> set new. rs_run_id s = ra_run_id ra \<and> rs_audience s \<in> {''technical'', ''summary''} \<and>
       (\<forall>u \<in> set (rs_embedded_observations s).
          \<exists>ob \<in> set (db_observations d). ob_id ob = u \<and> ow_run_id ob = ra_run_id ra)) \<and>
    map observation_write.truncate (db_observations d') = map observation_write.truncate (db_observations d)"
proof -
  have rows: "or_id ` set (pg_observation_rows d r) = ob_id ` {ob \<in> set (db_observations d). ow_run_id ob = r}" for r
    by (simp add: pg_observation_rows_def to_observation_row_def image_image)
  have new: "\<forall>s \<in> set (rp_sections out). rs_run_id s = ra_run_id ra \<and> rs_audience s \<in> {''technical'', ''summary''} \<and>
       (\<forall>u \<in> set (rs_embedded_observations s).
          \<exists>ob \<in> set (db_observations d). ob_id ob = u \<and> ow_run_id ob = ra_run_id ra)"
    if "assemble_report gateway (ra_run_id ra) agent (pg_observation_rows d (ra_run_id ra)) t b pr w = (Inr out, w')"
    for out gateway agent t b pr w w'
  proof
    fix s
    assume "s \<in> set (rp_sections out)"
    note s = assemble_report_sections [OF that this]
    then have "set (rs_embedded_observations s) \<subseteq> ob_id ` {ob \<in> set (db_observations d). ow_run_id ob = ra_run_id ra}"
      unfolding rows by simp
    with s show "rs_run_id s = ra_run_id ra \<and> rs_audience s \<in> {''technical'', ''summary''} \<and>
       (\<forall>u \<in> set (rs_embedded_observations s).
          \<exists>ob \<in> set (db_observations d). ob_id ob = u \<and> ow_run_id ob = ra_run_id ra)"
      by auto
  qed
  from assms have "\<exists>new. rv_sections (pg_view d') = rv_sections (pg_view d) @ new \<and>
    (\<forall>s \<in> set new. rs_run_id s = ra_run_id ra \<and> rs_audience s \<in> {''technical'', ''summary''} \<and>
       (\<forall>u \<in> set (rs_embedded_observations s).
          \<exists>ob \<in> set (db_observations d). ob_id ob = u \<and> ow_run_id ob = ra_run_id ra)) \<and>
    rv_written (pg_view d') = rv_written (pg_view d)"
  proof (cases rule: pg.assemble_run_report_cases)
    case (unfinished agent result g'' e)
    then have "\<forall>s \<in> set (rp_sections result). rs_run_id s = ra_run_id ra \<and> rs_audience s \<in> {''technical'', ''summary''} \<and>
       (\<forall>u \<in> set (rs_embedded_observations s).
          \<exists>ob \<in> set (db_observations d). ob_id ob = u \<and> ow_run_id ob = ra_run_id ra)"
      by (intro new) simp
    with unfinished(4) show ?thesis by auto
  next
    case (finished agent result g'')
    then have "\<forall>s \<in> set (rp_sections result). rs_run_id s = ra_run_id ra \<and> rs_audience s \<in> {''technical'', ''summary''} \<and>
       (\<forall>u \<in> set (rs_embedded_observations s).
          \<exists>ob \<in> set (db_observations d). ob_id ob = u \<and> ow_run_id ob = ra_run_id ra)"
      by (intro new) simp
    with finished(6) show ?thesis by auto
  qed simp_all
  then show ?thesis by (simp add: pg_view_fields)
qed

text \<open>
  What a report pass stores, however it ends: report sections are only added, each of them
  for this run and one of the two audiences, embedding only observations this run has in the
  database; observations do not change.
\<close>

lemma assemble_run_report_stores:
  assumes "assemble_run_report (pg_repo tenant) ra (d, g) = (res, (d', g'))"
  shows "\<exists>new. map report_section_write.truncate (db_sections d') =
      map report_section_write.truncate (db_sections d) @ new \<and>
    (\<forall>s \<in> set new. rs_run_id s = ra_run_id ra \<and> rs_audience s \<in> {''technical'', ''summary''} \<and>
       (\<forall>u \<in> set (rs_embedded_observations s).
          \<exists>ob \<in> set (db_observations d). ob_id ob = u \<and> ow_run_id ob = ra_run_id ra)) \<and>
    map observation_write.truncate (db_observations d') = map observation_write.truncate (db_observations d)"
  using assms by (rule report_pass_stores)

lemma sample_report_pass:
  obtains out d' where "assemble_run_report (pg_repo 5) sample_report_args (sample_discovered_db, ()) = (Inr out, (d', ()))"
    and "map report_section_write.truncate (db_sections d') = [sample_section_write]"
    and "rn_unknown_refs out = [uuid_str 7, uuid_str 8]" and "status_in (db_runs d') 9 = Some COMPLETE"
proof -
  obtain out where run: "assemble_report (\<lambda>a. returnC sample_report_result) 9 (sample_agent\<lparr>ag_name := ''report''\<rparr>)
      [sample_row] ''t'' ''normal'' ''standard'' () = (Inr out, ())" and secs: "rp_sections out = [sample_section_write]"
    and unk: "rp_unknown_refs out = [uuid_str 7, uuid_str 8]"
    by (rule sample_report)
  have reg: "reg_contains (ra_registry sample_report_args) ''report''"
    "reg_get (ra_registry sample_report_args) ''report'' = Inr (sample_agent\<lparr>ag_name := ''report''\<rparr>)"
    by (simp_all add: reg_contains_def reg_get_def sample_report_args_def)
  have args: "ra_run_id sample_report_args = 9" "ra_gateway sample_report_args = (\<lambda>a. returnC sample_report_result)"
    "ra_tenant_id sample_report_args = ''t''" "ra_budget_hint sample_report_args = ''normal''"
    "ra_privacy sample_report_args = ''standard''"
    by (simp_all add: sample_report_args_def sample_args_def)
  have rows: "pg_observations_for_run 9 sample_discovered_db = (Inr [sample_row], sample_discovered_db)"
    by (simp add: pg_observations_for_run_def pg_observation_rows_def sample_discovered_db_def sample_db_def
        sample_write_def to_write_sample to_observation_row_def sample_row_def py_or_def
        observation_write.defs)
  have stored: "pg_write_report_sections 5 [sample_section_write] sample_discovered_db =
      (Inr 1, sample_discovered_db\<lparr>db_sections := [report_section_write.extend sample_section_write
         \<lparr>sec_id = 101, sec_tenant = 5, sec_created_at = 0\<rparr>], db_next := 102\<rparr>)"
    by (simp add: pg_write_report_sections_def transaction_def bindC_def insert_section_def Let_def has_run_def has_tenant_def
        sample_discovered_db_def sample_db_def sample_section_write_def)
  show thesis
    by (rule that, simp add: assemble_run_report_def bindC_def on_fst_def on_snd_def reg args rows run secs stored
        pg_set_run_status_def pg_audit_def transaction_def insert_audit_def Let_def)
      (simp_all add: unk status_in_update, simp add: sample_discovered_db_def sample_db_def status_in_def)
qed

lemma assemble_run_report_stores_witness:
  "\<exists>ob \<in> set (db_observations sample_discovered_db). ob_id ob = 100 \<and> ow_run_id ob = 9"
proof -
  obtain out d' where r: "assemble_run_report (pg_repo 5) sample_report_args (sample_discovered_db, ()) = (Inr out, (d', ()))"
    and s: "map report_section_write.truncate (db_sections d') = [sample_section_write]"
    by (rule sample_report_pass)
  have "db_sections sample_discovered_db = []" "ra_run_id sample_report_args = 9"
    by (simp_all add: sample_discovered_db_def sample_db_def sample_report_args_def sample_args_def)
  with assemble_run_report_stores [OF r] s show ?thesis by (simp add: sample_section_write_def)
qed

text \<open>
  When the report pass returns, either there was nothing to describe (no report agent, or no
  observations) and nothing at all changed, with the reason dropped; or the sections are stored,
  the run is \<open>complete\<close> and one audit entry holds the totals that are returned.
\<close>

lemma assemble_run_report_completes:
  assumes "assemble_run_report (pg_repo tenant) ra (d, g) = (Inr out, (d', g'))"
    and "status_in (db_runs d) (ra_run_id ra) = Some st"
  shows "if reg_contains (ra_registry ra) ''report'' \<and> pg_observation_rows d (ra_run_id ra) \<noteq> []
    then status_in (db_runs d') (ra_run_id ra) = Some COMPLETE \<and>
      length (db_sections d') = length (db_sections d) + rn_sections_written out \<and>
      map audit_entry (db_audit d') = map audit_entry (db_audit d) @
        [(ra_run_id ra, ''report.assembled'', assembled_metadata out)]
    else d' = d \<and> g' = g \<and> rn_sections_written out = 0 \<and> length (rn_dropped out) = 1"
  using assms(1)
proof (cases rule: pg.assemble_run_report_cases)
  case (skipped why)
  then show ?thesis by (auto simp: nothing_assembled_def)
next
  case (finished agent result g'')
  from arg_cong [OF finished(6), of rv_status] assms(2) have "status_in (db_runs d') (ra_run_id ra) = Some COMPLETE"
    by (simp add: pg_view_fields)
  moreover from arg_cong [OF finished(6), of "\<lambda>v. length (rv_sections v)"] finished(1)
  have "length (db_sections d') = length (db_sections d) + rn_sections_written out"
    by (simp add: pg_view_fields)
  moreover from arg_cong [OF finished(6), of rv_audit] finished(1)
  have "map audit_entry (db_audit d') = map audit_entry (db_audit d) @
        [(ra_run_id ra, ''report.assembled'', assembled_metadata out)]"
    by (simp add: pg_view_fields)
  ultimately show ?thesis using finished(3,4) by simp
qed simp_all

lemma assemble_run_report_completes_witness:
  "\<exists>out d'. assemble_run_report (pg_repo 5) sample_report_args (sample_discovered_db, ()) = (Inr out, (d', ())) \<and>
     status_in (db_runs d') 9 = Some COMPLETE"
proof -
  obtain out d' where r: "assemble_run_report (pg_repo 5) sample_report_args (sample_discovered_db, ()) = (Inr out, (d', ()))"
    by (rule sample_report_pass)
  have st: "status_in (db_runs sample_discovered_db) (ra_run_id sample_report_args) = Some COLLECTING"
    and rows: "pg_observation_rows sample_discovered_db 9 \<noteq> []"
    and args: "ra_run_id sample_report_args = 9" "reg_contains (ra_registry sample_report_args) ''report''"
    by (simp_all add: sample_discovered_db_def sample_db_def sample_report_args_def sample_args_def status_in_def
        pg_observation_rows_def sample_write_def to_write_sample observation_write.defs reg_contains_def)
  from assemble_run_report_completes [OF r st] r rows args show ?thesis by auto
qed

end
