(* ===== verification/Append_Only.thy ===== *)
theory Append_Only
  imports Report
begin

text \<open>
  What the two passes of the orchestrator leave alone, whatever the model answers and wherever they
  stop. A command \<open>preserves\<close> a relation on states if every run of it, also one that raises, stays in
  the relation. If every method of a repository preserves a reflexive and transitive relation, both
  passes do (locale \<open>repo_preserved\<close>); PgRepo's methods preserve \<open>append_only\<close>.
\<close>

definition preserves :: "('s \<Rightarrow> 's \<Rightarrow> bool) \<Rightarrow> ('s, 'a) cmd \<Rightarrow> bool" where
  "preserves R m \<longleftrightarrow> (\<forall>s. R s (snd (m s)))"

lemma preservesD: "preserves R m \<Longrightarrow> m s = (r, t) \<Longrightarrow> R s t"
  unfolding preserves_def by (metis snd_conv)

lemma preservesI:
  assumes "\<And>s r t. m s = (r, t) \<Longrightarrow> R s t"
  shows "preserves R m"
  unfolding preserves_def by (intro allI assms) (rule prod.collapse [symmetric])

lemma preserves_let: "preserves R (f x) \<Longrightarrow> preserves R (Let x f)"
  by simp

lemma preserves_if:
  "(b \<Longrightarrow> preserves R m) \<Longrightarrow> (\<not> b \<Longrightarrow> preserves R n) \<Longrightarrow> preserves R (if b then m else n)"
  by simp

lemma preserves_pair: "(\<And>a b. preserves R (f a b)) \<Longrightarrow> preserves R (case p of (a, b) \<Rightarrow> f a b)"
  by (cases p) simp

lemma preserves_same: "reflp R \<Longrightarrow> (\<And>s. snd (m s) = s) \<Longrightarrow> preserves R m"
  by (simp add: preserves_def reflpD)

lemma preserves_bind:
  assumes "transp R" and m: "preserves R m" and f: "\<And>x. preserves R (f x)"
  shows "preserves R (bindC m f)"
proof (rule preservesI)
  fix s r t
  assume "bindC m f s = (r, t)"
  then show "R s t"
  proof (cases rule: bindC_cases)
    case (raised e)
    from preservesD [OF m raised(1)] show ?thesis .
  next
    case (normal x s')
    from transpD [OF assms(1) preservesD [OF m normal(1)] preservesD [OF f normal(2)]] show ?thesis .
  qed
qed

lemma preserves_mapC:
  assumes "reflp R" and "transp R" and "\<And>x. preserves R (m x)"
  shows "preserves R (mapC m xs)"
proof (induction xs)
  case Nil
  show ?case unfolding mapC.simps by (rule preserves_same [OF assms(1)]) simp
next
  case (Cons x xs)
  show ?case
    unfolding mapC.simps
    by (intro preserves_bind [OF assms(2)] assms(3) Cons preserves_same [OF assms(1)]) simp
qed

lemma preserves_transaction:
  assumes "reflp R" and "preserves R m"
  shows "preserves R (transaction m)"
proof (rule preservesI)
  fix s r t
  assume "transaction m s = (r, t)"
  then show "R s t"
  proof (cases rule: transaction_cases)
    case (rolled_back e u)
    with assms(1) show ?thesis by (simp add: reflpD)
  next
    case (committed x)
    from preservesD [OF assms(2) committed(1)] show ?thesis .
  qed
qed

text \<open>A relation on the store, as a relation on the world of a pass.\<close>

definition on_store :: "('s \<Rightarrow> 's \<Rightarrow> bool) \<Rightarrow> 's \<times> 'g \<Rightarrow> 's \<times> 'g \<Rightarrow> bool" where
  "on_store R p q = R (fst p) (fst q)"

lemma preserves_on_snd: "reflp R \<Longrightarrow> preserves (on_store R) (on_snd m)"
  by (simp add: preserves_def on_store_def on_snd_def reflpD split: prod.split)

lemma preserves_on_fst: "preserves R m \<Longrightarrow> preserves (on_store R) (on_fst m)"
  by (simp add: preserves_def on_store_def on_fst_def split: prod.split) (metis snd_conv)

locale repo_preserved =
  fixes R :: "'s \<Rightarrow> 's \<Rightarrow> bool"
    and ops :: "'s repo_ops"
  assumes refl: "reflp R"
    and trans: "transp R"
    and evidence_kept: "preserves R (evidence_for_category ops r c)"
    and assets_kept: "preserves R (assets_for_run ops r)"
    and categories_kept: "preserves R (categories_present ops r)"
    and write_kept: "preserves R (write_observations ops ows)"
    and observations_kept: "preserves R (observations_for_run ops r)"
    and sections_kept: "preserves R (write_report_sections ops rss)"
    and status_kept: "preserves R (set_run_status ops r st)"
    and audit_kept: "preserves R (audit ops r a md)"
begin

lemmas methods_kept = evidence_kept assets_kept categories_kept write_kept observations_kept sections_kept
  status_kept audit_kept

lemma store_refl: "reflp (on_store R)"
  using refl by (simp add: reflp_def on_store_def)

lemma store_trans: "transp (on_store R)"
  using trans by (auto simp: transp_def on_store_def)

lemma return_kept: "preserves (on_store R) (returnC x)"
  by (rule preserves_same [OF store_refl]) simp

lemma lift_kept: "preserves (on_store R) (liftC x)"
  by (rule preserves_same [OF store_refl]) simp

lemmas kept = preserves_bind [OF store_trans] preserves_mapC [OF store_refl store_trans] return_kept lift_kept
  preserves_on_fst preserves_on_snd [OF refl] methods_kept preserves_let preserves_if preserves_pair

lemma agent_step_kept: "preserves (on_store R) (agent_step ops ra assets report grp)"
  unfolding agent_step_def by (intro kept)

lemma agent_loop_kept: "preserves (on_store R) (agent_loop ops ra assets report grps)"
proof (induction grps arbitrary: report)
  case Nil
  show ?case unfolding agent_loop.simps by (rule return_kept)
next
  case (Cons grp grps)
  show ?case unfolding agent_loop.simps by (intro kept agent_step_kept Cons)
qed

lemma discover_run_kept: "preserves (on_store R) (discover_run ops ra)"
  unfolding discover_run_def by (intro kept agent_loop_kept)

lemma assemble_run_report_kept: "preserves (on_store R) (assemble_run_report ops ra)"
  unfolding assemble_run_report_def by (intro kept)

end

section \<open>PgRepo appends only\<close>

text \<open>Evidence and assets stay as they are, no run is added, removed or moved, and observations,
  sections and audit entries are only added.\<close>

definition append_only :: "db \<Rightarrow> db \<Rightarrow> bool" where
  "append_only d d' \<longleftrightarrow>
     db_evidence d' = db_evidence d \<and> db_assets d' = db_assets d \<and>
     map (\<lambda>r. (run_id r, run_tenant r, run_scope r)) (db_runs d') = map (\<lambda>r. (run_id r, run_tenant r, run_scope r)) (db_runs d) \<and>
     prefix (db_observations d) (db_observations d') \<and> prefix (db_sections d) (db_sections d') \<and>
     prefix (db_audit d) (db_audit d') \<and> db_notified d' = db_notified d \<and>
     (distinct (map ob_id (db_observations d)) \<longrightarrow> distinct (map ob_id (db_observations d')))"

lemma append_only_refl: "reflp append_only"
  by (simp add: reflp_def append_only_def)

lemma append_only_trans: "transp append_only"
  by (auto simp: transp_def append_only_def intro: prefix_order.trans)

lemma update_status_runs:
  "map (\<lambda>r. (run_id r, run_tenant r, run_scope r)) (update_run_status rid st rs) = map (\<lambda>r. (run_id r, run_tenant r, run_scope r)) rs"
  by (simp add: update_run_status_def)

lemma insert_observation_append: "preserves append_only (insert_observation tenant ow)"
  by (auto simp: preserves_def insert_observation_def append_only_def Let_def observation_write.defs)

lemma insert_section_append: "preserves append_only (insert_section tenant rs)"
  by (auto simp: preserves_def insert_section_def append_only_def Let_def)

lemma insert_audit_append: "preserves append_only (insert_audit a)"
  by (auto simp: preserves_def insert_audit_def append_only_def)

lemma return_append: "preserves append_only (returnC x)"
  by (rule preserves_same [OF append_only_refl]) simp

lemma status_append: "preserves append_only (pg_set_run_status r st)"
  by (auto simp: preserves_def pg_set_run_status_def append_only_def update_status_runs split: option.split)

lemmas append_intros = preserves_if return_append preserves_transaction [OF append_only_refl]
  preserves_bind [OF append_only_trans] preserves_mapC [OF append_only_refl append_only_trans]
  insert_observation_append insert_section_append insert_audit_append status_append

interpretation pg_append: repo_preserved append_only "pg_repo tenant" for tenant
proof unfold_locales
  fix ows
  show "preserves append_only (write_observations (pg_repo tenant) ows)"
    unfolding pg_repo_simps pg_write_observations_def by (intro append_intros)
next
  fix rss
  show "preserves append_only (write_report_sections (pg_repo tenant) rss)"
    unfolding pg_repo_simps pg_write_report_sections_def by (intro append_intros)
next
  fix r st
  show "preserves append_only (set_run_status (pg_repo tenant) r st)"
    unfolding pg_repo_simps by (rule status_append)
next
  fix r a md
  show "preserves append_only (audit (pg_repo tenant) r a md)"
    unfolding pg_repo_simps pg_audit_def by (intro append_intros)
qed (rule append_only_refl, rule append_only_trans, simp_all add: pg_evidence_for_category_def pg_assets_for_run_def
    pg_categories_present_def pg_observations_for_run_def preserves_same [OF append_only_refl])

text \<open>
  C20. Both passes only append: whatever the model answers and wherever a pass stops, evidence and
  assets stay as they are, no run is added or removed, and observations, sections and audit
  entries are only added at the end, with fresh identifiers.
\<close>

theorem passes_append_only:
  "append_only (fst w) (fst (snd (discover_run (pg_repo tenant) ra w))) \<and>
   append_only (fst w) (fst (snd (assemble_run_report (pg_repo tenant) ra w)))"
  using pg_append.discover_run_kept [of tenant ra] pg_append.assemble_run_report_kept [of tenant ra]
  by (cases w) (simp add: preserves_def on_store_def)

end
