(* ===== verification/Storage.thy ===== *)
theory Storage
  imports Bundle
begin

text \<open>
  \<open>auditcore_ingestion/storage.py\<close> and \<open>config.py\<close>: the object store client. Minio is not under src:
  it is the record \<open>minio\<close> of its calls, commands on a world \<open>'o\<close>. The module's \<open>_client\<close> is a flag:
  whether the client exists.
\<close>

record ingestion_settings =
  is_bucket :: string
  is_tenant :: uuid
  is_max_bundle_bytes :: nat

record 'o minio =
  bucket_exists :: "string \<Rightarrow> ('o, bool) cmd"
  make_bucket :: "string \<Rightarrow> ('o, unit) cmd"
  put_object :: "string \<Rightarrow> string \<Rightarrow> bytes \<Rightarrow> string \<Rightarrow> ('o, unit) cmd"
  get_object :: "string \<Rightarrow> string \<Rightarrow> ('o, bytes res) cmd"
  release_conn :: "('o, unit) cmd"

type_synonym 'o store_world = "bool \<times> 'o"

definition ensure_bucket :: "'o minio \<Rightarrow> string \<Rightarrow> ('o, unit) cmd" where
  "ensure_bucket mi bucket =
     bindC (bucket_exists mi bucket) (\<lambda>there. if there then returnC () else make_bucket mi bucket)"

text \<open>\<open>client()\<close>: created once; an \<open>S3Error\<close> of the bucket check is ignored.\<close>

definition client :: "'o minio \<Rightarrow> ingestion_settings \<Rightarrow> ('o store_world, unit) cmd" where
  "client mi cfg w =
     (if fst w then (Inr (), w)
      else (case ensure_bucket mi (is_bucket cfg) (snd w) of
          (Inl (S3Error m), w') \<Rightarrow> (Inr (), (True, w'))
        | (Inl e, w') \<Rightarrow> (Inl e, (True, w'))
        | (Inr u, w') \<Rightarrow> (Inr (), (True, w'))))"

definition put_bytes ::
  "'o minio \<Rightarrow> ingestion_settings \<Rightarrow> string \<Rightarrow> bytes \<Rightarrow> string \<Rightarrow> ('o store_world, string) cmd" where
  "put_bytes mi cfg key data content_type =
     bindC (client mi cfg) (\<lambda>_.
     bindC (on_snd (put_object mi (is_bucket cfg) key data content_type)) (\<lambda>_.
     returnC (''s3://'' @ is_bucket cfg @ ''/'' @ key)))"

text \<open>\<open>get_bytes\<close>: the connection is released also when reading raises; an exception of the release wins.\<close>

definition get_bytes :: "'o minio \<Rightarrow> ingestion_settings \<Rightarrow> string \<Rightarrow> ('o store_world, bytes) cmd" where
  "get_bytes mi cfg key =
     bindC (client mi cfg) (\<lambda>_.
     bindC (on_snd (get_object mi (is_bucket cfg) key)) (\<lambda>body.
     bindC (on_snd (release_conn mi)) (\<lambda>_. liftC body)))"

lemma put_bytes_ref: "put_bytes mi cfg key data ct w = (Inr uri, w') \<Longrightarrow> uri = ''s3://'' @ is_bucket cfg @ ''/'' @ key"
  by (auto simp: put_bytes_def elim!: bindC_cases)

end
