(* ===== verification/Ingestion.thy ===== *)
theory Ingestion
  imports Storage Repo
begin

text \<open>
  \<open>auditcore_ingestion/main.py\<close> and \<open>db.py\<close>: the endpoints of the ingestion API. The world is the object
  store beside the database; a request runs in one pooled connection, whose block commits or rolls
  back the database and leaves the object store as it is.

  \<open>adapt\<close> is what psycopg and a TEXT column make of a dynamic value (a string is itself; others are
  converted or rejected); \<open>stamp\<close> is the upload time in the tarball's key.
\<close>

type_synonym 'o ingestion_world = "'o store_world \<times> db"

definition with_conn :: "('o ingestion_world, 'a) cmd \<Rightarrow> ('o ingestion_world, 'a) cmd" where
  "with_conn m w = (case m w of (Inl e, w') \<Rightarrow> (Inl e, (fst w', snd w))
     | (Inr x, w') \<Rightarrow> (Inr x, (fst w', notify_once (snd w) (snd w'))))"

definition audit_row :: "ingestion_settings \<Rightarrow> string \<Rightarrow> string \<Rightarrow> uuid \<Rightarrow> audit_metadata \<Rightarrow> audit_rec" where
  "audit_row cfg actor action rid metadata =
     \<lparr>au_tenant = is_tenant cfg, au_actor = actor, au_action = action, au_resource_type = ''run'',
      au_resource_id = uuid_str rid, au_metadata = metadata\<rparr>"

section \<open>create_run\<close>

record create_run_response =
  cr_run_id :: uuid
  cr_status :: string

definition insert_run :: "ingestion_settings \<Rightarrow> pyval \<Rightarrow> (db, uuid) cmd" where
  "insert_run cfg scope d =
     (let i = db_gen d (db_next d) in
      if has_run d i then (Inl (DbError ''duplicate key value''), d)
      else if \<not> has_tenant d (is_tenant cfg) then (Inl (DbError ''runs_tenant_id_fkey''), d)
      else (Inr i, d\<lparr>db_runs := db_runs d @
              [\<lparr>run_id = i, run_tenant = is_tenant cfg, run_scope = scope, run_state = COLLECTING,
                run_started_at = db_now d, run_completed_at = None, run_cost_cents = 0\<rparr>],
            db_next := Suc (db_next d)\<rparr>))"

definition create_run :: "ingestion_settings \<Rightarrow> pyval \<Rightarrow> ('o ingestion_world, create_run_response) cmd" where
  "create_run cfg scope =
     with_conn (on_snd (bindC (insert_run cfg scope) (\<lambda>i.
       bindC (insert_audit (audit_row cfg ''system'' ''run.create'' i [])) (\<lambda>_.
       returnC \<lparr>cr_run_id = i, cr_status = ''collecting''\<rparr>))))"

section \<open>ingest_bundle\<close>

record ingest_response =
  ir_run_id :: uuid
  ir_accepted_items :: nat
  ir_status :: string

definition item_key :: "uuid \<Rightarrow> uuid \<Rightarrow> string" where
  "item_key rid i = ''runs/'' @ uuid_str rid @ ''/items/'' @ uuid_str i @ ''.raw''"

definition bundle_key :: "uuid \<Rightarrow> string \<Rightarrow> string" where
  "bundle_key rid stamp = ''runs/'' @ uuid_str rid @ ''/bundles/'' @ stamp @ ''.tar.gz''"

definition run_of_tenant :: "db \<Rightarrow> uuid \<Rightarrow> uuid \<Rightarrow> bool" where
  "run_of_tenant d rid tenant \<longleftrightarrow> list_ex (\<lambda>r. run_id r = rid \<and> run_tenant r = tenant) (db_runs d)"

text \<open>The row of an item: no asset and nothing parsed yet, confidence 0 as a placeholder.\<close>

definition evidence_row_of ::
  "ingestion_settings \<Rightarrow> uuid \<Rightarrow> bundle_item \<Rightarrow> string \<Rightarrow> string \<Rightarrow> string \<Rightarrow> string \<Rightarrow> evidence_rec" where
  "evidence_row_of cfg rid item tool version category raw_ref =
     \<lparr>ei_id = bi_id item, ei_tenant = is_tenant cfg, ei_run_id = rid, ei_asset_id = None,
      ei_source_tool = tool, ei_source_tool_version = version, ei_collected_at = bi_collected_at item,
      ei_category = category, ei_raw_ref = raw_ref, ei_parsed = None, ei_confidence = 0\<rparr>"

definition ingest_item ::
  "'o minio \<Rightarrow> (pyval \<Rightarrow> string res) \<Rightarrow> ingestion_settings \<Rightarrow> uuid \<Rightarrow> bundle_item \<Rightarrow> ('o ingestion_world, nat) cmd" where
  "ingest_item mi adapt cfg rid item =
     bindC (on_fst (put_bytes mi cfg (item_key rid (bi_id item)) (bi_raw_bytes item) ''application/octet-stream'')) (\<lambda>raw_ref.
     bindC (liftC (adapt (bi_source_tool item))) (\<lambda>tool.
     bindC (liftC (adapt (bi_source_tool_version item))) (\<lambda>version.
     bindC (liftC (adapt (bi_category item))) (\<lambda>category.
     on_snd (insert_evidence (evidence_row_of cfg rid item tool version category raw_ref))))))"

definition ingest_items ::
  "'o minio \<Rightarrow> (pyval \<Rightarrow> string res) \<Rightarrow> ingestion_settings \<Rightarrow> uuid \<Rightarrow> bundle_item list \<Rightarrow> ('o ingestion_world, nat) cmd" where
  "ingest_items mi adapt cfg rid items =
     bindC (mapC (ingest_item mi adapt cfg rid) items) (\<lambda>counts. returnC (sum_list counts))"

definition set_normalizing :: "uuid \<Rightarrow> (db, unit) cmd" where
  "set_normalizing rid d = (Inr (), d\<lparr>db_runs := update_run_status rid NORMALIZING (db_runs d)\<rparr>)"

definition check_run :: "ingestion_settings \<Rightarrow> uuid \<Rightarrow> (db, unit) cmd" where
  "check_run cfg rid d =
     (if run_of_tenant d rid (is_tenant cfg) then (Inr (), d) else (Inl (HTTPException 404 ''run not found''), d))"

text \<open>The connection block of the endpoint.\<close>

definition ingest_block ::
  "'o minio \<Rightarrow> (pyval \<Rightarrow> string res) \<Rightarrow> ingestion_settings \<Rightarrow> uuid \<Rightarrow> string \<Rightarrow> evidence_bundle \<Rightarrow>
   ('o ingestion_world, nat) cmd" where
  "ingest_block mi adapt cfg rid key b =
     with_conn (
       bindC (on_snd (check_run cfg rid)) (\<lambda>_.
       bindC (ingest_items mi adapt cfg rid (bu_items b)) (\<lambda>inserted.
       bindC (on_snd (set_normalizing rid)) (\<lambda>_.
       bindC (on_snd (insert_audit (audit_row cfg ''collector'' ''bundle.ingest'' rid
                [(''items'', ACount (length (bu_items b))), (''bundle_key'', AText key)]))) (\<lambda>_.
       returnC inserted)))))"

text \<open>A bundle that does not parse: a \<open>BundleError\<close> is a 400, anything else stays what it is.\<close>

definition parse_or_400 :: "evidence_bundle res \<Rightarrow> evidence_bundle res" where
  "parse_or_400 r =
     (case r of
        Inl (BundleError m) \<Rightarrow> Inl (HTTPException 400 (''invalid bundle: '' @ m))
      | Inl e \<Rightarrow> Inl e
      | Inr b \<Rightarrow> Inr b)"

definition ingest_bundle ::
  "'o minio \<Rightarrow> (pyval \<Rightarrow> string res) \<Rightarrow> ingestion_settings \<Rightarrow> (bytes \<Rightarrow> evidence_bundle res) \<Rightarrow> string \<Rightarrow>
   uuid \<Rightarrow> bytes \<Rightarrow> ('o ingestion_world, ingest_response) cmd" where
  "ingest_bundle mi adapt cfg parse stamp rid data =
     (if length data > is_max_bundle_bytes cfg then raiseC (HTTPException 413 ''bundle too large'')
      else
        bindC (liftC (parse_or_400 (parse data))) (\<lambda>b.
        bindC (on_fst (put_bytes mi cfg (bundle_key rid stamp) data ''application/gzip'')) (\<lambda>_.
        bindC (ingest_block mi adapt cfg rid (bundle_key rid stamp) b) (\<lambda>inserted.
        returnC \<lparr>ir_run_id = rid, ir_accepted_items = inserted, ir_status = ''normalizing''\<rparr>))))"

section \<open>The read endpoints\<close>

definition count_rows :: "('a \<Rightarrow> bool) \<Rightarrow> 'a list \<Rightarrow> nat" where
  "count_rows p rows = length (filter p rows)"

definition run_json :: "rendering \<Rightarrow> db \<Rightarrow> run_rec \<Rightarrow> pyval" where
  "run_json rd d r =
     PyDict
       [(''id'', PyStr (uuid_str (run_id r))), (''status'', PyStr (run_status_value (run_state r))),
        (''scope'', run_scope r), (''started_at'', PyStr (rd_iso rd (run_started_at r))),
        (''completed_at'', opt_json (\<lambda>t. PyStr (rd_iso rd t)) (run_completed_at r)),
        (''cost_cents'', PyInt (run_cost_cents r)),
        (''evidence_count'', PyInt (int (count_rows (\<lambda>x. ei_run_id x = run_id r) (db_evidence d)))),
        (''normalized_count'', PyInt (int (count_rows (\<lambda>e. ei_run_id e = run_id r \<and> ei_parsed e \<noteq> None) (db_evidence d)))),
        (''observation_count'', PyInt (int (count_rows (\<lambda>x. ow_run_id x = run_id r) (db_observations d)))),
        (''section_count'', PyInt (int (count_rows (\<lambda>x. rs_run_id x = run_id r) (db_sections d))))]"

definition get_run :: "rendering \<Rightarrow> uuid \<Rightarrow> (db, pyval) cmd" where
  "get_run rd rid d =
     (case find (\<lambda>r. run_id r = rid) (db_runs d) of
        None \<Rightarrow> (Inl (HTTPException 404 ''run not found''), d)
      | Some r \<Rightarrow> (Inr (run_json rd d r), d))"

definition evidence_item_json :: "rendering \<Rightarrow> evidence_rec \<Rightarrow> pyval" where
  "evidence_item_json rd e = PyDict
     [(''id'', PyStr (uuid_str (ei_id e))), (''asset_id'', opt_json (\<lambda>u. PyStr (uuid_str u)) (ei_asset_id e)),
      (''source_tool'', PyStr (ei_source_tool e)), (''source_tool_version'', PyStr (ei_source_tool_version e)),
      (''category'', PyStr (ei_category e)), (''raw_ref'', PyStr (ei_raw_ref e)),
      (''parsed'', opt_json (\<lambda>v. v) (ei_parsed e)),
      (''confidence'', PyFloat (Some (ei_confidence e)) (rd_float rd (ei_confidence e))),
      (''collected_at'', PyStr (rd_iso rd (ei_collected_at e)))]"

definition listing :: "uuid \<Rightarrow> string \<Rightarrow> pyval list \<Rightarrow> pyval" where
  "listing rid key xs = PyDict [(''run_id'', PyStr (uuid_str rid)), (key, PyList xs)]"

definition list_evidence :: "rendering \<Rightarrow> uuid \<Rightarrow> (db, pyval) cmd" where
  "list_evidence rd rid d =
     (Inr (listing rid ''items'' (map (evidence_item_json rd)
        (sort_key ei_collected_at (filter (\<lambda>e. ei_run_id e = rid) (db_evidence d))))), d)"

definition asset_item_json :: "rendering \<Rightarrow> asset_rec \<Rightarrow> pyval" where
  "asset_item_json rd a = PyDict
     [(''id'', PyStr (uuid_str (asset_id a))), (''type'', PyStr (asset_type_value (asset_kind a))),
      (''natural_key'', PyStr (asset_natural_key a)), (''name'', PyStr (asset_name a)),
      (''attributes'', asset_attributes a), (''first_seen'', PyStr (rd_iso rd (asset_first_seen a))),
      (''last_seen'', PyStr (rd_iso rd (asset_last_seen a)))]"

definition list_assets :: "rendering \<Rightarrow> uuid \<Rightarrow> (db, pyval) cmd" where
  "list_assets rd rid d =
     (Inr (listing rid ''assets'' (map (asset_item_json rd) (filter (\<lambda>a. asset_run_id a = rid) (db_assets d)))), d)"

definition observation_item_json :: "rendering \<Rightarrow> observation_rec \<Rightarrow> pyval" where
  "observation_item_json rd ob = PyDict
     [(''id'', PyStr (uuid_str (ob_id ob))), (''asset_id'', PyStr (uuid_str (ow_asset_id ob))),
      (''domain'', PyStr (ow_domain ob)), (''topic'', PyStr (ow_topic ob)), (''summary'', PyStr (ow_summary ob)),
      (''detail'', PyStr (ow_detail ob)), (''facts'', ow_facts ob),
      (''related_asset_ids'', uuids_json (ow_related_asset_ids ob)), (''evidence_ids'', uuids_json (ow_evidence_ids ob)),
      (''produced_by_agent'', PyStr (ow_produced_by_agent ob)), (''created_at'', PyStr (rd_iso rd (ob_created_at ob)))]"

definition list_observations :: "rendering \<Rightarrow> uuid \<Rightarrow> (db, pyval) cmd" where
  "list_observations rd rid d =
     (Inr (listing rid ''observations'' (map (observation_item_json rd)
        (sort_key (\<lambda>ob. domain_rank (ow_domain ob)) (sort_key (\<lambda>ob. db_collate d (ow_topic ob))
           (filter (\<lambda>ob. ow_run_id ob = rid) (db_observations d)))))), d)"

definition section_item_json :: "rendering \<Rightarrow> section_rec \<Rightarrow> pyval" where
  "section_item_json rd s = PyDict
     [(''id'', PyStr (uuid_str (sec_id s))), (''audience'', PyStr (rs_audience s)), (''order'', PyInt (rs_order s)),
      (''title'', PyStr (rs_title s)), (''body_md'', PyStr (rs_body_md s)),
      (''embedded_observations'', uuids_json (rs_embedded_observations s)),
      (''produced_by_agent'', PyStr (rs_produced_by_agent s)), (''created_at'', PyStr (rd_iso rd (sec_created_at s)))]"

definition list_report_sections :: "rendering \<Rightarrow> uuid \<Rightarrow> (db, pyval) cmd" where
  "list_report_sections rd rid d =
     (Inr (listing rid ''sections'' (map (section_item_json rd)
        (sort_key (\<lambda>s. db_collate d (rs_audience s)) (sort_key rs_order
           (filter (\<lambda>s. rs_run_id s = rid) (db_sections d)))))), d)"

section \<open>What an upload adds\<close>

text \<open>
  A row received for an item: under the item's identifier, for this run and tenant, with the columns
  its values adapt to, unparsed.
\<close>

definition received ::
  "(pyval \<Rightarrow> string res) \<Rightarrow> ingestion_settings \<Rightarrow> uuid \<Rightarrow> bundle_item \<Rightarrow> evidence_rec \<Rightarrow> bool" where
  "received adapt cfg rid item e \<longleftrightarrow>
     adapt (bi_source_tool item) = Inr (ei_source_tool e) \<and>
     adapt (bi_source_tool_version item) = Inr (ei_source_tool_version e) \<and>
     adapt (bi_category item) = Inr (ei_category e) \<and>
     ei_id e = bi_id item \<and> ei_tenant e = is_tenant cfg \<and> ei_run_id e = rid \<and> ei_asset_id e = None \<and>
     ei_collected_at e = bi_collected_at item \<and> ei_parsed e = None \<and> ei_confidence e = 0 \<and>
     ei_raw_ref e = ''s3://'' @ is_bucket cfg @ ''/'' @ item_key rid (bi_id item)"

definition adds_evidence :: "evidence_rec list \<Rightarrow> db \<Rightarrow> db" where
  "adds_evidence rows d = d\<lparr>db_evidence := db_evidence d @ rows, db_notified := db_notified d @ map ei_run_id rows\<rparr>"

lemma adds_evidence_simps [simp]:
  "adds_evidence [] d = d" "adds_evidence ys (adds_evidence xs d) = adds_evidence (xs @ ys) d"
  "db_evidence (adds_evidence xs d) = db_evidence d @ xs" "db_runs (adds_evidence xs d) = db_runs d"
  "db_notified (adds_evidence xs d) = db_notified d @ map ei_run_id xs" "db_audit (adds_evidence xs d) = db_audit d"
  "db_observations (adds_evidence xs d) = db_observations d" "db_sections (adds_evidence xs d) = db_sections d"
  "db_assets (adds_evidence xs d) = db_assets d"
  by (simp_all add: adds_evidence_def)

lemma ingest_item_adds:
  assumes "ingest_item mi adapt cfg rid item w = (Inr n, w')"
  obtains (new) e where "n = 1" and "received adapt cfg rid item e" and "snd w' = adds_evidence [e] (snd w)"
      and "bi_id item \<notin> ei_id ` set (db_evidence (snd w))"
    | (known) "n = 0" and "snd w' = snd w" and "bi_id item \<in> ei_id ` set (db_evidence (snd w))"
proof -
  from assms obtain ref w1 tool version category where
    p: "put_bytes mi cfg (item_key rid (bi_id item)) (bi_raw_bytes item) ''application/octet-stream'' (fst w) = (Inr ref, fst w1)"
    and w1: "snd w1 = snd w"
    and i: "insert_evidence (evidence_row_of cfg rid item tool version category ref) (snd w1) = (Inr n, snd w')"
    and cols: "adapt (bi_source_tool item) = Inr tool" "adapt (bi_source_tool_version item) = Inr version"
      "adapt (bi_category item) = Inr category"
    by (auto simp: ingest_item_def on_fst_eq on_snd_eq elim!: bindC_cases)
  let ?e = "evidence_row_of cfg rid item tool version category ref"
  have r: "received adapt cfg rid item ?e"
    using put_bytes_ref [OF p] cols by (simp add: received_def evidence_row_of_def)
  show thesis
  proof (cases "bi_id item \<in> ei_id ` set (db_evidence (snd w))")
    case True
    with i w1 show thesis
      by (intro known) (auto simp: insert_evidence_def evidence_row_of_def split: if_splits)
  next
    case False
    with i w1 have "n = 1" and "snd w' = adds_evidence [?e] (snd w)"
      by (auto simp: insert_evidence_def evidence_row_of_def adds_evidence_def split: if_splits)
    then show thesis using r False by (intro new)
  qed
qed

definition new_rows ::
  "(pyval \<Rightarrow> string res) \<Rightarrow> ingestion_settings \<Rightarrow> uuid \<Rightarrow> db \<Rightarrow> bundle_item list \<Rightarrow> evidence_rec list \<Rightarrow> bool" where
  "new_rows adapt cfg rid d items rows \<longleftrightarrow>
     distinct (map ei_id rows) \<and> ei_id ` set rows = bi_id ` set items - ei_id ` set (db_evidence d) \<and>
     (\<forall>e \<in> set rows. \<exists>item \<in> set items. received adapt cfg rid item e)"

lemma mapC_ingest_adds:
  "mapC (ingest_item mi adapt cfg rid) items w = (Inr counts, w') \<Longrightarrow>
     \<exists>rows. new_rows adapt cfg rid (snd w) items rows \<and> sum_list counts = length rows \<and> snd w' = adds_evidence rows (snd w)"
proof (induction items arbitrary: w counts)
  case Nil
  then show ?case by (intro exI [of _ "[]"]) (simp add: new_rows_def)
next
  case (Cons item items)
  from Cons.prems obtain n w1 ns where a: "ingest_item mi adapt cfg rid item w = (Inr n, w1)"
    and b: "mapC (ingest_item mi adapt cfg rid) items w1 = (Inr ns, w')" and counts: "counts = n # ns"
    by (auto elim!: bindC_cases)
  from Cons.IH [OF b] obtain rows where rows: "new_rows adapt cfg rid (snd w1) items rows"
    "sum_list ns = length rows" "snd w' = adds_evidence rows (snd w1)" by blast
  from a show ?case
  proof (cases rule: ingest_item_adds)
    case (new e)
    with rows counts show ?thesis
      by (intro exI [of _ "e # rows"]) (auto simp: new_rows_def received_def)
  next
    case known
    with rows counts show ?thesis
      by (intro exI [of _ rows]) (auto simp: new_rows_def)
  qed
qed

lemma with_conn_cases:
  assumes "with_conn m w = (r, w')"
  obtains (rolled_back) e where "r = Inl e" and "snd w' = snd w"
    | (committed) x w1 where "r = Inr x" and "m w = (Inr x, w1)" and "w' = (fst w1, notify_once (snd w) (snd w1))"
  using assms by (auto simp: with_conn_def split: prod.splits sum.splits)

lemma ingest_block_adds:
  assumes "ingest_block mi adapt cfg rid key b w = (Inr n, w')"
  shows "run_of_tenant (snd w) rid (is_tenant cfg) \<and>
    (\<exists>rows. new_rows adapt cfg rid (snd w) (bu_items b) rows \<and> n = length rows \<and>
      db_evidence (snd w') = db_evidence (snd w) @ rows \<and>
      db_notified (snd w') = db_notified (snd w) @ (if rows = [] then [] else [rid]) \<and>
      db_runs (snd w') = update_run_status rid NORMALIZING (db_runs (snd w)) \<and>
      db_audit (snd w') = db_audit (snd w) @ [audit_row cfg ''collector'' ''bundle.ingest'' rid
         [(''items'', ACount (length (bu_items b))), (''bundle_key'', AText key)]] \<and>
      db_assets (snd w') = db_assets (snd w) \<and> db_observations (snd w') = db_observations (snd w) \<and>
      db_sections (snd w') = db_sections (snd w))"
  using assms unfolding ingest_block_def
proof (cases rule: with_conn_cases)
  case (committed x w1)
  then have run: "run_of_tenant (snd w) rid (is_tenant cfg)"
    by (auto simp: check_run_def on_snd_def bindC_def split: if_splits)
  then have "on_snd (check_run cfg rid) w = (Inr (), w)" by (simp add: on_snd_def check_run_def)
  from committed(2) obtain w2 counts where
    i: "mapC (ingest_item mi adapt cfg rid) (bu_items b) w = (Inr counts, w2)" and n: "n = sum_list counts"
    and w1: "snd w1 = (snd w2)\<lparr>db_runs := update_run_status rid NORMALIZING (db_runs (snd w2)),
       db_audit := db_audit (snd w2) @ [audit_row cfg ''collector'' ''bundle.ingest'' rid
         [(''items'', ACount (length (bu_items b))), (''bundle_key'', AText key)]]\<rparr>"
    unfolding bindC_Inr [of "on_snd (check_run cfg rid)", OF \<open>on_snd (check_run cfg rid) w = (Inr (), w)\<close>]
    using committed(1)
    by (auto simp: ingest_items_def on_snd_eq set_normalizing_def insert_audit_def elim!: bindC_cases)
  from mapC_ingest_adds [OF i] n obtain rows where rows: "new_rows adapt cfg rid (snd w) (bu_items b) rows"
    and "n = length rows" and w2: "snd w2 = adds_evidence rows (snd w)" by auto
  from rows have "map ei_run_id rows = replicate (length rows) rid"
    by (intro replicate_eqI) (auto simp: new_rows_def received_def)
  then have "db_notified (snd w') = db_notified (snd w) @ (if rows = [] then [] else [rid])"
    by (simp add: committed(3) w1 w2 notify_once_def first_of_each_replicate)
  with rows \<open>n = length rows\<close> w1 w2 committed(3) run show ?thesis by auto
qed simp

lemma ingest_bundle_returned:
  assumes "ingest_bundle mi adapt cfg parse stamp rid data w = (Inr r, w')"
  obtains b w1 where "length data \<le> is_max_bundle_bytes cfg" and "parse data = Inr b"
    and "ir_run_id r = rid" and "ir_status r = ''normalizing''" and "snd w1 = snd w"
    and "ingest_block mi adapt cfg rid (bundle_key rid stamp) b w1 = (Inr (ir_accepted_items r), w')"
  using assms
  by (auto simp: ingest_bundle_def on_fst_eq parse_or_400_def elim!: bindC_cases split: if_splits sum.splits exn.splits)

lemma ingest_bundle_raised:
  assumes "ingest_bundle mi adapt cfg parse stamp rid data w = (Inl e, w')"
  shows "snd w' = snd w"
  using assms
  by (auto simp: ingest_bundle_def on_fst_eq ingest_block_def elim!: bindC_cases with_conn_cases split: if_splits)

section \<open>Properties\<close>

text \<open>An archive with a manifest and one item, a database with one run, and a store that accepts.\<close>

definition sample_manifest :: pyval where
  "sample_manifest = PyDict
     [(''schema_version'', PyStr ''1''), (''collector_version'', PyStr ''0.1.0''), (''collected_at'', PyStr ''now''),
      (''scope'', PyDict []),
      (''items'', PyList [PyDict [(''id'', PyStr (uuid_str 3)), (''source_tool'', PyStr ''lscpu''),
         (''source_tool_version'', PyStr ''2.39''), (''category'', PyStr ''hardware''), (''collected_at'', PyStr ''now''),
         (''file'', PyStr ''items/a.raw'')]])]"

definition sample_archive :: archive where
  "sample_archive = [\<lparr>tm_name = ''manifest.json'', tm_content = Regular (Inr [])\<rparr>,
     \<lparr>tm_name = ''items/a.raw'', tm_content = Regular (Inr [65, 66])\<rparr>]"

definition sample_item :: bundle_item where
  "sample_item = \<lparr>bi_id = 3, bi_source_tool = PyStr ''lscpu'', bi_source_tool_version = PyStr ''2.39'',
     bi_category = PyStr ''hardware'', bi_collected_at = 7, bi_file_path = ''items/a.raw'', bi_raw_bytes = [65, 66]\<rparr>"

definition sample_parse :: "bytes \<Rightarrow> evidence_bundle res" where
  "sample_parse = parse_bundle (\<lambda>data. Decoded sample_archive) (\<lambda>bs. Decoded sample_manifest) (\<lambda>s. Inr 7)"

lemma sample_bundle:
  "sample_parse data = Inr \<lparr>bu_schema_version = ''1'', bu_collector_version = ''0.1.0'', bu_collected_at = 7,
     bu_scope = PyDict [], bu_items = [sample_item]\<rparr>"
  by (simp add: sample_parse_def parse_bundle_def sample_archive_def getmember_def lookup_member_def rstrip_def parse_manifest_def
      sample_manifest_def as_dict_def missing_keys_def required_top_def parse_item_def required_item_def file_name_def
      unsafe_name_def parse_date_def sample_item_def)

definition sample_cfg :: ingestion_settings where
  "sample_cfg = \<lparr>is_bucket = ''raw'', is_tenant = 5, is_max_bundle_bytes = 100\<rparr>"

definition sample_minio :: "unit minio" where
  "sample_minio = \<lparr>bucket_exists = (\<lambda>b. returnC True), make_bucket = (\<lambda>b. returnC ()),
     put_object = (\<lambda>b k d t. returnC ()), get_object = (\<lambda>b k. returnC (Inr [])), release_conn = returnC ()\<rparr>"

definition sample_adapt :: "pyval \<Rightarrow> string res" where
  "sample_adapt v = (case v of PyStr s \<Rightarrow> Inr s | _ \<Rightarrow> Inl (DbError ''cannot adapt''))"

definition empty_run_db :: db where
  "empty_run_db =
     \<lparr>db_tenants = [5], db_runs = [\<lparr>run_id = 9, run_tenant = 5, run_scope = PyDict [], run_state = COLLECTING, run_started_at = 0,
        run_completed_at = None, run_cost_cents = 0\<rparr>],
      db_assets = [], db_evidence = [], db_observations = [], db_sections = [], db_audit = [], db_notified = [],
      db_gen = (\<lambda>n. of_nat n), db_next = 100, db_now = 0, db_collate = (\<lambda>s. s)\<rparr>"

definition sample_ingest :: "(unit ingestion_world, ingest_response) cmd" where
  "sample_ingest = ingest_bundle sample_minio sample_adapt sample_cfg sample_parse ''20260101T000000Z'' 9 []"

lemma sample_ingest_returns:
  obtains w' where "sample_ingest ((False, ()), empty_run_db) =
      (Inr \<lparr>ir_run_id = 9, ir_accepted_items = 1, ir_status = ''normalizing''\<rparr>, w')"
    and "map ei_id (db_evidence (snd w')) = [3]" and "fst w' = (True, ())" and "run_of_tenant (snd w') 9 5"
  by (rule that, simp add: sample_ingest_def ingest_bundle_def sample_bundle parse_or_400_def bindC_def on_fst_def on_snd_def
      put_bytes_def client_def ensure_bucket_def sample_minio_def sample_cfg_def ingest_block_def with_conn_def
      check_run_def run_of_tenant_def ingest_items_def ingest_item_def sample_item_def sample_adapt_def
      insert_evidence_def evidence_row_of_def confidence_check_def has_run_def has_tenant_def set_normalizing_def insert_audit_def
      empty_run_db_def)
    (simp_all add: update_run_status_def run_of_tenant_def)

lemma sample_ingest_again:
  assumes "3 \<in> ei_id ` set (db_evidence d)" and "run_of_tenant d 9 5"
  shows "\<exists>w'. sample_ingest ((True, ()), d) =
      (Inr \<lparr>ir_run_id = 9, ir_accepted_items = 0, ir_status = ''normalizing''\<rparr>, w')"
  using assms
  by (simp add: sample_ingest_def ingest_bundle_def sample_bundle parse_or_400_def bindC_def on_fst_def on_snd_def
      put_bytes_def client_def sample_minio_def sample_cfg_def ingest_block_def with_conn_def
      check_run_def ingest_items_def ingest_item_def sample_item_def sample_adapt_def
      insert_evidence_def evidence_row_of_def confidence_check_def set_normalizing_def insert_audit_def)
    (rule exI, rule TrueI)




text \<open>
  C6. An upload that returns has stored exactly the items that were new: one unparsed row per
  identifier not yet known, of this run and tenant; the normalizer is notified of the run once if
  there are any and not otherwise; the count returned is the number of these rows, rows that were there
  are untouched, the run is at \<open>normalizing\<close> and one audit entry records the upload.
\<close>

theorem ingest_bundle_exact:
  assumes "ingest_bundle mi adapt cfg parse stamp rid data w = (Inr r, w')"
  shows "\<exists>b rows. parse data = Inr b \<and> ir_accepted_items r = length rows \<and>
    db_evidence (snd w') = db_evidence (snd w) @ rows \<and>
    distinct (map ei_id rows) \<and> ei_id ` set rows = bi_id ` set (bu_items b) - ei_id ` set (db_evidence (snd w)) \<and>
    (\<forall>e \<in> set rows. \<exists>item \<in> set (bu_items b). received adapt cfg rid item e) \<and>
    db_notified (snd w') = db_notified (snd w) @ (if rows = [] then [] else [rid]) \<and>
    run_of_tenant (snd w) rid (is_tenant cfg) \<and> status_in (db_runs (snd w')) rid = Some NORMALIZING \<and>
    db_audit (snd w') = db_audit (snd w) @ [audit_row cfg ''collector'' ''bundle.ingest'' rid
      [(''items'', ACount (length (bu_items b))), (''bundle_key'', AText (bundle_key rid stamp))]]"
proof -
  from assms obtain b w1 where p: "parse data = Inr b" and w1: "snd w1 = snd w"
    and blk: "ingest_block mi adapt cfg rid (bundle_key rid stamp) b w1 = (Inr (ir_accepted_items r), w')"
    by (rule ingest_bundle_returned)
  from ingest_block_adds [OF blk] w1 obtain rows where run: "run_of_tenant (snd w) rid (is_tenant cfg)"
    and rows: "new_rows adapt cfg rid (snd w) (bu_items b) rows" "ir_accepted_items r = length rows"
      "db_evidence (snd w') = db_evidence (snd w) @ rows"
    and rest: "db_notified (snd w') = db_notified (snd w) @ (if rows = [] then [] else [rid])"
      "db_runs (snd w') = update_run_status rid NORMALIZING (db_runs (snd w))"
      "db_audit (snd w') = db_audit (snd w) @ [audit_row cfg ''collector'' ''bundle.ingest'' rid
      [(''items'', ACount (length (bu_items b))), (''bundle_key'', AText (bundle_key rid stamp))]]"
    by auto
  from run have "status_in (db_runs (snd w)) rid \<noteq> None"
    by (auto simp: run_of_tenant_def list_ex_iff status_in_def find_None_iff)
  then show ?thesis
    using p rows rest run by (auto simp: new_rows_def status_in_update)
qed

theorem ingest_bundle_exact_witness:
  "\<exists>w'. sample_ingest ((False, ()), empty_run_db) =
      (Inr \<lparr>ir_run_id = 9, ir_accepted_items = 1, ir_status = ''normalizing''\<rparr>, w') \<and>
    status_in (db_runs (snd w')) 9 = Some NORMALIZING \<and> db_notified (snd w') = [9]"
proof -
  obtain w' where r: "sample_ingest ((False, ()), empty_run_db) =
      (Inr \<lparr>ir_run_id = 9, ir_accepted_items = 1, ir_status = ''normalizing''\<rparr>, w')"
    by (rule sample_ingest_returns)
  from ingest_bundle_exact [OF r [unfolded sample_ingest_def]] obtain rows :: "evidence_rec list"
    where "ir_accepted_items \<lparr>ir_run_id = 9, ir_accepted_items = 1, ir_status = ''normalizing''\<rparr> = length rows"
    and "status_in (db_runs (snd w')) 9 = Some NORMALIZING"
    and "db_notified (snd w') = db_notified (snd ((False, ()), empty_run_db)) @ (if rows = [] then [] else [9])"
    by (elim exE conjE) (rule that)
  moreover from this have "rows \<noteq> []" by auto
  moreover have "db_notified empty_run_db = []" by (simp add: empty_run_db_def)
  ultimately have "db_notified (snd w') = [9]" by (simp only: snd_conv append_Nil) simp
  with r \<open>status_in (db_runs (snd w')) 9 = Some NORMALIZING\<close> show ?thesis
    by (intro exI [of _ w']) simp
qed

text \<open>
  C28. Uploads are idempotent on the evidence: uploading a bundle whose items are all known, as any
  bundle is after its first upload, accepts nothing and leaves the evidence rows and the
  notifications as they are.
\<close>

theorem ingest_bundle_idempotent:
  assumes "ingest_bundle mi adapt cfg parse stamp rid data w = (Inr r, w')"
    and "ingest_bundle mi' adapt' cfg' parse stamp' rid' data w' = (Inr r', w'')"
  shows "ir_accepted_items r' = 0 \<and> db_evidence (snd w'') = db_evidence (snd w') \<and>
    db_notified (snd w'') = db_notified (snd w')"
proof -
  from assms(1) obtain b w1 where p: "parse data = Inr b" and w1: "snd w1 = snd w"
    and b1: "ingest_block mi adapt cfg rid (bundle_key rid stamp) b w1 = (Inr (ir_accepted_items r), w')"
    by (rule ingest_bundle_returned)
  from assms(2) p obtain w2 where w2: "snd w2 = snd w'"
    and b2: "ingest_block mi' adapt' cfg' rid' (bundle_key rid' stamp') b w2 = (Inr (ir_accepted_items r'), w'')"
    by (auto elim: ingest_bundle_returned)
  from ingest_block_adds [OF b1] obtain rows where
    "ei_id ` set rows = bi_id ` set (bu_items b) - ei_id ` set (db_evidence (snd w1))"
    and "db_evidence (snd w') = db_evidence (snd w1) @ rows"
    by (auto simp: new_rows_def)
  then have "bi_id ` set (bu_items b) \<subseteq> ei_id ` set (db_evidence (snd w'))" by (simp add: image_Un)
  then have none: "bi_id ` set (bu_items b) - ei_id ` set (db_evidence (snd w2)) = {}" using w2 by simp
  from ingest_block_adds [OF b2] obtain rows' where new: "new_rows adapt' cfg' rid' (snd w2) (bu_items b) rows'"
    and out: "ir_accepted_items r' = length rows'" "db_evidence (snd w'') = db_evidence (snd w2) @ rows'"
      "db_notified (snd w'') = db_notified (snd w2) @ (if rows' = [] then [] else [rid'])"
    by (elim exE conjE) (rule that)
  from new none have "rows' = []" by (simp add: new_rows_def)
  with out w2 show ?thesis by simp
qed

theorem ingest_bundle_idempotent_witness:
  "\<exists>r w' w''. sample_ingest ((False, ()), empty_run_db) = (Inr r, w') \<and> ir_accepted_items r = 1 \<and>
     sample_ingest w' = (Inr (r\<lparr>ir_accepted_items := 0\<rparr>), w'') \<and> db_evidence (snd w'') = db_evidence (snd w')"
proof -
  obtain w' where r: "sample_ingest ((False, ()), empty_run_db) =
      (Inr \<lparr>ir_run_id = 9, ir_accepted_items = 1, ir_status = ''normalizing''\<rparr>, w')"
    and i: "map ei_id (db_evidence (snd w')) = [3]" and c: "fst w' = (True, ())" and o: "run_of_tenant (snd w') 9 5"
    by (rule sample_ingest_returns)
  from i have "3 \<in> set (map ei_id (db_evidence (snd w')))" by simp
  then have "3 \<in> ei_id ` set (db_evidence (snd w'))" by simp
  from sample_ingest_again [OF this o] c obtain w'' where
    s: "sample_ingest w' = (Inr \<lparr>ir_run_id = 9, ir_accepted_items = 0, ir_status = ''normalizing''\<rparr>, w'')"
    by (cases w') auto
  from ingest_bundle_idempotent [OF r [unfolded sample_ingest_def] s [unfolded sample_ingest_def]]
  have "db_evidence (snd w'') = db_evidence (snd w')" by (elim conjE)
  with r s show ?thesis
    by (intro exI [of _ "\<lparr>ir_run_id = 9, ir_accepted_items = 1, ir_status = ''normalizing''\<rparr>"]
        exI [of _ w'] exI [of _ w'']) simp
qed

text \<open>
  C8. An upload is atomic for the database: if it raises, wherever it does (too large, malformed, run
  unknown, object store down, a row rejected), the database is as it was.
\<close>

theorem ingest_bundle_atomic:
  assumes "ingest_bundle mi adapt cfg parse stamp rid data w = (Inl e, w')"
  shows "snd w' = snd w"
  using assms by (rule ingest_bundle_raised)

theorem ingest_bundle_atomic_witness:
  "\<exists>w'. ingest_bundle sample_minio sample_adapt sample_cfg sample_parse ''s'' 8 [] ((True, ()), empty_run_db) =
     (Inl (HTTPException 404 ''run not found''), w') \<and> snd w' = empty_run_db"
proof -
  have "\<exists>w'. ingest_bundle sample_minio sample_adapt sample_cfg sample_parse ''s'' 8 [] ((True, ()), empty_run_db) =
     (Inl (HTTPException 404 ''run not found''), w')"
    by (simp add: ingest_bundle_def sample_bundle parse_or_400_def bindC_def on_fst_def on_snd_def
      put_bytes_def client_def sample_minio_def sample_cfg_def ingest_block_def with_conn_def
      check_run_def run_of_tenant_def empty_run_db_def) (rule exI, rule TrueI)
  then obtain w' where "ingest_bundle sample_minio sample_adapt sample_cfg sample_parse ''s'' 8 [] ((True, ()), empty_run_db) =
     (Inl (HTTPException 404 ''run not found''), w')"
    by (elim exE)
  from this ingest_bundle_atomic [OF this] show ?thesis
    by (intro exI [of _ w'] conjI) (simp_all only: snd_conv)
qed

text \<open>
  The counts of a run are the lengths of its listings, and no more items are normalized than
  there are.
\<close>

lemma get_run_counts:
  assumes "get_run rd rid d = (Inr v, d')"
  shows "\<exists>evs obs secs n. list_evidence rd rid d = (Inr (listing rid ''items'' evs), d) \<and>
    list_observations rd rid d = (Inr (listing rid ''observations'' obs), d) \<and>
    list_report_sections rd rid d = (Inr (listing rid ''sections'' secs), d) \<and> d' = d \<and>
    py_get v ''evidence_count'' PyNone = Inr (PyInt (int (length evs))) \<and>
    py_get v ''observation_count'' PyNone = Inr (PyInt (int (length obs))) \<and>
    py_get v ''section_count'' PyNone = Inr (PyInt (int (length secs))) \<and>
    py_get v ''normalized_count'' PyNone = Inr (PyInt (int n)) \<and> n \<le> length evs"
proof -
  let ?f = "find (\<lambda>r. run_id r = rid) (db_runs d)"
  have "get_run rd rid d = (Inl (HTTPException 404 ''run not found''), d)" if "?f = None"
    by (simp only: get_run_def that option.case)
  with assms have "?f \<noteq> None" by (metis prod.inject sum.distinct(1))
  then obtain r where r: "?f = Some r" by (elim not_None_eq [THEN iffD1, THEN exE])
  then have "get_run rd rid d = (Inr (run_json rd d r), d)" by (simp only: get_run_def option.case)
  with assms have v: "run_json rd d r = v" and d: "d' = d" by (metis prod.inject sum.inject(2))+
  from r obtain i where "run_id (db_runs d ! i) = rid" and "r = db_runs d ! i"
    by (elim find_Some_iff [THEN iffD1, THEN exE]) (elim conjE)
  then have rid: "run_id r = rid" by (simp only:)
  have le: "count_rows (\<lambda>e. ei_run_id e = rid \<and> ei_parsed e \<noteq> None) (db_evidence d) \<le>
      length (filter (\<lambda>e. ei_run_id e = rid) (db_evidence d))"
    using length_filter_le [of "\<lambda>e. ei_parsed e \<noteq> None" "filter (\<lambda>e. ei_run_id e = rid) (db_evidence d)"]
    by (simp add: count_rows_def)
  show ?thesis
    unfolding list_evidence_def list_observations_def list_report_sections_def v [symmetric]
    by (intro exI conjI, rule refl, rule refl, rule refl, rule d)
      (use le in \<open>simp_all add: run_json_def rid count_rows_def dict_get_def\<close>)
qed

lemma get_run_counts_witness:
  "\<exists>v. get_run \<lparr>rd_iso = \<lambda>t. [], rd_float = \<lambda>r. []\<rparr> 9 empty_run_db = (Inr v, empty_run_db) \<and>
     py_get v ''evidence_count'' PyNone = Inr (PyInt 0)"
proof -
  let ?rd = "\<lparr>rd_iso = \<lambda>t. [], rd_float = \<lambda>r. []\<rparr>"
  have g: "get_run ?rd 9 empty_run_db =
      (Inr (run_json ?rd empty_run_db (hd (db_runs empty_run_db))), empty_run_db)"
    by (simp add: get_run_def empty_run_db_def)
  from get_run_counts [OF g] g show ?thesis by (auto simp: list_evidence_def listing_def empty_run_db_def)
qed

end
