(* ===== verification/Lifecycle.thy ===== *)
theory Lifecycle
  imports Append_Only Normalizer Ingestion
begin

text \<open>
  The system over time: the operations of the ingestion API, the statements of the normalizer and
  the two passes of the orchestrator act on one database, in any order and any number of times, each
  with any outcome. The steps form an inductive relation; what holds in every reachable state is
  proved by rule induction. Here the two passes and the API requests are one step each, as are the
  statements of the normalizer; \<open>Interleaving\<close> runs the passes call by call.
\<close>

record 'o deployment =
  dp_settings :: ingestion_settings
  dp_minio :: "'o minio"
  dp_adapt :: "pyval \<Rightarrow> string res"
  dp_parse :: "bytes \<Rightarrow> evidence_bundle res"

type_synonym ('o, 'g) sys = "'o store_world \<times> db \<times> 'g"

inductive sys_step :: "'o deployment \<Rightarrow> ('o, 'g) sys \<Rightarrow> ('o, 'g) sys \<Rightarrow> bool" for dep where
  run_created: "create_run (dp_settings dep) scope (st, d) = (r, (st', d')) \<Longrightarrow>
    sys_step dep (st, d, g) (st', d', g)"
| bundle_uploaded: "ingest_bundle (dp_minio dep) (dp_adapt dep) (dp_settings dep) (dp_parse dep) stamp rid data (st, d)
      = (r, (st', d')) \<Longrightarrow> sys_step dep (st, d, g) (st', d', g)"
| asset_upserted: "upsert_asset tenant rid hint d = (r, d') \<Longrightarrow> sys_step dep (st, d, g) (st, d', g)"
| evidence_parsed: "write_parsed eid aid parsed confidence d = (r, d') \<Longrightarrow> sys_step dep (st, d, g) (st, d', g)"
| audit_logged: "insert_audit a d = (r, d') \<Longrightarrow> sys_step dep (st, d, g) (st, d', g)"
| run_discovered: "discover_run (pg_repo tenant) ra (d, g) = (r, (d', g')) \<Longrightarrow> sys_step dep (st, d, g) (st, d', g')"
| report_assembled: "assemble_run_report (pg_repo tenant) ra (d, g) = (r, (d', g')) \<Longrightarrow>
    sys_step dep (st, d, g) (st, d', g')"
| time_passed: "sys_step dep (st, d, g) (st, d\<lparr>db_now := t\<rparr>, g)"

inductive_cases sys_stepE: "sys_step dep s t"

text \<open>A database as the schema creates it.\<close>

definition fresh_db :: "db \<Rightarrow> bool" where
  "fresh_db d \<longleftrightarrow> db_runs d = [] \<and> db_assets d = [] \<and> db_evidence d = [] \<and> db_observations d = [] \<and>
     db_sections d = [] \<and> db_audit d = []"

inductive reachable :: "'o deployment \<Rightarrow> ('o, 'g) sys \<Rightarrow> bool" for dep where
  fresh: "fresh_db d \<Longrightarrow> reachable dep (st, d, g)"
| step: "reachable dep s \<Longrightarrow> sys_step dep s t \<Longrightarrow> reachable dep t"

section \<open>What can be referred to\<close>

text \<open>The rows other rows refer to, each with its run.\<close>

definition evidence_refs :: "db \<Rightarrow> (uuid \<times> uuid) set" where
  "evidence_refs d = (\<lambda>e. (ei_id e, ei_run_id e)) ` set (db_evidence d)"

definition asset_refs :: "db \<Rightarrow> (uuid \<times> uuid) set" where
  "asset_refs d = (\<lambda>a. (asset_id a, asset_run_id a)) ` set (db_assets d)"

definition observation_refs :: "db \<Rightarrow> (uuid \<times> uuid) set" where
  "observation_refs d = (\<lambda>ob. (ob_id ob, ow_run_id ob)) ` set (db_observations d)"

text \<open>An observation and a section whose references all resolve within their own run.\<close>

definition cites :: "db \<Rightarrow> observation_write \<Rightarrow> bool" where
  "cites d ow \<longleftrightarrow> ow_evidence_ids ow \<noteq> [] \<and>
     (\<forall>u \<in> set (ow_evidence_ids ow). (u, ow_run_id ow) \<in> evidence_refs d) \<and>
     (ow_asset_id ow, ow_run_id ow) \<in> asset_refs d \<and>
     (\<forall>u \<in> set (ow_related_asset_ids ow). (u, ow_run_id ow) \<in> asset_refs d)"

definition embeds :: "db \<Rightarrow> report_section_write \<Rightarrow> bool" where
  "embeds d s \<longleftrightarrow> rs_audience s \<in> {''technical'', ''summary''} \<and>
     (\<forall>u \<in> set (rs_embedded_observations s). (u, rs_run_id s) \<in> observation_refs d)"

definition traceable :: "db \<Rightarrow> bool" where
  "traceable d \<longleftrightarrow>
     (\<forall>ow \<in> observation_write.truncate ` set (db_observations d). cites d ow) \<and>
     (\<forall>s \<in> report_section_write.truncate ` set (db_sections d). embeds d s) \<and>
     distinct (map ob_id (db_observations d))"

definition refs_kept :: "db \<Rightarrow> db \<Rightarrow> bool" where
  "refs_kept d d' \<longleftrightarrow> evidence_refs d \<subseteq> evidence_refs d' \<and> asset_refs d \<subseteq> asset_refs d' \<and>
     observation_refs d \<subseteq> observation_refs d'"

lemma cites_kept: "cites d ow \<Longrightarrow> refs_kept d d' \<Longrightarrow> cites d' ow"
  by (auto simp: cites_def refs_kept_def)

lemma embeds_kept: "embeds d s \<Longrightarrow> refs_kept d d' \<Longrightarrow> embeds d' s"
  by (auto simp: embeds_def refs_kept_def)

text \<open>A step keeps the invariant if references stay and what it adds refers to what was there.\<close>

lemma traceable_step:
  assumes "traceable d" and "refs_kept d d'"
    and "map observation_write.truncate (db_observations d') = map observation_write.truncate (db_observations d) @ new"
    and "\<And>ow. ow \<in> set new \<Longrightarrow> cites d ow"
    and "map report_section_write.truncate (db_sections d') = map report_section_write.truncate (db_sections d) @ new'"
    and "\<And>s. s \<in> set new' \<Longrightarrow> embeds d s"
    and "distinct (map ob_id (db_observations d'))"
  shows "traceable d'"
proof -
  have "observation_write.truncate ` set (db_observations d') = observation_write.truncate ` set (db_observations d) \<union> set new"
    by (metis assms(3) list.set_map set_append)
  moreover have "report_section_write.truncate ` set (db_sections d') =
      report_section_write.truncate ` set (db_sections d) \<union> set new'"
    by (metis assms(5) list.set_map set_append)
  ultimately show ?thesis
    using assms(1,2,4,6,7) cites_kept [OF _ assms(2)] embeds_kept [OF _ assms(2)]
    by (auto simp: traceable_def)
qed

lemma traceable_same:
  assumes "traceable d" and "refs_kept d d'" and "db_observations d' = db_observations d"
    and "db_sections d' = db_sections d"
  shows "traceable d'"
  using assms by (intro traceable_step [OF assms(1,2), of "[]" "[]"]) (auto simp: traceable_def)

text \<open>What every step guarantees: references stay, and traceability is kept.\<close>

definition safe :: "db \<Rightarrow> db \<Rightarrow> bool" where
  "safe d d' \<longleftrightarrow> refs_kept d d' \<and> (traceable d \<longrightarrow> traceable d')"

lemma safeD: "safe d d' \<Longrightarrow> refs_kept d d'" "safe d d' \<Longrightarrow> traceable d \<Longrightarrow> traceable d'"
  by (simp_all add: safe_def)

lemma safeI: "refs_kept d d' \<Longrightarrow> (traceable d \<Longrightarrow> traceable d') \<Longrightarrow> safe d d'"
  by (simp add: safe_def)

lemma refs_kept_refl [simp]: "refs_kept d d"
  by (simp add: refs_kept_def)

lemma refs_kept_trans: "refs_kept d e \<Longrightarrow> refs_kept e f \<Longrightarrow> refs_kept d f"
  by (auto simp: refs_kept_def)

lemma safe_refl [simp]: "safe d d"
  by (simp add: safe_def)

lemma safe_same:
  "refs_kept d d' \<Longrightarrow> db_observations d' = db_observations d \<Longrightarrow> db_sections d' = db_sections d \<Longrightarrow> safe d d'"
  by (rule safeI) (auto intro: traceable_same)

section \<open>Each kind of step keeps the invariant\<close>

lemma append_only_refs: "append_only d d' \<Longrightarrow> refs_kept d d'"
  by (auto simp: append_only_def refs_kept_def evidence_refs_def asset_refs_def observation_refs_def
      dest: set_mono_prefix)

lemma prefix_map_same: "prefix xs ys \<Longrightarrow> map f ys = map f xs \<Longrightarrow> ys = xs"
  by (auto simp: prefix_def)

lemma run_evidence_refs:
  "u \<in> ev_id ` set (bound_evidence (pg_view d) rid cs b) \<Longrightarrow> (u, rid) \<in> evidence_refs d"
  by (auto simp: bound_evidence_def pg_view_def run_evidence_def to_evidence_row_def evidence_refs_def image_iff)

lemma run_asset_refs: "u \<in> as_id ` set (rv_assets (pg_view d) rid) \<Longrightarrow> (u, rid) \<in> asset_refs d"
  by (auto simp: pg_view_def to_asset_row_def asset_refs_def image_iff)

lemma discovered_cites:
  assumes "discovered (pg_view d) rid registry ow"
  shows "cites d ow"
proof -
  from assms obtain b where run: "ow_run_id ow = rid"
    and s: "sourced (ev_id ` set (bound_evidence (pg_view d) rid (rv_categories (pg_view d) rid) b))
      (as_id ` set (rv_assets (pg_view d) rid)) ow"
    by (auto simp: discovered_def)
  from s have "ow_evidence_ids ow \<noteq> []" by (simp add: sourced_def)
  moreover have "(u, rid) \<in> evidence_refs d" if "u \<in> set (ow_evidence_ids ow)" for u
    using s that by (intro run_evidence_refs) (auto simp: sourced_def)
  moreover have "(u, rid) \<in> asset_refs d" if "u \<in> insert (ow_asset_id ow) (set (ow_related_asset_ids ow))" for u
    using s that by (intro run_asset_refs) (auto simp: sourced_def)
  ultimately show ?thesis by (simp add: cites_def run)
qed

lemma safe_discover:
  assumes run: "discover_run (pg_repo tenant) ra (d, g) = (r, (d', g'))"
  shows "safe d d'"
proof (rule safeI)
  from preservesD [OF pg_append.discover_run_kept run] have a: "append_only d d'" by (simp add: on_store_def)
  then show "refs_kept d d'" by (rule append_only_refs)
  assume t: "traceable d"
  from discovery_adds [OF run] obtain new where
    new: "map observation_write.truncate (db_observations d') = map observation_write.truncate (db_observations d) @ new"
    and ok: "\<forall>ow \<in> set new. discovered (pg_view d) (ra_run_id ra) (ra_registry ra) ow" by blast
  from run have "rv_sections (pg_view d') = rv_sections (pg_view d)"
    by (rule pg.discover_run_cases) auto
  then have secs: "map report_section_write.truncate (db_sections d') = map report_section_write.truncate (db_sections d) @ []"
    by (simp add: pg_view_fields)
  show "traceable d'"
    using a t ok
    by (intro traceable_step [OF t append_only_refs [OF a] new _ secs])
      (auto simp: append_only_def traceable_def intro: discovered_cites)
qed

lemma safe_report:
  assumes run: "assemble_run_report (pg_repo tenant) ra (d, g) = (r, (d', g'))"
  shows "safe d d'"
proof (rule safeI)
  from preservesD [OF pg_append.assemble_run_report_kept run] have a: "append_only d d'" by (simp add: on_store_def)
  then show "refs_kept d d'" by (rule append_only_refs)
  assume t: "traceable d"
  from report_pass_stores [OF run] obtain new where
    new: "map report_section_write.truncate (db_sections d') = map report_section_write.truncate (db_sections d) @ new"
    and ok: "\<forall>s \<in> set new. rs_run_id s = ra_run_id ra \<and> rs_audience s \<in> {''technical'', ''summary''} \<and>
       (\<forall>u \<in> set (rs_embedded_observations s).
          \<exists>ob \<in> set (db_observations d). ob_id ob = u \<and> ow_run_id ob = ra_run_id ra)"
    and same: "map observation_write.truncate (db_observations d') = map observation_write.truncate (db_observations d)"
    by (elim exE conjE) (rule that)
  have "embeds d s" if "s \<in> set new" for s
    using ok that unfolding embeds_def observation_refs_def by (auto simp: image_iff) fastforce?
  with same show "traceable d'"
    using a t
    by (intro traceable_step [OF t append_only_refs [OF a] _ _ new, of "[]"])
      (auto simp: append_only_def traceable_def)
qed

lemma refs_kept_parts:
  assumes "set (map (\<lambda>e. (ei_id e, ei_run_id e)) (db_evidence d)) \<subseteq> set (map (\<lambda>e. (ei_id e, ei_run_id e)) (db_evidence d'))"
    and "set (map (\<lambda>a. (asset_id a, asset_run_id a)) (db_assets d)) \<subseteq> set (map (\<lambda>a. (asset_id a, asset_run_id a)) (db_assets d'))"
    and "db_observations d' = db_observations d"
  shows "refs_kept d d'"
  using assms by (simp add: refs_kept_def evidence_refs_def asset_refs_def observation_refs_def)

lemma safe_upload:
  assumes "ingest_bundle mi adapt cfg parse stamp rid data (st, d) = (r, (st', d'))"
  shows "safe d d'"
proof (cases r)
  case (Inl e)
  with ingest_bundle_raised assms show ?thesis by fastforce
next
  case (Inr x)
  with assms(1) obtain b w1 where w1: "snd w1 = d"
    and b: "ingest_block mi adapt cfg rid (bundle_key rid stamp) b w1 = (Inr (ir_accepted_items x), (st', d'))"
    by (auto elim: ingest_bundle_returned)
  from ingest_block_adds [OF b] w1 obtain rows where "db_evidence d' = db_evidence d @ rows"
    and "db_assets d' = db_assets d" and "db_observations d' = db_observations d" and "db_sections d' = db_sections d"
    by auto
  then show ?thesis by (intro safe_same refs_kept_parts) simp_all
qed

lemma safe_create:
  assumes "create_run cfg scope (st, d) = (r, (st', d'))"
  shows "safe d d'"
proof -
  have "db_evidence d' = db_evidence d \<and> db_assets d' = db_assets d \<and> db_observations d' = db_observations d \<and>
      db_sections d' = db_sections d"
    using assms(1)
    by (auto simp: create_run_def with_conn_def on_snd_def bindC_def insert_run_def Let_def insert_audit_def
        split: prod.splits sum.splits if_splits)
  then show ?thesis by (intro safe_same refs_kept_parts) simp_all
qed

lemma safe_upsert:
  assumes "upsert_asset tenant rid hint d = (r, d')"
  shows "safe d d'"
  using assms(1)
proof (cases rule: upsert_asset_cases)
  case raised
  then show ?thesis by simp
next
  case (seen a)
  from seen(3) have "db_assets d' = map (\<lambda>x. if same_asset tenant hint x then seen_again d hint x else x) (db_assets d)"
    by simp
  then have "map (\<lambda>a. (asset_id a, asset_run_id a)) (db_assets d') = map (\<lambda>a. (asset_id a, asset_run_id a)) (db_assets d)"
    by (simp only:) (rule map_seen_again, simp)
  with seen(3) show ?thesis by (intro safe_same refs_kept_parts) simp_all
next
  case (inserted kind)
  then have "set (db_assets d) \<subseteq> set (db_assets d')" and "db_evidence d' = db_evidence d"
    and "db_observations d' = db_observations d" and "db_sections d' = db_sections d" by auto
  then show ?thesis by (intro safe_same refs_kept_parts) (simp_all add: image_mono)
qed

lemma safe_parsed:
  assumes "write_parsed eid aid parsed confidence d = (r, d')"
  shows "safe d d'"
  using assms(1)
proof (cases rule: write_parsed_cases)
  case unchanged
  then show ?thesis by simp
next
  case parsed
  then have "db_evidence d' =
      map (\<lambda>e. if ei_id e = eid then parsed_row aid parsed confidence e else e) (db_evidence d)" by simp
  then have "map (\<lambda>e. (ei_id e, ei_run_id e)) (db_evidence d') = map (\<lambda>e. (ei_id e, ei_run_id e)) (db_evidence d)"
    by (simp only:) (rule map_parsed_row, simp)
  with parsed show ?thesis by (intro safe_same refs_kept_parts) simp_all
qed

lemma safe_sys_step: "sys_step dep s t \<Longrightarrow> safe (fst (snd s)) (fst (snd t))"
proof (induction rule: sys_step.induct)
  case (run_created scope st d r st' d' g)
  from safe_create [OF run_created] show ?case by simp
next
  case (bundle_uploaded stamp rid data st d r st' d' g)
  from safe_upload [OF bundle_uploaded] show ?case by simp
next
  case (asset_upserted tenant rid hint d r d' st g)
  from safe_upsert [OF asset_upserted] show ?case by simp
next
  case (evidence_parsed eid aid parsed confidence d r d' st g)
  from safe_parsed [OF evidence_parsed] show ?case by simp
next
  case (audit_logged a d r d' st g)
  then have "d\<lparr>db_audit := db_audit d @ [a]\<rparr> = d'" by (simp only: insert_audit_def prod.inject)
  then have "db_evidence d' = db_evidence d" "db_assets d' = db_assets d" "db_observations d' = db_observations d"
    "db_sections d' = db_sections d" by auto
  then have "safe d d'" by (intro safe_same refs_kept_parts) simp_all
  then show ?case by simp
next
  case (run_discovered tenant ra d g r d' g' st)
  from safe_discover [OF run_discovered] show ?case by simp
next
  case (report_assembled tenant ra d g r d' g' st)
  from safe_report [OF report_assembled] show ?case by simp
next
  case (time_passed st d g t)
  have "safe d (d\<lparr>db_now := t\<rparr>)" by (intro safe_same refs_kept_parts) simp_all
  then show ?case by simp
qed

lemma reachable_is_traceable: "reachable dep s \<Longrightarrow> traceable (fst (snd s))"
proof (induction rule: reachable.induct)
  case (fresh d st g)
  then show ?case by (simp add: fresh_db_def traceable_def)
next
  case (step s t)
  show ?case by (rule safeD(2) [OF safe_sys_step [OF step(2)] step.IH])
qed


section \<open>The statuses a run goes through\<close>

definition active_status :: "run_status \<Rightarrow> bool" where
  "active_status st \<longleftrightarrow> st \<in> {COLLECTING, NORMALIZING, DISCOVERING, REPORTING, COMPLETE}"

definition runs_active :: "db \<Rightarrow> bool" where
  "runs_active d \<longleftrightarrow> (\<forall>rid st. status_in (db_runs d) rid = Some st \<longrightarrow> active_status st)"

lemma runs_active_same: "runs_active d \<Longrightarrow> status_in (db_runs d') = status_in (db_runs d) \<Longrightarrow> runs_active d'"
  by (simp add: runs_active_def)

lemma runs_active_view:
  assumes "runs_active d" and "rv_status (pg_view d') = rv_status (view_status rid st (pg_view d))" and "active_status st"
  shows "runs_active d'"
  using assms by (auto simp: runs_active_def pg_view_fields view_status_def split: if_splits)

lemma runs_active_discover:
  assumes "runs_active d" and "discover_run (pg_repo tenant) ra (d, g) = (r, (d', g'))"
  shows "runs_active d'"
  using assms(2)
proof (cases rule: pg.discover_run_cases)
  case (not_started e)
  then have "status_in (db_runs d') = status_in (db_runs d)" by (simp flip: pg_view_fields(3))
  with assms(1) show ?thesis by (rule runs_active_same)
next
  case (failed e new auds st)
  then have "rv_status (pg_view d') = rv_status (view_status (ra_run_id ra) st (pg_view d))" by simp
  with assms(1) show ?thesis by (rule runs_active_view) (use failed(2) in \<open>auto simp: active_status_def\<close>)
next
  case (finished report new auds dropped m)
  then have "rv_status (pg_view d') = rv_status (view_status (ra_run_id ra) REPORTING (pg_view d))" by simp
  with assms(1) show ?thesis by (rule runs_active_view) (simp add: active_status_def)
qed

lemma runs_active_report:
  assumes "runs_active d" and "assemble_run_report (pg_repo tenant) ra (d, g) = (r, (d', g'))"
  shows "runs_active d'"
proof -
  have "rv_status (pg_view d') = rv_status (pg_view d) \<or>
      rv_status (pg_view d') = rv_status (view_status (ra_run_id ra) COMPLETE (pg_view d))"
    using assms(2) by (rule pg.assemble_run_report_cases) (auto simp: view_status_def)
  then show ?thesis
  proof
    assume "rv_status (pg_view d') = rv_status (pg_view d)"
    then show ?thesis by (intro runs_active_same [OF assms(1)]) (simp add: pg_view_fields)
  next
    assume "rv_status (pg_view d') = rv_status (view_status (ra_run_id ra) COMPLETE (pg_view d))"
    with assms(1) show ?thesis by (rule runs_active_view) (simp add: active_status_def)
  qed
qed

lemma runs_active_upload:
  assumes "runs_active d" and "ingest_bundle mi adapt cfg parse stamp rid data (st, d) = (r, (st', d'))"
  shows "runs_active d'"
proof (cases r)
  case (Inl e)
  with ingest_bundle_raised assms show ?thesis by fastforce
next
  case (Inr x)
  with assms(2) obtain b w1 where w1: "snd w1 = d"
    and b: "ingest_block mi adapt cfg rid (bundle_key rid stamp) b w1 = (Inr (ir_accepted_items x), (st', d'))"
    by (auto elim: ingest_bundle_returned)
  from ingest_block_adds [OF b] w1 have "db_runs d' = update_run_status rid NORMALIZING (db_runs d)" by auto
  with assms(1) show ?thesis by (auto simp: runs_active_def status_in_update active_status_def split: if_splits)
qed

lemma find_append: "find p (xs @ ys) = (case find p xs of None \<Rightarrow> find p ys | Some x \<Rightarrow> Some x)"
  by (induction xs) auto

lemma runs_active_create:
  assumes "runs_active d" and "create_run cfg scope (st, d) = (r, (st', d'))"
  shows "runs_active d'"
proof -
  have "\<exists>rs. db_runs d' = db_runs d @ rs \<and> (\<forall>x \<in> set rs. run_state x = COLLECTING)"
    using assms(2)
    by (auto simp: create_run_def with_conn_def on_snd_def bindC_def insert_run_def Let_def insert_audit_def
        split: prod.splits sum.splits if_splits)
  then obtain rs where rs: "db_runs d' = db_runs d @ rs" and new: "\<forall>x \<in> set rs. run_state x = COLLECTING" by blast
  have "status_in (db_runs d') rid = (case status_in (db_runs d) rid of None \<Rightarrow> status_in rs rid | Some st \<Rightarrow> Some st)" for rid
    by (simp add: status_in_def rs find_append split: option.split)
  moreover have "status_in rs rid = Some st \<Longrightarrow> st = COLLECTING" for rid st
    using new by (auto simp: status_in_def find_Some_iff)
  ultimately show ?thesis
    using assms(1) by (auto simp: runs_active_def active_status_def split: option.splits)
qed

lemma same_runs_upsert: "upsert_asset tenant rid hint d = (r, d') \<Longrightarrow> db_runs d' = db_runs d"
  by (auto elim!: upsert_asset_cases)

lemma same_runs_parsed: "write_parsed eid aid parsed confidence d = (r, d') \<Longrightarrow> db_runs d' = db_runs d"
  by (auto elim!: write_parsed_cases)

lemma runs_active_sys_step: "sys_step dep s t \<Longrightarrow> runs_active (fst (snd s)) \<Longrightarrow> runs_active (fst (snd t))"
proof (induction rule: sys_step.induct)
  case (run_created scope st d r st' d' g)
  from runs_active_create [OF _ run_created(1)] run_created(2) show ?case by simp
next
  case (bundle_uploaded stamp rid data st d r st' d' g)
  from runs_active_upload [OF _ bundle_uploaded(1)] bundle_uploaded(2) show ?case by simp
next
  case (asset_upserted tenant rid hint d r d' st g)
  from same_runs_upsert [OF asset_upserted(1)] asset_upserted(2) show ?case by (simp add: runs_active_def)
next
  case (evidence_parsed eid aid parsed confidence d r d' st g)
  from same_runs_parsed [OF evidence_parsed(1)] evidence_parsed(2) show ?case by (simp add: runs_active_def)
next
  case (audit_logged a d r d' st g)
  then have "db_runs d' = db_runs d" by (auto simp: insert_audit_def)
  with audit_logged(2) show ?case by (simp add: runs_active_def)
next
  case (run_discovered tenant ra d g r d' g' st)
  from runs_active_discover [OF _ run_discovered(1)] run_discovered(2) show ?case by simp
next
  case (report_assembled tenant ra d g r d' g' st)
  from runs_active_report [OF _ report_assembled(1)] report_assembled(2) show ?case by simp
next
  case (time_passed st d g t)
  then show ?case by (simp add: runs_active_def)
qed

lemma reachable_active: "reachable dep s \<Longrightarrow> runs_active (fst (snd s))"
proof (induction rule: reachable.induct)
  case (fresh d st g)
  then show ?case by (simp add: fresh_db_def runs_active_def status_in_def)
next
  case (step s t)
  show ?case by (rule runs_active_sys_step [OF step(2) step.IH])
qed

section \<open>Scanning a known host again\<close>

definition asset_key :: "asset_rec \<Rightarrow> uuid \<times> string" where
  "asset_key a = (asset_tenant a, asset_natural_key a)"

text \<open>Every asset the parsers describe for a run's scope is one the tenant has already.\<close>

definition known_assets :: "normalizer_env \<Rightarrow> pyval \<Rightarrow> (uuid \<times> string) set \<Rightarrow> bool" where
  "known_assets ne scope keys \<longleftrightarrow>
     (\<forall>tool parser raw version result hint. ne_parsers ne tool = Some parser \<longrightarrow>
        parser raw version scope = Inr result \<longrightarrow> pr_hint result = Some hint \<longrightarrow>
        (ne_tenant ne, ah_natural_key hint) \<in> keys)"

definition asset_owners :: "db \<Rightarrow> ((uuid \<times> string) \<times> uuid) list" where
  "asset_owners d = map (\<lambda>a. (asset_key a, asset_run_id a)) (db_assets d)"

definition leaves_assets :: "db \<Rightarrow> db \<Rightarrow> bool" where
  "leaves_assets d d' \<longleftrightarrow>
     asset_owners d' = asset_owners d \<and> map asset_id (db_assets d') = map asset_id (db_assets d) \<and>
     db_observations d' = db_observations d \<and> db_runs d' = db_runs d"

lemma upsert_known:
  assumes "upsert_asset tenant rid hint d = (r, d')" and "(tenant, ah_natural_key hint) \<in> fst ` set (asset_owners d)"
  shows "leaves_assets d d'"
  using assms(1)
proof (cases rule: upsert_asset_cases)
  case raised
  then show ?thesis by (simp add: leaves_assets_def)
next
  case (seen a)
  from seen(3) have "db_assets d' = map (\<lambda>x. if same_asset tenant hint x then seen_again d hint x else x) (db_assets d)"
    by simp
  then have "asset_owners d' = asset_owners d"
    unfolding asset_owners_def by (simp only:) (rule map_seen_again, simp add: asset_key_def)
  moreover from \<open>db_assets d' = _\<close> have "map asset_id (db_assets d') = map asset_id (db_assets d)"
    by (simp only:) (rule map_seen_again, simp)
  ultimately show ?thesis using seen(3) by (simp add: leaves_assets_def)
next
  case (inserted kind)
  from assms(2) obtain a where "a \<in> set (db_assets d)" and "same_asset tenant hint a"
    by (auto simp: asset_owners_def asset_key_def same_asset_def)
  with inserted(1) show ?thesis by blast
qed

lemma leaves_parsed: "write_parsed eid aid parsed confidence d = (r, d') \<Longrightarrow> leaves_assets d d'"
  by (auto simp: leaves_assets_def asset_owners_def elim!: write_parsed_cases)

lemma leaves_trans: "leaves_assets d e \<Longrightarrow> leaves_assets e f \<Longrightarrow> leaves_assets d f"
  by (simp add: leaves_assets_def)

lemma leaves_refl: "leaves_assets d d"
  by (simp add: leaves_assets_def)

lemma normalize_one_known:
  assumes "\<And>scope. fetch_run_scope (pe_run_id ev) d = (Inr scope, d) \<Longrightarrow> known_assets ne scope (fst ` set (asset_owners d))"
  shows "leaves_assets d (snd (normalize_one ne ev d))"
proof -
  obtain r d' where n: "normalize_one ne ev d = (r, d')" by fastforce
  have "leaves_assets d d'"
  proof (cases "ne_parsers ne (pe_source_tool ev)")
    case None
    with n show ?thesis by (simp add: normalize_one_def leaves_refl)
  next
    case (Some parser)
    have aud: "insert_audit a x = (y, z) \<Longrightarrow> leaves_assets x z" for a x y z
      by (auto simp: insert_audit_def leaves_assets_def asset_owners_def)
    have store: "leaves_assets d z" if "store_result ne ev result d = (y, z)"
      and "parser raw (pe_version ev) sc = Inr result" and "fetch_run_scope (pe_run_id ev) d = (Inr sc, d)" for result y z raw sc
    proof -
      have hint: "leaves_assets d e" if h: "upsert_hint (ne_tenant ne) (pe_run_id ev) (pr_hint result) d = (x, e)" for x e
      proof (cases "pr_hint result")
        case None
        with h show ?thesis by (simp add: upsert_hint_def leaves_refl)
      next
        case hint: (Some hint)
        with assms [OF \<open>fetch_run_scope (pe_run_id ev) d = (Inr sc, d)\<close>] Some \<open>parser raw (pe_version ev) sc = Inr result\<close>
        have k: "(ne_tenant ne, ah_natural_key hint) \<in> fst ` set (asset_owners d)" unfolding known_assets_def by blast
        from h hint obtain q where "upsert_asset (ne_tenant ne) (pe_run_id ev) hint d = (q, e)"
          by (auto simp: upsert_hint_def elim!: bindC_cases)
        from upsert_known [OF this k] show ?thesis .
      qed
      from that(1) show ?thesis
        unfolding store_result_def
        by (auto elim!: bindC_cases dest!: hint leaves_parsed aud intro: leaves_trans)
    qed
    obtain y where fetch: "fetch_run_scope (pe_run_id ev) d = (y, d)" by (rule fetch_run_scope_reads)
    with n Some show ?thesis
      by (cases y) (auto simp: normalize_one_def leaves_refl bindC_def split: sum.splits intro: store)
  qed
  with n show ?thesis by simp
qed

lemma normalize_all_known:
  assumes "\<And>ev scope. ev \<in> set evs \<Longrightarrow> fetch_run_scope (pe_run_id ev) d = (Inr scope, d) \<Longrightarrow>
    known_assets ne scope (fst ` set (asset_owners d))"
  shows "leaves_assets d (normalize_all ne evs d)"
  using assms
proof (induction evs arbitrary: d)
  case Nil
  then show ?case by (simp add: leaves_refl)
next
  case (Cons ev evs)
  let ?d = "snd (normalize_one ne ev d)"
  have one: "leaves_assets d ?d" by (rule normalize_one_known, rule Cons.prems) simp_all
  have "known_assets ne scope (fst ` set (asset_owners ?d))"
    if "e \<in> set evs" and "fetch_run_scope (pe_run_id e) ?d = (Inr scope, ?d)" for e scope
  proof -
    from that(2) one have "fetch_run_scope (pe_run_id e) d = (Inr scope, d)"
      by (auto simp: fetch_run_scope_def leaves_assets_def split: option.splits)
    with Cons.prems [of e scope] that(1) one show ?thesis by (simp add: leaves_assets_def)
  qed
  from leaves_trans [OF one Cons.IH [OF this]] show ?case by simp
qed

lemma no_assets_no_observations:
  assumes "discover_run (pg_repo tenant) ra (d, g) = (r, (d', g'))" and "\<forall>a \<in> set (db_assets d). asset_run_id a \<noteq> ra_run_id ra"
  shows "map observation_write.truncate (db_observations d') = map observation_write.truncate (db_observations d)"
proof -
  from assms(2) have none: "rv_assets (pg_view d) (ra_run_id ra) = []" by (simp add: pg_view_def filter_empty_conv)
  from discovery_adds [OF assms(1)] obtain new where
    new: "map observation_write.truncate (db_observations d') = map observation_write.truncate (db_observations d) @ new"
    and ok: "\<forall>ow \<in> set new. discovered (pg_view d) (ra_run_id ra) (ra_registry ra) ow" by blast
  from ok none have "new = []" by (cases new) (auto simp: discovered_def sourced_def)
  with new show ?thesis by simp
qed

lemma rescan_adds_nothing:
  assumes "\<forall>a \<in> set (db_assets d). asset_run_id a \<noteq> ra_run_id ra"
    and "\<And>scope. fetch_run_scope (ra_run_id ra) d = (Inr scope, d) \<Longrightarrow> known_assets ne scope (asset_key ` set (db_assets d))"
    and "discover_run (pg_repo tenant) ra (snd (drain_pending ne (Some (ra_run_id ra)) d), g) = (res, (d', g'))"
  shows "map asset_id (db_assets (snd (drain_pending ne (Some (ra_run_id ra)) d))) = map asset_id (db_assets d) \<and>
    map observation_write.truncate (db_observations d') = map observation_write.truncate (db_observations d)"
proof -
  have "fst ` set (asset_owners d) = asset_key ` set (db_assets d)" by (simp add: asset_owners_def image_image)
  moreover have "pe_run_id ev = ra_run_id ra" if "ev \<in> set (fetch_pending (Some (ra_run_id ra)) 500 d)" for ev
    using that by (auto simp: fetch_pending_def pending_of_def dest!: in_set_takeD)
  ultimately have l: "leaves_assets d (snd (drain_pending ne (Some (ra_run_id ra)) d))"
    unfolding drain_pending_def Let_def snd_conv using assms(2) by (intro normalize_all_known) simp
  have owners: "snd ` set (asset_owners x) = asset_run_id ` set (db_assets x)" for x by (simp add: asset_owners_def image_image)
  from l have "asset_run_id ` set (db_assets (snd (drain_pending ne (Some (ra_run_id ra)) d))) = asset_run_id ` set (db_assets d)"
    unfolding owners [symmetric] by (simp add: leaves_assets_def)
  with assms(1) have "\<forall>a \<in> set (db_assets (snd (drain_pending ne (Some (ra_run_id ra)) d))). asset_run_id a \<noteq> ra_run_id ra"
    by force
  from no_assets_no_observations [OF assms(3) this] l show ?thesis by (simp add: leaves_assets_def)
qed

section \<open>Properties\<close>

text \<open>
  The system's integrity guarantee: in every state that uploads, normalization, discovery and
  report passes can lead to, in any order and with any failures, every stored observation cites
  evidence of its own run and describes assets of its own run, every stored section embeds only
  observations of its own run, and observation identifiers are unique.
\<close>

lemma reachable_traceable:
  assumes "reachable dep s"
  shows "traceable (fst (snd s))"
  using assms by (rule reachable_is_traceable)

definition sample_dep :: "unit deployment" where
  "sample_dep = \<lparr>dp_settings = sample_cfg, dp_minio = sample_minio, dp_adapt = sample_adapt, dp_parse = sample_parse\<rparr>"

definition created_db :: db where
  "created_db = empty_run_db\<lparr>db_next := 9, db_runs := []\<rparr>"

lemma sample_reachable:
  obtains d where "reachable sample_dep (((True, ()), d, ()) :: (unit, unit) sys)" and "map ei_id (db_evidence d) = [3]"
    and "status_in (db_runs d) 9 = Some NORMALIZING"
proof -
  let ?s0 = "((True, ()), created_db, ()) :: (unit, unit) sys"
  let ?d1 = "created_db\<lparr>db_runs := db_runs empty_run_db, db_next := 10,
    db_audit := [audit_row sample_cfg ''system'' ''run.create'' 9 []]\<rparr>"
  have "reachable sample_dep ?s0"
    by (rule fresh) (simp add: fresh_db_def created_db_def empty_run_db_def)
  moreover have "create_run (dp_settings sample_dep) (PyDict []) ((True, ()), created_db) =
      (Inr \<lparr>cr_run_id = 9, cr_status = ''collecting''\<rparr>, ((True, ()), ?d1))"
    by (simp add: create_run_def with_conn_def on_snd_def bindC_def insert_run_def insert_audit_def has_run_def has_tenant_def
        sample_dep_def sample_cfg_def created_db_def empty_run_db_def audit_row_def)
  ultimately have r1: "reachable sample_dep (((True, ()), ?d1, ()) :: (unit, unit) sys)"
    by (rule step [OF _ run_created])
  have "\<exists>r d2. ingest_bundle (dp_minio sample_dep) (dp_adapt sample_dep) (dp_settings sample_dep) (dp_parse sample_dep)
      ''s'' 9 [] ((True, ()), ?d1) = (r, ((True, ()), d2)) \<and> map ei_id (db_evidence d2) = [3] \<and>
      status_in (db_runs d2) 9 = Some NORMALIZING"
    by (simp add: ingest_bundle_def sample_bundle parse_or_400_def bindC_def on_fst_def on_snd_def sample_dep_def
      put_bytes_def client_def ensure_bucket_def sample_minio_def sample_cfg_def ingest_block_def with_conn_def
      check_run_def run_of_tenant_def ingest_items_def ingest_item_def sample_item_def sample_adapt_def
      insert_evidence_def evidence_row_of_def confidence_check_def has_run_def has_tenant_def set_normalizing_def insert_audit_def
      empty_run_db_def created_db_def update_run_status_def status_in_def)
  then obtain r d2 where i: "ingest_bundle (dp_minio sample_dep) (dp_adapt sample_dep) (dp_settings sample_dep)
      (dp_parse sample_dep) ''s'' 9 [] ((True, ()), ?d1) = (r, ((True, ()), d2))"
    and d2: "map ei_id (db_evidence d2) = [3]" "status_in (db_runs d2) 9 = Some NORMALIZING" by (elim exE conjE)
  from step [OF r1 bundle_uploaded [OF i]] d2 show thesis by (rule that)
qed

lemma reachable_traceable_witness:
  "\<exists>d. reachable sample_dep (((True, ()), d, ()) :: (unit, unit) sys) \<and> db_evidence d \<noteq> [] \<and> traceable d"
proof -
  obtain d where d: "reachable sample_dep (((True, ()), d, ()) :: (unit, unit) sys)" "map ei_id (db_evidence d) = [3]"
    by (rule sample_reachable)
  from reachable_traceable [OF d(1)] d show ?thesis by (intro exI [of _ d]) auto
qed

text \<open>
  The statuses of the runs: in every reachable state a run is collecting, normalizing,
  discovering, reporting or complete. No operation ever marks a run as failed or planning, whatever
  fails.
\<close>

lemma reachable_never_failed:
  assumes "reachable dep s" and "status_in (db_runs (fst (snd s))) rid = Some st"
  shows "st \<in> {COLLECTING, NORMALIZING, DISCOVERING, REPORTING, COMPLETE}"
  using reachable_active [OF assms(1)] assms(2) by (simp add: runs_active_def active_status_def)

lemma reachable_never_failed_witness:
  "\<exists>d. reachable sample_dep (((True, ()), d, ()) :: (unit, unit) sys) \<and>
     status_in (db_runs d) 9 \<in> Some ` {COLLECTING, NORMALIZING, DISCOVERING, REPORTING, COMPLETE}"
proof -
  obtain d where d: "reachable sample_dep (((True, ()), d, ()) :: (unit, unit) sys)"
    and s: "status_in (db_runs d) 9 = Some NORMALIZING"
    by (rule sample_reachable)
  from s have "status_in (db_runs (fst (snd (((True, ()), d, ()) :: (unit, unit) sys)))) 9 = Some NORMALIZING" by simp
  from reachable_never_failed [OF d this] d s show ?thesis by (intro exI [of _ d]) auto
qed

end
