(* ===== verification/Rust_Regex.thy ===== *)
theory Rust_Regex
  imports Py_Uuid
begin

text \<open>
  The part of Rust's \<open>regex\<close> that the redaction rules use: character classes, greedy repetition of a
  class, concatenation and ordered alternatives, searched leftmost-first. \<open>matches_of r s\<close> lists the
  lengths of the prefixes of \<open>s\<close> that \<open>r\<close> matches in the order a backtracking search tries them; the
  match is the first. Characters are the code points 0 to 255, where the case folding of \<open>(?i)\<close> is
  the one of ASCII letters and \<open>\s\<close> are the characters with the property White_Space.

  The substitution is defined over any list with a character at every position, so that the lemmas can
  follow which characters of the result were inserted.
\<close>

datatype regex =
    Empty
  | Greedy "char \<Rightarrow> bool" nat "nat option"
  | Seq regex regex
  | Alt regex regex

fun matches_of :: "regex \<Rightarrow> string \<Rightarrow> nat list" where
  "matches_of Empty s = [0]"
| "matches_of (Greedy p lo hi) s =
     (let most = length (takeWhile p s); top = (case hi of None \<Rightarrow> most | Some h \<Rightarrow> min h most) in
      rev [lo ..< Suc top])"
| "matches_of (Seq a b) s = concat (map (\<lambda>n. map (\<lambda>k. n + k) (matches_of b (drop n s))) (matches_of a s))"
| "matches_of (Alt a b) s = matches_of a s @ matches_of b s"

text \<open>A match of \<open>r\<close> at the start of the text, and a match anywhere.\<close>

definition first_match :: "regex \<Rightarrow> string \<Rightarrow> nat option" where
  "first_match r s = (case matches_of r s of [] \<Rightarrow> None | n # ns \<Rightarrow> Some n)"

fun is_match :: "regex \<Rightarrow> string \<Rightarrow> bool" where
  "is_match r [] = (first_match r [] \<noteq> None)"
| "is_match r (c # cs) = (first_match r (c # cs) \<noteq> None \<or> is_match r cs)"

lemma match_length: "n \<in> set (matches_of r s) \<Longrightarrow> n \<le> length s"
proof (induction r arbitrary: n s)
  case Empty
  then show ?case by simp
next
  case (Greedy p lo hi)
  then have "n \<le> length (takeWhile p s)" by (auto simp: Let_def less_Suc_eq_le split: option.splits)
  also have "\<dots> \<le> length s" by (rule length_takeWhile_le)
  finally show ?case .
next
  case (Seq a b)
  then obtain i k where "i \<in> set (matches_of a s)" and "k \<in> set (matches_of b (drop i s))" and n: "n = i + k" by auto
  with Seq.IH(1) [of i s] Seq.IH(2) [of k "drop i s"] show ?case by (simp add: n)
next
  case (Alt a b)
  then show ?case by auto
qed

lemma first_match_mem: "first_match r s = Some n \<Longrightarrow> n \<in> set (matches_of r s)"
  by (auto simp: first_match_def split: list.splits)

lemma first_match_le: "first_match r s = Some n \<Longrightarrow> n \<le> length s"
  by (rule match_length) (rule first_match_mem)

lemma first_match_None: "first_match r s = None \<longleftrightarrow> matches_of r s = []"
  by (simp add: first_match_def split: list.split)

text \<open>
  \<open>replace_all\<close>: from left to right, the text after a match is searched next. No rule matches the
  empty text, so an empty match is not looked for.
\<close>

function substitute :: "('a \<Rightarrow> char) \<Rightarrow> ('a list \<Rightarrow> 'a list) \<Rightarrow> regex \<Rightarrow> 'a list \<Rightarrow> 'a list" where
  "substitute ch f r xs =
     (case first_match r (map ch xs) of
        Some (Suc n) \<Rightarrow> f (take (Suc n) xs) @ substitute ch f r (drop (Suc n) xs)
      | _ \<Rightarrow> (case xs of [] \<Rightarrow> [] | y # ys \<Rightarrow> y # substitute ch f r ys))"
  by pat_completeness auto

termination
proof (relation "measure (\<lambda>(ch, f, r, xs). length xs)")
  show "wf (measure (\<lambda>(ch, f, r, xs). length xs))" by simp
next
  fix ch :: "'a \<Rightarrow> char" and f r xs o' n
  assume "first_match r (map ch xs) = Some n" and "n = Suc o'"
  then have "Suc o' \<le> length (map ch xs)" by (intro first_match_le [of r]) simp
  then show "((ch, f, r, drop (Suc o') xs), (ch, f, r, xs)) \<in> measure (\<lambda>(ch, f, r, xs). length xs)" by simp
qed auto

declare substitute.simps [simp del]

definition replace_all :: "regex \<Rightarrow> (string \<Rightarrow> string) \<Rightarrow> string \<Rightarrow> string" where
  "replace_all r f s = substitute (\<lambda>c. c) f r s"

section \<open>Matching is local\<close>

text \<open>The texts a rule matches as a whole.\<close>

definition accepts :: "regex \<Rightarrow> string \<Rightarrow> bool" where
  "accepts r t \<longleftrightarrow> length t \<in> set (matches_of r t)"

lemma takeWhile_local: "n \<le> length t \<Longrightarrow> n \<le> length (takeWhile p (t @ u)) \<longleftrightarrow> n \<le> length (takeWhile p t)"
proof (induction t arbitrary: n)
  case Nil
  then show ?case by simp
next
  case (Cons c t)
  then show ?case by (cases n) auto
qed

lemma matches_local: "n \<le> length t \<Longrightarrow> n \<in> set (matches_of r (t @ u)) \<longleftrightarrow> n \<in> set (matches_of r t)"
proof (induction r arbitrary: n t)
  case Empty
  then show ?case by simp
next
  case (Greedy p lo hi)
  then show ?case
    using takeWhile_local [OF Greedy.prems, of p u]
    by (auto simp: Let_def less_Suc_eq_le split: option.splits)
next
  case (Seq a b)
  have "(\<exists>i\<in>set (matches_of a (t @ u)). \<exists>k\<in>set (matches_of b (drop i (t @ u))). n = i + k) \<longleftrightarrow>
      (\<exists>i\<in>set (matches_of a t). \<exists>k\<in>set (matches_of b (drop i t)). n = i + k)"
  proof -
    have "i \<in> set (matches_of a (t @ u)) \<and> k \<in> set (matches_of b (drop i (t @ u))) \<longleftrightarrow>
        i \<in> set (matches_of a t) \<and> k \<in> set (matches_of b (drop i t))" if "n = i + k" for i k
      using that Seq.prems Seq.IH(1) [of i t] Seq.IH(2) [of k "drop i t"] by auto
    then show ?thesis by blast
  qed
  then show ?case by auto
next
  case (Alt a b)
  then show ?case by auto
qed

lemma accepts_prefix: "accepts r t \<Longrightarrow> prefix t s \<Longrightarrow> first_match r s \<noteq> None"
proof -
  assume a: "accepts r t" and "prefix t s"
  then obtain u where s: "s = t @ u" by (auto simp: prefix_def)
  from a have "length t \<in> set (matches_of r s)"
    unfolding s using matches_local [of "length t" t r u] by (simp add: accepts_def)
  then show "first_match r s \<noteq> None" by (auto simp: first_match_None)
qed

lemma first_match_accepts: "first_match r s = Some n \<Longrightarrow> accepts r (take n s)"
proof -
  assume f: "first_match r s = Some n"
  then have "n \<le> length s" by (rule first_match_le)
  with first_match_mem [OF f] matches_local [of n "take n s" r "drop n s"] show "accepts r (take n s)"
    by (simp add: accepts_def min_absorb2)
qed

lemma is_match_iff: "is_match r s \<longleftrightarrow> (\<exists>t. sublist t s \<and> accepts r t)"
proof (induction s)
  case Nil
  have "matches_of r [] \<noteq> [] \<longleftrightarrow> 0 \<in> set (matches_of r [])"
    using match_length [of _ r "[]"] by (cases "matches_of r []") auto
  then show ?case by (auto simp: first_match_None accepts_def)
next
  case (Cons c s)
  have "first_match r (c # s) \<noteq> None \<longleftrightarrow> (\<exists>t. prefix t (c # s) \<and> accepts r t)"
  proof
    assume "first_match r (c # s) \<noteq> None"
    then obtain n where n: "first_match r (c # s) = Some n" by auto
    have "prefix (take n (c # s)) (c # s)" by (rule take_is_prefix)
    with first_match_accepts [OF n] show "\<exists>t. prefix t (c # s) \<and> accepts r t" by blast
  next
    assume "\<exists>t. prefix t (c # s) \<and> accepts r t"
    then show "first_match r (c # s) \<noteq> None" by (auto dest: accepts_prefix simp del: not_None_eq)
  qed
  with Cons show ?case by (auto simp: sublist_Cons_right)
qed

lemma accepts_Alt: "accepts (Alt a b) t \<longleftrightarrow> accepts a t \<or> accepts b t"
  by (simp add: accepts_def)

lemma accepts_Seq: "accepts (Seq a b) t \<longleftrightarrow> (\<exists>u v. t = u @ v \<and> accepts a u \<and> accepts b v)"
proof
  assume "accepts (Seq a b) t"
  then obtain i k where i: "i \<in> set (matches_of a t)" and k: "k \<in> set (matches_of b (drop i t))"
    and l: "length t = i + k"
    by (auto simp: accepts_def)
  then have "accepts a (take i t)" and "accepts b (drop i t)"
    using matches_local [of i "take i t" a "drop i t"] by (auto simp: accepts_def)
  then show "\<exists>u v. t = u @ v \<and> accepts a u \<and> accepts b v" by (intro exI [of _ "take i t"] exI [of _ "drop i t"]) simp
next
  assume "\<exists>u v. t = u @ v \<and> accepts a u \<and> accepts b v"
  then obtain u v where t: "t = u @ v" and "accepts a u" and v: "accepts b v" by blast
  then have "length u \<in> set (matches_of a t)" using matches_local [of "length u" u a v] by (simp add: accepts_def)
  with v show "accepts (Seq a b) t" unfolding accepts_def t by (force simp: image_iff)
qed

lemma accepts_Greedy:
  "accepts (Greedy p lo hi) t \<longleftrightarrow> list_all p t \<and> lo \<le> length t \<and> (case hi of None \<Rightarrow> True | Some h \<Rightarrow> length t \<le> h)"
proof -
  have "length t \<le> length (takeWhile p t) \<longleftrightarrow> list_all p t"
    by (metis length_takeWhile_le list_all_iff order_antisym takeWhile_eq_all_conv takeWhile_eq_take take_all)
  then show ?thesis by (auto simp: accepts_def Let_def less_Suc_eq_le split: option.splits)
qed

lemma accepts_Empty: "accepts Empty t \<longleftrightarrow> t = []"
  by (simp add: accepts_def)

lemmas accepts_simps = accepts_Empty accepts_Alt accepts_Seq accepts_Greedy

section \<open>What a substitution leaves\<close>

text \<open>Characters with a mark: whether they were inserted.\<close>

type_synonym marked = "(char \<times> bool) list"

definition kept :: "marked \<Rightarrow> bool" where
  "kept m \<longleftrightarrow> (\<forall>x \<in> set m. \<not> snd x)"

definition mark :: "bool \<Rightarrow> string \<Rightarrow> marked" where
  "mark b s = map (\<lambda>c. (c, b)) s"

definition insert_marked :: "(string \<Rightarrow> string) \<Rightarrow> marked \<Rightarrow> marked" where
  "insert_marked f m = mark True (f (map fst m))"

definition replace_marked :: "regex \<Rightarrow> (string \<Rightarrow> string) \<Rightarrow> marked \<Rightarrow> marked" where
  "replace_marked r f m = substitute fst (insert_marked f) r m"

lemma fst_mark [simp]: "map fst (mark b s) = s"
  by (simp add: mark_def comp_def)

lemma kept_mark [simp]: "kept (mark b s) \<longleftrightarrow> s = [] \<or> \<not> b"
  by (cases s) (auto simp: kept_def mark_def)

lemma kept_simps [simp]: "kept []" "kept (x # m) \<longleftrightarrow> \<not> snd x \<and> kept m"
  by (auto simp: kept_def)

lemma substitute_match:
  "first_match r (map ch xs) = Some (Suc n) \<Longrightarrow>
     substitute ch f r xs = f (take (Suc n) xs) @ substitute ch f r (drop (Suc n) xs)"
  by (simp add: substitute.simps)

lemma substitute_skip:
  "first_match r (map ch (x # xs)) \<in> {None, Some 0} \<Longrightarrow> substitute ch f r (x # xs) = x # substitute ch f r xs"
  by (subst substitute.simps) auto

lemma substitute_Nil: "substitute ch f r [] = []"
proof -
  have "first_match r [] \<noteq> Some (Suc n)" for n using match_length first_match_mem by fastforce
  then show ?thesis by (subst substitute.simps) (auto split: option.splits nat.splits)
qed

text \<open>The induction that follows the search.\<close>

lemma substitute_induct [case_names empty match skip]:
  assumes "P []"
    and "\<And>xs n. xs \<noteq> [] \<Longrightarrow> first_match r (map ch xs) = Some (Suc n) \<Longrightarrow> P (drop (Suc n) xs) \<Longrightarrow> P xs"
    and "\<And>x xs. first_match r (map ch (x # xs)) \<in> {None, Some 0} \<Longrightarrow> P xs \<Longrightarrow> P (x # xs)"
  shows "P xs"
proof (induction xs rule: length_induct)
  case (1 xs)
  show ?case
  proof (cases xs)
    case Nil
    with assms(1) show ?thesis by simp
  next
    case (Cons x ys)
    show ?thesis
    proof (cases "first_match r (map ch xs) \<in> {None, Some 0}")
      case True
      with 1 Cons assms(3) [of x ys] show ?thesis by simp
    next
      case False
      then obtain n where "first_match r (map ch xs) = Some (Suc n)" by (cases "first_match r (map ch xs)") (auto simp: gr0_conv_Suc)
      with 1 Cons assms(2) [of xs n] show ?thesis by simp
    qed
  qed
qed

lemma replace_match:
  "first_match r (map fst m) = Some (Suc n) \<Longrightarrow>
     replace_marked r f m = mark True (f (map fst (take (Suc n) m))) @ replace_marked r f (drop (Suc n) m)"
  unfolding replace_marked_def by (subst substitute_match) (simp_all only: insert_marked_def)

lemma replace_skip:
  "first_match r (map fst (x # m)) \<in> {None, Some 0} \<Longrightarrow> replace_marked r f (x # m) = x # replace_marked r f m"
  unfolding replace_marked_def by (rule substitute_skip)

lemma replace_Nil [simp]: "replace_marked r f [] = []"
  unfolding replace_marked_def by (rule substitute_Nil)

lemma replace_marked_text: "map fst (replace_marked r f m) = replace_all r f (map fst m)"
  unfolding replace_marked_def replace_all_def
proof (induction m rule: substitute_induct [where r = r and ch = fst])
  case empty
  show ?case by (simp add: substitute_Nil)
next
  case (match m n)
  then have "first_match r (map (\<lambda>c. c) (map fst m)) = Some (Suc n)" by simp
  from substitute_match [OF match(2)] substitute_match [OF this] match(3) show ?case
    by (simp add: insert_marked_def take_map drop_map)
next
  case (skip x m)
  then have "first_match r (map (\<lambda>c. c) (map fst (x # m))) \<in> {None, Some 0}" by simp
  with substitute_skip [OF skip(1)] substitute_skip [of r "\<lambda>c. c" "fst x" "map fst m"] skip(2) show ?case by simp
qed

text \<open>A stretch of kept characters of the result is a stretch of the text.\<close>

lemma kept_prefix_append:
  assumes "kept v" and "prefix v (mark True s @ m)" and "s \<noteq> []"
  shows "v = []"
  using assms by (cases v; cases s) (auto simp: mark_def)

lemma kept_sublist_append:
  assumes "kept v" and "v \<noteq> []" and "sublist v (mark True s @ m)"
  shows "sublist v m"
  using assms(3)
proof (induction s)
  case Nil
  then show ?case by (simp add: mark_def)
next
  case (Cons c s)
  then have "prefix v ((c, True) # mark True s @ m) \<or> sublist v (mark True s @ m)"
    by (simp add: mark_def sublist_Cons_right)
  with assms(1,2) Cons.IH show ?case by (cases v) auto
qed

lemma replace_kept_prefix:
  assumes "\<And>t. f t \<noteq> []" and "kept v" and "prefix v (replace_marked r f m)"
  shows "prefix v m"
  using assms(2,3)
proof (induction m arbitrary: v rule: substitute_induct [where r = r and ch = fst])
  case empty
  then show ?case by simp
next
  case (match m n)
  then have "prefix v (mark True (f (map fst (take (Suc n) m))) @ replace_marked r f (drop (Suc n) m))"
    by (simp only: replace_match [OF match(2)])
  from kept_prefix_append [OF match.prems(1) this assms(1)] show ?case by simp
next
  case (skip x m)
  then show ?case by (cases v) (auto simp: replace_skip)
qed

lemma replace_kept:
  assumes "\<And>t. f t \<noteq> []" and "kept v" and "sublist v (replace_marked r f m)"
  shows "sublist v m"
  using assms(3)
proof (induction m rule: substitute_induct [where r = r and ch = fst])
  case empty
  then show ?case by simp
next
  case (match m n)
  show ?case
  proof (cases "v = []")
    case False
    from match have "sublist v (mark True (f (map fst (take (Suc n) m))) @ replace_marked r f (drop (Suc n) m))"
      by (simp only: replace_match [OF match(2)])
    from kept_sublist_append [OF assms(2) False this] have "sublist v (drop (Suc n) m)" by (rule match)
    then show ?thesis by (metis append_take_drop_id sublist_append_leftI sublist_order.order.trans sublist_appendI)
  qed simp
next
  case (skip x m)
  then have "prefix v (x # replace_marked r f m) \<or> sublist v (replace_marked r f m)"
    by (simp add: replace_skip sublist_Cons_right)
  then show ?case
  proof
    assume p: "prefix v (x # replace_marked r f m)"
    show ?thesis
    proof (cases v)
      case (Cons y w)
      with p assms(2) have "y = x" and "kept w" and "prefix w (replace_marked r f m)"
        by auto
      with replace_kept_prefix [OF assms(1)] Cons have "prefix v (x # m)" by simp
      then show ?thesis by (rule prefix_imp_sublist)
    qed simp
  next
    assume "sublist v (replace_marked r f m)"
    with skip(2) show ?thesis by (simp add: sublist_Cons_right)
  qed
qed

text \<open>No kept stretch of the result is matched by the rule that was applied.\<close>

lemma replace_cleans:
  assumes "\<And>t. f t \<noteq> []" and "\<not> accepts r []" and "kept v" and "sublist v (replace_marked r f m)"
  shows "\<not> accepts r (map fst v)"
  using assms(4)
proof (induction m rule: substitute_induct [where r = r and ch = fst])
  case empty
  with assms(2) show ?case by simp
next
  case (match m n)
  show ?case
  proof (cases "v = []")
    case True
    with assms(2) show ?thesis by simp
  next
    case False
    from match have "sublist v (mark True (f (map fst (take (Suc n) m))) @ replace_marked r f (drop (Suc n) m))"
      by (simp only: replace_match [OF match(2)])
    from kept_sublist_append [OF assms(3) False this] show ?thesis by (rule match)
  qed
next
  case (skip x m)
  then have "prefix v (x # replace_marked r f m) \<or> sublist v (replace_marked r f m)"
    by (simp add: replace_skip sublist_Cons_right)
  then show ?case
  proof
    assume "prefix v (x # replace_marked r f m)"
    then have "prefix v (replace_marked r f (x # m))" using skip by (simp add: replace_skip)
    with replace_kept_prefix [OF assms(1,3)] have "prefix v (x # m)" by simp
    then have p: "prefix (map fst v) (map fst (x # m))" by (rule map_mono_prefix)
    show ?thesis
    proof
      assume a: "accepts r (map fst v)"
      from accepts_prefix [OF this p] skip(1) have "first_match r (map fst (x # m)) = Some 0" by auto
      from first_match_accepts [OF this] assms(2) show False by simp
    qed
  next
    assume "sublist v (replace_marked r f m)"
    then show ?thesis by (rule skip)
  qed
qed

end
