(* ===== verification/Redaction.thy ===== *)
theory Redaction
  imports Rust_Regex
begin

text \<open>
  \<open>normalizer-worker/src/redact.rs\<close>: the secret redaction that runs over parsed evidence before it is
  stored. The hash function (\<open>DefaultHasher\<close>, whose algorithm the library leaves unspecified) is a
  parameter. An object is an association list; the order of its keys does not matter here, because
  the identifiers of the rules that fired are sorted.
\<close>

section \<open>The rules\<close>

definition char_is :: "char \<Rightarrow> regex" where
  "char_is c = Greedy (\<lambda>x. x = c) 1 (Some 1)"

fun exactly :: "string \<Rightarrow> regex" where
  "exactly [] = Empty"
| "exactly (c # cs) = Seq (char_is c) (exactly cs)"

text \<open>\<open>(?i)\<close> on a literal.\<close>

definition ascii_lower :: "char \<Rightarrow> char" where
  "ascii_lower c = (let n = of_char c :: int in if 65 \<le> n \<and> n \<le> 90 then char_of (n + 32) else c)"

fun any_case :: "string \<Rightarrow> regex" where
  "any_case [] = Empty"
| "any_case (c # cs) = Seq (Greedy (\<lambda>x. ascii_lower x = c) 1 (Some 1)) (any_case cs)"

definition optional :: "regex \<Rightarrow> regex" where
  "optional r = Alt r Empty"

fun seqs :: "regex list \<Rightarrow> regex" where
  "seqs [] = Empty"
| "seqs (r # rs) = Seq r (seqs rs)"

definition digit :: "char \<Rightarrow> bool" where
  "digit c = (let n = of_char c :: int in 48 \<le> n \<and> n \<le> 57)"

definition upper :: "char \<Rightarrow> bool" where
  "upper c = (let n = of_char c :: int in 65 \<le> n \<and> n \<le> 90)"

definition lower :: "char \<Rightarrow> bool" where
  "lower c = (let n = of_char c :: int in 97 \<le> n \<and> n \<le> 122)"

definition alnum :: "char \<Rightarrow> bool" where
  "alnum c \<longleftrightarrow> lower c \<or> upper c \<or> digit c"

text \<open>\<open>\s\<close> and Rust's \<open>char::is_whitespace\<close>.\<close>

definition white :: "char \<Rightarrow> bool" where
  "white c = (let n = of_char c :: int in (9 \<le> n \<and> n \<le> 13) \<or> n = 32 \<or> n = 133 \<or> n = 160)"

definition assigned :: regex where
  "assigned = seqs [Greedy white 0 None, Greedy (\<lambda>c. c \<in> set ''=:'') 1 (Some 1), Greedy white 0 None]"

definition RULES :: "(string \<times> regex) list" where
  "RULES =
     [(''aws_access_key_id'', Seq (exactly ''AKIA'') (Greedy (\<lambda>c. digit c \<or> upper c) 16 (Some 16))),
      (''aws_secret_access_key'',
         seqs [any_case ''aws_secret_access_key'', assigned, Greedy (\<lambda>c. alnum c \<or> c \<in> set ''/+'') 40 (Some 40)]),
      (''private_key_pem'',
         seqs [exactly ''-----BEGIN '',
               optional (Alt (exactly ''RSA '') (Alt (exactly ''EC '') (Alt (exactly ''OPENSSH '') (exactly ''DSA '')))),
               exactly ''PRIVATE KEY-----'']),
      (''jwt'',
         seqs [exactly ''eyJ'', Greedy (\<lambda>c. alnum c \<or> c \<in> set ''_-'') 6 None, exactly ''.'',
               Greedy (\<lambda>c. alnum c \<or> c \<in> set ''_-'') 6 None, exactly ''.'',
               Greedy (\<lambda>c. alnum c \<or> c \<in> set ''_-'') 6 None]),
      (''bearer_token'',
         seqs [any_case ''bearer'', Greedy white 1 None, Greedy (\<lambda>c. alnum c \<or> c \<in> set ''._-'') 12 None]),
      (''github_pat'', Seq (exactly ''ghp_'') (Greedy alnum 36 (Some 36))),
      (''slack_token'',
         seqs [exactly ''xox'', Greedy (\<lambda>c. c \<in> set ''baprs'') 1 (Some 1), exactly ''-'',
               Greedy (\<lambda>c. alnum c \<or> c = CHR ''-'') 10 None]),
      (''password_assignment'',
         seqs [Alt (any_case ''password'') (Alt (any_case ''passwd'') (any_case ''pwd'')), assigned,
               Greedy (\<lambda>c. \<not> white c \<and> c \<notin> {CHR 0x22, CHR 0x27}) 6 None]),
      (''generic_secret_assignment'',
         seqs [Alt (seqs [any_case ''api'', Greedy (\<lambda>c. c \<in> set ''_-'') 0 (Some 1), any_case ''key''])
                   (Alt (any_case ''secret'') (any_case ''token'')), assigned,
               Greedy (\<lambda>c. alnum c \<or> c \<in> set ''/+_-'') 16 None])]"

section \<open>Redacting\<close>

type_synonym hasher = "string \<Rightarrow> 64 word"

definition stable_hash :: "hasher \<Rightarrow> string \<Rightarrow> string" where
  "stable_hash h s = hex_fixed 8 (unat (and (h s) 0xffffffff))"

definition token_for :: "hasher \<Rightarrow> string \<Rightarrow> string \<Rightarrow> string" where
  "token_for h rule s = ''REDACTED:'' @ rule @ '':'' @ stable_hash h s"

definition apply_rule :: "hasher \<Rightarrow> string \<times> string list \<Rightarrow> string \<times> regex \<Rightarrow> string \<times> string list" where
  "apply_rule h state rule =
     (case state of (out, applied) \<Rightarrow> case rule of (rule_id, re) \<Rightarrow>
      if is_match re out then (replace_all re (token_for h rule_id) out, applied @ [rule_id]) else (out, applied))"

definition redact_str :: "hasher \<Rightarrow> string \<Rightarrow> string \<times> string list" where
  "redact_str h input = foldl (apply_rule h) (input, []) RULES"

fun walk :: "hasher \<Rightarrow> pyval \<Rightarrow> pyval \<times> string list" where
  "walk h (PyStr s) = (case redact_str h s of (red, ids) \<Rightarrow> if ids \<noteq> [] then (PyStr red, ids) else (PyStr s, []))"
| "walk h (PyList xs) = (let ws = map (walk h) xs in (PyList (map fst ws), concat (map snd ws)))"
| "walk h (PyDict d) =
     (let ws = map (\<lambda>(k, v). (k, walk h v)) d in
      (PyDict (map (\<lambda>(k, w). (k, fst w)) ws), concat (map (\<lambda>(k, w). snd w) ws)))"
| "walk h v = (v, [])"

definition redact_value :: "hasher \<Rightarrow> pyval \<Rightarrow> pyval \<times> string list" where
  "redact_value h v = (case walk h v of (v', applied) \<Rightarrow> (v', remdups_adj (sort applied)))"

section \<open>Strings\<close>

text \<open>The same redaction on marked text.\<close>

definition redact_marked :: "hasher \<Rightarrow> string \<Rightarrow> marked" where
  "redact_marked h s = foldl (\<lambda>m (rule_id, re). replace_marked re (token_for h rule_id) m) (mark False s) RULES"

lemma token_nonempty: "token_for h rule s \<noteq> []"
  by (simp add: token_for_def)

lemma replace_all_no_match: "\<not> is_match re s \<Longrightarrow> replace_all re f s = s"
  unfolding replace_all_def
proof (induction s)
  case Nil
  show ?case by (rule substitute_Nil)
next
  case (Cons c s)
  then show ?case by (simp add: substitute_skip)
qed

lemma fold_marked:
  "map fst (foldl (\<lambda>m (rule_id, re). replace_marked re (token_for h rule_id) m) m rules) =
     fst (foldl (apply_rule h) (map fst m, ids) rules)"
proof (induction rules arbitrary: m ids)
  case Nil
  show ?case by simp
next
  case (Cons rule rules)
  obtain rule_id re where rule: "rule = (rule_id, re)" by (cases rule)
  show ?case
    using Cons [of "replace_marked re (token_for h rule_id) m"]
    by (cases "is_match re (map fst m)")
      (simp_all add: rule apply_rule_def replace_marked_text replace_all_no_match)
qed

lemma redact_marked_text: "map fst (redact_marked h s) = fst (redact_str h s)"
  using fold_marked [of h "mark False s" RULES "[]"] by (simp add: redact_marked_def redact_str_def)

lemma fold_kept:
  assumes "kept v" and "sublist v (foldl (\<lambda>m (rule_id, re). replace_marked re (token_for h rule_id) m) m rules)"
  shows "sublist v m"
  using assms(2)
proof (induction rules arbitrary: m)
  case Nil
  then show ?case by simp
next
  case (Cons rule rules)
  obtain rule_id re where rule: "rule = (rule_id, re)" by (cases rule)
  from Cons.prems have "sublist v (foldl (\<lambda>m (rule_id, re). replace_marked re (token_for h rule_id) m)
      (replace_marked re (token_for h rule_id) m) rules)" by (simp add: rule)
  then have "sublist v (replace_marked re (token_for h rule_id) m)" by (rule Cons.IH)
  then show ?case by (rule replace_kept [OF token_nonempty assms(1)])
qed

lemma fold_cleans:
  assumes "kept v" and "sublist v (foldl (\<lambda>m (rule_id, re). replace_marked re (token_for h rule_id) m) m rules)"
    and "(rule, r) \<in> set rules" and "\<not> accepts r []"
  shows "\<not> accepts r (map fst v)"
  using assms(2,3)
proof (induction rules arbitrary: m)
  case Nil
  then show ?case by simp
next
  case (Cons x rules)
  obtain rule_id re where x: "x = (rule_id, re)" by (cases x)
  show ?case
  proof (cases "(rule, r) \<in> set rules")
    case True
    with Cons show ?thesis by (simp add: x)
  next
    case False
    with Cons.prems(2) x have r: "re = r" "rule_id = rule" by auto
    from Cons.prems(1) have "sublist v (foldl (\<lambda>m (rule_id, re). replace_marked re (token_for h rule_id) m)
        (replace_marked r (token_for h rule) m) rules)" by (simp add: x r)
    then have "sublist v (replace_marked r (token_for h rule) m)" by (rule fold_kept [OF assms(1)])
    then show ?thesis by (rule replace_cleans [OF token_nonempty assms(4,1)])
  qed
qed

lemma rules_nonempty: "(rule, r) \<in> set RULES \<Longrightarrow> \<not> accepts r []"
  by (auto simp: RULES_def accepts_simps char_is_def)

lemma redacted_clean:
  assumes "(rule, r) \<in> set RULES" and "sublist v (redact_marked h s)" and "kept v"
  shows "\<not> accepts r (map fst v) \<and> sublist (map fst v) s"
proof -
  have "sublist v (mark False s)" by (rule fold_kept [OF assms(3) assms(2) [unfolded redact_marked_def]])
  then have "sublist (map fst v) (map fst (mark False s))" by (rule map_mono_sublist)
  moreover have "\<not> accepts r (map fst v)"
    by (rule fold_cleans [OF assms(3) assms(2) [unfolded redact_marked_def] assms(1) rules_nonempty [OF assms(1)]])
  ultimately show ?thesis by simp
qed

section \<open>Values\<close>

fun leaves :: "pyval \<Rightarrow> string list" where
  "leaves (PyStr s) = [s]"
| "leaves (PyList xs) = concat (map leaves xs)"
| "leaves (PyDict d) = concat (map (\<lambda>(k, v). leaves v) d)"
| "leaves v = []"

text \<open>A value without its strings.\<close>

fun skeleton :: "pyval \<Rightarrow> pyval" where
  "skeleton (PyStr s) = PyStr []"
| "skeleton (PyList xs) = PyList (map skeleton xs)"
| "skeleton (PyDict d) = PyDict (map (\<lambda>(k, v). (k, skeleton v)) d)"
| "skeleton v = v"

lemma fold_untouched: "snd (foldl (apply_rule h) (s, ids) rules) = ids \<Longrightarrow> fst (foldl (apply_rule h) (s, ids) rules) = s"
proof (induction rules arbitrary: s ids)
  case Nil
  then show ?case by simp
next
  case (Cons rule rules)
  have grows: "prefix ids (snd (foldl (apply_rule h) (s, ids) rules))" for s ids
    by (induction rules arbitrary: s ids)
      (auto simp: apply_rule_def split: prod.split dest: append_prefixD)
  obtain rule_id re where rule: "rule = (rule_id, re)" by (cases rule)
  show ?case
  proof (cases "is_match re s")
    case True
    then have step: "apply_rule h (s, ids) rule = (replace_all re (token_for h rule_id) s, ids @ [rule_id])"
      by (simp add: rule apply_rule_def)
    from Cons.prems grows [of "ids @ [rule_id]" "replace_all re (token_for h rule_id) s"] show ?thesis
      by (auto simp: step prefix_def)
  next
    case False
    with Cons show ?thesis by (simp add: rule apply_rule_def)
  qed
qed

lemma redact_str_untouched: "snd (redact_str h s) = [] \<Longrightarrow> fst (redact_str h s) = s"
  unfolding redact_str_def by (rule fold_untouched)

lemma walk_shape:
  "skeleton (fst (walk h v)) = skeleton v \<and> leaves (fst (walk h v)) = map (\<lambda>s. fst (redact_str h s)) (leaves v) \<and>
     snd (walk h v) = concat (map (\<lambda>s. snd (redact_str h s)) (leaves v))"
proof (induction v rule: leaves.induct)
  case (1 s)
  then show ?case using redact_str_untouched [of h s] by (auto split: prod.split)
next
  case (2 xs)
  then show ?case by (induction xs) simp_all
next
  case (3 d)
  then have "\<And>k w. (k, w) \<in> set d \<Longrightarrow> skeleton (fst (walk h w)) = skeleton w \<and>
      leaves (fst (walk h w)) = map (\<lambda>s. fst (redact_str h s)) (leaves w) \<and>
      snd (walk h w) = concat (map (\<lambda>s. snd (redact_str h s)) (leaves w))" by blast
  then show ?case
  proof (induction d)
    case Nil
    show ?case by simp
  next
    case (Cons p d)
    have "skeleton (fst (walk h (PyDict d))) = skeleton (PyDict d) \<and>
      leaves (fst (walk h (PyDict d))) = map (\<lambda>s. fst (redact_str h s)) (leaves (PyDict d)) \<and>
      snd (walk h (PyDict d)) = concat (map (\<lambda>s. snd (redact_str h s)) (leaves (PyDict d)))"
      by (rule Cons.IH, rule Cons.prems [OF list.set_intros(2)])
    with Cons.prems [of "fst p" "snd p"] show ?case by (cases p) simp
  qed
qed simp_all

section \<open>Properties\<close>

text \<open>
  C9. No secret survives redaction: in a redacted string, with the inserted characters marked, no
  stretch of kept characters is a text that any of the nine rules matches, whatever order the
  secrets come in and however they overlap; and every kept stretch is a stretch of the input.
\<close>

theorem redaction_leaves_no_secret:
  assumes "(rule, r) \<in> set RULES" and "sublist v (redact_marked h s)" and "kept v"
  shows "map fst (redact_marked h s) = fst (redact_str h s) \<and> \<not> accepts r (map fst v) \<and> sublist (map fst v) s"
  using redacted_clean [OF assms] redact_marked_text by simp

lemma sample_redacted:
  "redact_marked (\<lambda>s. 0) ''my AKIA0123456789ABCDEF'' =
     mark False ''my '' @ mark True ''REDACTED:aws_access_key_id:00000000''"
  by code_simp

theorem redaction_leaves_no_secret_witness:
  "fst (redact_str (\<lambda>s. 0) ''my AKIA0123456789ABCDEF'') = ''my REDACTED:aws_access_key_id:00000000'' \<and>
   list_all (\<lambda>(rule, r). \<not> accepts r ''my '') RULES"
proof -
  have v: "sublist (mark False ''my '') (redact_marked (\<lambda>s. 0) ''my AKIA0123456789ABCDEF'')"
    unfolding sample_redacted by (rule sublist_append_rightI)
  have "fst (redact_str (\<lambda>s. 0) ''my AKIA0123456789ABCDEF'') =
      map fst (mark False ''my '' @ mark True ''REDACTED:aws_access_key_id:00000000'')"
    using redact_marked_text [of "\<lambda>s. 0" "''my AKIA0123456789ABCDEF''"] by (simp add: sample_redacted)
  moreover have "\<not> accepts r ''my ''" if "(rule, r) \<in> set RULES" for rule r
    using redaction_leaves_no_secret [OF that v] by simp
  ultimately show ?thesis by (auto simp: list_all_iff)
qed

text \<open>
  C25. Redacting a value changes its strings and nothing else: the skeleton of the value stays (also
  the keys of its objects, which are not redacted), every string is redacted on its own, and the
  list returned is the sorted set of the rules that fired in any of them.
\<close>

theorem redact_value_exact:
  "skeleton (fst (redact_value h v)) = skeleton v \<and>
   leaves (fst (redact_value h v)) = map (\<lambda>s. fst (redact_str h s)) (leaves v) \<and>
   set (snd (redact_value h v)) = (\<Union>s \<in> set (leaves v). set (snd (redact_str h s))) \<and>
   sorted (snd (redact_value h v)) \<and> distinct (snd (redact_value h v))"
proof -
  obtain w ids where w: "walk h v = (w, ids)" by fastforce
  with walk_shape [of h v] sorted_remdups_adj [of "sort ids"] show ?thesis by (simp add: redact_value_def)
qed

end
