(* ===== verification/Connectors.thy ===== *)
theory Connectors
  imports Domains Bundle
begin

text \<open>
  \<open>connectors/base.py\<close> and the four connectors: pull-mode readers that produce evidence blobs. Each
  has its class attributes and its \<open>collect\<close>; the readers behind it are the placeholders the code
  has. The clock, \<open>uuid4\<close> and \<open>isoformat\<close> are given by the environment, indexed by their use, and so is
  whether the deferred import of the vendor's package succeeds. The contract of the base class, one
  blob per artifact, is the locale \<open>connector\<close>.
\<close>

section \<open>json.dumps on one line\<close>

fun json_line :: "pyval \<Rightarrow> string"
  and json_line_items :: "pydict \<Rightarrow> string list" where
  "json_line PyNone = ''null''"
| "json_line (PyBool b) = (if b then ''true'' else ''false'')"
| "json_line (PyInt i) = int_str i"
| "json_line (PyFloat v r) = json_float v r"
| "json_line (PyStr s) = json_str s"
| "json_line (PyList xs) = ''['' @ str_join '', '' (map json_line xs) @ '']''"
| "json_line (PyDict d) = ''{'' @ str_join '', '' (json_line_items d) @ ''}''"
| "json_line_items [] = []"
| "json_line_items ((k, v) # d) = (json_str k @ '': '' @ json_line v) # json_line_items d"

text \<open>\<open>.encode()\<close>; \<open>json.dumps\<close> yields ASCII.\<close>

definition encode :: "string \<Rightarrow> bytes" where
  "encode s = map of_char s"

section \<open>The base class\<close>

record connector_target =
  tg_identifier :: string
  tg_credentials_ref :: "string option"
  tg_metadata :: pydict

record evidence_blob =
  bl_source_tool :: string
  bl_source_tool_version :: string
  bl_category :: string
  bl_collected_at :: datetime
  bl_raw :: bytes
  bl_id :: uuid
  bl_scope :: pydict

definition init_subclass :: "string \<Rightarrow> string \<Rightarrow> string \<Rightarrow> unit res" where
  "init_subclass cls name category =
     (if name = [] \<or> category = []
      then Inl (TypeError (cls @ '' must set class attributes `name` and `category`''))
      else Inr ())"

record connector_env =
  cn_now :: "nat \<Rightarrow> datetime"
  cn_uuid4 :: "nat \<Rightarrow> uuid"
  cn_iso :: "datetime \<Rightarrow> string"
  cn_installed :: "string \<Rightarrow> bool"

definition import_module :: "connector_env \<Rightarrow> string \<Rightarrow> unit res" where
  "import_module env m =
     (if cn_installed env m then Inr () else Inl (OtherError (''No module named '' @ str_repr m)))"

section \<open>aws\<close>

definition aws_category :: string where
  "aws_category = ''cloud''"

definition SERVICES :: "string list" where
  "SERVICES = [''iam'', ''s3'', ''ec2'', ''vpc'', ''cloudtrail'', ''config'']"

definition aws_read :: "string \<Rightarrow> connector_target \<Rightarrow> pyval" where
  "aws_read service t =
     PyDict [(''service'', PyStr service), (''account_id'', PyStr (tg_identifier t)), (''items'', PyList [])]"

definition aws_blob :: "connector_env \<Rightarrow> connector_target \<Rightarrow> nat \<Rightarrow> string \<Rightarrow> evidence_blob" where
  "aws_blob env t i svc =
     \<lparr>bl_source_tool = ''aws.'' @ svc, bl_source_tool_version = ''auditcore-aws/0.1.0'', bl_category = ''cloud'',
      bl_collected_at = cn_now env i, bl_raw = encode (json_line (aws_read svc t)), bl_id = cn_uuid4 env i,
      bl_scope = [(''aws_account_id'', PyStr (tg_identifier t)), (''service'', PyStr svc)]\<rparr>"

definition aws_collect :: "connector_env \<Rightarrow> connector_target \<Rightarrow> evidence_blob list res" where
  "aws_collect env t =
     bindE (import_module env ''boto3'') (\<lambda>_. Inr (map (\<lambda>(i, svc). aws_blob env t i svc) (enumerate 0 SERVICES)))"

section \<open>kubernetes\<close>

definition kubernetes_category :: string where
  "kubernetes_category = ''kubernetes''"

definition RESOURCES :: "string list" where
  "RESOURCES =
     [''rbac.roles'', ''rbac.rolebindings'', ''rbac.clusterroles'', ''rbac.clusterrolebindings'',
      ''core.namespaces'', ''core.pods'', ''networking.networkpolicies'', ''policy.podsecuritypolicies'']"

definition kubernetes_list :: "string \<Rightarrow> connector_target \<Rightarrow> pyval" where
  "kubernetes_list resource t =
     PyDict [(''resource'', PyStr resource), (''cluster'', PyStr (tg_identifier t)), (''items'', PyList [])]"

definition kubernetes_blob :: "connector_env \<Rightarrow> connector_target \<Rightarrow> nat \<Rightarrow> string \<Rightarrow> evidence_blob" where
  "kubernetes_blob env t i r =
     \<lparr>bl_source_tool = ''k8s.'' @ r, bl_source_tool_version = ''auditcore-k8s/0.1.0'', bl_category = ''kubernetes'',
      bl_collected_at = cn_now env i, bl_raw = encode (json_line (kubernetes_list r t)), bl_id = cn_uuid4 env i,
      bl_scope = [(''cluster'', PyStr (tg_identifier t)), (''resource'', PyStr r)]\<rparr>"

definition kubernetes_collect :: "connector_env \<Rightarrow> connector_target \<Rightarrow> evidence_blob list res" where
  "kubernetes_collect env t =
     bindE (import_module env ''kubernetes'') (\<lambda>_.
       Inr (map (\<lambda>(i, r). kubernetes_blob env t i r) (enumerate 0 RESOURCES)))"

section \<open>postgres\<close>

definition postgres_category :: string where
  "postgres_category = ''database''"

definition QUERIES :: "(string \<times> string) list" where
  "QUERIES =
     [(''pg_stat_statements'',
       ''SELECT queryid, calls, total_exec_time, rows, '' @ ''       query '' @ ''  FROM pg_stat_statements ''
       @ '' ORDER BY total_exec_time DESC LIMIT 200''),
      (''indexes'',
       ''SELECT schemaname, relname, indexrelname, idx_scan, idx_tup_read '' @ ''  FROM pg_stat_user_indexes ''
       @ '' ORDER BY idx_scan ASC LIMIT 500''),
      (''replication'', ''SELECT application_name, state, sync_state, replay_lag '' @ ''  FROM pg_stat_replication''),
      (''settings'', ''SELECT name, setting, unit, source '' @ ''  FROM pg_settings '' @ '' WHERE name = ANY(%s)'')]"

definition postgres_run :: "string \<Rightarrow> connector_target \<Rightarrow> pyval" where
  "postgres_run name t =
     PyDict [(''query'', PyStr name), (''db'', PyStr (tg_identifier t)), (''rows'', PyList [])]"

definition postgres_blob :: "connector_env \<Rightarrow> connector_target \<Rightarrow> nat \<Rightarrow> string \<Rightarrow> evidence_blob" where
  "postgres_blob env t i name =
     \<lparr>bl_source_tool = ''postgres.'' @ name, bl_source_tool_version = ''auditcore-postgres/0.1.0'',
      bl_category = ''database'', bl_collected_at = cn_now env i, bl_raw = encode (json_line (postgres_run name t)),
      bl_id = cn_uuid4 env i, bl_scope = [(''db'', PyStr (tg_identifier t)), (''query'', PyStr name)]\<rparr>"

definition postgres_collect :: "connector_env \<Rightarrow> connector_target \<Rightarrow> evidence_blob list res" where
  "postgres_collect env t =
     bindE (import_module env ''psycopg'') (\<lambda>_.
       Inr (map (\<lambda>(i, name). postgres_blob env t i name) (enumerate 0 (map fst QUERIES))))"

section \<open>prometheus\<close>

definition prometheus_category :: string where
  "prometheus_category = ''performance''"

definition DEFAULT_QUERIES :: "(string \<times> string) list" where
  "DEFAULT_QUERIES =
     [(''cpu_busy_pct_avg'', ''avg by (instance) (1 - rate(node_cpu_seconds_total{mode=\"idle\"}[5m]))''),
      (''memory_used_pct'', ''1 - (node_memory_MemAvailable_bytes / node_memory_MemTotal_bytes)''),
      (''disk_io_util_pct'', ''rate(node_disk_io_time_seconds_total[5m])''),
      (''net_errs_per_sec'', ''rate(node_network_receive_errs_total[5m]) + '' @ ''rate(node_network_transmit_errs_total[5m])''),
      (''load1'', ''node_load1'')]"

text \<open>The window in microseconds, as datetimes are.\<close>

definition WINDOW :: int where
  "WINDOW = 24 * 3600 * 1000000"

definition STEP :: string where
  "STEP = ''5m''"

definition query_range :: "connector_env \<Rightarrow> string \<Rightarrow> datetime \<Rightarrow> datetime \<Rightarrow> pyval" where
  "query_range env promql start stop =
     PyDict [(''status'', PyStr ''stub''), (''query'', PyStr promql), (''start'', PyStr (cn_iso env start)),
       (''end'', PyStr (cn_iso env stop)), (''data'', PyDict [(''result'', PyList [])])]"

definition prometheus_blob ::
  "connector_env \<Rightarrow> connector_target \<Rightarrow> datetime \<Rightarrow> datetime \<Rightarrow> nat \<Rightarrow> string \<times> string \<Rightarrow> evidence_blob" where
  "prometheus_blob env t start stop i query =
     (case query of (name, promql) \<Rightarrow>
     \<lparr>bl_source_tool = ''prometheus.'' @ name, bl_source_tool_version = ''auditcore-prometheus/0.1.0'',
      bl_category = ''performance'', bl_collected_at = stop,
      bl_raw = encode (json_line (query_range env promql start stop)), bl_id = cn_uuid4 env i,
      bl_scope = [(''prometheus_url'', PyStr (tg_identifier t)), (''query'', PyStr promql),
        (''window_hours'', PyInt (WINDOW div 3600000000)), (''step'', PyStr STEP)]\<rparr>)"

definition prometheus_collect :: "connector_env \<Rightarrow> connector_target \<Rightarrow> evidence_blob list res" where
  "prometheus_collect env t =
     bindE (import_module env ''httpx'') (\<lambda>_.
       let stop = cn_now env 0; start = stop - WINDOW in
       Inr (map (\<lambda>(i, query). prometheus_blob env t start stop i query) (enumerate 0 DEFAULT_QUERIES)))"

section \<open>The contract of a connector\<close>

text \<open>
  What the ingestion side relies on: one blob per artifact, in a fixed order and under distinct
  tool names, each of the class's category, with its own identifier and the target in its scope.
\<close>

locale connector =
  fixes collect :: "connector_env \<Rightarrow> connector_target \<Rightarrow> evidence_blob list res"
    and category :: string
    and tools :: "string list"
  assumes tools_distinct: "distinct tools"
    and category_bound: "binding_for category \<noteq> None"
    and one_per_artifact: "collect env t = Inr bs \<Longrightarrow> map bl_source_tool bs = tools"
    and own_category: "collect env t = Inr bs \<Longrightarrow> b \<in> set bs \<Longrightarrow> bl_category b = category"
    and own_ids: "collect env t = Inr bs \<Longrightarrow> map bl_id bs = map (cn_uuid4 env) [0..<length tools]"
    and names_target: "collect env t = Inr bs \<Longrightarrow> b \<in> set bs \<Longrightarrow> PyStr (tg_identifier t) \<in> snd ` set (bl_scope b)"
begin

lemma distinct_ids:
  assumes "collect env t = Inr bs" and "inj_on (cn_uuid4 env) {..<length tools}"
  shows "distinct (map bl_id bs)"
  unfolding own_ids [OF assms(1)] using assms(2) by (simp add: distinct_map inj_on_def)

lemma described:
  assumes "collect env t = Inr bs" and "b \<in> set bs"
  shows "\<exists>bd. binding_for (bl_category b) = Some bd"
  using category_bound own_category [OF assms] by auto

lemma contract:
  assumes "collect env t = Inr bs" and "inj_on (cn_uuid4 env) {..<n}" and "length tools \<le> n"
  shows "distinct (map bl_id bs) \<and> distinct (map bl_source_tool bs) \<and>
    (\<forall>b \<in> set bs. (\<exists>bd. binding_for (bl_category b) = Some bd) \<and> PyStr (tg_identifier t) \<in> snd ` set (bl_scope b))"
  using distinct_ids [OF assms(1) inj_on_subset [OF assms(2)]] assms(3) tools_distinct one_per_artifact [OF assms(1)] described [OF assms(1)]
    names_target [OF assms(1)] by simp

end

lemma map_enumerate_snd: "map (\<lambda>(i, x). f x) (enumerate n xs) = map f xs"
  by (induction xs arbitrary: n) simp_all

lemma map_enumerate_fst: "map (\<lambda>(i, x). f i) (enumerate n xs) = map f [n..<n + length xs]"
proof (induction xs arbitrary: n)
  case (Cons x xs)
  have "[n..<n + length (x # xs)] = n # [Suc n..<Suc n + length xs]" by (simp add: upt_rec)
  with Cons show ?case by simp
qed simp

text \<open>A \<open>collect\<close> that maps its artifacts to blobs one by one keeps the contract.\<close>

lemma connector_of_blobs:
  assumes collect: "\<And>env t. collect env t = bindE (import_module env m) (\<lambda>_.
        Inr (map (\<lambda>(i, x). blob env t i x) (enumerate 0 xs)))"
    and tool: "\<And>env t i x. bl_source_tool (blob env t i x) = tool x"
    and ident: "\<And>env t i x. bl_id (blob env t i x) = cn_uuid4 env i"
    and categ: "\<And>env t i x. bl_category (blob env t i x) = category"
    and scope: "\<And>env t i x. PyStr (tg_identifier t) \<in> snd ` set (bl_scope (blob env t i x))"
    and dist: "distinct (map tool xs)" and bound: "binding_for category \<noteq> None"
  shows "connector collect category (map tool xs)"
proof unfold_locales
  fix env t bs b assume "collect env t = Inr bs"
  then have bs: "bs = map (\<lambda>(i, x). blob env t i x) (enumerate 0 xs)" by (auto simp: collect)
  show "map bl_source_tool bs = map tool xs"
    unfolding bs map_map comp_def using map_enumerate_snd [of tool 0 xs] by (simp add: case_prod_unfold tool)
  show "map bl_id bs = map (cn_uuid4 env) [0..<length (map tool xs)]"
    unfolding bs map_map comp_def using map_enumerate_fst [of "cn_uuid4 env" 0 xs] by (simp add: case_prod_unfold ident)
  assume "b \<in> set bs"
  then show "bl_category b = category" "PyStr (tg_identifier t) \<in> snd ` set (bl_scope b)"
    using scope by (auto simp: bs categ)
qed (rule dist, rule bound)

lemmas blob_defs = aws_blob_def kubernetes_blob_def postgres_blob_def prometheus_blob_def

lemmas category_defs = aws_category_def kubernetes_category_def postgres_category_def prometheus_category_def

lemmas binding_defs = binding_for_def CATEGORY_BINDINGS_def

interpretation aws: connector aws_collect aws_category "map (\<lambda>s. ''aws.'' @ s) SERVICES"
  by (rule connector_of_blobs [where blob = aws_blob, OF aws_collect_def])
    (simp_all add: blob_defs category_defs binding_defs SERVICES_def)

interpretation kubernetes: connector kubernetes_collect kubernetes_category "map (\<lambda>r. ''k8s.'' @ r) RESOURCES"
  by (rule connector_of_blobs [where blob = kubernetes_blob, OF kubernetes_collect_def])
    (simp_all add: blob_defs category_defs binding_defs RESOURCES_def)

interpretation postgres: connector postgres_collect postgres_category "map (\<lambda>n. ''postgres.'' @ n) (map fst QUERIES)"
  by (rule connector_of_blobs [where blob = postgres_blob, OF postgres_collect_def])
    (simp_all add: blob_defs category_defs binding_defs QUERIES_def)

interpretation prometheus: connector prometheus_collect prometheus_category
  "map (\<lambda>q. ''prometheus.'' @ fst q) DEFAULT_QUERIES"
  by (rule connector_of_blobs
      [where blob = "\<lambda>env t. prometheus_blob env t (cn_now env 0 - WINDOW) (cn_now env 0)",
        OF prometheus_collect_def [unfolded Let_def]])
    (simp_all add: blob_defs category_defs binding_defs DEFAULT_QUERIES_def split: prod.splits)

section \<open>The four connectors together\<close>

text \<open>
  A connector returns blobs that keep the contract when its vendor package is installed, and raises
  otherwise.
\<close>

lemma connectors_contract:
  assumes "(collect, m) \<in> {(aws_collect, ''boto3''), (kubernetes_collect, ''kubernetes''),
      (postgres_collect, ''psycopg''), (prometheus_collect, ''httpx'')}"
    and "inj_on (cn_uuid4 env) {..<8}"
  shows "if cn_installed env m
    then \<exists>bs. collect env t = Inr bs \<and> bs \<noteq> [] \<and> distinct (map bl_id bs) \<and> distinct (map bl_source_tool bs) \<and>
      (\<forall>b \<in> set bs. (\<exists>bd. binding_for (bl_category b) = Some bd) \<and> PyStr (tg_identifier t) \<in> snd ` set (bl_scope b))
    else \<exists>e. collect env t = Inl e"
proof -
  from assms(1) have "if cn_installed env m then \<exists>bs. collect env t = Inr bs \<and> bs \<noteq> [] else \<exists>e. collect env t = Inl e"
    by (auto simp: aws_collect_def kubernetes_collect_def postgres_collect_def prometheus_collect_def import_module_def
        Let_def SERVICES_def RESOURCES_def QUERIES_def DEFAULT_QUERIES_def)
  moreover from assms(1) have "distinct (map bl_id bs) \<and> distinct (map bl_source_tool bs) \<and>
      (\<forall>b \<in> set bs. (\<exists>bd. binding_for (bl_category b) = Some bd) \<and> PyStr (tg_identifier t) \<in> snd ` set (bl_scope b))"
    if "collect env t = Inr bs" for bs
    using aws.contract [OF _ assms(2)] kubernetes.contract [OF _ assms(2)] postgres.contract [OF _ assms(2)]
      prometheus.contract [OF _ assms(2)] that
    by (auto simp: SERVICES_def RESOURCES_def QUERIES_def DEFAULT_QUERIES_def)
  ultimately show ?thesis by auto
qed

definition sample_connector_env :: connector_env where
  "sample_connector_env = \<lparr>cn_now = (\<lambda>n. 0), cn_uuid4 = (\<lambda>n. of_nat n), cn_iso = (\<lambda>t. []), cn_installed = (\<lambda>m. m = ''httpx'')\<rparr>"

definition sample_target :: connector_target where
  "sample_target = \<lparr>tg_identifier = ''https://prometheus'', tg_credentials_ref = None, tg_metadata = []\<rparr>"

end
