(* ===== verification/Worker.thy ===== *)
theory Worker
  imports Lifecycle Parsers Redaction Connectors
begin

text \<open>
  The normalizer worker as it is shipped: \<open>storage.rs\<close>, the registry of parsers, the redaction and
  the environment of \<open>normalize_one\<close> they make up. The lemmas say which evidence becomes visible to
  the discovery pass, in what form, and which never does.
\<close>

section \<open>storage.rs\<close>

definition parse_s3_uri :: "string \<Rightarrow> (string \<times> string) res" where
  "parse_s3_uri uri =
     (if \<not> prefix ''s3://'' uri then Inl (OtherError (''not an s3:// URI: '' @ uri))
      else (case split_once (CHR ''/'') (drop 5 uri) of
              None \<Rightarrow> Inl (OtherError (''s3 URI missing key: '' @ uri))
            | Some p \<Rightarrow> Inr p))"

text \<open>\<open>get_object\<close> and reading the body are the client's; the bucket and the key come from the URI.\<close>

definition fetch_object :: "(string \<Rightarrow> string \<Rightarrow> bytes res) \<Rightarrow> string \<Rightarrow> bytes res" where
  "fetch_object s3 uri = bindE (parse_s3_uri uri) (\<lambda>(bucket, key). s3 bucket key)"

lemma parse_s3_uri_of_parts:
  "CHR ''/'' \<notin> set bucket \<Longrightarrow> parse_s3_uri (''s3://'' @ bucket @ ''/'' @ key) = Inr (bucket, key)"
proof -
  assume b: "CHR ''/'' \<notin> set bucket"
  have "takeWhile (\<lambda>x. x \<noteq> CHR ''/'') (bucket @ ''/'' @ key) = bucket"
    and "dropWhile (\<lambda>x. x \<noteq> CHR ''/'') (bucket @ ''/'' @ key) = CHR ''/'' # key"
    using b by (induction bucket) auto
  then show ?thesis by (simp add: parse_s3_uri_def split_once_def)
qed

section \<open>The environment\<close>

definition worker_audit :: "pending_evidence \<Rightarrow> rat \<Rightarrow> audit_metadata" where
  "worker_audit ev confidence = [(''tool'', AText (pe_source_tool ev)), (''confidence'', AFloat confidence)]"

definition worker_env :: "decoders \<Rightarrow> hasher \<Rightarrow> (string \<Rightarrow> string \<Rightarrow> bytes res) \<Rightarrow> uuid \<Rightarrow> normalizer_env" where
  "worker_env dc h s3 tenant =
     \<lparr>ne_tenant = tenant, ne_parsers = registry_get dc, ne_redact = (\<lambda>v. fst (redact_value h v)),
      ne_fetch = fetch_object s3, ne_audit = worker_audit\<rparr>"

lemma worker_env_simps [simp]:
  "ne_tenant (worker_env dc h s3 tenant) = tenant" "ne_parsers (worker_env dc h s3 tenant) = registry_get dc"
  "ne_redact (worker_env dc h s3 tenant) v = fst (redact_value h v)"
  "ne_fetch (worker_env dc h s3 tenant) = fetch_object s3" "ne_audit (worker_env dc h s3 tenant) = worker_audit"
  by (simp_all add: worker_env_def)

section \<open>What a worker stores is redacted\<close>

definition redacted_evidence :: "hasher \<Rightarrow> db \<Rightarrow> bool" where
  "redacted_evidence h d \<longleftrightarrow> (\<forall>e \<in> set (db_evidence d). \<forall>v. ei_parsed e = Some v \<longrightarrow> (\<exists>w. v = fst (redact_value h w)))"

lemma redacted_same: "redacted_evidence h d \<Longrightarrow> db_evidence d' = db_evidence d \<Longrightarrow> redacted_evidence h d'"
  by (simp add: redacted_evidence_def)

lemma upsert_hint_evidence: "upsert_hint tenant rid hint d = (r, d') \<Longrightarrow> db_evidence d' = db_evidence d"
  by (cases hint) (auto simp: upsert_hint_def elim!: bindC_cases upsert_asset_cases)

lemma redacted_parsed:
  assumes "redacted_evidence h d" and "write_parsed eid aid (fst (redact_value h w)) c d = (r, d')"
  shows "redacted_evidence h d'"
  using assms(2)
proof (cases rule: write_parsed_cases)
  case unchanged
  with assms(1) show ?thesis by simp
next
  case parsed
  have "ei_parsed (parsed_row aid (fst (redact_value h w)) c e) = Some (fst (redact_value h w))" for e
    by (simp add: parsed_row_def)
  with assms(1) parsed show ?thesis unfolding redacted_evidence_def by fastforce
qed

lemma insert_audit_evidence: "insert_audit a d = (r, d') \<Longrightarrow> db_evidence d' = db_evidence d"
  by (auto simp: insert_audit_def)

lemma normalize_one_redacts:
  assumes "redacted_evidence h d"
  shows "redacted_evidence h (snd (normalize_one (worker_env dc h s3 tenant) ev d))"
proof -
  have "redacted_evidence h d'" if s: "store_result (worker_env dc h s3 tenant) ev result d = (r, d')" for result r d'
  proof -
    from s consider e where "upsert_hint tenant (pe_run_id ev) (pr_hint result) d = (Inl e, d')"
      | aid d1 e where "upsert_hint tenant (pe_run_id ev) (pr_hint result) d = (Inr aid, d1)"
        and "write_parsed (pe_id ev) aid (fst (redact_value h (pr_parsed result))) (pr_confidence result) d1 = (Inl e, d')"
      | aid d1 u d2 a where "upsert_hint tenant (pe_run_id ev) (pr_hint result) d = (Inr aid, d1)"
        and "write_parsed (pe_id ev) aid (fst (redact_value h (pr_parsed result))) (pr_confidence result) d1 = (Inr u, d2)"
        and "insert_audit a d2 = (r, d')"
      by (auto simp: store_result_def elim!: bindC_cases)
    then show ?thesis
      using assms by cases (metis redacted_same redacted_parsed upsert_hint_evidence insert_audit_evidence)+
  qed
  then have "redacted_evidence h (snd (store_result (worker_env dc h s3 tenant) ev result d))" for result
    by (metis prod.collapse)
  moreover obtain y where "fetch_run_scope (pe_run_id ev) d = (y, d)" by (rule fetch_run_scope_reads)
  ultimately show ?thesis
    using assms by (cases y) (auto simp: normalize_one_def bindC_def split: option.split sum.split)
qed

lemma normalize_all_redacts:
  "redacted_evidence h d \<Longrightarrow> redacted_evidence h (normalize_all (worker_env dc h s3 tenant) evs d)"
  by (induction evs arbitrary: d) (simp_all add: normalize_one_redacts)

lemma drain_redacts:
  "redacted_evidence h d \<Longrightarrow> redacted_evidence h (snd (drain_pending (worker_env dc h s3 tenant) run d))"
  by (simp add: drain_pending_def Let_def normalize_all_redacts)

section \<open>A registered tool's evidence is parsed\<close>

text \<open>The host of a scope: known to the tenant, or the tenant exists and the new identifier is free.\<close>

definition host_known :: "uuid \<Rightarrow> pyval \<Rightarrow> db \<Rightarrow> bool" where
  "host_known tenant scope d \<longleftrightarrow> (tenant, host_key scope) \<in> asset_key ` set (db_assets d)"

definition host_storable :: "uuid \<Rightarrow> pyval \<Rightarrow> db \<Rightarrow> bool" where
  "host_storable tenant scope d \<longleftrightarrow> host_known tenant scope d \<or> \<not> has_asset d (db_gen d (db_next d)) \<and> has_tenant d tenant"

lemma host_hint_fields [simp]:
  "ah_type (host_hint scope attributes) = ''host''" "ah_natural_key (host_hint scope attributes) = host_key scope"
  "ah_attributes (host_hint scope attributes) = attributes"
  by (simp_all add: host_hint_def host_key_def split: prod.split)

text \<open>A host's row after an upsert: a new row of the run, or the old one with the attributes added to it.\<close>

definition host_stored :: "db \<Rightarrow> uuid \<Rightarrow> uuid \<Rightarrow> pyval \<Rightarrow> pyval \<Rightarrow> asset_rec \<Rightarrow> bool" where
  "host_stored d tenant rid scope attributes a \<longleftrightarrow>
     (case find (\<lambda>x. asset_key x = (tenant, host_key scope)) (db_assets d) of
        None \<Rightarrow> asset_run_id a = rid \<and> asset_attributes a = attributes
      | Some old \<Rightarrow> asset_id a = asset_id old \<and> asset_run_id a = asset_run_id old \<and>
          asset_attributes a = jsonb_concat (asset_attributes old) attributes)"

lemma host_stored_new:
  "host_stored d tenant rid scope attributes a \<Longrightarrow> \<not> host_known tenant scope d \<Longrightarrow>
     asset_attributes a = attributes \<and> asset_run_id a = rid"
  by (auto simp: host_stored_def host_known_def find_Some_iff image_iff split: option.splits) (metis nth_mem)+

lemma same_host: "same_asset tenant (host_hint scope attributes) = (\<lambda>x. asset_key x = (tenant, host_key scope))"
  by (simp add: same_asset_def asset_key_def fun_eq_iff)

lemma upsert_host:
  assumes "host_storable tenant scope d" and "has_run d rid"
  obtains a d' where "upsert_asset tenant rid (host_hint scope attributes) d = (Inr (asset_id a), d')"
    and "a \<in> set (db_assets d')" and "asset_key a = (tenant, host_key scope)"
    and "db_evidence d' = db_evidence d" and "db_runs d' = db_runs d"
    and "host_stored d tenant rid scope attributes a"
proof -
  let ?hint = "host_hint scope attributes"
  have kind: "asset_type_of (ah_type ?hint) = Some HOST" by (simp add: asset_type_of_def all_asset_types_def)
  show thesis
  proof (cases "find (same_asset tenant ?hint) (db_assets d)")
    case None
    then have new: "\<not> host_known tenant scope d"
      by (auto simp: host_known_def find_None_iff same_asset_def asset_key_def)
    let ?a = "new_asset tenant rid ?hint HOST d"
    let ?d = "d\<lparr>db_assets := db_assets d @ [?a], db_next := Suc (db_next d)\<rparr>"
    from new assms have "\<not> has_asset d (asset_id ?a)" "has_tenant d (asset_tenant ?a)" by (simp_all add: host_storable_def new_asset_def)
    then have up: "upsert_asset tenant rid ?hint d = (Inr (asset_id ?a), ?d)"
      using None kind assms(2) by (simp add: upsert_asset_def insert_asset_def new_asset_def)
    have "host_stored d tenant rid scope attributes ?a"
      using None by (simp add: host_stored_def same_host new_asset_def)
    then show thesis by (intro that [OF up]) (simp_all add: new_asset_def asset_key_def)
  next
    case (Some a)
    then have a: "a \<in> set (db_assets d)" "same_asset tenant ?hint a" by (auto simp: find_Some_iff)
    let ?d = "d\<lparr>db_assets := map (\<lambda>x. if same_asset tenant ?hint x then seen_again d ?hint x else x) (db_assets d)\<rparr>"
    have up: "upsert_asset tenant rid ?hint d = (Inr (asset_id (seen_again d ?hint a)), ?d)"
      using Some kind by (simp add: upsert_asset_def seen_again_def)
    have mem: "seen_again d ?hint a \<in> set (db_assets ?d)" using a by force
    have key: "asset_key (seen_again d ?hint a) = (tenant, host_key scope)"
      using a(2) by (simp add: seen_again_def same_asset_def asset_key_def)
    have "host_stored d tenant rid scope attributes (seen_again d ?hint a)"
      using Some by (simp add: host_stored_def same_host seen_again_def)
    then show thesis by (intro that [OF up mem key]) simp_all
  qed
qed

text \<open>Evidence rows keep what identifies them, and a parsed row stays parsed.\<close>

definition row_kept :: "evidence_rec \<Rightarrow> evidence_rec \<Rightarrow> bool" where
  "row_kept e e' \<longleftrightarrow> ei_id e' = ei_id e \<and> ei_run_id e' = ei_run_id e \<and> ei_source_tool e' = ei_source_tool e \<and>
     ei_raw_ref e' = ei_raw_ref e \<and> ei_category e' = ei_category e \<and> (ei_parsed e \<noteq> None \<longrightarrow> ei_parsed e' \<noteq> None)"

definition parses_on :: "db \<Rightarrow> db \<Rightarrow> bool" where
  "parses_on d d' \<longleftrightarrow> db_runs d' = db_runs d \<and> list_all2 row_kept (db_evidence d) (db_evidence d')"

lemma parses_on_refl [simp]: "parses_on d d"
  by (simp add: parses_on_def row_kept_def list_all2_refl)

lemma parses_on_trans: "parses_on d e \<Longrightarrow> parses_on e f \<Longrightarrow> parses_on d f"
  unfolding parses_on_def by (auto simp: row_kept_def intro: list_all2_trans [of row_kept row_kept row_kept])

lemma parses_on_row: "parses_on d (d\<lparr>db_evidence := map (\<lambda>e. if ei_id e = eid then parsed_row aid v c e else e) (db_evidence d)\<rparr>)"
  by (simp add: parses_on_def row_kept_def list_all2_conv_all_nth parsed_row_def)

text \<open>One item of a registered tool whose bytes can be read.\<close>

lemma normalize_one_parses:
  assumes parser: "registry_get dc (pe_source_tool ev) = Some parser"
    and raw: "fetch_object s3 (pe_raw_ref ev) = Inr raw"
    and scope: "fetch_run_scope (pe_run_id ev) d = (Inr scope, d)"
    and host: "host_storable tenant scope d" and item: "pe_id ev \<in> ei_id ` set (db_evidence d)"
  obtains result attributes a d' where "parser raw (pe_version ev) scope = Inr result"
    and "pr_hint result = Some (host_hint scope attributes)"
    and "normalize_one (worker_env dc h s3 tenant) ev d = (Inr (), d')"
    and "a \<in> set (db_assets d')" and "asset_key a = (tenant, host_key scope)"
    and "host_stored d tenant (pe_run_id ev) scope attributes a"
    and "db_evidence d' = map (\<lambda>e. if ei_id e = pe_id ev
       then parsed_row (Some (asset_id a)) (fst (redact_value h (pr_parsed result))) (pr_confidence result) e else e) (db_evidence d)"
    and "db_runs d' = db_runs d"
proof -
  obtain result where p: "parser raw (pe_version ev) scope = Inr result"
    and c: "confidence_check (pr_confidence result)"
    and hint: "pr_hint result = Some (host_hint scope (ah_attributes (the (pr_hint result))))"
    by (rule host_parser.parse_returns [OF registered_host [OF parser]])
  let ?attributes = "ah_attributes (the (pr_hint result))"
  from scope have run: "has_run d (pe_run_id ev)"
    by (auto simp: fetch_run_scope_def has_run_def find_Some_iff image_iff split: option.splits) (metis nth_mem)
  obtain a d1 where up: "upsert_asset tenant (pe_run_id ev) (host_hint scope ?attributes) d = (Inr (asset_id a), d1)"
    and a: "a \<in> set (db_assets d1)" "asset_key a = (tenant, host_key scope)"
    and same: "db_evidence d1 = db_evidence d" "db_runs d1 = db_runs d"
    and new: "host_stored d tenant (pe_run_id ev) scope ?attributes a"
    by (rule upsert_host [OF host run])
  let ?v = "fst (redact_value h (pr_parsed result))"
  let ?d2 = "d1\<lparr>db_evidence := map (\<lambda>e. if ei_id e = pe_id ev
      then parsed_row (Some (asset_id a)) ?v (pr_confidence result) e else e) (db_evidence d1)\<rparr>"
  from a(1) have "has_asset d1 (asset_id a)" by (simp add: has_asset_def)
  with item c same(1) have w: "write_parsed (pe_id ev) (Some (asset_id a)) ?v (pr_confidence result) d1 = (Inr (), ?d2)"
    by (simp add: write_parsed_def)
  have hup: "upsert_hint tenant (pe_run_id ev) (pr_hint result) d = (Inr (Some (asset_id a)), d1)"
    by (subst hint) (simp add: upsert_hint_def bindC_def up)
  have "\<exists>d'. normalize_one (worker_env dc h s3 tenant) ev d = (Inr (), d') \<and> db_assets d' = db_assets d1 \<and>
      db_evidence d' = db_evidence ?d2 \<and> db_runs d' = db_runs d1"
    by (simp add: normalize_one_def store_result_def bindC_def parser raw scope p hup w insert_audit_def)
  then obtain d' where n: "normalize_one (worker_env dc h s3 tenant) ev d = (Inr (), d')" and d': "db_assets d' = db_assets d1"
    "db_evidence d' = db_evidence ?d2" "db_runs d' = db_runs d1" by (elim exE conjE)
  show thesis by (rule that [OF p hint n _ a(2) new]) (simp_all add: d' a(1) same)
qed

section \<open>A drain of a run\<close>

lemma fetch_scope_runs: "db_runs d' = db_runs d \<Longrightarrow> fetch_run_scope rid d = (Inr scope, d) \<Longrightarrow> fetch_run_scope rid d' = (Inr scope, d')"
  by (auto simp: fetch_run_scope_def split: option.splits)

lemma parsed_kept:
  assumes "parses_on d d'" and "\<forall>e \<in> set (db_evidence d). ei_id e = eid \<longrightarrow> ei_parsed e \<noteq> None"
  shows "\<forall>e \<in> set (db_evidence d'). ei_id e = eid \<longrightarrow> ei_parsed e \<noteq> None"
  using assms unfolding parses_on_def list_all2_conv_all_nth in_set_conv_nth Ball_def row_kept_def by metis

lemma parses_on_ids: "parses_on d d' \<Longrightarrow> ei_id ` set (db_evidence d') = ei_id ` set (db_evidence d)"
proof -
  assume "parses_on d d'"
  then have "map ei_id (db_evidence d) = map ei_id (db_evidence d')"
    by (auto simp: parses_on_def row_kept_def list_all2_conv_all_nth intro: nth_equalityI)
  then show ?thesis by (metis list.set_map)
qed

lemma normalize_all_parses:
  assumes "\<And>ev. ev \<in> set evs \<Longrightarrow> pe_run_id ev = rid \<and> pe_id ev \<in> ei_id ` set (db_evidence d)"
    and "\<And>ev. ev \<in> set evs \<Longrightarrow> registry_get dc (pe_source_tool ev) \<noteq> None \<Longrightarrow>
      \<exists>raw. fetch_object s3 (pe_raw_ref ev) = Inr raw"
    and "fetch_run_scope rid d = (Inr scope, d)" and "host_storable tenant scope d"
  shows "parses_on d (normalize_all (worker_env dc h s3 tenant) evs d) \<and>
    (\<forall>ev \<in> set evs. registry_get dc (pe_source_tool ev) \<noteq> None \<longrightarrow>
       (\<forall>e \<in> set (db_evidence (normalize_all (worker_env dc h s3 tenant) evs d)). ei_id e = pe_id ev \<longrightarrow> ei_parsed e \<noteq> None))"
  using assms
proof (induction evs arbitrary: d)
  case Nil
  show ?case by simp
next
  case (Cons ev evs)
  let ?env = "worker_env dc h s3 tenant"
  define d1 where "d1 = snd (normalize_one ?env ev d)"
  have step: "parses_on d d1 \<and> host_storable tenant scope d1 \<and> (registry_get dc (pe_source_tool ev) \<noteq> None \<longrightarrow>
      (\<forall>e \<in> set (db_evidence d1). ei_id e = pe_id ev \<longrightarrow> ei_parsed e \<noteq> None))"
  proof (cases "registry_get dc (pe_source_tool ev)")
    case None
    then have "d1 = d" by (simp add: d1_def normalize_one_def)
    with None Cons.prems(4) show ?thesis by simp
  next
    case (Some parser)
    with Cons.prems(2) [of ev] obtain raw where raw: "fetch_object s3 (pe_raw_ref ev) = Inr raw" by auto
    from Cons.prems(1) [of ev] Cons.prems(3) have scope: "fetch_run_scope (pe_run_id ev) d = (Inr scope, d)"
      and item: "pe_id ev \<in> ei_id ` set (db_evidence d)" by simp_all
    obtain result attributes a d' where "parser raw (pe_version ev) scope = Inr result"
      and "pr_hint result = Some (host_hint scope attributes)" and n: "normalize_one ?env ev d = (Inr (), d')"
      and a: "a \<in> set (db_assets d')" "asset_key a = (tenant, host_key scope)"
      and "host_stored d tenant (pe_run_id ev) scope attributes a"
      and ev': "db_evidence d' = map (\<lambda>e. if ei_id e = pe_id ev
         then parsed_row (Some (asset_id a)) (fst (redact_value h (pr_parsed result))) (pr_confidence result) e else e) (db_evidence d)"
      and runs: "db_runs d' = db_runs d"
      by (rule normalize_one_parses [OF Some raw scope Cons.prems(4) item, of h])
    from n have d1: "d1 = d'" by (simp add: d1_def)
    have "parses_on d d1"
      unfolding d1 by (simp add: parses_on_def runs ev' row_kept_def list_all2_conv_all_nth parsed_row_def)
    moreover from a have "host_storable tenant scope d1" unfolding d1 host_storable_def host_known_def by force
    moreover have "ei_parsed e \<noteq> None" if "e \<in> set (db_evidence d1)" and "ei_id e = pe_id ev" for e
      using that unfolding d1 ev' by (auto simp: parsed_row_def split: if_splits)
    ultimately show ?thesis by blast
  qed
  then have on: "parses_on d d1" by blast
  then have "db_runs d1 = db_runs d" by (simp add: parses_on_def)
  note rest = Cons.IH [of d1, OF _ _ fetch_scope_runs [OF this Cons.prems(3)]]
  have "parses_on d1 (normalize_all ?env evs d1) \<and>
    (\<forall>ev \<in> set evs. registry_get dc (pe_source_tool ev) \<noteq> None \<longrightarrow>
       (\<forall>e \<in> set (db_evidence (normalize_all ?env evs d1)). ei_id e = pe_id ev \<longrightarrow> ei_parsed e \<noteq> None))"
    using Cons.prems(1,2) parses_on_ids [OF on] step by (intro rest) auto
  with step show ?case
    unfolding normalize_all.simps d1_def [symmetric]
    by (auto intro: parses_on_trans simp del: not_None_eq dest: parsed_kept)
qed

definition pending_in :: "db \<Rightarrow> uuid \<Rightarrow> evidence_rec list" where
  "pending_in d rid = filter (\<lambda>e. ei_parsed e = None \<and> ei_run_id e = rid) (db_evidence d)"

lemma drain_parses_all:
  assumes scope: "fetch_run_scope rid d = (Inr scope, d)" and host: "host_storable tenant scope d"
    and few: "length (pending_in d rid) \<le> 500"
    and raw: "\<And>e. e \<in> set (pending_in d rid) \<Longrightarrow> registry_get dc (ei_source_tool e) \<noteq> None \<Longrightarrow>
      \<exists>raw. fetch_object s3 (ei_raw_ref e) = Inr raw"
    and d': "d' = snd (drain_pending (worker_env dc h s3 tenant) (Some rid) d)"
  shows "parses_on d d' \<and> (\<forall>ev \<in> set (map pending_of (pending_in d rid)). registry_get dc (pe_source_tool ev) \<noteq> None \<longrightarrow>
      (\<forall>e \<in> set (db_evidence d'). ei_id e = pe_id ev \<longrightarrow> ei_parsed e \<noteq> None))"
proof -
  let ?batch = "map pending_of (pending_in d rid)"
  have "fetch_pending (Some rid) 500 d = ?batch" using few by (simp add: fetch_pending_def pending_in_def)
  then have "d' = normalize_all (worker_env dc h s3 tenant) ?batch d" by (simp add: d' drain_pending_def)
  moreover have "parses_on d (normalize_all (worker_env dc h s3 tenant) ?batch d) \<and>
      (\<forall>ev \<in> set ?batch. registry_get dc (pe_source_tool ev) \<noteq> None \<longrightarrow>
       (\<forall>e \<in> set (db_evidence (normalize_all (worker_env dc h s3 tenant) ?batch d)). ei_id e = pe_id ev \<longrightarrow> ei_parsed e \<noteq> None))"
  proof (rule normalize_all_parses [OF _ _ scope host])
    fix ev assume "ev \<in> set ?batch"
    then obtain e0 where e0: "e0 \<in> set (pending_in d rid)" and ev: "ev = pending_of e0" by auto
    then show "pe_run_id ev = rid \<and> pe_id ev \<in> ei_id ` set (db_evidence d)" by (simp add: pending_of_def pending_in_def)
    assume "registry_get dc (pe_source_tool ev) \<noteq> None"
    with raw [OF e0] show "\<exists>raw. fetch_object s3 (pe_raw_ref ev) = Inr raw" by (simp add: ev pending_of_def)
  qed
  ultimately show ?thesis by simp
qed

lemma drain_parses:
  assumes scope: "fetch_run_scope rid d = (Inr scope, d)" and host: "host_storable tenant scope d"
    and few: "length (pending_in d rid) \<le> 500"
    and raw: "\<And>e. e \<in> set (pending_in d rid) \<Longrightarrow> registry_get dc (ei_source_tool e) \<noteq> None \<Longrightarrow>
      \<exists>raw. fetch_object s3 (ei_raw_ref e) = Inr raw"
    and d': "d' = snd (drain_pending (worker_env dc h s3 tenant) (Some rid) d)"
    and e: "e \<in> set (db_evidence d')"
    and run: "ei_run_id e = rid" and tool: "registry_get dc (ei_source_tool e) \<noteq> None"
  shows "ei_parsed e \<noteq> None"
proof -
  note all = drain_parses_all [OF scope host few raw d']
  then obtain e0 where e0: "e0 \<in> set (db_evidence d)" "row_kept e0 e"
    using e unfolding parses_on_def list_all2_conv_all_nth in_set_conv_nth by metis
  show ?thesis
  proof (cases "ei_parsed e0")
    case (Some v)
    with e0(2) show ?thesis by (simp add: row_kept_def)
  next
    case None
    with e0 run have "pending_of e0 \<in> set (map pending_of (pending_in d rid))" by (auto simp: pending_in_def row_kept_def)
    with all e e0(2) tool show ?thesis by (auto simp: pending_of_def row_kept_def)
  qed
qed

text \<open>Evidence of a tool without a parser stays as it is.\<close>

lemma normalize_unregistered:
  "(\<And>ev. ev \<in> set evs \<Longrightarrow> registry_get dc (pe_source_tool ev) = None) \<Longrightarrow>
     normalize_all (worker_env dc h s3 tenant) evs d = d"
  by (induction evs) (simp_all add: normalize_one_def)

section \<open>A pass without answers\<close>

text \<open>Commands that return from every state, with a value in \<open>Q\<close>.\<close>

definition returns :: "('s, 'a) cmd \<Rightarrow> ('a \<Rightarrow> bool) \<Rightarrow> bool" where
  "returns m Q \<longleftrightarrow> (\<forall>s. \<exists>x t. m s = (Inr x, t) \<and> Q x)"

lemma returns_bind: "returns m P \<Longrightarrow> (\<And>x. P x \<Longrightarrow> returns (f x) Q) \<Longrightarrow> returns (bindC m f) Q"
  unfolding returns_def bindC_def by (metis (mono_tags, lifting) prod.case sum.case(2))

lemma returns_return: "Q x \<Longrightarrow> returns (returnC x) Q"
  by (simp add: returns_def)

lemma returns_on_fst: "returns m Q \<Longrightarrow> returns (on_fst m) Q"
  unfolding returns_def on_fst_def by (metis prod.case)

lemma returns_on_snd: "returns m Q \<Longrightarrow> returns (on_snd m) Q"
  unfolding returns_def on_snd_def by (metis prod.case)

lemma returns_mapC: "(\<And>x. returns (m x) (\<lambda>y. True)) \<Longrightarrow> returns (mapC m xs) (\<lambda>ys. True)"
proof (induction xs)
  case Nil
  show ?case unfolding mapC.simps by (rule returns_return) simp
next
  case (Cons x xs)
  show ?case
    unfolding mapC.simps
    by (rule returns_bind [OF Cons.prems], rule returns_bind [OF Cons.IH [OF Cons.prems]], rule returns_return) simp
qed

lemma returns_methods:
  "returns (pg_evidence_for_category r c) (\<lambda>x. True)" "returns (pg_assets_for_run r) (\<lambda>x. True)"
  "returns (pg_categories_present r) (\<lambda>x. True)" "returns (pg_audit tenant r a md) (\<lambda>x. True)"
  "run_status_of st = Some x \<Longrightarrow> returns (pg_set_run_status r st) (\<lambda>x. True)"
  "returns (pg_write_observations tenant []) (\<lambda>x. True)"
  by (simp_all add: returns_def pg_evidence_for_category_def pg_assets_for_run_def pg_categories_present_def
      pg_audit_def transaction_def insert_audit_def pg_set_run_status_def pg_write_observations_def)

definition silent :: "'g gateway_client \<Rightarrow> bool" where
  "silent gw \<longleftrightarrow> (\<forall>a. returns (gw a) (\<lambda>r. \<not> py_truthy (gr_parsed r)))"

lemma silent_domain:
  assumes "silent gw"
  shows "returns (run_domain gw rid agent dmn evidence assets tenant budget privacy) (\<lambda>r. dr_observations r = [])"
  unfolding run_domain_def
proof (rule returns_bind)
  show "returns (gw (domain_request agent evidence assets tenant budget privacy)) (\<lambda>r. \<not> py_truthy (gr_parsed r))"
    using assms by (simp add: silent_def)
  fix result :: gateway_result
  assume "\<not> py_truthy (gr_parsed result)"
  then show "returns (liftC (read_domain_result rid agent dmn evidence assets result)) (\<lambda>r. dr_observations r = [])"
    by (simp add: returns_def read_domain_result_def)
qed

lemma silent_step:
  assumes "silent (ra_gateway ra)"
  shows "returns (agent_step (pg_repo tenant) ra assets report grp) (\<lambda>x. True)"
proof -
  obtain a dmn cats where grp: "grp = (a, dmn, cats)" by (cases grp)
  show ?thesis
  proof (cases "reg_contains (ra_registry ra) a")
    case False
    then show ?thesis by (simp add: grp agent_step_def returns_return)
  next
    case True
    then obtain agent where agent: "reg_get (ra_registry ra) a = Inr agent"
      using catalog.get_cases [of "ra_registry ra" a] by auto
    have run: "returns (on_snd (run_domain (ra_gateway ra) (ra_run_id ra) agent dmn evidence assets (ra_tenant_id ra)
        (ra_budget_hint ra) (ra_privacy ra))) (\<lambda>r. dr_observations r = [])" for evidence
      by (rule returns_on_snd [OF silent_domain [OF assms]])
    have chunks: "returns (mapC (\<lambda>cat. on_fst (pg_evidence_for_category (ra_run_id ra) cat)) cats) (\<lambda>x. True)"
      by (intro returns_mapC returns_on_fst returns_methods)
    have rest: "returns (bindC (on_snd (run_domain (ra_gateway ra) (ra_run_id ra) agent dmn evidence assets (ra_tenant_id ra)
        (ra_budget_hint ra) (ra_privacy ra))) (\<lambda>result.
          bindC (on_fst (pg_write_observations tenant (dr_observations result))) (\<lambda>written.
          bindC (on_fst (pg_audit tenant (ra_run_id ra) ''discovery.agent_run''
                   (agent_run_metadata a dmn (length evidence) written result))) (\<lambda>_.
          returnC (add_result a written result report))))) (\<lambda>x. True)" for evidence
      by (rule returns_bind [OF run], simp only:, rule returns_bind [OF returns_on_fst [OF returns_methods(6)]],
          rule returns_bind [OF returns_on_fst [OF returns_methods(4)]], rule returns_return) simp
    show ?thesis
      unfolding grp agent_step_def prod.case pg_repo_simps Let_def
      by (simp add: True agent, rule returns_bind [OF chunks]) (simp add: returns_return rest del: concat_eq_Nil_conv)
  qed
qed

lemma silent_loop:
  "silent (ra_gateway ra) \<Longrightarrow> returns (agent_loop (pg_repo tenant) ra assets report grps) (\<lambda>x. True)"
proof (induction grps arbitrary: report)
  case Nil
  show ?case unfolding agent_loop.simps by (rule returns_return) simp
next
  case (Cons grp grps)
  show ?case
    unfolding agent_loop.simps by (rule returns_bind [OF silent_step [OF Cons.prems]]) (rule Cons.IH [OF Cons.prems])
qed

lemma silent_pass:
  assumes "silent (ra_gateway ra)"
  obtains report w' where "discover_run (pg_repo tenant) ra w = (Inr report, w')"
proof -
  have "returns (discover_run (pg_repo tenant) ra) (\<lambda>x. True)"
    unfolding discover_run_def pg_repo_simps Let_def
    apply (rule returns_bind [OF returns_on_fst [OF returns_methods(5) [of _ DISCOVERING]]])
     apply (simp add: run_status_of_def all_run_statuses_def)
    apply (rule returns_bind [OF returns_on_fst [OF returns_methods(3)]])
    apply (rule returns_bind [OF returns_on_fst [OF returns_methods(2)]])
    apply (simp split: prod.split)
    apply (intro allI impI)
    apply (rule returns_bind [OF silent_loop [OF assms]])
    apply (rule returns_bind [OF returns_on_fst [OF returns_methods(5) [of _ REPORTING]]])
     apply (simp add: run_status_of_def all_run_statuses_def)
    apply (rule returns_bind [OF returns_on_fst [OF returns_methods(4)]])
    apply (rule returns_return)
    apply simp
    done
  then show thesis using that unfolding returns_def by blast
qed

section \<open>Properties\<close>

text \<open>
  What ingestion writes the normalizer finds: the reference in every evidence row an upload
  adds is a URI that the worker takes apart into the bucket of the object store and the key under
  which the upload put the item's bytes.
\<close>

lemma uploaded_reference_resolves:
  assumes "ingest_bundle mi adapt cfg parse stamp rid data w = (Inr r, w')" and "CHR ''/'' \<notin> set (is_bucket cfg)"
    and "e \<in> set (db_evidence (snd w')) - set (db_evidence (snd w))"
  shows "parse_s3_uri (ei_raw_ref e) = Inr (is_bucket cfg, item_key rid (ei_id e))"
proof -
  from assms(1) obtain b w1 where w1: "snd w1 = snd w"
    and blk: "ingest_block mi adapt cfg rid (bundle_key rid stamp) b w1 = (Inr (ir_accepted_items r), w')"
    by (rule ingest_bundle_returned)
  from ingest_block_adds [OF blk] w1 obtain rows where rows: "new_rows adapt cfg rid (snd w) (bu_items b) rows"
    "db_evidence (snd w') = db_evidence (snd w) @ rows" by auto
  with assms(3) have "e \<in> set rows" by auto
  with rows(1) have "ei_raw_ref e = ''s3://'' @ is_bucket cfg @ ''/'' @ item_key rid (ei_id e)"
    by (auto simp: new_rows_def received_def)
  with parse_s3_uri_of_parts [OF assms(2)] show ?thesis by simp
qed

lemma uploaded_reference_resolves_witness:
  "\<exists>w' e. sample_ingest ((False, ()), empty_run_db) =
      (Inr \<lparr>ir_run_id = 9, ir_accepted_items = 1, ir_status = ''normalizing''\<rparr>, w') \<and> e \<in> set (db_evidence (snd w')) \<and>
    parse_s3_uri (ei_raw_ref e) = Inr (is_bucket sample_cfg, item_key 9 (ei_id e))"
proof -
  obtain w' where r: "sample_ingest ((False, ()), empty_run_db) =
      (Inr \<lparr>ir_run_id = 9, ir_accepted_items = 1, ir_status = ''normalizing''\<rparr>, w')"
    by (rule sample_ingest_returns)
  have none: "db_evidence (snd ((False, ()), empty_run_db)) = []" by (simp add: empty_run_db_def)
  from r [unfolded sample_ingest_def] obtain b w1 where "snd w1 = snd ((False, ()), empty_run_db)"
    and "ingest_block sample_minio sample_adapt sample_cfg 9 (bundle_key 9 ''20260101T000000Z'') b w1 = (Inr 1, w')"
    by (rule ingest_bundle_returned) simp
  with ingest_block_adds [of sample_minio sample_adapt sample_cfg 9 _ b w1 1 w'] none obtain e where
    e: "e \<in> set (db_evidence (snd w'))" by (cases "db_evidence (snd w')") auto
  have "CHR ''/'' \<notin> set (is_bucket sample_cfg)" by (simp add: sample_cfg_def)
  from uploaded_reference_resolves [OF r [unfolded sample_ingest_def] this] e r none show ?thesis by auto
qed

text \<open>
  C10. Everything the worker stores as parsed evidence is redacted: if every parsed value in the
  database is the redaction of some value, the same holds after a drain, whatever the tools printed,
  whichever items fail and in whatever order the batch is handled.
\<close>

theorem drain_keeps_redacted:
  assumes "redacted_evidence h d"
  shows "redacted_evidence h (snd (drain_pending (worker_env dc h s3 tenant) run d)) \<and>
    redacted_evidence h (normalize_all (worker_env dc h s3 tenant) evs d)"
  using drain_redacts [OF assms] normalize_all_redacts [OF assms] by blast

text \<open>
  From the upload to the agent: when a run has at most 500 pending items, their bytes can be
  fetched and the host's row can be stored, one drain of the run parses every item of a registered
  tool; the discovery pass that follows, when it returns, has run the agent bound to the item's
  category (if the registry has it).
\<close>

lemma drained_run_reaches_agents:
  assumes "fetch_run_scope (ra_run_id ra) d = (Inr scope, d)" and "host_storable tenant scope d"
    and "length (pending_in d (ra_run_id ra)) \<le> 500"
    and "\<And>e. e \<in> set (pending_in d (ra_run_id ra)) \<Longrightarrow> registry_get dc (ei_source_tool e) \<noteq> None \<Longrightarrow>
      \<exists>raw. fetch_object s3 (ei_raw_ref e) = Inr raw"
    and "d1 = snd (drain_pending (worker_env dc h s3 tenant) (Some (ra_run_id ra)) d)"
    and "discover_run (pg_repo tenant) ra (d1, g) = (Inr report, w')"
    and "e \<in> set (db_evidence d1)" and "ei_run_id e = ra_run_id ra" and "registry_get dc (ei_source_tool e) \<noteq> None"
    and "binding_for (ei_category e) = Some b" and "reg_contains (ra_registry ra) (db_agent b)"
  shows "ei_parsed e \<noteq> None \<and> db_agent b \<in> set (rr_domains_run report)"
proof -
  have p: "ei_parsed e \<noteq> None"
    by (rule drain_parses [OF assms(1-4,5,7-9)])
  with assms(7,8) have "ei_category e \<in> set (rv_categories (pg_view (fst (d1, g))) (ra_run_id ra))"
    by (auto simp: pg_view_def run_evidence_def)
  from pg.categories_covered [OF assms(6) this] assms(10,11) p show ?thesis by simp
qed

text \<open>The run of \<open>sample_db\<close> before its item was parsed; a worker over tools that print nothing.\<close>

definition pending_db :: db where
  "pending_db = sample_db\<lparr>db_evidence :=
     map (\<lambda>e. e\<lparr>ei_parsed := None, ei_asset_id := None, ei_raw_ref := ''s3://b/k''\<rparr>) (db_evidence sample_db)\<rparr>"

definition quiet_decoders :: decoders where
  "quiet_decoders = \<lparr>dc_text = (\<lambda>b. []), dc_json = (\<lambda>b. None)\<rparr>"

definition quiet_worker :: normalizer_env where
  "quiet_worker = worker_env quiet_decoders (\<lambda>s. 0) (\<lambda>bucket key. Inr []) 5"

definition silent_args :: "unit run_args" where
  "silent_args = sample_args\<lparr>ra_gateway := (\<lambda>a. returnC (sample_result\<lparr>gr_parsed := PyNone\<rparr>))\<rparr>"

lemma drained_run_reaches_agents_witness:
  "\<exists>report w'. discover_run (pg_repo 5) silent_args (snd (drain_pending quiet_worker (Some 9) pending_db), ()) = (Inr report, w') \<and>
     ''hardware'' \<in> set (rr_domains_run report)"
proof -
  let ?d1 = "snd (drain_pending quiet_worker (Some 9) pending_db)"
  have "silent (ra_gateway silent_args)"
    by (simp add: silent_def returns_def silent_args_def)
  then obtain report w' where r: "discover_run (pg_repo 5) silent_args (?d1, ()) = (Inr report, w')" by (rule silent_pass)
  have rid: "ra_run_id silent_args = 9" by (simp add: silent_args_def sample_args_def)
  have scope: "fetch_run_scope (ra_run_id silent_args) pending_db = (Inr (PyDict []), pending_db)"
    by (simp add: fetch_run_scope_def rid pending_db_def sample_db_def)
  have host: "host_storable 5 (PyDict []) pending_db"
    by (simp add: host_storable_def has_asset_def has_tenant_def pending_db_def sample_db_def)
  have few: "length (pending_in pending_db (ra_run_id silent_args)) \<le> 500"
    by (simp add: pending_in_def pending_db_def sample_db_def)
  have raw: "\<exists>raw. fetch_object (\<lambda>bucket key. Inr []) (ei_raw_ref e) = Inr raw"
    if "e \<in> set (pending_in pending_db (ra_run_id silent_args))" for e
  proof -
    from that have "ei_raw_ref e = ''s3://b/k''" by (simp add: rid pending_in_def pending_db_def sample_db_def)
    then show ?thesis by (simp add: fetch_object_def parse_s3_uri_def split_once_def)
  qed
  have d1: "?d1 = snd (drain_pending (worker_env quiet_decoders (\<lambda>s. 0) (\<lambda>bucket key. Inr []) 5)
      (Some (ra_run_id silent_args)) pending_db)" by (simp add: quiet_worker_def rid)
  have tool: "registry_get quiet_decoders ''lscpu'' \<noteq> None" by (simp add: registry_get_def REGISTERED_def)
  have "\<exists>e \<in> set (db_evidence ?d1). ei_run_id e = 9 \<and> ei_source_tool e = ''lscpu'' \<and> ei_category e = ''hardware''"
  proof -
    have "parses_on pending_db ?d1" using drain_parses_all [OF scope host few raw d1] by blast
    then obtain e where "e \<in> set (db_evidence ?d1)" "row_kept (hd (db_evidence pending_db)) e"
      by (cases "db_evidence ?d1") (auto simp: parses_on_def pending_db_def sample_db_def)
    then show ?thesis by (auto simp: row_kept_def pending_db_def sample_db_def)
  qed
  then obtain e where e: "e \<in> set (db_evidence ?d1)" "ei_run_id e = ra_run_id silent_args" "ei_source_tool e = ''lscpu''"
    "ei_category e = ''hardware''" by (auto simp: rid)
  have b: "binding_for (ei_category e) = Some (binding ''hardware'' ''hardware'')"
    by (simp add: e(4) binding_for_def CATEGORY_BINDINGS_def)
  have "reg_contains (ra_registry silent_args) (db_agent (binding ''hardware'' ''hardware''))"
    by (simp add: silent_args_def sample_args_def reg_contains_def)
  from drained_run_reaches_agents [OF scope host few raw d1 r e(1,2) _ b this] e(3) tool r show ?thesis
    by (intro exI [of _ report] exI [of _ w']) simp
qed

theorem drain_keeps_redacted_witness:
  "redacted_evidence (\<lambda>s. 0) (snd (drain_pending quiet_worker (Some 9) pending_db))"
proof -
  have "redacted_evidence (\<lambda>s. 0) pending_db" by (simp add: redacted_evidence_def pending_db_def sample_db_def)
  from drain_keeps_redacted [OF this] show ?thesis by (simp add: quiet_worker_def)
qed

text \<open>
  C24. Redaction does not reach the assets: the attributes a parser derives are stored with a new host
  as they are, computed from the text before it was redacted, while the evidence row of the same
  item holds the redacted value; both are what an agent is shown.
\<close>

theorem host_attributes_unredacted:
  assumes "registry_get dc (pe_source_tool ev) = Some parser"
    and "fetch_object s3 (pe_raw_ref ev) = Inr raw" and "fetch_run_scope (pe_run_id ev) d = (Inr scope, d)"
    and "host_storable tenant scope d" and "\<not> host_known tenant scope d" and "pe_id ev \<in> ei_id ` set (db_evidence d)"
  shows "\<exists>result attributes a d'. parser raw (pe_version ev) scope = Inr result \<and>
    pr_hint result = Some (host_hint scope attributes) \<and>
    normalize_one (worker_env dc h s3 tenant) ev d = (Inr (), d') \<and>
    a \<in> set (db_assets d') \<and> asset_run_id a = pe_run_id ev \<and> asset_attributes a = attributes \<and>
    (\<forall>e \<in> set (db_evidence d'). ei_id e = pe_id ev \<longrightarrow>
       ei_parsed e = Some (fst (redact_value h (pr_parsed result))) \<and> ei_asset_id e = Some (asset_id a))"
proof -
  obtain result attributes a d' where p: "parser raw (pe_version ev) scope = Inr result"
    and hint: "pr_hint result = Some (host_hint scope attributes)"
    and n: "normalize_one (worker_env dc h s3 tenant) ev d = (Inr (), d')"
    and a: "a \<in> set (db_assets d')" and "asset_key a = (tenant, host_key scope)"
    and new: "host_stored d tenant (pe_run_id ev) scope attributes a"
    and ev': "db_evidence d' = map (\<lambda>e. if ei_id e = pe_id ev
       then parsed_row (Some (asset_id a)) (fst (redact_value h (pr_parsed result))) (pr_confidence result) e else e) (db_evidence d)"
    and "db_runs d' = db_runs d"
    by (rule normalize_one_parses [OF assms(1-4,6)])
  have "ei_parsed e = Some (fst (redact_value h (pr_parsed result))) \<and> ei_asset_id e = Some (asset_id a)"
    if "e \<in> set (db_evidence d')" and "ei_id e = pe_id ev" for e
    using that unfolding ev' by (auto simp: parsed_row_def split: if_splits)
  with p hint n a host_stored_new [OF new assms(5)] show ?thesis by blast
qed

text \<open>A host whose \<open>uname\<close> output is an access key.\<close>

definition leaky_decoders :: decoders where
  "leaky_decoders = \<lparr>dc_text = (\<lambda>b. ''AKIA0123456789ABCDEF''), dc_json = (\<lambda>b. None)\<rparr>"

definition leaky_item :: pending_evidence where
  "leaky_item = \<lparr>pe_id = 2, pe_run_id = 9, pe_source_tool = ''uname'', pe_version = [], pe_raw_ref = ''s3://b/k''\<rparr>"

theorem host_attributes_unredacted_witness:
  "\<exists>d' a. normalize_one (worker_env leaky_decoders (\<lambda>s. 0) (\<lambda>bucket key. Inr []) 5) leaky_item pending_db = (Inr (), d') \<and>
     a \<in> set (db_assets d') \<and> v_get (asset_attributes a) ''os'' = Some (PyStr ''AKIA0123456789ABCDEF'')"
proof -
  let ?text = "''AKIA0123456789ABCDEF''"
  have reg: "registry_get leaky_decoders (pe_source_tool leaky_item) = Some (uname_parse leaky_decoders)"
    by (simp add: leaky_item_def registry_get_def REGISTERED_def)
  have raw: "fetch_object (\<lambda>bucket key. Inr []) (pe_raw_ref leaky_item) = Inr []"
    by (simp add: leaky_item_def fetch_object_def parse_s3_uri_def split_once_def)
  have scope: "fetch_run_scope (pe_run_id leaky_item) pending_db = (Inr (PyDict []), pending_db)"
    by (simp add: leaky_item_def fetch_run_scope_def pending_db_def sample_db_def)
  have host: "host_storable 5 (PyDict []) pending_db" "\<not> host_known 5 (PyDict []) pending_db"
    by (simp_all add: host_storable_def host_known_def has_asset_def has_tenant_def asset_key_def host_key_def host_from_scope_def
        get_as_def str_or_def Let_def pending_db_def sample_db_def)
  have item: "pe_id leaky_item \<in> ei_id ` set (db_evidence pending_db)"
    by (simp add: leaky_item_def pending_db_def sample_db_def)
  obtain result attributes a d' where p: "uname_parse leaky_decoders [] (pe_version leaky_item) (PyDict []) = Inr result"
    and hint: "pr_hint result = Some (host_hint (PyDict []) attributes)"
    and n: "normalize_one (worker_env leaky_decoders (\<lambda>s. 0) (\<lambda>bucket key. Inr []) 5) leaky_item pending_db = (Inr (), d')"
    and a: "a \<in> set (db_assets d')" "asset_attributes a = attributes"
    using host_attributes_unredacted [OF reg raw scope host item, of "\<lambda>s. 0"] by (elim exE conjE)
  have "split_whitespace (trim ?text) = [?text]" by code_simp
  with p have "pr_hint result = Some (host_hint (PyDict []) (PyDict [(''kernel_name'', PyStr ?text),
      (''kernel_release'', PyStr []), (''os'', PyStr ?text)]))"
    by (auto simp: uname_parse_def leaky_decoders_def parsed_as_def nth_or_empty_def Let_def)
  with hint have "host_hint (PyDict []) attributes = host_hint (PyDict []) (PyDict [(''kernel_name'', PyStr ?text),
      (''kernel_release'', PyStr []), (''os'', PyStr ?text)])" by simp
  from arg_cong [OF this, of ah_attributes] have "v_get attributes ''os'' = Some (PyStr ?text)" by simp
  with n a show ?thesis by blast
qed

text \<open>
  C31. A global drain can starve: it takes the first 500 pending items of all runs, and an item of a
  tool without a parser stays pending, so once the first 500 pending items are of such tools no
  number of drains changes anything; evidence behind them is parsed only by a drain of its own run.
\<close>

theorem global_drain_starves:
  assumes "\<And>ev. ev \<in> set (fetch_pending None 500 d) \<Longrightarrow> registry_get dc (pe_source_tool ev) = None"
  shows "((\<lambda>d. snd (drain_pending (worker_env dc h s3 tenant) None d)) ^^ n) d = d"
proof (induction n)
  case (Suc n)
  with normalize_unregistered [of "fetch_pending None 500 d", OF assms] show ?case
    by (simp add: drain_pending_def Let_def)
qed simp

text \<open>500 items of a cloud connector before one of \<open>lscpu\<close>.\<close>

definition starved_db :: db where
  "starved_db = pending_db\<lparr>db_evidence :=
     map (\<lambda>i. (hd (db_evidence pending_db))\<lparr>ei_id := of_nat (1000 + i), ei_source_tool := ''aws.ec2''\<rparr>) [0..<500]
     @ db_evidence pending_db\<rparr>"

theorem global_drain_starves_witness:
  "\<exists>e \<in> set (db_evidence (((\<lambda>d. snd (drain_pending quiet_worker None d)) ^^ 1000) starved_db)).
     ei_parsed e = None \<and> registry_get quiet_decoders (ei_source_tool e) \<noteq> None"
proof -
  have "ei_parsed (hd (db_evidence pending_db)) = None" by (simp add: pending_db_def sample_db_def)
  then have "fetch_pending None 500 starved_db = map pending_of
      (map (\<lambda>i. (hd (db_evidence pending_db))\<lparr>ei_id := of_nat (1000 + i), ei_source_tool := ''aws.ec2''\<rparr>) [0..<500])"
    unfolding fetch_pending_def starved_db_def by (simp add: filter_empty_conv)
  then have "registry_get quiet_decoders (pe_source_tool ev) = None" if "ev \<in> set (fetch_pending None 500 starved_db)" for ev
    using that by (auto simp: pending_of_def registry_get_def REGISTERED_def)
  from global_drain_starves [OF this]
  have "((\<lambda>d. snd (drain_pending quiet_worker None d)) ^^ 1000) starved_db = starved_db" by (simp add: quiet_worker_def)
  moreover have "hd (db_evidence pending_db) \<in> set (db_evidence starved_db)" by (simp add: starved_db_def pending_db_def sample_db_def)
  ultimately show ?thesis
    by (intro bexI [of _ "hd (db_evidence pending_db)"])
      (simp_all add: pending_db_def sample_db_def registry_get_def REGISTERED_def)
qed

text \<open>
  C32. What a connector reads is never described: with its vendor package installed a connector
  returns blobs with distinct identifiers and tool names, each with a category that has a domain and
  an agent; but no tool of any connector has a parser, so such an item is never parsed.
\<close>

theorem connectors_never_parsed:
  assumes "(collect, m) \<in> {(aws_collect, ''boto3''), (kubernetes_collect, ''kubernetes''),
      (postgres_collect, ''psycopg''), (prometheus_collect, ''httpx'')}"
    and "inj_on (cn_uuid4 env) {..<8}" and "cn_installed env m"
  shows "\<exists>bs. collect env t = Inr bs \<and> bs \<noteq> [] \<and> distinct (map bl_id bs) \<and> distinct (map bl_source_tool bs) \<and>
    (\<forall>b \<in> set bs. (\<exists>bd. binding_for (bl_category b) = Some bd) \<and>
       (\<forall>ev d. pe_source_tool ev = bl_source_tool b \<longrightarrow>
          normalize_one (worker_env dc h s3 tenant) ev d = (Inr (), d)))"
proof -
  from connectors_contract [OF assms(1,2), of t] assms(3) obtain bs where bs: "collect env t = Inr bs" "bs \<noteq> []"
    "distinct (map bl_id bs)" "distinct (map bl_source_tool bs)" "\<forall>b \<in> set bs. \<exists>bd. binding_for (bl_category b) = Some bd"
    by auto
  have "registry_get dc tool = None" if "tool \<in> set (map bl_source_tool bs)" for tool
    using that assms(1) bs(1) aws.one_per_artifact [of env t bs] kubernetes.one_per_artifact [of env t bs]
      postgres.one_per_artifact [of env t bs] prometheus.one_per_artifact [of env t bs]
    by (auto simp: registry_get_def REGISTERED_def SERVICES_def RESOURCES_def QUERIES_def DEFAULT_QUERIES_def)
  then have "\<forall>b \<in> set bs. registry_get dc (bl_source_tool b) = None" by simp
  then have "\<forall>b \<in> set bs. \<forall>ev d. pe_source_tool ev = bl_source_tool b \<longrightarrow>
      normalize_one (worker_env dc h s3 tenant) ev d = (Inr (), d)" by (simp add: normalize_one_def)
  with bs show ?thesis by (intro exI [of _ bs]) simp
qed

theorem connectors_never_parsed_witness:
  "\<exists>bs. prometheus_collect sample_connector_env sample_target = Inr bs \<and> bs \<noteq> [] \<and>
     list_all (\<lambda>b. normalize_one quiet_worker (leaky_item\<lparr>pe_source_tool := bl_source_tool b\<rparr>) pending_db = (Inr (), pending_db)) bs"
proof -
  have "inj_on (of_nat :: nat \<Rightarrow> uuid) {..<8}"
    by (rule inj_onI) (simp add: word_of_nat_eq_iff take_bit_nat_eq_self)
  then have inj: "inj_on (cn_uuid4 sample_connector_env) {..<8}" by (simp add: sample_connector_env_def)
  have there: "cn_installed sample_connector_env ''httpx''" by (simp add: sample_connector_env_def)
  have "(prometheus_collect, ''httpx'') \<in> {(aws_collect, ''boto3''), (kubernetes_collect, ''kubernetes''),
      (postgres_collect, ''psycopg''), (prometheus_collect, ''httpx'')}" by simp
  note c = connectors_never_parsed [OF this inj there]
  obtain bs where bs: "prometheus_collect sample_connector_env sample_target = Inr bs" "bs \<noteq> []"
    and "\<forall>b \<in> set bs. \<forall>ev d. pe_source_tool ev = bl_source_tool b \<longrightarrow>
      normalize_one (worker_env quiet_decoders (\<lambda>s. 0) (\<lambda>bucket key. Inr []) 5) ev d = (Inr (), d)"
    using c [of sample_target quiet_decoders "\<lambda>s. 0" "\<lambda>bucket key. Inr []" 5] by (elim exE conjE) blast
  then have "\<forall>b \<in> set bs. normalize_one quiet_worker (leaky_item\<lparr>pe_source_tool := bl_source_tool b\<rparr>) pending_db = (Inr (), pending_db)"
    unfolding quiet_worker_def by simp
  with bs show ?thesis by (intro exI [of _ bs]) (simp add: list_all_iff)
qed

text \<open>
  C23. Auditing a host again describes nothing: assets are unique per tenant and natural key and
  belong to the run that saw them first, and every shipped parser describes the host of the run's
  scope; so when the tenant knows that host already, draining a new run creates no asset at all and
  its discovery pass stores no observation, whatever the tools print and the models answer. Runs
  without a host name in their scope all describe the same \<open>unknown-host\<close>.
\<close>

theorem rescan_discovers_nothing:
  assumes "\<forall>a \<in> set (db_assets d). asset_run_id a \<noteq> ra_run_id ra"
    and "fetch_run_scope (ra_run_id ra) d = (Inr scope, d)" and "host_known tenant scope d"
    and "discover_run (pg_repo tenant') ra (snd (drain_pending (worker_env dc h s3 tenant) (Some (ra_run_id ra)) d), g) = (res, (d', g'))"
  shows "map asset_id (db_assets (snd (drain_pending (worker_env dc h s3 tenant) (Some (ra_run_id ra)) d))) =
      map asset_id (db_assets d) \<and>
    map observation_write.truncate (db_observations d') = map observation_write.truncate (db_observations d)"
proof (rule rescan_adds_nothing [OF assms(1) _ assms(4)])
  fix scope'
  assume "fetch_run_scope (ra_run_id ra) d = (Inr scope', d)"
  with assms(2) have [simp]: "scope' = scope" by simp
  show "known_assets (worker_env dc h s3 tenant) scope' (asset_key ` set (db_assets d))"
    unfolding known_assets_def
  proof (intro allI impI)
    fix tool parser raw version result hint
    assume "ne_parsers (worker_env dc h s3 tenant) tool = Some parser"
      and r: "parser raw version scope' = Inr result" and hint: "pr_hint result = Some hint"
    then have "host_parser parser" by (auto intro: registered_host)
    then obtain result' where "parser raw version scope = Inr result'"
      and "pr_hint result' = Some (host_hint scope (ah_attributes (the (pr_hint result'))))"
      by (rule host_parser.parse_returns)
    with r hint have "ah_natural_key hint = host_key scope" by (metis \<open>scope' = scope\<close> host_hint_fields(2) option.inject sum.inject(2))
    with assms(3) show "(ne_tenant (worker_env dc h s3 tenant), ah_natural_key hint) \<in> asset_key ` set (db_assets d)"
      by (simp add: host_known_def)
  qed
qed

text \<open>The host of \<open>sample_db\<close>, audited by a second run.\<close>

definition rescan_db :: db where
  "rescan_db = pending_db
     \<lparr>db_runs := db_runs sample_db @ [\<lparr>run_id = 10, run_tenant = 5, run_scope = PyDict [(''host_uuid'', PyStr ''abc'')],
        run_state = NORMALIZING, run_started_at = 1, run_completed_at = None, run_cost_cents = 0\<rparr>],
      db_evidence := map (\<lambda>e. e\<lparr>ei_id := 12, ei_run_id := 10\<rparr>) (db_evidence pending_db)\<rparr>"

theorem rescan_discovers_nothing_witness:
  "db_evidence rescan_db \<noteq> [] \<and>
   length (db_assets (snd (drain_pending quiet_worker (Some 10) rescan_db))) = length (db_assets rescan_db) \<and>
   db_observations (fst (snd (discover_run (pg_repo 5) (sample_args\<lparr>ra_run_id := 10\<rparr>)
     (snd (drain_pending quiet_worker (Some 10) rescan_db), ())))) = []"
proof -
  let ?w = "(snd (drain_pending quiet_worker (Some 10) rescan_db), ())"
  obtain res d' g' where r: "discover_run (pg_repo 5) (sample_args\<lparr>ra_run_id := 10\<rparr>) ?w = (res, (d', g'))"
    by (metis prod.exhaust)
  have other: "\<forall>a \<in> set (db_assets rescan_db). asset_run_id a \<noteq> ra_run_id (sample_args\<lparr>ra_run_id := 10\<rparr>)"
    by (simp add: rescan_db_def pending_db_def sample_db_def)
  have scope: "fetch_run_scope (ra_run_id (sample_args\<lparr>ra_run_id := 10\<rparr>)) rescan_db =
      (Inr (PyDict [(''host_uuid'', PyStr ''abc'')]), rescan_db)"
    by (simp add: fetch_run_scope_def rescan_db_def sample_db_def)
  have known: "host_known 5 (PyDict [(''host_uuid'', PyStr ''abc'')]) rescan_db"
    by (simp add: host_known_def host_key_def host_from_scope_def get_as_def str_or_def Let_def asset_key_def
        rescan_db_def pending_db_def sample_db_def)
  have "discover_run (pg_repo 5) (sample_args\<lparr>ra_run_id := 10\<rparr>)
      (snd (drain_pending (worker_env quiet_decoders (\<lambda>s. 0) (\<lambda>bucket key. Inr []) 5)
         (Some (ra_run_id (sample_args\<lparr>ra_run_id := 10\<rparr>))) rescan_db), ()) = (res, (d', g'))"
    using r by (simp add: quiet_worker_def)
  from rescan_discovers_nothing [OF other scope known this] r show ?thesis
    by (auto simp: rescan_db_def pending_db_def sample_db_def quiet_worker_def sample_args_def dest!: map_eq_imp_length_eq)
qed

end
