(* ===== verification/Worker_Loop.thy ===== *)
theory Worker_Loop
  imports Worker
begin

text \<open>
  \<open>worker.rs\<close>: the loop that waits for notifications of the evidence table, for a timer and for a
  shutdown, and drains pending evidence; \<open>Uuid::parse_str\<close> is a parameter. The rest of the system
  moves on between its events (\<open>sys_step\<close> of Lifecycle); what was stored stays stored.
\<close>

section \<open>The loop\<close>

datatype worker_event = Shutdown | Notification string | Listener_Error | Tick

text \<open>A payload that is no identifier drains globally; a lost listener is reconnected and nothing drained.\<close>

definition handle :: "(string \<Rightarrow> uuid option) \<Rightarrow> normalizer_env \<Rightarrow> worker_event \<Rightarrow> db \<Rightarrow> db" where
  "handle parse_id ne ev d =
     (case ev of
        Shutdown \<Rightarrow> d
      | Notification payload \<Rightarrow> snd (drain_pending ne (parse_id payload) d)
      | Listener_Error \<Rightarrow> d
      | Tick \<Rightarrow> snd (drain_pending ne None d))"

fun worker_loop :: "(string \<Rightarrow> uuid option) \<Rightarrow> normalizer_env \<Rightarrow> worker_event list \<Rightarrow> db \<Rightarrow> db" where
  "worker_loop parse_id ne [] d = d"
| "worker_loop parse_id ne (Shutdown # evs) d = d"
| "worker_loop parse_id ne (ev # evs) d = worker_loop parse_id ne evs (handle parse_id ne ev d)"

text \<open>\<open>run\<close>: what is pending at startup is drained first.\<close>

definition worker_run :: "(string \<Rightarrow> uuid option) \<Rightarrow> normalizer_env \<Rightarrow> worker_event list \<Rightarrow> db \<Rightarrow> db" where
  "worker_run parse_id ne evs d = worker_loop parse_id ne evs (snd (drain_pending ne None d))"

text \<open>The events of the worker between the steps of the other services.\<close>

inductive worker_trace ::
  "'o deployment \<Rightarrow> (string \<Rightarrow> uuid option) \<Rightarrow> normalizer_env \<Rightarrow> ('o, 'g) sys \<Rightarrow> ('o, 'g) sys \<Rightarrow> bool" for dep parse_id ne where
  idle: "worker_trace dep parse_id ne s s"
| handled: "worker_trace dep parse_id ne s (st, d, g) \<Longrightarrow>
    worker_trace dep parse_id ne s (st, handle parse_id ne ev d, g)"
| elsewhere: "worker_trace dep parse_id ne s t \<Longrightarrow> sys_step dep t u \<Longrightarrow> worker_trace dep parse_id ne s u"

section \<open>What was stored stays stored\<close>

definition continues :: "db \<Rightarrow> db \<Rightarrow> bool" where
  "continues d d' \<longleftrightarrow>
     (\<forall>e \<in> set (db_evidence d). \<exists>e' \<in> set (db_evidence d'). row_kept e e') \<and>
     (\<forall>rid scope. fetch_run_scope rid d = (Inr scope, d) \<longrightarrow> fetch_run_scope rid d' = (Inr scope, d'))"

lemma row_kept_refl [simp]: "row_kept e e"
  by (simp add: row_kept_def)

lemma row_kept_trans: "row_kept e f \<Longrightarrow> row_kept f g \<Longrightarrow> row_kept e g"
  by (simp add: row_kept_def)

lemma continues_refl [simp]: "continues d d"
  unfolding continues_def using row_kept_refl by blast

lemma continues_trans:
  assumes "continues d e" and "continues e f"
  shows "continues d f"
  unfolding continues_def
proof (intro conjI ballI allI impI)
  fix x assume "x \<in> set (db_evidence d)"
  with assms(1) obtain y where y: "y \<in> set (db_evidence e)" "row_kept x y" unfolding continues_def by blast
  with assms(2) obtain z where z: "z \<in> set (db_evidence f)" "row_kept y z" unfolding continues_def by blast
  from z(1) row_kept_trans [OF y(2) z(2)] show "\<exists>z \<in> set (db_evidence f). row_kept x z" by blast
next
  fix rid scope assume "fetch_run_scope rid d = (Inr scope, d)"
  with assms show "fetch_run_scope rid f = (Inr scope, f)" unfolding continues_def by blast
qed

lemma parses_on_continues:
  assumes "parses_on d d'"
  shows "continues d d'"
proof -
  from assms have rows: "list_all2 row_kept (db_evidence d) (db_evidence d')" and runs: "db_runs d' = db_runs d"
    by (simp_all add: parses_on_def)
  have "\<exists>e' \<in> set (db_evidence d'). row_kept e e'" if "e \<in> set (db_evidence d)" for e
    using rows that unfolding list_all2_conv_all_nth in_set_conv_nth Bex_def by metis
  with fetch_scope_runs [OF runs] show ?thesis unfolding continues_def by blast
qed

lemma continues_same: "db_evidence d' = db_evidence d \<Longrightarrow> db_runs d' = db_runs d \<Longrightarrow> continues d d'"
  by (rule parses_on_continues) (simp add: parses_on_def list_all2_refl)

lemma upsert_asset_rows: "upsert_asset tenant rid hint d = (r, d') \<Longrightarrow> db_evidence d' = db_evidence d \<and> db_runs d' = db_runs d"
  by (erule upsert_asset_cases) simp_all

lemma parses_on_same: "db_evidence d' = db_evidence d \<and> db_runs d' = db_runs d \<Longrightarrow> parses_on d d'"
  by (simp add: parses_on_def list_all2_refl)

lemma parses_on_reflp: "reflp parses_on" and parses_on_transp: "transp parses_on"
  by (auto simp: reflp_def transp_def intro: parses_on_trans)

lemma statements_parse_on:
  "preserves parses_on (upsert_asset tenant rid hint)" "preserves parses_on (write_parsed eid aid v c)"
  "preserves parses_on (insert_audit a)" "preserves parses_on (fetch_run_scope rid)" "preserves parses_on (liftC m)"
  "preserves parses_on (returnC x)"
proof -
  show "preserves parses_on (upsert_asset tenant rid hint)"
    by (rule preservesI) (auto intro: parses_on_same dest: upsert_asset_rows)
  show "preserves parses_on (write_parsed eid aid v c)"
    by (rule preservesI) (erule write_parsed_cases, simp_all add: parses_on_row)
  show "preserves parses_on (insert_audit a)" by (rule preservesI) (auto simp: insert_audit_def intro: parses_on_same)
qed (rule preserves_same [OF parses_on_reflp], simp add: fetch_run_scope_def split: option.split)+

lemma normalize_one_parses_on: "preserves parses_on (normalize_one ne ev)"
proof -
  have "preserves parses_on (upsert_hint tenant rid hint)" for tenant rid hint
    by (cases hint) (simp_all add: upsert_hint_def statements_parse_on preserves_bind [OF parses_on_transp])
  then have "preserves parses_on (store_result ne ev result)" for result
    unfolding store_result_def by (intro preserves_bind [OF parses_on_transp] statements_parse_on)
  then show ?thesis
    unfolding normalize_one_def
    by (cases "ne_parsers ne (pe_source_tool ev)")
      (simp_all add: statements_parse_on preserves_bind [OF parses_on_transp])
qed

lemma normalize_all_parses_on: "parses_on d (normalize_all ne evs d)"
proof (induction evs arbitrary: d)
  case (Cons ev evs)
  have "parses_on d (snd (normalize_one ne ev d))" using normalize_one_parses_on by (simp add: preserves_def)
  from parses_on_trans [OF this Cons.IH] show ?case by simp
qed simp

lemma handle_parses_on: "parses_on d (handle parse_id ne ev d)"
  by (cases ev) (simp_all add: handle_def drain_pending_def Let_def normalize_all_parses_on)

lemma worker_loop_parses_on: "parses_on d (worker_loop parse_id ne evs d)"
proof (induction evs arbitrary: d)
  case (Cons ev evs)
  have "parses_on d (worker_loop parse_id ne evs (handle parse_id ne ev d))"
    by (rule parses_on_trans [OF handle_parses_on Cons.IH])
  then show ?case by (cases ev) simp_all
qed simp

text \<open>The other services only add runs and rows.\<close>

lemma append_only_continues:
  assumes "append_only d d'"
  shows "continues d d'"
proof -
  from assms have runs: "map (\<lambda>r. (run_id r, run_tenant r, run_scope r)) (db_runs d') =
      map (\<lambda>r. (run_id r, run_tenant r, run_scope r)) (db_runs d)" and ev: "db_evidence d' = db_evidence d"
    by (simp_all add: append_only_def)
  have scope: "map_option run_scope (find (\<lambda>r. run_id r = rid) rs) = map_option run_scope (find (\<lambda>r. run_id r = rid) ts)"
    if "map (\<lambda>r. (run_id r, run_tenant r, run_scope r)) rs = map (\<lambda>r. (run_id r, run_tenant r, run_scope r)) ts" for rid rs ts
    using that by (induction rs arbitrary: ts) auto
  have "fetch_run_scope rid d' = (Inr scope, d')" if "fetch_run_scope rid d = (Inr scope, d)" for rid scope
  proof -
    from that have "map_option run_scope (find (\<lambda>r. run_id r = rid) (db_runs d)) = Some scope"
      by (auto simp: fetch_run_scope_def split: option.splits)
    with scope [OF runs, of rid] have "map_option run_scope (find (\<lambda>r. run_id r = rid) (db_runs d')) = Some scope" by simp
    then show ?thesis by (auto simp: fetch_run_scope_def)
  qed
  with ev show ?thesis unfolding continues_def using row_kept_refl by metis
qed

lemma grown_continues:
  assumes "db_evidence d' = db_evidence d @ rows" and "db_runs d' = db_runs d @ runs"
  shows "continues d d'"
proof -
  have "find p (xs @ ys) = Some x" if "find p xs = Some x" for p :: "run_rec \<Rightarrow> bool" and xs ys x
    using that by (induction xs) (auto split: if_splits)
  then have "fetch_run_scope rid d' = (Inr scope, d')" if "fetch_run_scope rid d = (Inr scope, d)" for rid scope
    using that assms(2) by (auto simp: fetch_run_scope_def split: option.splits)
  moreover have "\<exists>e' \<in> set (db_evidence d'). row_kept e e'" if "e \<in> set (db_evidence d)" for e
    using that assms(1) by (intro bexI [of _ e]) simp_all
  ultimately show ?thesis unfolding continues_def by blast
qed

lemma create_continues:
  assumes "create_run cfg scope (st, d) = (r, (st', d'))"
  shows "continues d d'"
proof -
  have "db_evidence d' = db_evidence d \<and> (\<exists>runs. db_runs d' = db_runs d @ runs)"
    using assms
    by (auto simp: create_run_def with_conn_def on_snd_def bindC_def insert_run_def Let_def insert_audit_def
        split: prod.splits sum.splits if_splits)
  then obtain runs where "db_evidence d' = db_evidence d @ []" "db_runs d' = db_runs d @ runs" by auto
  then show ?thesis by (rule grown_continues)
qed

lemma upload_continues:
  assumes "ingest_bundle mi adapt cfg parse stamp rid data (st, d) = (r, (st', d'))"
  shows "continues d d'"
proof (cases r)
  case (Inl e)
  with ingest_bundle_raised assms show ?thesis by fastforce
next
  case (Inr x)
  with assms(1) obtain b w1 where w1: "snd w1 = d"
    and b: "ingest_block mi adapt cfg rid (bundle_key rid stamp) b w1 = (Inr (ir_accepted_items x), (st', d'))"
    by (auto elim: ingest_bundle_returned)
  from ingest_block_adds [OF b] w1 obtain rows where rows: "db_evidence d' = db_evidence d @ rows"
    and runs: "db_runs d' = update_run_status rid NORMALIZING (db_runs d)" by auto
  let ?d = "d\<lparr>db_evidence := db_evidence d @ rows\<rparr>"
  have "append_only ?d (?d\<lparr>db_runs := db_runs d'\<rparr>)" by (simp add: append_only_def runs update_status_runs)
  from append_only_continues [OF this] have "continues ?d (?d\<lparr>db_runs := db_runs d'\<rparr>)" .
  moreover have "continues d ?d" by (rule grown_continues [of _ _ rows "[]"]) simp_all
  moreover have "continues (?d\<lparr>db_runs := db_runs d'\<rparr>) d'" using rows by (intro continues_same) simp_all
  ultimately show ?thesis by (blast intro: continues_trans)
qed

lemma sys_step_continues: "sys_step dep s t \<Longrightarrow> continues (fst (snd s)) (fst (snd t))"
proof (induction rule: sys_step.induct)
  case (run_created scope st d r st' d' g)
  from create_continues [OF run_created] show ?case by simp
next
  case (bundle_uploaded stamp rid data st d r st' d' g)
  from upload_continues [OF bundle_uploaded] show ?case by simp
next
  case (asset_upserted tenant rid hint d r d' st g)
  from parses_on_continues [OF preservesD [OF statements_parse_on(1) asset_upserted]] show ?case by simp
next
  case (evidence_parsed eid aid parsed confidence d r d' st g)
  from parses_on_continues [OF preservesD [OF statements_parse_on(2) evidence_parsed]] show ?case by simp
next
  case (audit_logged a d r d' st g)
  from parses_on_continues [OF preservesD [OF statements_parse_on(3) audit_logged]] show ?case by simp
next
  case (run_discovered tenant ra d g r d' g' st)
  from preservesD [OF pg_append.discover_run_kept run_discovered] show ?case
    by (simp add: on_store_def append_only_continues)
next
  case (report_assembled tenant ra d g r d' g' st)
  from preservesD [OF pg_append.assemble_run_report_kept report_assembled] show ?case
    by (simp add: on_store_def append_only_continues)
next
  case (time_passed st d g t)
  have "continues d (d\<lparr>db_now := t\<rparr>)" by (rule continues_same) simp_all
  then show ?case by simp
qed

lemma worker_trace_continues: "worker_trace dep parse_id ne s t \<Longrightarrow> continues (fst (snd s)) (fst (snd t))"
proof (induction rule: worker_trace.induct)
  case (handled s st d g ev)
  from continues_trans [OF handled.IH] parses_on_continues [OF handle_parses_on] show ?case by simp
next
  case (elsewhere s t u)
  from continues_trans [OF elsewhere.IH sys_step_continues [OF elsewhere.hyps(2)]] show ?case .
qed simp

section \<open>A notification is enough\<close>

lemma notified_parses:
  assumes "parse_id payload = Some rid" and "fetch_run_scope rid d = (Inr scope, d)" and "host_storable tenant scope d"
    and "length (pending_in d rid) \<le> 500"
    and "\<And>e. e \<in> set (pending_in d rid) \<Longrightarrow> registry_get dc (ei_source_tool e) \<noteq> None \<Longrightarrow>
      \<exists>raw. fetch_object s3 (ei_raw_ref e) = Inr raw"
    and "worker_trace dep parse_id (worker_env dc h s3 tenant)
      (st, handle parse_id (worker_env dc h s3 tenant) (Notification payload) d, g) (st', d', g')"
    and "e \<in> set (db_evidence d)" and "ei_run_id e = rid" and "registry_get dc (ei_source_tool e) \<noteq> None"
  shows "\<exists>e' \<in> set (db_evidence d'). row_kept e e' \<and> ei_parsed e' \<noteq> None"
proof -
  let ?d1 = "handle parse_id (worker_env dc h s3 tenant) (Notification payload) d"
  have d1: "?d1 = snd (drain_pending (worker_env dc h s3 tenant) (Some rid) d)" by (simp add: handle_def assms(1))
  have "continues d ?d1" by (rule parses_on_continues [OF handle_parses_on])
  with assms(7) obtain e1 where e1: "e1 \<in> set (db_evidence ?d1)" "row_kept e e1" unfolding continues_def by blast
  from e1(2) assms(8,9) have mine: "ei_run_id e1 = rid" "registry_get dc (ei_source_tool e1) \<noteq> None"
    by (simp_all add: row_kept_def)
  have p: "ei_parsed e1 \<noteq> None" by (rule drain_parses [OF assms(2-5) d1 e1(1) mine])
  from worker_trace_continues [OF assms(6)] e1(1) obtain e' where e': "e' \<in> set (db_evidence d')" "row_kept e1 e'"
    unfolding continues_def fst_conv snd_conv by blast
  from p e'(2) have "ei_parsed e' \<noteq> None" by (simp add: row_kept_def)
  with e'(1) row_kept_trans [OF e1(2) e'(2)] show ?thesis by blast
qed

section \<open>Properties\<close>

text \<open>
  A notification of a run is never lost once the worker handles it: if at that moment the run has
  at most 500 pending items, whose bytes can be fetched, and its host can be stored, then whatever the
  worker and all other services do afterwards, every item that the run had and whose tool has a parser
  is still there, unchanged but for what the worker derived, and parsed.
\<close>

lemma notified_run_stays_parsed:
  assumes "parse_id payload = Some rid" and "fetch_run_scope rid d = (Inr scope, d)" and "host_storable tenant scope d"
    and "length (pending_in d rid) \<le> 500"
    and "\<And>e. e \<in> set (pending_in d rid) \<Longrightarrow> registry_get dc (ei_source_tool e) \<noteq> None \<Longrightarrow>
      \<exists>raw. fetch_object s3 (ei_raw_ref e) = Inr raw"
    and "worker_trace dep parse_id (worker_env dc h s3 tenant)
      (st, handle parse_id (worker_env dc h s3 tenant) (Notification payload) d, g) (st', d', g')"
    and "e \<in> set (db_evidence d)" and "ei_run_id e = rid" and "registry_get dc (ei_source_tool e) \<noteq> None"
  shows "\<exists>e' \<in> set (db_evidence d'). row_kept e e' \<and> ei_parsed e' \<noteq> None"
  using assms by (rule notified_parses)

definition some_uuid :: "string \<Rightarrow> uuid option" where
  "some_uuid s = (case uuid_parse s of Inl e \<Rightarrow> None | Inr u \<Rightarrow> Some u)"

lemma some_uuid_str [simp]: "some_uuid (uuid_str u) = Some u"
  by (simp add: some_uuid_def)

lemma notified_run_stays_parsed_witness:
  "\<exists>e' \<in> set (db_evidence (handle some_uuid quiet_worker Tick (handle some_uuid quiet_worker (Notification (uuid_str 9)) pending_db))).
     ei_source_tool e' = ''lscpu'' \<and> ei_parsed e' \<noteq> None"
proof -
  have scope: "fetch_run_scope 9 pending_db = (Inr (PyDict []), pending_db)"
    by (simp add: fetch_run_scope_def pending_db_def sample_db_def)
  have host: "host_storable 5 (PyDict []) pending_db"
    by (simp add: host_storable_def has_asset_def has_tenant_def pending_db_def sample_db_def)
  have few: "length (pending_in pending_db 9) \<le> 500" by (simp add: pending_in_def pending_db_def sample_db_def)
  have raw: "\<exists>raw. fetch_object (\<lambda>bucket key. Inr []) (ei_raw_ref e) = Inr raw" if "e \<in> set (pending_in pending_db 9)" for e
  proof -
    from that have "ei_raw_ref e = ''s3://b/k''" by (simp add: pending_in_def pending_db_def sample_db_def)
    then show ?thesis by (simp add: fetch_object_def parse_s3_uri_def split_once_def)
  qed
  let ?d1 = "handle some_uuid quiet_worker (Notification (uuid_str 9)) pending_db"
  have trace: "worker_trace sample_dep some_uuid quiet_worker (((True, ()), ?d1, ()) :: (unit, unit) sys)
      ((True, ()), handle some_uuid quiet_worker Tick ?d1, ())"
    by (rule handled, rule idle)
  let ?e = "hd (db_evidence pending_db)"
  have e: "?e \<in> set (db_evidence pending_db)" "ei_run_id ?e = 9" "ei_source_tool ?e = ''lscpu''"
    by (simp_all add: pending_db_def sample_db_def)
  have tool: "registry_get quiet_decoders (ei_source_tool ?e) \<noteq> None" by (simp add: e(3) registry_get_def REGISTERED_def)
  from notified_run_stays_parsed [OF some_uuid_str scope host few raw trace [unfolded quiet_worker_def] e(1,2) tool] e(3)
  show ?thesis by (auto simp: quiet_worker_def row_kept_def)
qed

end
