(* ===== verification/Pipeline.thy ===== *)
theory Pipeline
  imports Collector Worker_Loop
begin

text \<open>
  From \<open>auditor-collect run --upload\<close> to the discovery agents: the ingestion API as the server the
  collector talks to, with the routes of \<open>auditcore_ingestion/main.py\<close>, then a drain of the worker and a
  discovery pass. FastAPI's decoding of requests and encoding of responses are in the record \<open>api\<close>.
\<close>

section \<open>The API as a server\<close>

record 'o api =
  ap_minio :: "'o minio"
  ap_adapt :: "pyval \<Rightarrow> string res"
  ap_settings :: ingestion_settings
  ap_parse :: "bytes \<Rightarrow> evidence_bundle res"
  ap_stamp :: string
  ap_path_uuid :: "string \<Rightarrow> uuid option"
  ap_encode :: "pyval \<Rightarrow> bytes"

definition create_run_json :: "create_run_response \<Rightarrow> pyval" where
  "create_run_json r = PyDict [(''run_id'', PyStr (uuid_str (cr_run_id r))), (''status'', PyStr (cr_status r))]"

definition ingest_json :: "ingest_response \<Rightarrow> pyval" where
  "ingest_json r = PyDict [(''run_id'', PyStr (uuid_str (ir_run_id r))),
     (''accepted_items'', PyInt (int (ir_accepted_items r))), (''status'', PyStr (ir_status r))]"

text \<open>A raised exception is answered with its status, or with 500; a malformed request with 422.\<close>

definition respond :: "(pyval \<Rightarrow> bytes) \<Rightarrow> int \<Rightarrow> pyval res \<Rightarrow> http_response" where
  "respond enc code r =
     (case r of
        Inr v \<Rightarrow> \<lparr>hr_status = code, hr_body = enc v\<rparr>
      | Inl (HTTPException c m) \<Rightarrow> \<lparr>hr_status = int c, hr_body = enc (PyStr m)\<rparr>
      | Inl e \<Rightarrow> \<lparr>hr_status = 500, hr_body = []\<rparr>)"

definition mapC_result :: "('a \<Rightarrow> 'b) \<Rightarrow> ('s, 'a) cmd \<Rightarrow> ('s, 'b) cmd" where
  "mapC_result f m s = (case m s of (Inl e, s') \<Rightarrow> (Inl e, s') | (Inr x, s') \<Rightarrow> (Inr (f x), s'))"

definition unprocessable :: "('s, 'a) cmd" where
  "unprocessable = raiseC (HTTPException 422 ''Unprocessable Entity'')"

text \<open>\<open>CreateRunRequest\<close>: the scope is a dict and defaults to the empty one.\<close>

definition request_scope :: "pyval \<Rightarrow> pyval option" where
  "request_scope body =
     (case body of
        PyDict d \<Rightarrow> (case map_of d ''scope'' of None \<Rightarrow> Some (PyDict []) | Some (PyDict s) \<Rightarrow> Some (PyDict s) | Some v \<Rightarrow> None)
      | v \<Rightarrow> None)"

definition post_run :: "'o api \<Rightarrow> http_body \<Rightarrow> ('o ingestion_world, pyval) cmd" where
  "post_run ap body =
     (case body of
        Json v \<Rightarrow> (case request_scope v of
            Some scope \<Rightarrow> mapC_result create_run_json (create_run (ap_settings ap) scope)
          | None \<Rightarrow> unprocessable)
      | Form_File field name data \<Rightarrow> unprocessable)"

definition post_bundle :: "'o api \<Rightarrow> string \<Rightarrow> http_body \<Rightarrow> ('o ingestion_world, pyval) cmd" where
  "post_bundle ap rid body =
     (case (ap_path_uuid ap rid, body) of
        (Some r, Form_File field name data) \<Rightarrow>
          if field = ''bundle_file''
          then mapC_result ingest_json
                 (ingest_bundle (ap_minio ap) (ap_adapt ap) (ap_settings ap) (ap_parse ap) (ap_stamp ap) r data)
          else unprocessable
      | _ \<Rightarrow> unprocessable)"

text \<open>The two POST routes: \<open>/v1/runs\<close> and \<open>/v1/runs/{run_id}/bundle\<close>.\<close>

definition api_post :: "'o api \<Rightarrow> string \<Rightarrow> http_body \<Rightarrow> 'o ingestion_world \<Rightarrow> http_response \<times> 'o ingestion_world" where
  "api_post ap path body w =
     (if path = ''/v1/runs''
      then (case post_run ap body w of (r, w') \<Rightarrow> (respond (ap_encode ap) 201 r, w'))
      else (case str_split (CHR ''/'') path of
              [a, b, c, rid, e] \<Rightarrow>
                if [a, b, c, e] = [[], ''v1'', ''runs'', ''bundle'']
                then (case post_bundle ap rid body w of (r, w') \<Rightarrow> (respond (ap_encode ap) 200 r, w'))
                else (\<lparr>hr_status = 404, hr_body = []\<rparr>, w)
            | _ \<Rightarrow> (\<lparr>hr_status = 404, hr_body = []\<rparr>, w)))"

definition api_server :: "'o api \<Rightarrow> string \<Rightarrow> (bytes \<Rightarrow> string res) \<Rightarrow> 'o ingestion_world server" where
  "api_server ap base run_id_of =
     \<lparr>sv_post = (\<lambda>url body w.
        if prefix base url then (case api_post ap (drop (length base) url) body w of (r, w') \<Rightarrow> (Inr r, w'))
        else (Inl (OtherError ''no such host''), w)),
      sv_run_id = run_id_of\<rparr>"

section \<open>An answer with a 2xx status comes from a command that returned\<close>

text \<open>The HTTP exceptions a command raises carry error statuses.\<close>

definition error_status :: "exn \<Rightarrow> bool" where
  "error_status e \<longleftrightarrow> (case e of HTTPException c m \<Rightarrow> 400 \<le> c | _ \<Rightarrow> True)"

definition raises_errors :: "('s, 'a) cmd \<Rightarrow> bool" where
  "raises_errors m \<longleftrightarrow> (\<forall>s e t. m s = (Inl e, t) \<longrightarrow> error_status e)"

lemma raises_errorsD: "raises_errors m \<Longrightarrow> m s = (Inl e, t) \<Longrightarrow> error_status e"
  unfolding raises_errors_def by blast

lemma raises_errors_bind: "raises_errors m \<Longrightarrow> (\<And>x. raises_errors (f x)) \<Longrightarrow> raises_errors (bindC m f)"
  unfolding raises_errors_def by (intro allI impI) (elim bindC_cases; blast)

lemma raises_errors_lift: "(\<And>e. m = Inl e \<Longrightarrow> error_status e) \<Longrightarrow> raises_errors (liftC m)"
  by (simp add: raises_errors_def liftC_def)

lemma raises_errors_intros:
  "raises_errors (returnC x)" "error_status e \<Longrightarrow> raises_errors (raiseC e)"
  "raises_errors m \<Longrightarrow> raises_errors (on_fst m)" "raises_errors n \<Longrightarrow> raises_errors (on_snd n)"
  by (auto simp: raises_errors_def returnC_def raiseC_def on_fst_eq on_snd_eq)

lemma raises_errors_with_conn:
  assumes "raises_errors m"
  shows "raises_errors (with_conn m)"
proof -
  have "\<exists>t'. m s = (Inl e, t')" if "with_conn m s = (Inl e, t)" for s e t
    using that by (auto simp: with_conn_def split: prod.splits sum.splits)
  with assms show ?thesis unfolding raises_errors_def by blast
qed

lemma raises_errors_mapC: "(\<And>x. raises_errors (f x)) \<Longrightarrow> raises_errors (mapC f xs)"
  by (induction xs) (simp_all add: raises_errors_intros raises_errors_bind)

text \<open>What the libraries raise is no HTTP exception with a success status.\<close>

definition library_errors :: "'o api \<Rightarrow> bool" where
  "library_errors ap \<longleftrightarrow>
     (\<forall>k b t. raises_errors (put_bytes (ap_minio ap) (ap_settings ap) k b t)) \<and>
     (\<forall>v e. ap_adapt ap v = Inl e \<longrightarrow> error_status e) \<and> (\<forall>b e. ap_parse ap b = Inl e \<longrightarrow> error_status e)"

lemma ingest_errors:
  assumes "library_errors ap"
  shows "raises_errors (ingest_bundle (ap_minio ap) (ap_adapt ap) (ap_settings ap) (ap_parse ap) stamp rid data)"
proof -
  have put: "raises_errors (put_bytes (ap_minio ap) (ap_settings ap) k b t)" for k b t
    using assms by (simp add: library_errors_def)
  have adapt: "raises_errors (liftC (ap_adapt ap v))" for v
    using assms by (intro raises_errors_lift) (simp add: library_errors_def)
  have row: "raises_errors (insert_evidence e)" for e
    by (auto simp: raises_errors_def insert_evidence_def error_status_def split: if_splits)
  have item: "raises_errors (ingest_item (ap_minio ap) (ap_adapt ap) (ap_settings ap) rid it)" for it
    unfolding ingest_item_def by (intro raises_errors_bind raises_errors_intros put adapt row)
  have "raises_errors (check_run (ap_settings ap) rid)" "raises_errors (set_normalizing rid)" "raises_errors (insert_audit a)" for a
    by (auto simp: raises_errors_def check_run_def set_normalizing_def insert_audit_def error_status_def split: if_splits)
  then have block: "raises_errors (ingest_block (ap_minio ap) (ap_adapt ap) (ap_settings ap) rid key b)" for key b
    unfolding ingest_block_def ingest_items_def
    by (intro raises_errors_bind raises_errors_intros raises_errors_with_conn raises_errors_mapC item)
  have "error_status e" if "parse_or_400 (ap_parse ap data) = Inl e" for e
  proof -
    from that obtain e0 where e0: "ap_parse ap data = Inl e0" by (cases "ap_parse ap data") (simp_all add: parse_or_400_def)
    with assms have "error_status e0" unfolding library_errors_def by blast
    with that e0 show ?thesis by (cases e0) (auto simp: parse_or_400_def error_status_def)
  qed
  then have parse: "raises_errors (liftC (parse_or_400 (ap_parse ap data)))" by (rule raises_errors_lift)
  show ?thesis
    unfolding ingest_bundle_def
    by (cases "length data > is_max_bundle_bytes (ap_settings ap)")
      (simp_all add: raises_errors_intros error_status_def raises_errors_bind parse put block)
qed

lemma create_errors: "raises_errors (create_run cfg scope)"
proof -
  have "raises_errors (insert_run cfg scope)" "raises_errors (insert_audit a)" for a
    by (auto simp: raises_errors_def insert_run_def insert_audit_def error_status_def Let_def split: if_splits)
  then show ?thesis unfolding create_run_def by (intro raises_errors_with_conn raises_errors_bind raises_errors_intros)
qed

lemma respond_ok: "successful (respond enc code r) \<Longrightarrow> (\<And>e. r = Inl e \<Longrightarrow> error_status e) \<Longrightarrow> \<exists>v. r = Inr v"
  by (cases r) (auto simp: respond_def successful_def error_status_def split: exn.splits)

lemma unprocessable_errors: "raises_errors unprocessable"
  by (simp add: unprocessable_def raises_errors_intros error_status_def)

section \<open>The collector's requests\<close>

lemma insert_run_new:
  assumes "insert_run cfg scope d = (Inr i, d1)"
  shows "i = db_gen d (db_next d) \<and> \<not> has_run d i \<and> db_evidence d1 = db_evidence d \<and>
    (\<exists>r. run_id r = i \<and> run_scope r = scope \<and> db_runs d1 = db_runs d @ [r])"
  using assms by (auto simp: insert_run_def Let_def split: if_splits)

lemma create_run_new:
  assumes "create_run cfg scope (st, d) = (Inr r, (st', d'))"
  shows "cr_run_id r = db_gen d (db_next d) \<and> \<not> has_run d (cr_run_id r) \<and> st' = st \<and> db_evidence d' = db_evidence d \<and>
    (\<exists>row. run_id row = cr_run_id r \<and> run_scope row = scope \<and> db_runs d' = db_runs d @ [row])"
  using assms unfolding create_run_def
proof (cases rule: with_conn_cases)
  case (committed x w1)
  then obtain i d1 where i: "insert_run cfg scope d = (Inr i, d1)" and r: "cr_run_id r = i" and "st' = st"
    and "db_evidence d' = db_evidence d1" "db_runs d' = db_runs d1"
    by (auto simp: on_snd_eq insert_audit_def elim!: bindC_cases dest!: sym [where t = "snd w1"])
  with insert_run_new [OF i] show ?thesis by auto
qed simp

lemma str_split_sep: "c \<notin> set s \<Longrightarrow> str_split c (s @ c # t) = s # str_split c t"
  by (induction s) auto

text \<open>The collector's two requests succeed only when the endpoints return.\<close>

lemma client_create_returned:
  assumes "client_create_run (api_server ap base run_id_of) base (run_scope_json sc) (st, d) = (Inr rid, s1)"
    and "\<And>r. run_id_of (ap_encode ap (create_run_json r)) = Inr (uuid_str (cr_run_id r))"
  obtains r where "create_run (ap_settings ap) (run_scope_json sc) (st, d) = (Inr r, s1)" and "rid = uuid_str (cr_run_id r)"
proof -
  obtain res w1 where c: "create_run (ap_settings ap) (run_scope_json sc) (st, d) = (res, w1)" by (metis prod.exhaust)
  have scope: "request_scope (PyDict [(''scope'', run_scope_json sc)]) = Some (run_scope_json sc)"
    by (simp add: request_scope_def run_scope_json_def)
  show thesis
  proof (cases res)
    case (Inl e)
    with create_errors [of "ap_settings ap" "run_scope_json sc"] c have "error_status e" by (auto dest: raises_errorsD)
    then have "\<not> successful (respond (ap_encode ap) 201 (Inl e))" using respond_ok [of "ap_encode ap" 201 "Inl e"] by auto
    with assms(1) c Inl scope show thesis
      by (simp add: client_create_run_def api_server_def api_post_def post_run_def mapC_result_def)
  next
    case (Inr r)
    with assms c scope have "s1 = w1" and "rid = uuid_str (cr_run_id r)"
      by (simp_all add: client_create_run_def api_server_def api_post_def post_run_def mapC_result_def respond_def
          successful_def)
    with c Inr show thesis by (intro that) simp_all
  qed
qed

lemma client_upload_returned:
  assumes "client_upload_bundle (api_server ap base run_id_of) base (uuid_str u) tarball w = (Inr x, w')"
    and "ap_path_uuid ap (uuid_str u) = Some u" and "library_errors ap"
  obtains r where "ingest_bundle (ap_minio ap) (ap_adapt ap) (ap_settings ap) (ap_parse ap) (ap_stamp ap) u tarball w = (Inr r, w')"
proof -
  obtain res w1 where i: "ingest_bundle (ap_minio ap) (ap_adapt ap) (ap_settings ap) (ap_parse ap) (ap_stamp ap) u tarball w = (res, w1)"
    by (metis prod.exhaust)
  let ?path = "''/v1/runs/'' @ uuid_str u @ ''/bundle''"
  have "str_split (CHR ''/'') (uuid_str u @ ''/bundle'') = [uuid_str u, ''bundle'']"
    using str_split_sep [OF uuid_str_no_slash] by simp
  then have "str_split (CHR ''/'') ?path = [[], ''v1'', ''runs'', uuid_str u, ''bundle'']" by simp
  then have post: "api_post ap ?path (Form_File ''bundle_file'' name tarball) w =
      (respond (ap_encode ap) 200 (case res of Inl e \<Rightarrow> Inl e | Inr r \<Rightarrow> Inr (ingest_json r)), w1)" for name
    using i assms(2) by (auto simp: api_post_def post_bundle_def mapC_result_def split: sum.split)
  show thesis
  proof (cases res)
    case (Inl e)
    with ingest_errors [OF assms(3)] i have "error_status e" by (auto dest: raises_errorsD)
    then have "\<not> successful (respond (ap_encode ap) 200 (Inl e))" using respond_ok [of "ap_encode ap" 200 "Inl e"] by auto
    with assms(1) post Inl show thesis by (simp add: client_upload_bundle_def api_server_def)
  next
    case (Inr r)
    with assms(1) post have "w' = w1"
      by (simp add: client_upload_bundle_def api_server_def respond_def successful_def)
    with i Inr show thesis by (intro that) simp
  qed
qed

lemma run_cmd_uploaded:
  assumes "run_cmd host cd sv base [] tools timeout (w, s) = (Inr (), w', s')"
  obtains items w1 tarball items' h rid s1
    where "collect_tools host timeout (select_tools tools) [] w = (Inr items, w1)" and "items \<noteq> []"
      and "build host cd (host_scope host cd) items (snd w1) = (Inr tarball, items', h)"
      and "client_create_run sv base (run_scope_json (host_scope host cd)) s = (Inr rid, s1)"
      and "client_upload_bundle sv base rid tarball s1 = (Inr (), s')"
proof -
  obtain r w1 where c: "collect_tools host timeout (select_tools tools) [] w = (r, w1)" by (metis prod.exhaust)
  with assms obtain items where items: "r = Inr items" "items \<noteq> []"
    by (cases r) (auto simp: run_cmd_def split: if_splits)
  obtain rb items' h where b: "build host cd (host_scope host cd) items (snd w1) = (rb, items', h)" by (metis prod.exhaust)
  with assms c items obtain tarball where t: "rb = Inr tarball"
    by (cases rb) (auto simp: run_cmd_def split: if_splits)
  from assms c items b t have d: "deliver host sv (host_scope host cd) base [] tarball ((fst w1, h), s) = (Inr (), w', s')"
    by (auto simp: run_cmd_def split: if_splits)
  then obtain rid s1 where "client_create_run sv base (run_scope_json (host_scope host cd)) s = (Inr rid, s1)"
    and "client_upload_bundle sv base rid tarball s1 = (Inr (), s')"
    by (auto simp: deliver_def split: prod.splits sum.splits)
  then show thesis using that c items b t by blast
qed

section \<open>The rows of an upload\<close>

text \<open>The row of an item after the upload, and after the worker has seen it.\<close>

definition row_of :: "uuid \<Rightarrow> item \<Rightarrow> evidence_rec \<Rightarrow> bool" where
  "row_of rid it e \<longleftrightarrow> ei_id e = it_id it \<and> ei_run_id e = rid \<and> ei_source_tool e = it_source_tool it \<and>
     ei_category e = it_category it"

lemma row_of_kept: "row_of rid it e \<Longrightarrow> row_kept e e' \<Longrightarrow> row_of rid it e'"
  by (auto simp: row_of_def row_kept_def)

lemma filed_ids: "list_all2 (filed cd) items items' \<Longrightarrow> 0 \<notin> it_id ` set items \<Longrightarrow> map it_id items' = map it_id items"
  by (induction rule: list_all2_induct) (auto simp: filed_def)

lemma upload_rows:
  assumes "ingest_bundle mi adapt cfg parse stamp rid data (st, d) = (Inr r, (st', d'))"
    and "parse data = Inr b" and "bu_items b = map received_item items'"
    and "list_all2 (filed cd) items items'" and "0 \<notin> it_id ` set items" and "distinct (map it_id items)"
    and "it_id ` set items \<inter> ei_id ` set (db_evidence d) = {}" and "\<And>s t. adapt (PyStr s) = Inr t \<Longrightarrow> t = s"
    and "\<forall>e \<in> set (db_evidence d). ei_run_id e \<noteq> rid"
  shows "db_runs d' = update_run_status rid NORMALIZING (db_runs d) \<and> (items \<noteq> [] \<longrightarrow> rid \<in> set (db_notified d')) \<and>
    (\<forall>it \<in> set items. \<exists>e \<in> set (db_evidence d'). row_of rid it e)"
proof -
  from assms(1,2) obtain w1 n where w1: "snd w1 = d" and blk: "ingest_block mi adapt cfg rid (bundle_key rid stamp) b w1 = (Inr n, (st', d'))"
    by (elim ingest_bundle_returned) auto
  from ingest_block_adds [OF blk] obtain rows where rows: "new_rows adapt cfg rid d (map received_item items') rows"
    and ev: "db_evidence d' = db_evidence d @ rows" and notified: "db_notified d' = db_notified d @ (if rows = [] then [] else [rid])"
    and runs: "db_runs d' = update_run_status rid NORMALIZING (db_runs d)"
    by (auto simp: w1 assms(3))
  have ids: "map it_id items' = map it_id items" by (rule filed_ids [OF assms(4,5)])
  have "bi_id ` set (map received_item items') = set (map it_id items')" by (simp add: received_item_def image_image)
  also have "\<dots> = it_id ` set items" unfolding ids by simp
  finally have all: "ei_id ` set rows = it_id ` set items"
    using rows assms(7) by (auto simp: new_rows_def)
  have from_item: "\<exists>it' \<in> set items'. received adapt cfg rid (received_item it') e" if "e \<in> set rows" for e
    using rows that by (auto simp: new_rows_def)
  have told: "rid \<in> set (db_notified d')" if "items \<noteq> []"
  proof -
    from that all have "rows \<noteq> []" by auto
    then show ?thesis by (simp add: notified)
  qed
  have "\<exists>e \<in> set (db_evidence d'). row_of rid it e" if it: "it \<in> set items" for it
  proof -
    from it all obtain e where e: "e \<in> set rows" "ei_id e = it_id it" by (metis imageE imageI)
    from from_item [OF e(1)] obtain it' where it': "it' \<in> set items'" and rec: "received adapt cfg rid (received_item it') e" by blast
    from it' obtain k where k: "k < length items'" "it' = items' ! k" by (auto simp: in_set_conv_nth)
    from assms(4) k have "filed cd (items ! k) it'" and len: "length items = length items'"
      by (simp_all add: list_all2_conv_all_nth)
    moreover from e(2) rec have "it_id it' = it_id it" by (simp add: received_def received_item_def)
    moreover have "it_id (items ! k) = it_id it'" using ids k len by (metis length_map nth_map)
    ultimately have same: "it_id (items ! k) = it_id it" and
      f: "it' = (items ! k)\<lparr>it_id := it_id it', it_file := item_file cd (it_id it')\<rparr>" by (simp_all add: filed_def)
    have "items ! k = it"
      using assms(6) it same k(1) len by (metis distinct_map inj_on_eq_iff nth_mem)
    with f have "it_source_tool it' = it_source_tool it" "it_category it' = it_category it" by (metis item.select_convs item.surjective item.update_convs)+
    with rec e have "row_of rid it e"
      using assms(8) by (auto simp: row_of_def received_def received_item_def)
    with e(1) ev show ?thesis by auto
  qed
  with runs told show ?thesis by blast
qed

section \<open>From the host to the agents\<close>

text \<open>Every allow-listed tool has a parser, and its category an agent.\<close>

lemma collected_reaches:
  assumes "collected tools it"
  shows "registry_get dc (it_source_tool it) \<noteq> None \<and>
    (\<exists>b. binding_for (it_category it) = Some b \<and> db_agent b \<in> {''hardware'', ''security_analysis''})"
  using assms
  by (auto simp: collected_def Phase1_def command_def registry_get_def REGISTERED_def binding_for_def
      CATEGORY_BINDINGS_def)

lemma scope_after:
  assumes "db_runs d = runs @ [row]" and "run_id row = rid" and "rid \<notin> run_id ` set runs"
    and "db_runs d' = update_run_status rid st (db_runs d)"
  shows "fetch_run_scope rid d' = (Inr (run_scope row), d')"
proof -
  have "find (\<lambda>r. run_id r = rid) (map f runs @ [g row]) = Some (g row)"
    if "\<And>r. run_id (f r) = run_id r" and "run_id (g row) = rid" for f g :: "run_rec \<Rightarrow> run_rec"
    using assms(3) that by (induction runs) auto
  then have "find (\<lambda>r. run_id r = rid) (db_runs d') = Some (row\<lparr>run_state := st\<rparr>)"
    using assms(1,2,4) by (simp add: update_run_status_def)
  then show ?thesis by (simp add: fetch_run_scope_def)
qed

lemma uploaded_run:
  assumes run: "run_cmd host cd (api_server ap base run_id_of) base [] tools timeout (w, (st, d)) = (Inr (), w', (st', d'))"
    and coll: "collect_tools host timeout (select_tools tools) [] w = (Inr items, w1)"
    and ids: "distinct (map it_id items)" "0 \<notin> it_id ` set items" "it_id ` set items \<inter> ei_id ` set (db_evidence d) = {}"
    and fk: "\<forall>e \<in> set (db_evidence d). has_run d (ei_run_id e)"
    and parse: "ap_parse ap = parse_bundle tar_open jbytes fromiso" "understood cd tar_open jbytes fromiso"
    and api: "library_errors ap" "\<And>u. ap_path_uuid ap (uuid_str u) = Some u" "\<And>s t. ap_adapt ap (PyStr s) = Inr t \<Longrightarrow> t = s"
      "\<And>r. run_id_of (ap_encode ap (create_run_json r)) = Inr (uuid_str (cr_run_id r))"
    and rid: "rid = db_gen d (db_next d)"
  shows "fetch_run_scope rid d' = (Inr (run_scope_json (host_scope host cd)), d') \<and>
    rid \<in> set (db_notified d') \<and> (\<forall>it \<in> set items. \<exists>e \<in> set (db_evidence d'). row_of rid it e)"
proof -
  from run obtain its wi tarball items' h ridt s1 where c: "collect_tools host timeout (select_tools tools) [] w = (Inr its, wi)"
    and some: "its \<noteq> []" and b: "build host cd (host_scope host cd) its (snd wi) = (Inr tarball, items', h)"
    and cr: "client_create_run (api_server ap base run_id_of) base (run_scope_json (host_scope host cd)) (st, d) = (Inr ridt, s1)"
    and up: "client_upload_bundle (api_server ap base run_id_of) base ridt tarball s1 = (Inr (), (st', d'))"
    by (rule run_cmd_uploaded)
  from c coll have [simp]: "its = items" "wi = w1" by simp_all
  obtain r where r: "create_run (ap_settings ap) (run_scope_json (host_scope host cd)) (st, d) = (Inr r, s1)"
    and ridt: "ridt = uuid_str (cr_run_id r)"
    by (rule client_create_returned [OF cr api(4)])
  obtain sta d1 where s1: "s1 = (sta, d1)" by (cases s1)
  from create_run_new [OF r [unfolded s1]] obtain row where new: "cr_run_id r = rid" "\<not> has_run d rid"
    "db_evidence d1 = db_evidence d" "run_id row = rid" "run_scope row = run_scope_json (host_scope host cd)"
    "db_runs d1 = db_runs d @ [row]" unfolding rid by auto
  obtain r' where ing: "ingest_bundle (ap_minio ap) (ap_adapt ap) (ap_settings ap) (ap_parse ap) (ap_stamp ap) rid tarball (sta, d1) =
      (Inr r', (st', d'))"
    by (rule client_upload_returned [OF up [unfolded ridt new(1) s1] api(2) api(1)])
  from b have "set_files host cd items (snd w1) = (items', h)" by (auto simp: build_def Let_def split: prod.splits)
  from filed_ids [OF set_files_filed [OF this] ids(2)] ids(1) have dist: "distinct (map it_id items')" by simp
  from build_parses [OF b parse(2) dist] have filed: "list_all2 (filed cd) items items'" by simp
  from ing obtain bu where bu: "ap_parse ap tarball = Inr bu" by (elim ingest_bundle_returned)
  with build_parses [OF b parse(2) dist] parse(1) have its: "bu_items bu = map received_item items'"
    by (auto simp: bindE_eq_Inr split: if_splits)
  have none: "\<forall>e \<in> set (db_evidence d1). ei_run_id e \<noteq> rid" using fk new(2,3) by auto
  have fresh: "it_id ` set items \<inter> ei_id ` set (db_evidence d1) = {}" using ids(3) new(3) by simp
  note rows = upload_rows [OF ing bu its filed ids(2,1) fresh api(3) none]
  have "rid \<notin> run_id ` set (db_runs d)" using new(2) by (simp add: has_run_def)
  from scope_after [OF new(6,4) this conjunct1 [OF rows]] rows new(5) some show ?thesis by simp
qed

section \<open>Properties\<close>

text \<open>
  C2. From the audited host to the agents: when \<open>auditor-collect run --upload\<close> succeeds against the
  ingestion API, there is a new run with the host's name and identifier as its scope, and the worker
  is notified of it. However worker and services go on before and after the worker handles that
  notification, if at that moment the run has at most 500 pending items, whose bytes can be fetched,
  and its host can be stored, then the evidence of every item that was collected is stored under its
  tool and category and parsed, and a discovery pass over the run that returns has run the agent bound
  to that category. Item identifiers are assumed to be fresh and distinct, and the decoders to
  understand the encoders.
\<close>

theorem collected_items_reach_agents:
  assumes run: "run_cmd host cd (api_server ap base run_id_of) base [] tools timeout (w, (st, d)) = (Inr (), w', (st', d'))"
    and coll: "collect_tools host timeout (select_tools tools) [] w = (Inr items, w1)"
    and ids: "distinct (map it_id items)" "0 \<notin> it_id ` set items" "it_id ` set items \<inter> ei_id ` set (db_evidence d) = {}"
    and fk: "\<forall>e \<in> set (db_evidence d). has_run d (ei_run_id e)"
    and parse: "ap_parse ap = parse_bundle tar_open jbytes fromiso" "understood cd tar_open jbytes fromiso"
    and api: "library_errors ap" "\<And>u. ap_path_uuid ap (uuid_str u) = Some u" "\<And>s t. ap_adapt ap (PyStr s) = Inr t \<Longrightarrow> t = s"
      "\<And>r. run_id_of (ap_encode ap (create_run_json r)) = Inr (uuid_str (cr_run_id r))"
    and rid: "ra_run_id ra = db_gen d (db_next d)"
    and before: "worker_trace dep parse_id (worker_env dc h s3 tenant) (st', d', g1) (st2, d0, g2)"
    and id: "parse_id (uuid_str (ra_run_id ra)) = Some (ra_run_id ra)"
    and host: "host_storable tenant (run_scope_json (host_scope host cd)) d0"
    and few: "length (pending_in d0 (ra_run_id ra)) \<le> 500"
    and readable: "\<And>e. e \<in> set (pending_in d0 (ra_run_id ra)) \<Longrightarrow> registry_get dc (ei_source_tool e) \<noteq> None \<Longrightarrow>
      \<exists>raw. fetch_object s3 (ei_raw_ref e) = Inr raw"
    and after: "worker_trace dep parse_id (worker_env dc h s3 tenant)
      (st2, handle parse_id (worker_env dc h s3 tenant) (Notification (uuid_str (ra_run_id ra))) d0, g2) (st3, d1, g3)"
    and pass: "discover_run (pg_repo tenant') ra (d1, g) = (Inr report, w'')"
    and agents: "reg_contains (ra_registry ra) ''hardware''" "reg_contains (ra_registry ra) ''security_analysis''"
    and it: "it \<in> set items"
  shows "fetch_run_scope (ra_run_id ra) d' = (Inr (run_scope_json (host_scope host cd)), d') \<and>
    ra_run_id ra \<in> set (db_notified d') \<and>
    (\<exists>e \<in> set (db_evidence d1). row_of (ra_run_id ra) it e \<and> ei_parsed e \<noteq> None) \<and>
    (\<exists>b. binding_for (it_category it) = Some b \<and> db_agent b \<in> set (rr_domains_run report))"
proof -
  from uploaded_run [OF run coll ids fk parse api rid]
  have scope: "fetch_run_scope (ra_run_id ra) d' = (Inr (run_scope_json (host_scope host cd)), d')"
    and notified: "ra_run_id ra \<in> set (db_notified d')"
    and rows: "\<forall>it \<in> set items. \<exists>e \<in> set (db_evidence d'). row_of (ra_run_id ra) it e"
    by simp_all
  from worker_trace_continues [OF before] have cont: "continues d' d0" by simp
  with scope have scope0: "fetch_run_scope (ra_run_id ra) d0 = (Inr (run_scope_json (host_scope host cd)), d0)"
    unfolding continues_def by blast
  from rows it obtain er where er: "er \<in> set (db_evidence d')" "row_of (ra_run_id ra) it er" by blast
  with cont obtain e0 where e0: "e0 \<in> set (db_evidence d0)" "row_of (ra_run_id ra) it e0"
    unfolding continues_def using row_of_kept by blast
  have "list_all (collected (select_tools tools)) items"
    by (rule collect_collected [OF coll subset_refl]) simp
  with it have "collected (select_tools tools) it" by (simp add: list_all_iff)
  from collected_reaches [OF this, of dc] obtain b where tool: "registry_get dc (ei_source_tool e0) \<noteq> None"
    and b: "binding_for (it_category it) = Some b" "reg_contains (ra_registry ra) (db_agent b)"
    using e0(2) agents by (auto simp: row_of_def)
  from e0(2) have "ei_run_id e0 = ra_run_id ra" by (simp add: row_of_def)
  from notified_parses [OF id scope0 host few readable after e0(1) this tool] obtain e
    where e: "e \<in> set (db_evidence d1)" "row_kept e0 e" and parsed: "ei_parsed e \<noteq> None" by blast
  note row = row_of_kept [OF e0(2) e(2)]
  with e(1) parsed have "e \<in> {x \<in> set (db_evidence d1). ei_run_id x = ra_run_id ra \<and> (\<exists>y. ei_parsed x = Some y)}"
    and cat: "it_category it = ei_category e" by (simp_all add: row_of_def)
  then have "it_category it \<in> set (rv_categories (pg_view (fst (d1, g))) (ra_run_id ra))"
    unfolding cat by (simp add: pg_view_def run_evidence_def)
  from pg.categories_covered [OF pass this] b have "db_agent b \<in> set (rr_domains_run report)" by simp
  with scope notified e(1) row parsed b(1) show ?thesis by blast
qed

text \<open>The sample host against a database without runs.\<close>

definition no_run_db :: db where
  "no_run_db = empty_run_db\<lparr>db_runs := [], db_next := 9\<rparr>"

definition sample_api :: "unit api" where
  "sample_api =
     \<lparr>ap_minio = sample_minio, ap_adapt = sample_adapt, ap_settings = sample_cfg,
      ap_parse = parse_bundle sample_tar (\<lambda>b. Decoded sample_manifest_json) (\<lambda>s. Inr 0), ap_stamp = ''t'',
      ap_path_uuid = (\<lambda>s. case uuid_parse s of Inl e \<Rightarrow> None | Inr u \<Rightarrow> Some u),
      ap_encode = (\<lambda>v. case v of PyDict ((k, PyStr s) # rest) \<Rightarrow> map (\<lambda>c. of_nat (of_char c)) s | _ \<Rightarrow> [])\<rparr>"

definition sample_decode :: "bytes \<Rightarrow> string res" where
  "sample_decode bs = Inr (map (\<lambda>b. char_of (unat b)) bs)"

definition both_agents :: "unit run_args" where
  "both_agents = silent_args\<lparr>ra_registry := [(''hardware'', sample_agent), (''security_analysis'', sample_agent)]\<rparr>"

lemma sample_api_parse:
  "ap_parse sample_api data = Inr \<lparr>bu_schema_version = ''1'', bu_collector_version = ''0.1.0'', bu_collected_at = 0,
     bu_scope = scope_json sample_scope, bu_items = [received_item sample_filed]\<rparr>"
proof -
  have "parse_bundle sample_tar jb iso data = parse_bundle sample_tar jb iso [2]" for jb iso
    by (simp add: parse_bundle_def sample_tar_def)
  with build_parses [OF sample_builds sample_understood] show ?thesis
    by (simp add: sample_api_def SchemaVersion_def CollectorVersion_def)
qed

lemma sample_library_errors: "library_errors sample_api"
proof -
  have "raises_errors (put_bytes sample_minio cfg k b t)" for cfg k b t
  proof -
    have "put_bytes sample_minio cfg k b t w = (Inr (''s3://'' @ is_bucket cfg @ ''/'' @ k), (True, snd w))" for w
      by (cases w) (simp add: put_bytes_def client_def ensure_bucket_def sample_minio_def bindC_def on_snd_def)
    then show ?thesis by (simp add: raises_errors_def)
  qed
  moreover have "error_status e" if "sample_adapt v = Inl e" for v e
    using that by (auto simp: sample_adapt_def error_status_def split: pyval.splits)
  ultimately show ?thesis by (simp add: library_errors_def sample_api_parse) (simp add: sample_api_def)
qed

lemma sample_decodes: "sample_decode (ap_encode sample_api (create_run_json r)) = Inr (uuid_str (cr_run_id r))"
proof -
  have "char_of (unat (of_nat (of_char c) :: 8 word)) = c" for c :: char
  proof -
    show ?thesis by (simp add: unat_of_nat)
  qed
  then show ?thesis by (simp add: sample_decode_def sample_api_def create_run_json_def comp_def)
qed

lemma sample_upload:
  obtains st' d' where "run_cmd sample_host sample_codec (api_server sample_api ''u'' sample_decode) ''u'' [] ''uname,rm'' 60
      (([], 7), ((False, ()), no_run_db)) =
      (Inr (), ([(''/bin/uname'', [''-a'']), (''/bin/uname'', [''--version''])], 8), (st', d'))"
    and "db_assets d' = []" and "has_tenant d' 5" and "length (db_evidence d') = 1 \<and> prefix ''s3://raw/'' (ei_raw_ref (hd (db_evidence d')))"
proof -
  let ?sv = "api_server sample_api ''u'' sample_decode"
  have sc: "host_scope sample_host sample_codec = sample_scope"
    by (simp add: host_scope_def sample_host_def sample_codec_def sample_scope_def Let_def)
  obtain d1 where cr: "create_run sample_cfg (run_scope_json sample_scope) ((False, ()), no_run_db) =
      (Inr \<lparr>cr_run_id = 9, cr_status = ''collecting''\<rparr>, ((False, ()), d1))"
    and d1: "db_evidence d1 = []" "db_assets d1 = []" "run_of_tenant d1 9 5" "has_run d1 9" "has_tenant d1 5"
    by (rule that, simp add: create_run_def with_conn_def on_snd_def bindC_def insert_run_def has_run_def has_tenant_def
        no_run_db_def empty_run_db_def sample_cfg_def insert_audit_def Let_def)
      (simp_all add: run_of_tenant_def has_run_def has_tenant_def)
  have create: "client_create_run ?sv ''u'' (run_scope_json sample_scope) ((False, ()), no_run_db) =
      (Inr (uuid_str 9), ((False, ()), d1))"
  proof -
    have cfg: "ap_settings sample_api = sample_cfg" by (simp add: sample_api_def)
    have scope: "request_scope (PyDict [(''scope'', run_scope_json sample_scope)]) = Some (run_scope_json sample_scope)"
      by (simp add: request_scope_def run_scope_json_def)
    have "post_run sample_api (Json (PyDict [(''scope'', run_scope_json sample_scope)])) ((False, ()), no_run_db) =
        (Inr (create_run_json \<lparr>cr_run_id = 9, cr_status = ''collecting''\<rparr>), ((False, ()), d1))"
      by (simp add: post_run_def scope mapC_result_def cfg cr)
    then show ?thesis
      using sample_decodes [of "\<lparr>cr_run_id = 9, cr_status = ''collecting''\<rparr>"]
      by (simp add: client_create_run_def api_server_def api_post_def respond_def successful_def)
  qed
  obtain st' d' where ing: "ingest_bundle sample_minio sample_adapt sample_cfg (ap_parse sample_api) ''t'' 9 [2] ((False, ()), d1) =
      (Inr \<lparr>ir_run_id = 9, ir_accepted_items = 1, ir_status = ''normalizing''\<rparr>, (st', d'))" and d': "db_assets d' = []" "has_tenant d' 5"
      "length (db_evidence d') = 1 \<and> prefix ''s3://raw/'' (ei_raw_ref (hd (db_evidence d')))"
    by (rule that, simp add: ingest_bundle_def sample_api_parse parse_or_400_def bindC_def on_fst_def on_snd_def
        put_bytes_def client_def ensure_bucket_def sample_minio_def sample_cfg_def ingest_block_def with_conn_def
        check_run_def ingest_items_def ingest_item_def received_item_def sample_filed_def sample_collected_def
        sample_adapt_def insert_evidence_def evidence_row_of_def confidence_check_def set_normalizing_def
        insert_audit_def d1)
      (use d1 in \<open>simp_all add: has_tenant_def\<close>)
  have route: "api_post sample_api (''/v1/runs/'' @ uuid_str 9 @ ''/bundle'') (Form_File ''bundle_file'' ''bundle.tar.gz'' [2])
      ((False, ()), d1) = (respond (ap_encode sample_api) 200 (Inr (ingest_json
        \<lparr>ir_run_id = 9, ir_accepted_items = 1, ir_status = ''normalizing''\<rparr>)), (st', d'))"
  proof -
    have "str_split (CHR ''/'') (uuid_str 9 @ ''/bundle'') = [uuid_str 9, ''bundle'']"
      using str_split_sep [OF uuid_str_no_slash] by simp
    then have "str_split (CHR ''/'') (''/v1/runs/'' @ uuid_str 9 @ ''/bundle'') = [[], ''v1'', ''runs'', uuid_str 9, ''bundle'']"
      by simp
    moreover have "post_bundle sample_api (uuid_str 9) (Form_File ''bundle_file'' ''bundle.tar.gz'' [2]) ((False, ()), d1) =
        (Inr (ingest_json \<lparr>ir_run_id = 9, ir_accepted_items = 1, ir_status = ''normalizing''\<rparr>), (st', d'))"
    proof -
      have "ap_path_uuid sample_api (uuid_str 9) = Some 9" by (simp add: sample_api_def)
      moreover have "ap_minio sample_api = sample_minio" "ap_adapt sample_api = sample_adapt"
        "ap_settings sample_api = sample_cfg" "ap_stamp sample_api = ''t''" by (simp_all add: sample_api_def)
      ultimately show ?thesis using ing by (simp add: post_bundle_def mapC_result_def)
    qed
    ultimately show ?thesis by (simp add: api_post_def)
  qed
  have upload: "client_upload_bundle ?sv ''u'' (uuid_str 9) [2] ((False, ()), d1) = (Inr (), (st', d'))"
    using route by (simp add: client_upload_bundle_def api_server_def respond_def successful_def)
  have "deliver sample_host ?sv sample_scope ''u'' [] [2] (w, ((False, ()), no_run_db)) = (Inr (), w, (st', d'))" for w
    using create upload by (simp add: deliver_def)
  with sample_collects [of "[]"] show thesis
    by (intro that [OF _ d'(1,2,3)]) (simp add: run_cmd_def sample_select sc sample_builds del: collect_tools.simps)
qed

theorem collected_items_reach_agents_witness:
  "\<exists>d1 report w''. discover_run (pg_repo 5) both_agents (d1, ()) = (Inr report, w'') \<and>
     (\<exists>e \<in> set (db_evidence d1). ei_source_tool e = ''uname'' \<and> ei_parsed e \<noteq> None) \<and>
     ''hardware'' \<in> set (rr_domains_run report)"
proof -
  obtain st' d' where run: "run_cmd sample_host sample_codec (api_server sample_api ''u'' sample_decode) ''u'' [] ''uname,rm'' 60
      (([], 7), ((False, ()), no_run_db)) =
      (Inr (), ([(''/bin/uname'', [''-a'']), (''/bin/uname'', [''--version''])], 8), (st', d'))"
    and none: "db_assets d' = []" "has_tenant d' 5"
    and one: "length (db_evidence d') = 1 \<and> prefix ''s3://raw/'' (ei_raw_ref (hd (db_evidence d')))"
    by (rule sample_upload)
  have coll: "collect_tools sample_host 60 (select_tools ''uname,rm'') [] ([], 7) =
      (Inr [sample_collected], ([(''/bin/uname'', [''-a'']), (''/bin/uname'', [''--version''])], 8))"
    using sample_collects [of "[]"] by (simp add: sample_select del: collect_tools.simps)
  have ids: "distinct (map it_id [sample_collected])" "0 \<notin> it_id ` set [sample_collected]"
    "it_id ` set [sample_collected] \<inter> ei_id ` set (db_evidence no_run_db) = {}"
    "\<forall>e \<in> set (db_evidence no_run_db). has_run no_run_db (ei_run_id e)"
    by (simp_all add: sample_collected_def no_run_db_def empty_run_db_def)
  have parse: "ap_parse sample_api = parse_bundle sample_tar (\<lambda>b. Decoded sample_manifest_json) (\<lambda>s. Inr 0)"
    by (simp add: sample_api_def)
  have api: "ap_path_uuid sample_api (uuid_str u) = Some u" "ap_adapt sample_api (PyStr s) = Inr t \<Longrightarrow> t = s" for u s t
    by (simp_all add: sample_api_def sample_adapt_def)
  have args: "ra_run_id both_agents = db_gen no_run_db (db_next no_run_db)"
    "reg_contains (ra_registry both_agents) ''hardware''" "reg_contains (ra_registry both_agents) ''security_analysis''"
    by (simp_all add: both_agents_def silent_args_def sample_args_def no_run_db_def empty_run_db_def reg_contains_def)
  have host: "host_storable 5 (run_scope_json (host_scope sample_host sample_codec)) d'"
    by (simp add: host_storable_def has_asset_def none)
  have few: "length (pending_in d' (ra_run_id both_agents)) \<le> 500"
    unfolding pending_in_def by (rule order.trans [OF length_filter_le]) (simp add: one)
  have readable: "\<exists>raw. fetch_object (\<lambda>bucket key. Inr []) (ei_raw_ref e) = Inr raw"
    if "e \<in> set (pending_in d' (ra_run_id both_agents))" for e
  proof -
    from that one have "prefix ''s3://raw/'' (ei_raw_ref e)" by (cases "db_evidence d'") (auto simp: pending_in_def split: if_splits)
    then obtain key where "ei_raw_ref e = ''s3://'' @ ''raw'' @ ''/'' @ key" by (auto simp: prefix_def)
    moreover have "parse_s3_uri (''s3://'' @ ''raw'' @ ''/'' @ key) = Inr (''raw'', key)"
      by (rule parse_s3_uri_of_parts) simp
    ultimately show ?thesis unfolding fetch_object_def by simp
  qed
  let ?env = "worker_env quiet_decoders (\<lambda>s. 0) (\<lambda>bucket key. Inr []) 5"
  let ?d1 = "handle some_uuid ?env (Notification (uuid_str (ra_run_id both_agents))) d'"
  have before: "worker_trace sample_dep some_uuid ?env (st', d', ()) (st', d', ())" by (rule idle)
  have after: "worker_trace sample_dep some_uuid ?env (st', ?d1, ()) (st', ?d1, ())" by (rule idle)
  have "silent (ra_gateway both_agents)" by (simp add: silent_def returns_def both_agents_def silent_args_def)
  then obtain report w'' where pass: "discover_run (pg_repo 5) both_agents (?d1, ()) = (Inr report, w'')" by (rule silent_pass)
  have it: "sample_collected \<in> set [sample_collected]" by simp
  note reach = collected_items_reach_agents [OF run coll ids parse sample_understood sample_library_errors api sample_decodes
      args(1) before some_uuid_str host few readable after pass args(2,3) it]
  have fields: "it_source_tool sample_collected = ''uname''"
    "binding_for (it_category sample_collected) = Some (binding ''hardware'' ''hardware'')"
    by (simp_all add: sample_collected_def binding_for_def CATEGORY_BINDINGS_def)
  from reach obtain e where "e \<in> set (db_evidence ?d1)" "ei_source_tool e = ''uname''" "ei_parsed e \<noteq> None"
    by (auto simp: row_of_def fields(1))
  moreover from reach have "''hardware'' \<in> set (rr_domains_run report)" by (auto simp: fields(2))
  ultimately show ?thesis using pass by blast
qed

end
