(* ===== verification/Json_Text.thy ===== *)
theory Json_Text
  imports Py_Text
begin

text \<open>
  JSON as text: values, the compact way to write one, and a reader of the grammar of RFC 8259, the
  reference against which writers are judged. A number is kept as its token; a code point above 255
  in an escape is refused, as strings have the code points 0 to 255. The reader has fuel, twice the
  length of the text and one more, which is enough: a value of \<open>n\<close> characters needs at most \<open>2 n\<close>
  nested calls (\<open>need_length\<close>). \<open>read_compact\<close> says what reading a written value gives: the value, if its numbers
  are JSON numbers, and nothing if one of them is what C prints for an infinity or a NaN.
\<close>

datatype json =
    Number string
  | Text string
  | Flag bool
  | Null
  | Array "json list"
  | Object "(string \<times> json) list"

section \<open>Writing\<close>

definition escape :: "char \<Rightarrow> string" where
  "escape c =
     (if c = CHR 0x22 \<or> c = CHR 0x5C then [CHR 0x5C, c]
      else if c = CHR 0x0A then [CHR 0x5C, CHR ''n''] else if c = CHR 0x0D then [CHR 0x5C, CHR ''r'']
      else if c = CHR 0x09 then [CHR 0x5C, CHR ''t''] else if c = CHR 0x08 then [CHR 0x5C, CHR ''b'']
      else if c = CHR 0x0C then [CHR 0x5C, CHR ''f'']
      else if (of_char c :: nat) < 32 then [CHR 0x5C, CHR ''u''] @ hex_fixed 4 (of_char c)
      else [c])"

definition quote :: "string \<Rightarrow> string" where
  "quote s = [CHR 0x22] @ concat (map escape s) @ [CHR 0x22]"

fun compact :: "json \<Rightarrow> string" where
  "compact (Number t) = t"
| "compact (Text s) = quote s"
| "compact (Flag b) = (if b then ''true'' else ''false'')"
| "compact Null = ''null''"
| "compact (Array xs) = ''['' @ str_join '','' (map compact xs) @ '']''"
| "compact (Object kvs) = ''{'' @ str_join '','' (map (\<lambda>(k, v). quote k @ '':'' @ compact v) kvs) @ ''}''"

section \<open>Reading\<close>

definition skip_ws :: "string \<Rightarrow> string" where
  "skip_ws = dropWhile (\<lambda>c. c = CHR '' '' \<or> c = CHR 0x09 \<or> c = CHR 0x0A \<or> c = CHR 0x0D)"

definition hex_val :: "char \<Rightarrow> nat option" where
  "hex_val c = (case digit_val c of Some d \<Rightarrow> (if d < 16 then Some d else None) | None \<Rightarrow> None)"

fun code_point :: "string \<Rightarrow> char option" where
  "code_point (a # b # c # d # s) =
     (case (hex_val a, hex_val b, hex_val c, hex_val d) of
        (Some w, Some x, Some y, Some z) \<Rightarrow>
          let n = ((w * 16 + x) * 16 + y) * 16 + z in if n < 256 then Some (char_of n) else None
      | _ \<Rightarrow> None)"
| "code_point s = None"

definition unescape :: "char \<Rightarrow> char option" where
  "unescape e =
     map_of [(CHR 0x22, CHR 0x22), (CHR 0x5C, CHR 0x5C), (CHR ''/'', CHR ''/''), (CHR ''b'', CHR 0x08),
       (CHR ''f'', CHR 0x0C), (CHR ''n'', CHR 0x0A), (CHR ''r'', CHR 0x0D), (CHR ''t'', CHR 0x09)] e"

text \<open>The characters of a string up to the closing quote.\<close>

fun read_chars :: "string \<Rightarrow> (string \<times> string) option" where
  "read_chars [] = None"
| "read_chars (c # cs) =
     (if c = CHR 0x22 then Some ([], cs)
      else if c = CHR 0x5C then
        (case cs of
           [] \<Rightarrow> None
         | e # es \<Rightarrow>
             if e = CHR ''u''
             then (case code_point es of None \<Rightarrow> None | Some x \<Rightarrow> map_option (apfst (Cons x)) (read_chars (drop 4 es)))
             else (case unescape e of None \<Rightarrow> None | Some x \<Rightarrow> map_option (apfst (Cons x)) (read_chars es)))
      else if (of_char c :: nat) < 32 then None
      else map_option (apfst (Cons c)) (read_chars cs))"

definition is_digit :: "char \<Rightarrow> bool" where
  "is_digit c \<longleftrightarrow> c \<in> set ''0123456789''"

definition number_char :: "char \<Rightarrow> bool" where
  "number_char c \<longleftrightarrow> is_digit c \<or> c \<in> set ''+-.eE''"

definition digits :: "string \<Rightarrow> bool" where
  "digits s \<longleftrightarrow> s \<noteq> [] \<and> list_all is_digit s"

definition exponent_part :: "string \<Rightarrow> bool" where
  "exponent_part s =
     (case s of
        [] \<Rightarrow> True
      | e # t \<Rightarrow> (e = CHR ''e'' \<or> e = CHR ''E'') \<and> digits (if prefix ''+'' t \<or> prefix ''-'' t then tl t else t))"

definition fraction_part :: "string \<Rightarrow> bool" where
  "fraction_part s =
     (if prefix ''.'' s
      then takeWhile is_digit (tl s) \<noteq> [] \<and> exponent_part (dropWhile is_digit (tl s))
      else exponent_part s)"

definition valid_number :: "string \<Rightarrow> bool" where
  "valid_number s =
     (let t = (if prefix ''-'' s then tl s else s); i = takeWhile is_digit t in
      i \<noteq> [] \<and> (hd i = CHR ''0'' \<longrightarrow> length i = 1) \<and> fraction_part (dropWhile is_digit t))"

definition read_number :: "string \<Rightarrow> (json \<times> string) option" where
  "read_number s =
     (let t = takeWhile number_char s in
      if valid_number t then Some (Number t, dropWhile number_char s) else None)"

fun read_value :: "nat \<Rightarrow> string \<Rightarrow> (json \<times> string) option"
  and read_items :: "nat \<Rightarrow> string \<Rightarrow> (json list \<times> string) option"
  and read_fields :: "nat \<Rightarrow> string \<Rightarrow> ((string \<times> json) list \<times> string) option" where
  "read_value 0 s = None"
| "read_value (Suc n) s =
     (case skip_ws s of
        [] \<Rightarrow> None
      | c # cs \<Rightarrow>
          if c = CHR 0x22 then map_option (apfst Text) (read_chars cs)
          else if c = CHR ''['' then
            (if prefix '']'' (skip_ws cs) then Some (Array [], tl (skip_ws cs))
             else map_option (apfst Array) (read_items n cs))
          else if c = CHR ''{'' then
            (if prefix ''}'' (skip_ws cs) then Some (Object [], tl (skip_ws cs))
             else map_option (apfst Object) (read_fields n cs))
          else if prefix ''true'' (c # cs) then Some (Flag True, drop 3 cs)
          else if prefix ''false'' (c # cs) then Some (Flag False, drop 4 cs)
          else if prefix ''null'' (c # cs) then Some (Null, drop 3 cs)
          else read_number (c # cs))"
| "read_items 0 s = None"
| "read_items (Suc n) s =
     (case read_value n s of
        None \<Rightarrow> None
      | Some (v, r) \<Rightarrow>
          (case skip_ws r of
             [] \<Rightarrow> None
           | c # r' \<Rightarrow>
               if c = CHR '','' then map_option (apfst (Cons v)) (read_items n r')
               else if c = CHR '']'' then Some ([v], r') else None))"
| "read_fields 0 s = None"
| "read_fields (Suc n) s =
     (case skip_ws s of
        [] \<Rightarrow> None
      | q # s1 \<Rightarrow>
          if q \<noteq> CHR 0x22 then None
          else (case read_chars s1 of
             None \<Rightarrow> None
           | Some (k, s2) \<Rightarrow>
               if \<not> prefix '':'' (skip_ws s2) then None
               else (case read_value n (tl (skip_ws s2)) of
                  None \<Rightarrow> None
                | Some (v, r) \<Rightarrow>
                    (case skip_ws r of
                       [] \<Rightarrow> None
                     | c # r' \<Rightarrow>
                         if c = CHR '','' then map_option (apfst (Cons (k, v))) (read_fields n r')
                         else if c = CHR ''}'' then Some ([(k, v)], r') else None))))"

definition read_json :: "string \<Rightarrow> json option" where
  "read_json s =
     (case read_value (2 * length s + 1) s of
        None \<Rightarrow> None
      | Some (v, r) \<Rightarrow> if skip_ws r = [] then Some v else None)"

section \<open>Strings\<close>

lemma hex_val_digit [simp]: "d < 16 \<Longrightarrow> hex_val (digit_char d) = Some d"
  by (simp add: hex_val_def)

lemma code_point_hex:
  assumes "n < 256"
  shows "code_point (hex_fixed 4 n @ s) = Some (char_of n)"
proof -
  from assms have z: "n div 16 div 16 = 0" by simp
  have four: "(4::nat) = Suc (Suc (Suc (Suc 0)))" by simp
  have h: "hex_fixed 4 n = [digit_char 0, digit_char 0, digit_char (n div 16 mod 16), digit_char (n mod 16)]"
    unfolding four hex_fixed.simps z append_Nil append_Cons by simp
  have "n div 16 mod 16 = n div 16" using assms by simp
  then have v: "n div 16 mod 16 * 16 + n mod 16 = n" by simp
  have "n div 16 mod 16 < 16" "n mod 16 < 16" by simp_all
  with assms v show ?thesis unfolding h by (simp add: Let_def del: mod_less_divisor)
qed

lemma escape_cases:
  obtains (short) e where "escape c = [CHR 0x5C, e]" "e \<noteq> CHR ''u''" "unescape e = Some c"
    | (hex) "escape c = [CHR 0x5C, CHR ''u''] @ hex_fixed 4 (of_char c)"
    | (plain) "escape c = [c]" "c \<noteq> CHR 0x22" "c \<noteq> CHR 0x5C" "32 \<le> (of_char c :: nat)"
proof -
  consider "c \<in> {CHR 0x22, CHR 0x5C, CHR 0x0A, CHR 0x0D, CHR 0x09, CHR 0x08, CHR 0x0C}"
    | "c \<notin> {CHR 0x22, CHR 0x5C, CHR 0x0A, CHR 0x0D, CHR 0x09, CHR 0x08, CHR 0x0C}" by blast
  then show thesis
  proof cases
    case 1
    then have "\<exists>e. escape c = [CHR 0x5C, e] \<and> e \<noteq> CHR ''u'' \<and> unescape e = Some c"
      by (auto simp: escape_def unescape_def)
    with short show thesis by blast
  next
    case 2
    then show thesis by (cases "(of_char c :: nat) < 32") (auto intro: hex plain simp: escape_def)
  qed
qed

lemma read_chars_escape: "read_chars (escape c @ s) = map_option (apfst (Cons c)) (read_chars s)"
proof (cases rule: escape_cases [of c])
  case hex
  have "(of_char c :: nat) < 256" by simp
  from code_point_hex [OF this, of s] hex show ?thesis by simp
qed simp_all

lemma read_chars_quoted: "read_chars (concat (map escape s) @ CHR 0x22 # rest) = Some (s, rest)"
proof (induction s)
  case (Cons c s)
  then show ?case using read_chars_escape [of c "concat (map escape s) @ CHR 0x22 # rest"] by simp
qed simp

section \<open>Reading what was written\<close>

fun number_tokens :: "json \<Rightarrow> string list" where
  "number_tokens (Number t) = [t]"
| "number_tokens (Array xs) = concat (map number_tokens xs)"
| "number_tokens (Object kvs) = concat (map (\<lambda>(k, v). number_tokens v) kvs)"
| "number_tokens v = []"

definition readable :: "string \<Rightarrow> bool" where
  "readable t \<longleftrightarrow> read_number t = Some (Number t, [])"

definition non_finite :: "string \<Rightarrow> bool" where
  "non_finite t \<longleftrightarrow> t \<in> {''nan'', ''-nan'', ''inf'', ''-inf''}"

definition good :: "json \<Rightarrow> bool" where
  "good j \<longleftrightarrow> list_all readable (number_tokens j)"

definition printed :: "json \<Rightarrow> bool" where
  "printed j \<longleftrightarrow> list_all (\<lambda>t. readable t \<or> non_finite t) (number_tokens j)"

fun need :: "json \<Rightarrow> nat" where
  "need (Array xs) = Suc (sum_list (map (\<lambda>x. Suc (need x)) xs))"
| "need (Object kvs) = Suc (sum_list (map (\<lambda>(k, v). Suc (need v)) kvs))"
| "need v = 1"

lemma good_simps [simp]:
  "good (Number t) \<longleftrightarrow> readable t" "good (Text s)" "good (Flag b)" "good Null"
  "good (Array xs) \<longleftrightarrow> list_all good xs" "good (Object kvs) \<longleftrightarrow> list_all (\<lambda>(k, v). good v) kvs"
  by (auto simp: good_def list_all_iff)

lemma printed_simps [simp]:
  "printed (Number t) \<longleftrightarrow> readable t \<or> non_finite t" "printed (Text s)" "printed (Flag b)" "printed Null"
  "printed (Array xs) \<longleftrightarrow> list_all printed xs" "printed (Object kvs) \<longleftrightarrow> list_all (\<lambda>(k, v). printed v) kvs"
  by (auto simp: printed_def list_all_iff)

lemma readable_chars:
  assumes "readable t"
  shows "t \<noteq> [] \<and> list_all number_char t \<and> valid_number t"
proof -
  from assms have v: "valid_number (takeWhile number_char t)" and d: "dropWhile number_char t = []"
    by (auto simp: readable_def read_number_def Let_def split: if_splits)
  from d have "takeWhile number_char t = t" by (metis append_Nil2 takeWhile_dropWhile_id)
  moreover have "\<not> valid_number []" by code_simp
  ultimately show ?thesis using v d by (metis dropWhile_eq_Nil_conv list_all_iff)
qed

lemma read_readable:
  assumes "readable t" and "rest = [] \<or> \<not> number_char (hd rest)"
  shows "read_number (t @ rest) = Some (Number t, rest)"
proof -
  from readable_chars [OF assms(1)] have t: "list_all number_char t" "valid_number t" by simp_all
  with assms(2) have "takeWhile number_char (t @ rest) = t" "dropWhile number_char (t @ rest) = rest"
    by (auto simp: list_all_iff takeWhile_append dropWhile_append hd_Cons_tl intro: takeWhile_eq_Nil_iff [THEN iffD2])
      (cases rest, simp_all)+
  with t show ?thesis by (simp add: read_number_def)
qed

lemma read_non_finite:
  assumes "non_finite t" and "rest = [] \<or> \<not> number_char (hd rest)"
  shows "read_number (t @ rest) = None"
proof -
  have n: "\<not> number_char CHR ''n''" "\<not> number_char CHR ''i''" "number_char CHR ''-''" "\<not> valid_number []" "\<not> valid_number ''-''"
    by code_simp+
  from assms(1) show ?thesis by (auto simp: non_finite_def read_number_def n)
qed

text \<open>The first character of a written value shows its kind, and is neither space nor a bracket that closes.\<close>

definition spaces :: string where
  "spaces = [CHR '' '', CHR 0x09, CHR 0x0A, CHR 0x0D]"

lemma skip_ws_id [simp]: "c \<notin> set spaces \<Longrightarrow> skip_ws (c # s) = c # s"
  by (simp add: skip_ws_def spaces_def)

lemma number_char_plain:
  assumes "number_char c"
  shows "c \<notin> set (spaces @ ''[]{}tfn'' @ [CHR 0x22])"
proof -
  have "list_all (\<lambda>c. \<not> number_char c) (spaces @ ''[]{}tfn'' @ [CHR 0x22])" by code_simp
  with assms show ?thesis by (auto simp: list_all_iff)
qed

lemma printed_token:
  assumes "printed (Number t)"
  obtains c s where "t = c # s" and "c \<notin> set (spaces @ ''[]{}tf'' @ [CHR 0x22])" and "c = CHR ''n'' \<longrightarrow> prefix ''na'' t"
proof (cases "readable t")
  case True
  from readable_chars [OF this] obtain c s where "t = c # s" "number_char c" by (cases t) auto
  with number_char_plain [of c] that show thesis by auto
next
  case False
  with assms consider "t = ''nan''" | "t = ''-nan''" | "t = ''inf''" | "t = ''-inf''" by (auto simp: non_finite_def)
  then show thesis
  proof cases
    case 1
    show thesis by (rule that [of "CHR ''n''" "''an''"]) (simp_all add: 1 spaces_def)
  next
    case 2
    show thesis by (rule that [of "CHR ''-''" "''nan''"]) (simp_all add: 2 spaces_def)
  next
    case 3
    show thesis by (rule that [of "CHR ''i''" "''nf''"]) (simp_all add: 3 spaces_def)
  next
    case 4
    show thesis by (rule that [of "CHR ''-''" "''inf''"]) (simp_all add: 4 spaces_def)
  qed
qed

lemma compact_starts:
  assumes "printed j"
  obtains c s where "compact j = c # s" and "c \<notin> set (spaces @ '']}'')"
proof (cases j)
  case (Number t)
  with assms have "printed (Number t)" by simp
  then obtain c s where "t = c # s" "c \<notin> set (spaces @ ''[]{}tf'' @ [CHR 0x22])" by (rule printed_token)
  with Number that show thesis by auto
next
  case (Flag b)
  with that show thesis by (cases b) (simp_all add: spaces_def)
qed (use that in \<open>auto simp: spaces_def quote_def \<close>)

lemma read_token:
  assumes "printed (Number t)" and "rest = [] \<or> \<not> number_char (hd rest)"
  shows "read_value (Suc n) (t @ rest) = (if readable t then Some (Number t, rest) else None)"
proof -
  from assms(1) obtain c s where t: "t = c # s" "c \<notin> set (spaces @ ''[]{}tf'' @ [CHR 0x22])"
    and n: "c = CHR ''n'' \<longrightarrow> prefix ''na'' t" by (rule printed_token)
  from n t(1) have "\<not> prefix ''null'' (t @ rest)" by (cases s) auto
  with t have "read_value (Suc n) (t @ rest) = read_number (t @ rest)" by auto
  with read_readable [OF _ assms(2)] read_non_finite [OF _ assms(2)] assms(1) show ?thesis by auto
qed

section \<open>Containers\<close>

definition reads :: "json \<Rightarrow> bool" where
  "reads j \<longleftrightarrow>
     (\<forall>n rest. need j \<le> n \<longrightarrow> (rest = [] \<or> \<not> number_char (hd rest)) \<longrightarrow>
        read_value n (compact j @ rest) = (if good j then Some (j, rest) else None))"

lemma readsD:
  "reads j \<Longrightarrow> need j \<le> n \<Longrightarrow> \<not> number_char c \<Longrightarrow>
     read_value n (compact j @ c # rest) = (if good j then Some (j, c # rest) else None)"
  by (simp add: reads_def)

lemma separators [simp]:
  "\<not> number_char CHR '',''" "\<not> number_char CHR '']''" "\<not> number_char CHR ''}''"
  by code_simp+

lemma separators_plain [simp]:
  "CHR '','' \<notin> set spaces" "CHR '']'' \<notin> set spaces" "CHR ''}'' \<notin> set spaces" "CHR '':'' \<notin> set spaces"
  "CHR 0x22 \<notin> set spaces" "CHR ''['' \<notin> set spaces" "CHR ''{'' \<notin> set spaces"
  by code_simp+

lemma read_items_written:
  assumes "xs \<noteq> []" and "\<And>x. x \<in> set xs \<Longrightarrow> reads x" and "sum_list (map (\<lambda>x. Suc (need x)) xs) \<le> n"
  shows "read_items n (str_join '','' (map compact xs) @ CHR '']'' # rest) = (if list_all good xs then Some (xs, rest) else None)"
  using assms
proof (induction xs arbitrary: n)
  case (Cons x xs)
  from Cons.prems(3) obtain m where n: "n = Suc m" and x: "need x \<le> m"
    and xs: "sum_list (map (\<lambda>x. Suc (need x)) xs) \<le> m" by (cases n) auto
  have r: "reads x" using Cons.prems(2) by simp
  show ?case
  proof (cases "xs = []")
    case True
    then show ?thesis by (simp add: n readsD [OF r x])
  next
    case False
    have "read_items m (str_join '','' (map compact xs) @ CHR '']'' # rest) = (if list_all good xs then Some (xs, rest) else None)"
      using Cons.IH [OF False _ xs] Cons.prems(2) by simp
    with False show ?thesis by (simp add: n str_join_Cons_ne readsD [OF r x])
  qed
qed simp

lemma read_fields_written:
  assumes "kvs \<noteq> []" and "\<And>k v. (k, v) \<in> set kvs \<Longrightarrow> reads v" and "sum_list (map (\<lambda>(k, v). Suc (need v)) kvs) \<le> n"
  shows "read_fields n (str_join '','' (map (\<lambda>(k, v). quote k @ '':'' @ compact v) kvs) @ CHR ''}'' # rest) =
    (if list_all (\<lambda>(k, v). good v) kvs then Some (kvs, rest) else None)"
  using assms
proof (induction kvs arbitrary: n)
  case (Cons kv kvs)
  obtain k v where kv: "kv = (k, v)" by fastforce
  from Cons.prems(3) kv obtain m where n: "n = Suc m" and v: "need v \<le> m"
    and kvs: "sum_list (map (\<lambda>(k, v). Suc (need v)) kvs) \<le> m" by (cases n) auto
  have r: "reads v" using Cons.prems(2) [of k v] kv by simp
  show ?case
  proof (cases "kvs = []")
    case True
    then show ?thesis by (simp add: n kv quote_def read_chars_quoted readsD [OF r v])
  next
    case False
    have "read_fields m (str_join '','' (map (\<lambda>(k, v). quote k @ '':'' @ compact v) kvs) @ CHR ''}'' # rest) =
        (if list_all (\<lambda>(k, v). good v) kvs then Some (kvs, rest) else None)"
    proof (rule Cons.IH [OF False _ kvs])
      show "reads v'" if "(k', v') \<in> set kvs" for k' v' using Cons.prems(2) that by (meson list.set_intros(2))
    qed
    with False show ?thesis
      by (simp add: n kv str_join_Cons_ne quote_def read_chars_quoted readsD [OF r v])
  qed
qed simp

section \<open>The round trip\<close>

lemma items_start:
  assumes "xs \<noteq> []" and "\<And>x. x \<in> set xs \<Longrightarrow> printed x"
  shows "\<not> prefix '']'' (skip_ws (str_join '','' (map compact xs) @ rest))"
proof -
  from assms obtain x ys where xs: "xs = x # ys" and "printed x" by (cases xs) auto
  then obtain c s where "compact x = c # s" "c \<notin> set (spaces @ '']}'')" by (elim compact_starts)
  with xs show ?thesis by (cases "ys = []") (auto simp: str_join_Cons_ne)
qed

lemma fields_start:
  assumes "kvs \<noteq> []"
  shows "\<not> prefix ''}'' (skip_ws (str_join '','' (map (\<lambda>(k, v). quote k @ '':'' @ compact v) kvs) @ rest))"
proof -
  from assms obtain k v ys where "kvs = (k, v) # ys" by (cases kvs) auto
  then show ?thesis by (cases "ys = []") (simp_all add: str_join_Cons_ne quote_def)
qed

lemma need_positive: "0 < need j"
  by (cases j) simp_all

lemma reads_all: "printed j \<Longrightarrow> reads j"
proof (induction j)
  case (Array xs)
  have "read_value n (compact (Array xs) @ rest) = (if good (Array xs) then Some (Array xs, rest) else None)"
    if n: "need (Array xs) \<le> n" for n rest
  proof (cases "xs = []")
    case True
    with n show ?thesis by (cases n) simp_all
  next
    case False
    from n obtain m where m: "n = Suc m" "sum_list (map (\<lambda>x. Suc (need x)) xs) \<le> m" by (cases n) simp_all
    have p: "printed x" if "x \<in> set xs" for x using Array.prems that by (simp add: list_all_iff)
    have "read_items m (str_join '','' (map compact xs) @ CHR '']'' # rest) = (if list_all good xs then Some (xs, rest) else None)"
      by (rule read_items_written [OF False Array.IH m(2)]) (simp_all add: p)
    with items_start [OF False p, of "CHR '']'' # rest"] show ?thesis by (simp add: m(1))
  qed
  then show ?case by (simp add: reads_def del: compact.simps need.simps)
next
  case (Object kvs)
  have "read_value n (compact (Object kvs) @ rest) = (if good (Object kvs) then Some (Object kvs, rest) else None)"
    if n: "need (Object kvs) \<le> n" for n rest
  proof (cases "kvs = []")
    case True
    with n show ?thesis by (cases n) simp_all
  next
    case False
    from n obtain m where m: "n = Suc m" "sum_list (map (\<lambda>(k, v). Suc (need v)) kvs) \<le> m" by (cases n) simp_all
    have "reads v" if kv: "(k, v) \<in> set kvs" for k v
    proof (rule Object.IH [OF kv])
      show "v \<in> Basic_BNFs.snds (k, v)" by simp
      from Object.prems kv show "printed v" by (auto simp: list_all_iff)
    qed
    from read_fields_written [OF False this m(2), where rest = rest] fields_start [OF False, where rest = "CHR ''}'' # rest"]
    show ?thesis by (simp add: m(1))
  qed
  then show ?case by (simp add: reads_def del: compact.simps need.simps)
next
  case (Number t)
  show ?case
    unfolding reads_def
  proof (intro allI impI)
    fix n rest
    assume "need (Number t) \<le> n" and r: "rest = [] \<or> \<not> number_char (hd rest)"
    then obtain m where "n = Suc m" by (cases n) simp_all
    with read_token [OF Number r, of m] show "read_value n (compact (Number t) @ rest) =
        (if good (Number t) then Some (Number t, rest) else None)" by simp
  qed
next
  case (Text s)
  have "read_value n (compact (Text s) @ rest) = Some (Text s, rest)" if "1 \<le> n" for n rest
    using that by (cases n) (simp_all add: quote_def read_chars_quoted)
  then show ?case by (simp add: reads_def)
next
  case (Flag b)
  have "read_value n (compact (Flag b) @ rest) = Some (Flag b, rest)" if "1 \<le> n" for n rest
    using that by (cases n; cases b) (simp_all add: spaces_def)
  then show ?case by (simp add: reads_def)
next
  case Null
  have "read_value n (compact Null @ rest) = Some (Null, rest)" if "1 \<le> n" for n rest
    using that by (cases n) (simp_all add: spaces_def)
  then show ?case by (simp add: reads_def)
qed

lemma length_str_join: "length (str_join [c] xs) = sum_list (map length xs) + (length xs - 1)"
  by (induction "[c]" xs rule: str_join.induct) auto

lemma sum_need:
  assumes "\<And>x. x \<in> set xs \<Longrightarrow> f x \<le> 2 * length (g x)"
  shows "sum_list (map (\<lambda>x. Suc (f x)) xs) \<le> 2 * (sum_list (map length (map g xs))) + length xs"
  using assms by (induction xs) (fastforce intro: add_mono)+

text \<open>Twice the length of the text is enough fuel.\<close>

lemma need_length: "printed j \<Longrightarrow> need j \<le> 2 * length (compact j)"
proof (induction j)
  case (Number t)
  then obtain c s where "t = c # s" by (rule printed_token)
  then show ?case by simp
next
  case (Array xs)
  have "sum_list (map (\<lambda>x. Suc (need x)) xs) \<le> 2 * (sum_list (map length (map compact xs))) + length xs"
    by (rule sum_need) (use Array in \<open>auto simp: list_all_iff\<close>)
  then show ?case by (simp add: length_str_join)
next
  case (Object kvs)
  let ?g = "\<lambda>(k, v). quote k @ '':'' @ compact v"
  have "need (snd kv) \<le> 2 * length (?g kv)" if "kv \<in> set kvs" for kv
  proof -
    obtain k v where kv: "kv = (k, v)" by fastforce
    with Object.prems that have "printed v" by (auto simp: list_all_iff)
    with Object.IH [of "(k, v)" v] that kv show ?thesis by simp
  qed
  from sum_need [of kvs "\<lambda>kv. need (snd kv)" ?g, OF this]
  have "sum_list (map (\<lambda>(k, v). Suc (need v)) kvs) \<le> 2 * (sum_list (map length (map ?g kvs))) + length kvs"
    by (simp add: case_prod_unfold)
  then show ?case by (simp add: length_str_join)
qed (simp_all add: quote_def)

lemma read_compact:
  assumes "printed j" and "list_all (\<lambda>c. c \<in> set spaces) ws"
  shows "read_json (compact j @ ws) = (if good j then Some j else None)"
proof -
  have w: "skip_ws ws = []" using assms(2) by (auto simp: skip_ws_def spaces_def list_all_iff)
  have "\<not> number_char c" if "c \<in> set spaces" for c using number_char_plain [of c] that by auto
  then have "ws = [] \<or> \<not> number_char (hd ws)" using assms(2) by (cases ws) simp_all
  moreover have "need j \<le> 2 * length (compact j @ ws) + 1" using need_length [OF assms(1)] by simp
  ultimately have "read_value (2 * length (compact j @ ws) + 1) (compact j @ ws) = (if good j then Some (j, ws) else None)"
    using reads_all [OF assms(1)] unfolding reads_def by blast
  with w show ?thesis by (simp add: read_json_def del: read_value.simps)
qed

end
