(* ===== verification/Hwprobe.thy ===== *)
theory Hwprobe
  imports Json_Text Worker
begin

text \<open>
  The hardware probe (\<open>collector/hwprobe\<close>, C++), which the collector starts as the tool \<open>hwprobe\<close> and
  whose output the normalizer parses. \<open>JsonWriter\<close> is the record \<open>writer\<close>: the text written so far, the
  stack of containers and of first-element flags (the back of the C++ string is the head of the list),
  and the pending key (closing more than was opened is undefined in C++; the probe does not). A sequence of calls is \<open>steps\<close>. What hwloc, libsensors and NVML report is the
  record \<open>hardware\<close>; the two optional libraries are flags, as in the build. Bytes are characters.
\<close>

section \<open>json_writer.cpp\<close>

record writer =
  wr_out :: string
  wr_stack :: "char list"
  wr_first :: "bool list"
  wr_pending :: bool

definition new_writer :: writer where
  "new_writer = \<lparr>wr_out = [], wr_stack = [], wr_first = [], wr_pending = False\<rparr>"

definition put :: "string \<Rightarrow> writer \<Rightarrow> writer" where
  "put s w = w\<lparr>wr_out := wr_out w @ s\<rparr>"

definition steps :: "(writer \<Rightarrow> writer) list \<Rightarrow> writer \<Rightarrow> writer" where
  "steps fs w = fold (\<lambda>f w. f w) fs w"

definition maybe_comma :: "writer \<Rightarrow> writer" where
  "maybe_comma w =
     (if wr_pending w then w\<lparr>wr_pending := False\<rparr>
      else (case wr_first w of
              [] \<Rightarrow> w
            | first # rest \<Rightarrow> if first then w\<lparr>wr_first := False # rest\<rparr> else put '','' w))"

definition open_container :: "char \<Rightarrow> writer \<Rightarrow> writer" where
  "open_container c w = w\<lparr>wr_stack := c # wr_stack w, wr_first := True # wr_first w\<rparr>"

definition close_container :: "writer \<Rightarrow> writer" where
  "close_container w = w\<lparr>wr_stack := tl (wr_stack w), wr_first := tl (wr_first w)\<rparr>"

definition begin_object :: "writer \<Rightarrow> writer" where
  "begin_object w = (open_container (CHR ''o'') (put ''{'' (maybe_comma w)))\<lparr>wr_pending := False\<rparr>"

definition end_object :: "writer \<Rightarrow> writer" where
  "end_object w = close_container (put ''}'' w)"

definition begin_array :: "writer \<Rightarrow> writer" where
  "begin_array w = open_container (CHR ''a'') (put ''['' (maybe_comma w))"

definition end_array :: "writer \<Rightarrow> writer" where
  "end_array w = close_container (put '']'' w)"

fun write_chars :: "string \<Rightarrow> writer \<Rightarrow> writer" where
  "write_chars [] w = w"
| "write_chars (c # cs) w = write_chars cs
     (put (if c = CHR 0x22 then [CHR 0x5C, CHR 0x22]
           else if c = CHR 0x5C then [CHR 0x5C, CHR 0x5C]
           else if c = CHR 0x0A then [CHR 0x5C, CHR ''n'']
           else if c = CHR 0x0D then [CHR 0x5C, CHR ''r'']
           else if c = CHR 0x09 then [CHR 0x5C, CHR ''t'']
           else if c = CHR 0x08 then [CHR 0x5C, CHR ''b'']
           else if c = CHR 0x0C then [CHR 0x5C, CHR ''f'']
           else if (of_char c :: nat) < 32 then [CHR 0x5C, CHR ''u''] @ hex_fixed 4 (of_char c)
           else [c]) w)"

definition write_string :: "string \<Rightarrow> writer \<Rightarrow> writer" where
  "write_string s w = put [CHR 0x22] (write_chars s (put [CHR 0x22] w))"

definition key :: "string \<Rightarrow> writer \<Rightarrow> writer" where
  "key k w =
     (let w1 = (case wr_first w of False # rest \<Rightarrow> put '','' w | _ \<Rightarrow> w);
          w2 = (case wr_first w1 of [] \<Rightarrow> w1 | first # rest \<Rightarrow> w1\<lparr>wr_first := False # rest\<rparr>)
      in (put '':'' (write_string k w2))\<lparr>wr_pending := True\<rparr>)"

definition value_null :: "writer \<Rightarrow> writer" where
  "value_null w = put ''null'' (maybe_comma w)"

definition value_bool :: "bool \<Rightarrow> writer \<Rightarrow> writer" where
  "value_bool b w = put (if b then ''true'' else ''false'') (maybe_comma w)"

definition value_int :: "64 word \<Rightarrow> writer \<Rightarrow> writer" where
  "value_int v w = put (int_str (sint v)) (maybe_comma w)"

definition value_uint :: "64 word \<Rightarrow> writer \<Rightarrow> writer" where
  "value_uint v w = put (int_str (uint v)) (maybe_comma w)"

definition value_string :: "string \<Rightarrow> writer \<Rightarrow> writer" where
  "value_string s w = write_string s (maybe_comma w)"

definition value_raw_number_string :: "string \<Rightarrow> writer \<Rightarrow> writer" where
  "value_raw_number_string s w = put s (maybe_comma w)"

definition kv_string :: "string \<Rightarrow> string \<Rightarrow> writer \<Rightarrow> writer" where
  "kv_string k v w = value_string v (key k w)"

definition kv_int :: "string \<Rightarrow> 64 word \<Rightarrow> writer \<Rightarrow> writer" where
  "kv_int k v w = value_int v (key k w)"

definition kv_uint :: "string \<Rightarrow> 64 word \<Rightarrow> writer \<Rightarrow> writer" where
  "kv_uint k v w = value_uint v (key k w)"

definition kv_bool :: "string \<Rightarrow> bool \<Rightarrow> writer \<Rightarrow> writer" where
  "kv_bool k v w = value_bool v (key k w)"

section \<open>What the libraries report\<close>

record pci_device =
  pd_domain :: "32 word"
  pd_bus :: "8 word"
  pd_dev :: "8 word"
  pd_func :: "8 word"
  pd_class :: "16 word"
  pd_vendor :: "16 word"
  pd_device :: "16 word"
  pd_name :: "string option"

text \<open>The counts are C ints, negative for a type on several levels; \<open>tp_node i\<close> is node \<open>i\<close>.\<close>

record topology =
  tp_numa :: "32 word"
  tp_packages :: "32 word"
  tp_cores :: "32 word"
  tp_pus :: "32 word"
  tp_l3 :: "64 word option"
  tp_infos :: "(string option \<times> string option) list option"
  tp_node :: "nat \<Rightarrow> (32 word \<times> 64 word) option"
  tp_pci :: "pci_device list"

datatype hwloc = Init_Failed | Load_Failed | Loaded topology

text \<open>A double as sign and magnitude, or none of the finite values.\<close>

datatype double = Finite bool rat | Infinite bool | Not_A_Number bool

record feature =
  fe_is_temp :: bool
  fe_has_input :: bool
  fe_value :: "double option"
  fe_label :: "string option"

record gpu =
  gp_name :: string
  gp_uuid :: string
  gp_total :: "64 word"
  gp_used :: "64 word"
  gp_temperature :: "32 word"
  gp_power :: "32 word"

text \<open>
  \<open>hw_chips\<close> is none when \<open>sensors_init\<close> fails, \<open>hw_gpus\<close> when \<open>nvmlInit_v2\<close> fails; a device whose handle
  cannot be had is none. \<open>hw_now\<close> is the formatted time, \<open>hw_hostname\<close> what \<open>gethostname\<close> gives.
\<close>

record hardware =
  hw_now :: string
  hw_hostname :: "string option"
  hw_topology :: hwloc
  hw_have_sensors :: bool
  hw_chips :: "(string \<times> feature list) list option"
  hw_have_nvml :: bool
  hw_gpus :: "gpu option list option"

section \<open>topology.cpp\<close>

definition attr_or :: "string option \<Rightarrow> string" where
  "attr_or s = (case s of None \<Rightarrow> [] | Some t \<Rightarrow> t)"

definition write_pci_device :: "pci_device \<Rightarrow> writer \<Rightarrow> writer" where
  "write_pci_device p = steps
     ([begin_object,
       kv_uint ''domain'' (ucast (pd_domain p)), kv_uint ''bus'' (ucast (pd_bus p)),
       kv_uint ''dev'' (ucast (pd_dev p)), kv_uint ''func'' (ucast (pd_func p)),
       kv_uint ''class_id'' (ucast (pd_class p)), kv_uint ''vendor_id'' (ucast (pd_vendor p)),
       kv_uint ''device_id'' (ucast (pd_device p))]
      @ (case pd_name p of None \<Rightarrow> [] | Some n \<Rightarrow> [kv_string ''name'' n])
      @ [end_object])"

definition write_pci :: "topology \<Rightarrow> writer \<Rightarrow> writer" where
  "write_pci t = steps ([key ''pci_devices'', begin_array] @ map write_pci_device (tp_pci t) @ [end_array])"

text \<open>\<open>n < 0 ? 0 : n\<close>, converted to \<open>int64_t\<close>.\<close>

definition count_of :: "32 word \<Rightarrow> 64 word" where
  "count_of n = (if sint n < 0 then 0 else scast n)"

definition INFO_KEYS :: "(string \<times> string) list" where
  "INFO_KEYS =
     [(''DMIProductName'', ''machine_model''), (''DMIBIOSVendor'', ''bios_vendor''),
      (''DMIBIOSVersion'', ''bios_version''), (''OSName'', ''os_name''), (''OSRelease'', ''os_release''),
      (''Architecture'', ''architecture'')]"

definition write_info :: "string option \<times> string option \<Rightarrow> writer \<Rightarrow> writer" where
  "write_info info w =
     (case map_of INFO_KEYS (attr_or (fst info)) of
        Some k \<Rightarrow> kv_string k (attr_or (snd info)) w
      | None \<Rightarrow> w)"

definition write_node :: "topology \<Rightarrow> nat \<Rightarrow> writer \<Rightarrow> writer" where
  "write_node t i w =
     (case tp_node t i of
        None \<Rightarrow> w
      | Some (index, memory) \<Rightarrow>
          steps [begin_object, kv_int ''index'' (ucast index), kv_uint ''memory_bytes'' memory, end_object] w)"

definition write_topology :: "hwloc \<Rightarrow> writer \<Rightarrow> writer" where
  "write_topology h =
     (case h of
        Init_Failed \<Rightarrow> kv_string ''error'' ''hwloc_topology_init failed''
      | Load_Failed \<Rightarrow> kv_string ''error'' ''hwloc_topology_load failed''
      | Loaded t \<Rightarrow> steps
          ([kv_int ''numa_nodes'' (count_of (tp_numa t)), kv_int ''packages'' (count_of (tp_packages t)),
            kv_int ''cores'' (count_of (tp_cores t)), kv_int ''pus'' (count_of (tp_pus t))]
           @ (case tp_l3 t of None \<Rightarrow> [] | Some cache \<Rightarrow> [kv_uint ''l3_cache_bytes'' cache])
           @ (case tp_infos t of None \<Rightarrow> [] | Some infos \<Rightarrow> map write_info infos)
           @ [key ''numa_detail'', begin_array]
           @ map (write_node t) [0..<nat (sint (tp_numa t))]
           @ [end_array, write_pci t]))"

section \<open>sensors.cpp and nvml.cpp\<close>

definition two_decimals :: "rat \<Rightarrow> string" where
  "two_decimals q =
     (let n = nat (round_even (q * 100)) in nat_str (n div 100) @ ''.'' @ nat_str (n mod 100 div 10) @ nat_str (n mod 10))"

text \<open>\<open>snprintf(tbuf, 32, "%.2f", val)\<close>.\<close>

definition format_celsius :: "double \<Rightarrow> string" where
  "format_celsius v =
     (let sign = (\<lambda>neg. if neg then ''-'' else []) in
      take 31 (case v of
        Finite neg q \<Rightarrow> sign neg @ two_decimals q
      | Infinite neg \<Rightarrow> sign neg @ ''inf''
      | Not_A_Number neg \<Rightarrow> sign neg @ ''nan''))"

definition temperature :: "feature \<Rightarrow> double option" where
  "temperature f = (if fe_is_temp f \<and> fe_has_input f then fe_value f else None)"

definition write_feature :: "string \<Rightarrow> feature \<Rightarrow> writer \<Rightarrow> writer" where
  "write_feature chip f w =
     (case temperature f of
        None \<Rightarrow> w
      | Some v \<Rightarrow> steps
          [begin_object, kv_string ''chip'' chip, kv_string ''label'' (attr_or (fe_label f)),
           key ''temp_c'', value_raw_number_string (format_celsius v), end_object] w)"

definition write_thermals :: "(string \<times> feature list) list option \<Rightarrow> writer \<Rightarrow> writer" where
  "write_thermals chips =
     (case chips of
        None \<Rightarrow> kv_string ''thermals_error'' ''sensors_init failed''
      | Some cs \<Rightarrow> steps
          ([key ''thermals'', begin_array]
           @ concat (map (\<lambda>(chip, fs). map (write_feature chip) fs) cs) @ [end_array]))"

definition write_gpu :: "nat \<times> gpu option \<Rightarrow> writer \<Rightarrow> writer" where
  "write_gpu ig w =
     (case snd ig of
        None \<Rightarrow> w
      | Some g \<Rightarrow> steps
          [begin_object, kv_uint ''index'' (word_of_nat (fst ig)), kv_string ''name'' (gp_name g),
           kv_string ''uuid'' (gp_uuid g), kv_uint ''memory_total_bytes'' (gp_total g),
           kv_uint ''memory_used_bytes'' (gp_used g), kv_uint ''temperature_c'' (ucast (gp_temperature g)),
           kv_uint ''power_milliwatts'' (ucast (gp_power g)), end_object] w)"

definition write_gpus :: "gpu option list option \<Rightarrow> writer \<Rightarrow> writer" where
  "write_gpus gpus = steps
     ([key ''gpus'', begin_array]
      @ (case gpus of None \<Rightarrow> [] | Some gs \<Rightarrow> map write_gpu (zip [0..<length gs] gs)) @ [end_array])"

section \<open>main.cpp\<close>

definition hostname_or_unknown :: "hardware \<Rightarrow> string" where
  "hostname_or_unknown h = (case hw_hostname h of None \<Rightarrow> ''unknown'' | Some n \<Rightarrow> n)"

text \<open>The arguments: \<open>--help\<close> is acted on when it is read, \<open>--version\<close> after the last.\<close>

datatype request = Document | Version | Help

fun read_args :: "bool \<Rightarrow> string list \<Rightarrow> request" where
  "read_args want_version [] = (if want_version then Version else Document)"
| "read_args want_version (a # as) =
     (if a = ''--version'' \<or> a = ''-v'' then read_args True as
      else if a = ''--help'' \<or> a = ''-h'' then Help
      else read_args want_version as)"

definition NAME_LINE :: string where
  "NAME_LINE = ''auditcore hwprobe 0.1.0'' @ [CHR 0x0A]"

definition write_document :: "hardware \<Rightarrow> writer \<Rightarrow> writer" where
  "write_document h = steps
     ([begin_object, kv_string ''schema'' ''auditcore.hwprobe.v1'', kv_string ''collected_at'' (hw_now h),
       kv_string ''hostname'' (hostname_or_unknown h), kv_bool ''has_sensors'' (hw_have_sensors h),
       kv_bool ''has_nvml'' (hw_have_nvml h), write_topology (hw_topology h)]
      @ (if hw_have_sensors h then [write_thermals (hw_chips h)] else [])
      @ (if hw_have_nvml h then [write_gpus (hw_gpus h)] else [])
      @ [end_object])"

definition hwprobe_main :: "string list \<Rightarrow> hardware \<Rightarrow> string" where
  "hwprobe_main args h =
     (case read_args False args of
        Help \<Rightarrow> NAME_LINE @ ''Usage: hwprobe [--version]'' @ [CHR 0x0A]
                @ ''Emits a JSON document describing host hardware.'' @ [CHR 0x0A]
      | Version \<Rightarrow> NAME_LINE
      | Document \<Rightarrow> wr_out (put [CHR 0x0A] (write_document h new_writer)))"

section \<open>The document\<close>

text \<open>What the probe is to write, as a value: no commas, no order of calls, no writer.\<close>

definition signed :: "64 word \<Rightarrow> json" where
  "signed v = Number (int_str (sint v))"

definition unsigned :: "64 word \<Rightarrow> json" where
  "unsigned v = Number (int_str (uint v))"

definition pci_json :: "pci_device \<Rightarrow> json" where
  "pci_json p = Object
     ([(''domain'', unsigned (ucast (pd_domain p))), (''bus'', unsigned (ucast (pd_bus p))),
       (''dev'', unsigned (ucast (pd_dev p))), (''func'', unsigned (ucast (pd_func p))),
       (''class_id'', unsigned (ucast (pd_class p))), (''vendor_id'', unsigned (ucast (pd_vendor p))),
       (''device_id'', unsigned (ucast (pd_device p)))]
      @ (case pd_name p of None \<Rightarrow> [] | Some n \<Rightarrow> [(''name'', Text n)]))"

definition info_fields :: "string option \<times> string option \<Rightarrow> (string \<times> json) list" where
  "info_fields info =
     (case map_of INFO_KEYS (attr_or (fst info)) of Some k \<Rightarrow> [(k, Text (attr_or (snd info)))] | None \<Rightarrow> [])"

definition node_json :: "topology \<Rightarrow> nat \<Rightarrow> json list" where
  "node_json t i =
     (case tp_node t i of
        None \<Rightarrow> []
      | Some (index, memory) \<Rightarrow> [Object [(''index'', signed (ucast index)), (''memory_bytes'', unsigned memory)]])"

definition topology_fields :: "hwloc \<Rightarrow> (string \<times> json) list" where
  "topology_fields h =
     (case h of
        Init_Failed \<Rightarrow> [(''error'', Text ''hwloc_topology_init failed'')]
      | Load_Failed \<Rightarrow> [(''error'', Text ''hwloc_topology_load failed'')]
      | Loaded t \<Rightarrow>
          [(''numa_nodes'', signed (count_of (tp_numa t))), (''packages'', signed (count_of (tp_packages t))),
           (''cores'', signed (count_of (tp_cores t))), (''pus'', signed (count_of (tp_pus t)))]
          @ (case tp_l3 t of None \<Rightarrow> [] | Some cache \<Rightarrow> [(''l3_cache_bytes'', unsigned cache)])
          @ (case tp_infos t of None \<Rightarrow> [] | Some infos \<Rightarrow> concat (map info_fields infos))
          @ [(''numa_detail'', Array (concat (map (node_json t) [0..<nat (sint (tp_numa t))]))),
             (''pci_devices'', Array (map pci_json (tp_pci t)))])"

definition feature_json :: "string \<Rightarrow> feature \<Rightarrow> json list" where
  "feature_json chip f =
     (case temperature f of
        None \<Rightarrow> []
      | Some v \<Rightarrow> [Object [(''chip'', Text chip), (''label'', Text (attr_or (fe_label f))), (''temp_c'', Number (format_celsius v))]])"

definition thermals_fields :: "(string \<times> feature list) list option \<Rightarrow> (string \<times> json) list" where
  "thermals_fields chips =
     (case chips of
        None \<Rightarrow> [(''thermals_error'', Text ''sensors_init failed'')]
      | Some cs \<Rightarrow> [(''thermals'', Array (concat (map (\<lambda>(chip, fs). concat (map (feature_json chip) fs)) cs)))])"

definition gpu_json :: "nat \<times> gpu option \<Rightarrow> json list" where
  "gpu_json ig =
     (case snd ig of
        None \<Rightarrow> []
      | Some g \<Rightarrow> [Object
          [(''index'', unsigned (word_of_nat (fst ig))), (''name'', Text (gp_name g)), (''uuid'', Text (gp_uuid g)),
           (''memory_total_bytes'', unsigned (gp_total g)), (''memory_used_bytes'', unsigned (gp_used g)),
           (''temperature_c'', unsigned (ucast (gp_temperature g))), (''power_milliwatts'', unsigned (ucast (gp_power g)))]])"

definition gpus_fields :: "gpu option list option \<Rightarrow> (string \<times> json) list" where
  "gpus_fields gpus =
     [(''gpus'', Array (case gpus of None \<Rightarrow> [] | Some gs \<Rightarrow> concat (map gpu_json (zip [0..<length gs] gs))))]"

definition document :: "hardware \<Rightarrow> json" where
  "document h = Object
     ([(''schema'', Text ''auditcore.hwprobe.v1''), (''collected_at'', Text (hw_now h)),
       (''hostname'', Text (hostname_or_unknown h)), (''has_sensors'', Flag (hw_have_sensors h)),
       (''has_nvml'', Flag (hw_have_nvml h))]
      @ topology_fields (hw_topology h)
      @ (if hw_have_sensors h then thermals_fields (hw_chips h) else [])
      @ (if hw_have_nvml h then gpus_fields (hw_gpus h) else []))"

section \<open>What a sequence of calls writes\<close>

text \<open>
  \<open>emits f j\<close>: wherever a value may stand, \<open>f\<close> writes the comma that is due and \<open>j\<close>. \<open>joins f ts\<close>: inside a
  container \<open>f\<close> writes the parts \<open>ts\<close> with the commas before and between them.
\<close>

definition emits :: "(writer \<Rightarrow> writer) \<Rightarrow> json \<Rightarrow> bool" where
  "emits f j \<longleftrightarrow> (\<forall>w. f w = put (compact j) (maybe_comma w))"

definition separated :: "bool \<Rightarrow> string list \<Rightarrow> string" where
  "separated first ts = (if first then str_join '','' ts else concat (map ((#) (CHR '','')) ts))"

definition joins :: "(writer \<Rightarrow> writer) \<Rightarrow> string list \<Rightarrow> bool" where
  "joins f ts \<longleftrightarrow>
     (\<forall>w first rest. wr_first w = first # rest \<longrightarrow> \<not> wr_pending w \<longrightarrow>
        f w = w\<lparr>wr_out := wr_out w @ separated first ts, wr_first := (first \<and> ts = []) # rest\<rparr>)"

definition field_text :: "string \<times> json \<Rightarrow> string" where
  "field_text kv = (case kv of (k, v) \<Rightarrow> quote k @ '':'' @ compact v)"

definition fields :: "(writer \<Rightarrow> writer) list \<Rightarrow> (string \<times> json) list \<Rightarrow> bool" where
  "fields fs kvs \<longleftrightarrow> joins (steps fs) (map field_text kvs)"

definition elements :: "(writer \<Rightarrow> writer) list \<Rightarrow> json list \<Rightarrow> bool" where
  "elements fs js \<longleftrightarrow> joins (steps fs) (map compact js)"

lemma steps_simps: "steps [] = (\<lambda>w. w)" "steps (f # fs) = (\<lambda>w. steps fs (f w))" "steps (fs @ gs) = (\<lambda>w. steps gs (steps fs w))"
  by (auto simp: steps_def fun_eq_iff)

lemma put_put [simp]: "put s (put t w) = put (t @ s) w"
  by (simp add: put_def)

lemma put_simps [simp]:
  "wr_first (put s w) = wr_first w" "wr_pending (put s w) = wr_pending w" "wr_stack (put s w) = wr_stack w"
  "wr_out (put s w) = wr_out w @ s" "put [] w = w"
  by (simp_all add: put_def)

lemma write_chars_put: "write_chars s w = put (concat (map escape s)) w"
  by (induction s arbitrary: w) (simp_all add: escape_def)

lemma write_string_put [simp]: "write_string s w = put (quote s) w"
  by (simp add: write_string_def write_chars_put quote_def)

lemma separated_append:
  "separated first (ts @ us) = separated first ts @ separated (first \<and> ts = []) us"
proof -
  have "str_join '','' (ts @ us) = str_join '','' ts @ (if ts = [] then str_join '','' us else concat (map ((#) (CHR '','')) us))"
  proof (induction ts)
    case (Cons t ts)
    have "str_join '','' (t # us) = t @ concat (map ((#) (CHR '','')) us)" for t
      by (induction us arbitrary: t) simp_all
    with Cons show ?case by (cases "ts = []") (simp_all add: str_join_Cons_ne)
  qed simp
  then show ?thesis by (simp add: separated_def)
qed

lemma joins_Nil [simp]: "joins (\<lambda>w. w) []"
  by (simp add: joins_def separated_def)

lemma joins_then:
  assumes "joins f ts" and "joins g us"
  shows "joins (\<lambda>w. g (f w)) (ts @ us)"
  using assms by (simp add: joins_def separated_append)

lemma emits_joins: "emits f j \<Longrightarrow> joins f [compact j]"
  by (auto simp: emits_def joins_def separated_def maybe_comma_def put_def)

lemma key_joins: "emits f j \<Longrightarrow> joins (\<lambda>w. f (key k w)) [field_text (k, j)]"
  by (auto simp: emits_def joins_def separated_def maybe_comma_def key_def field_text_def put_def split: bool.splits)

text \<open>Rules for the calls of the probe, from which its writers are read off.\<close>

lemma emits_values:
  "emits (value_bool b) (Flag b)" "emits value_null Null" "emits (value_int v) (signed v)" "emits (value_uint v) (unsigned v)"
  "emits (value_string s) (Text s)" "emits (value_raw_number_string s) (Number s)"
  by (simp_all add: emits_def value_bool_def value_null_def value_int_def value_uint_def value_string_def
      value_raw_number_string_def signed_def unsigned_def)

lemma not_pending [simp]: "\<not> wr_pending (maybe_comma w)"
  by (auto simp: maybe_comma_def split: list.split)

lemma container_written:
  assumes "joins (steps fs) ts"
  shows "close_container (put r (steps fs (open_container c (put l (maybe_comma w))))) = put (l @ str_join '','' ts @ r) (maybe_comma w)"
proof -
  let ?w = "open_container c (put l (maybe_comma w))"
  have "wr_first ?w = True # wr_first (maybe_comma w)" "\<not> wr_pending ?w" by (simp_all add: open_container_def)
  with assms have "steps fs ?w = ?w\<lparr>wr_out := wr_out ?w @ separated True ts, wr_first := (True \<and> ts = []) # wr_first (maybe_comma w)\<rparr>"
    unfolding joins_def by blast
  then show ?thesis by (simp add: open_container_def close_container_def separated_def put_def)
qed

lemma begin_object_open: "begin_object w = open_container (CHR ''o'') (put ''{'' (maybe_comma w))"
  using not_pending [of w] by (simp add: begin_object_def open_container_def put_def)

lemma emits_object:
  assumes "fields fs kvs"
  shows "emits (steps (begin_object # fs @ [end_object])) (Object kvs)"
  using container_written [OF assms [unfolded fields_def], of "''}''" "CHR ''o''" "''{''"]
  by (simp add: emits_def steps_simps begin_object_open end_object_def field_text_def [abs_def])

lemma emits_array:
  assumes "elements fs js"
  shows "emits (steps (begin_array # fs @ [end_array])) (Array js)"
  using container_written [OF assms [unfolded elements_def], of "'']''" "CHR ''a''" "''[''"]
  by (simp add: emits_def steps_simps begin_array_def end_array_def)

lemma fields_Nil: "fields [] []" and elements_Nil: "elements [] []"
  by (simp_all add: fields_def elements_def steps_simps)

lemma fields_append: "fields fs xs \<Longrightarrow> fields gs ys \<Longrightarrow> fields (fs @ gs) (xs @ ys)"
  unfolding fields_def steps_simps map_append by (rule joins_then)

lemma elements_append: "elements fs xs \<Longrightarrow> elements gs ys \<Longrightarrow> elements (fs @ gs) (xs @ ys)"
  unfolding elements_def steps_simps map_append by (rule joins_then)

lemma fields_map: "(\<And>x. x \<in> set xs \<Longrightarrow> fields [f x] (g x)) \<Longrightarrow> fields (map f xs) (concat (map g xs))"
  by (induction xs) (auto intro: fields_Nil fields_append [of "[f x]" for f x, simplified])

lemma elements_map: "(\<And>x. x \<in> set xs \<Longrightarrow> elements [f x] (g x)) \<Longrightarrow> elements (map f xs) (concat (map g xs))"
  by (induction xs) (auto intro: elements_Nil elements_append [of "[f x]" for f x, simplified])

lemma elements_concat: "(\<And>x. x \<in> set xs \<Longrightarrow> elements (f x) (g x)) \<Longrightarrow> elements (concat (map f xs)) (concat (map g xs))"
  by (induction xs) (auto intro: elements_Nil elements_append)

lemma elements_one: "emits f j \<Longrightarrow> elements [f] [j]"
  unfolding elements_def steps_simps by (drule emits_joins) simp

lemma elements_none: "f = (\<lambda>w. w) \<Longrightarrow> elements [f] []" and fields_none: "f = (\<lambda>w. w) \<Longrightarrow> fields [f] []"
  by (simp_all add: elements_def fields_def steps_simps)

lemma fields_steps: "fields fs kvs \<Longrightarrow> fields [steps fs] kvs"
  by (simp add: fields_def steps_simps)

lemma fields_then: "fields [f] xs \<Longrightarrow> fields fs ys \<Longrightarrow> fields (f # fs) (xs @ ys)"
  using fields_append [of "[f]" xs fs ys] by simp

lemma fields_key:
  assumes "emits f j" and "fields fs kvs"
  shows "fields (key k # f # fs) ((k, j) # kvs)"
  using joins_then [OF key_joins [OF assms(1), of k] assms(2) [unfolded fields_def]]
  by (simp add: fields_def steps_simps)

lemma fields_kv:
  assumes "fields fs kvs"
  shows "fields (kv_string k s # fs) ((k, Text s) # kvs)" "fields (kv_int k v # fs) ((k, signed v) # kvs)"
    "fields (kv_uint k v # fs) ((k, unsigned v) # kvs)" "fields (kv_bool k b # fs) ((k, Flag b) # kvs)"
proof -
  have kv: "kv_string k s = (\<lambda>w. value_string s (key k w))" "kv_int k v = (\<lambda>w. value_int v (key k w))"
    "kv_uint k v = (\<lambda>w. value_uint v (key k w))" "kv_bool k b = (\<lambda>w. value_bool b (key k w))"
    by (simp_all add: fun_eq_iff kv_string_def kv_int_def kv_uint_def kv_bool_def)
  show "fields (kv_string k s # fs) ((k, Text s) # kvs)" "fields (kv_int k v # fs) ((k, signed v) # kvs)"
    "fields (kv_uint k v # fs) ((k, unsigned v) # kvs)" "fields (kv_bool k b # fs) ((k, Flag b) # kvs)"
    using fields_key [OF emits_values(5) assms] fields_key [OF emits_values(3) assms]
      fields_key [OF emits_values(4) assms] fields_key [OF emits_values(1) assms]
    unfolding kv fields_def steps_simps by simp_all
qed

text \<open>The same for a list of calls that opens or closes with the brackets of a container.\<close>

lemma emits_object_calls:
  assumes "fields (butlast gs) kvs" and "last gs = end_object" and "gs \<noteq> []"
  shows "emits (steps (begin_object # gs)) (Object kvs)"
proof -
  from assms(2,3) have "gs = butlast gs @ [end_object]" by (metis append_butlast_last_id)
  with emits_object [OF assms(1)] show ?thesis by metis
qed

lemma fields_array:
  assumes "elements ms js" and "fields fs kvs"
  shows "fields ([key k, begin_array] @ ms @ end_array # fs) ((k, Array js) # kvs)"
  using fields_key [OF emits_array [OF assms(1)] assms(2), of k] by (simp add: fields_def steps_simps)

lemma document_steps:
  assumes "fields fs kvs"
  shows "steps (begin_object # fs @ [end_object]) new_writer = new_writer\<lparr>wr_out := compact (Object kvs)\<rparr>"
  using emits_object [OF assms] by (simp add: emits_def new_writer_def maybe_comma_def put_def del: compact.simps)

section \<open>The probe writes its document\<close>

lemma write_pci_device: "emits (write_pci_device p) (pci_json p)"
proof -
  have "fields (case pd_name p of None \<Rightarrow> [] | Some n \<Rightarrow> [kv_string ''name'' n])
      (case pd_name p of None \<Rightarrow> [] | Some n \<Rightarrow> [(''name'', Text n)])"
    by (cases "pd_name p") (simp_all add: fields_Nil fields_kv)
  then show ?thesis
    unfolding write_pci_device_def pci_json_def append_Cons append_Nil
    by (intro emits_object_calls) (simp_all add: butlast_append fields_kv)
qed

lemma write_pci: "fields [write_pci t] [(''pci_devices'', Array (map pci_json (tp_pci t)))]"
proof -
  have "elements (map write_pci_device ps) (map pci_json ps)" for ps
    using elements_map [of ps write_pci_device "\<lambda>p. [pci_json p]"] elements_one [OF write_pci_device] by simp
  from fields_array [OF this fields_Nil] show ?thesis unfolding write_pci_def by (intro fields_steps) simp
qed

lemma write_info: "fields [write_info info] (info_fields info)"
proof (cases "map_of INFO_KEYS (attr_or (fst info))")
  case None
  then have "write_info info = (\<lambda>w. w)" by (simp add: write_info_def fun_eq_iff)
  with None show ?thesis by (simp add: info_fields_def fields_none)
next
  case (Some k)
  then have "write_info info = kv_string k (attr_or (snd info))" by (simp add: write_info_def fun_eq_iff)
  with Some show ?thesis by (simp add: info_fields_def fields_kv fields_Nil)
qed

lemma write_node: "elements [write_node t i] (node_json t i)"
proof (cases "tp_node t i")
  case None
  then have "write_node t i = (\<lambda>w. w)" by (simp add: write_node_def fun_eq_iff)
  with None show ?thesis by (simp add: node_json_def elements_none)
next
  case (Some im)
  obtain i' m where im: "im = (i', m)" by fastforce
  with Some have "write_node t i = steps [begin_object, kv_int ''index'' (ucast i'), kv_uint ''memory_bytes'' m, end_object]"
    by (simp add: write_node_def fun_eq_iff)
  moreover have "emits \<dots> (Object [(''index'', signed (ucast i')), (''memory_bytes'', unsigned m)])"
    by (rule emits_object_calls) (simp_all add: fields_kv fields_Nil)
  ultimately show ?thesis using Some im by (simp add: node_json_def elements_one)
qed

lemma write_topology: "fields [write_topology h] (topology_fields h)"
proof (cases h)
  case (Loaded t)
  let ?l3 = "case tp_l3 t of None \<Rightarrow> [] | Some cache \<Rightarrow> [kv_uint ''l3_cache_bytes'' cache]"
  have l3: "fields ?l3 (case tp_l3 t of None \<Rightarrow> [] | Some cache \<Rightarrow> [(''l3_cache_bytes'', unsigned cache)])"
    by (cases "tp_l3 t") (simp_all add: fields_kv fields_Nil)
  have infos: "fields (case tp_infos t of None \<Rightarrow> [] | Some infos \<Rightarrow> map write_info infos)
      (case tp_infos t of None \<Rightarrow> [] | Some infos \<Rightarrow> concat (map info_fields infos))"
    by (cases "tp_infos t") (simp_all add: fields_Nil fields_map write_info)
  have nodes: "elements (map (write_node t) is) (concat (map (node_json t) is))" for "is"
    by (rule elements_map) (rule write_node)
  note numa = fields_array [OF nodes write_pci, of "''numa_detail''"]
  show ?thesis
    unfolding Loaded write_topology_def topology_fields_def hwloc.case
    using fields_append [OF l3 fields_append [OF infos numa]]
    by (intro fields_steps) (simp add: fields_kv)
qed (simp_all add: write_topology_def topology_fields_def fields_kv fields_Nil)

lemma write_feature: "elements [write_feature chip f] (feature_json chip f)"
proof (cases "temperature f")
  case None
  then have "write_feature chip f = (\<lambda>w. w)" by (simp add: write_feature_def fun_eq_iff)
  with None show ?thesis by (simp add: feature_json_def elements_none)
next
  case (Some v)
  then have "write_feature chip f = steps [begin_object, kv_string ''chip'' chip, kv_string ''label'' (attr_or (fe_label f)),
      key ''temp_c'', value_raw_number_string (format_celsius v), end_object]"
    by (simp add: write_feature_def fun_eq_iff)
  moreover have "emits \<dots> (Object [(''chip'', Text chip), (''label'', Text (attr_or (fe_label f))), (''temp_c'', Number (format_celsius v))])"
    by (rule emits_object_calls) (simp_all add: fields_kv fields_key emits_values fields_Nil)
  ultimately show ?thesis using Some by (simp add: feature_json_def elements_one)
qed

lemma write_thermals: "fields [write_thermals chips] (thermals_fields chips)"
proof (cases chips)
  case (Some cs)
  have "elements (map (write_feature chip) fs) (concat (map (feature_json chip) fs))" for chip fs
    by (rule elements_map) (rule write_feature)
  then have "elements (concat (map (\<lambda>(chip, fs). map (write_feature chip) fs) cs))
      (concat (map (\<lambda>(chip, fs). concat (map (feature_json chip) fs)) cs))"
    by (intro elements_concat) (simp add: case_prod_beta)
  from fields_array [OF this fields_Nil, of "''thermals''"] Some show ?thesis
    unfolding write_thermals_def thermals_fields_def by (simp add: fields_steps)
qed (simp add: write_thermals_def thermals_fields_def fields_kv fields_Nil)

lemma write_gpu: "elements [write_gpu ig] (gpu_json ig)"
proof (cases "snd ig")
  case None
  then have "write_gpu ig = (\<lambda>w. w)" by (simp add: write_gpu_def fun_eq_iff)
  with None show ?thesis by (simp add: gpu_json_def elements_none)
next
  case (Some g)
  let ?fs = "[kv_uint ''index'' (word_of_nat (fst ig)), kv_string ''name'' (gp_name g),
           kv_string ''uuid'' (gp_uuid g), kv_uint ''memory_total_bytes'' (gp_total g),
           kv_uint ''memory_used_bytes'' (gp_used g), kv_uint ''temperature_c'' (ucast (gp_temperature g)),
           kv_uint ''power_milliwatts'' (ucast (gp_power g))]"
  from Some have "write_gpu ig = steps (begin_object # ?fs @ [end_object])" by (simp add: write_gpu_def fun_eq_iff)
  moreover have "emits \<dots> (hd (gpu_json ig))"
    unfolding gpu_json_def Some option.case list.sel by (intro emits_object fields_kv fields_Nil)
  ultimately show ?thesis using Some by (simp add: gpu_json_def elements_one)
qed

lemma write_gpus: "fields [write_gpus gpus] (gpus_fields gpus)"
proof -
  have "elements (map write_gpu igs) (concat (map gpu_json igs))" for igs
    by (rule elements_map) (rule write_gpu)
  then have "elements (case gpus of None \<Rightarrow> [] | Some gs \<Rightarrow> map write_gpu (zip [0..<length gs] gs))
      (case gpus of None \<Rightarrow> [] | Some gs \<Rightarrow> concat (map gpu_json (zip [0..<length gs] gs)))"
    by (cases gpus) (simp_all add: elements_Nil)
  from fields_array [OF this fields_Nil, of "''gpus''"] show ?thesis
    unfolding write_gpus_def gpus_fields_def by (intro fields_steps) simp
qed

lemma write_document: "write_document h new_writer = new_writer\<lparr>wr_out := compact (document h)\<rparr>"
proof -
  let ?s = "if hw_have_sensors h then [write_thermals (hw_chips h)] else []"
  let ?g = "if hw_have_nvml h then [write_gpus (hw_gpus h)] else []"
  have "fields ?s (if hw_have_sensors h then thermals_fields (hw_chips h) else [])"
    and "fields ?g (if hw_have_nvml h then gpus_fields (hw_gpus h) else [])"
    by (simp_all add: write_thermals write_gpus fields_Nil)
  note fields_append [OF this]
  note fields_kv(1) [OF fields_kv(1) [OF fields_kv(1) [OF fields_kv(4) [OF fields_kv(4) [OF fields_then [OF write_topology this]]]]]]
  from document_steps [OF this] show ?thesis unfolding write_document_def document_def by simp
qed

section \<open>Which numbers are JSON\<close>

lemma digit_char_digit: "d < 10 \<Longrightarrow> is_digit (digit_char d)"
proof -
  assume d: "d < 10"
  have "list_all (\<lambda>d. is_digit (digit_char d)) [0..<10]" by code_simp
  with d show ?thesis by (simp add: list_all_iff)
qed

lemma nat_str_digits: "list_all is_digit (nat_str n) \<and> nat_str n \<noteq> []"
proof (induction n rule: nat_str.induct)
  case (1 n)
  then show ?case by (subst (1 2) nat_str.simps) (simp add: digit_char_digit)
qed

lemma nat_str_leading: "hd (nat_str n) = CHR ''0'' \<Longrightarrow> n = 0"
proof (induction n rule: nat_str.induct)
  case (1 n)
  show ?case
  proof (cases "n < 10")
    case True
    have "digit_char n = digit_char 0" using 1 True by (simp add: nat_str.simps [of n] digit_char_def)
    with True show ?thesis by (simp add: digit_char_inj)
  next
    case False
    then have "hd (nat_str n) = hd (nat_str (n div 10))"
      using nat_str_digits [of "n div 10"] by (subst nat_str.simps) (simp add: hd_append)
    with 1 False show ?thesis by simp
  qed
qed

lemma nat_str_zero: "nat_str 0 = ''0''"
  by (simp add: nat_str.simps digit_char_def)

lemma nat_str_length: "n < 10 ^ Suc k \<Longrightarrow> length (nat_str n) \<le> Suc k"
proof (induction k arbitrary: n)
  case 0
  then show ?case by (simp add: nat_str.simps)
next
  case (Suc k)
  then have "n div 10 < 10 ^ Suc k" by (simp add: less_mult_imp_div_less)
  from Suc.IH [OF this] show ?case by (subst nat_str.simps) simp
qed

lemma digit_number_char: "is_digit c \<Longrightarrow> number_char c"
  by (simp add: number_char_def)

lemma digits_prefix:
  assumes "list_all is_digit s" and "r = [] \<or> \<not> is_digit (hd r)"
  shows "takeWhile is_digit (s @ r) = s \<and> dropWhile is_digit (s @ r) = r"
  using assms by (induction s) (cases r; simp)+

text \<open>A sign, the digits of a natural number, and a fraction make a number.\<close>

lemma readable_parts:
  assumes "r = [] \<or> \<not> is_digit (hd r)" and "fraction_part r" and "list_all number_char r"
  shows "readable ((if neg then ''-'' else []) @ nat_str n @ r)"
proof -
  let ?t = "(if neg then ''-'' else []) @ nat_str n @ r"
  obtain c s where ns: "nat_str n = c # s" and c: "is_digit c" using nat_str_digits [of n] by (cases "nat_str n") auto
  have "\<not> is_digit CHR ''-''" by code_simp
  with c have "c \<noteq> CHR ''-''" by blast
  with ns have d: "(if prefix ''-'' ?t then tl ?t else ?t) = nat_str n @ r" by auto
  have "hd (nat_str n) = CHR ''0'' \<longrightarrow> length (nat_str n) = 1" using nat_str_leading [of n] nat_str_zero by auto
  with digits_prefix [OF conjunct1 [OF nat_str_digits] assms(1), of n] nat_str_digits [of n] assms(2)
  have v: "valid_number ?t" unfolding valid_number_def d Let_def by simp
  have "number_char CHR ''-''" by code_simp
  then have "list_all number_char ?t"
    using assms(3) nat_str_digits [of n] digit_number_char by (auto simp: list_all_iff)
  then have "takeWhile number_char ?t = ?t" "dropWhile number_char ?t = []"
    by (simp_all only: takeWhile_eq_all_conv dropWhile_eq_Nil_conv list_all_iff)
  with v show ?thesis by (simp only: readable_def read_number_def Let_def if_True)
qed

lemma readable_int: "readable (int_str i)"
proof -
  have "fraction_part []" by code_simp
  with readable_parts [of "[]" "i < 0" "nat \<bar>i\<bar>"] show ?thesis by (auto simp: int_str_def)
qed

definition magnitude_ok :: "double \<Rightarrow> bool" where
  "magnitude_ok v = (case v of Finite neg q \<Rightarrow> 0 \<le> q \<and> q \<le> 10 ^ 20 | _ \<Rightarrow> True)"

definition finite_value :: "double \<Rightarrow> bool" where
  "finite_value v = (case v of Finite neg q \<Rightarrow> True | _ \<Rightarrow> False)"

lemma nat_str_digit: "d < 10 \<Longrightarrow> nat_str d = [digit_char d]"
  by (simp add: nat_str.simps)

lemma two_decimals_length:
  assumes "0 \<le> q" and "q \<le> 10 ^ 20"
  shows "length (two_decimals q) \<le> 25"
proof -
  let ?n = "nat (round_even (q * 100))"
  from assms(2) have "q * 100 \<le> of_int (10 ^ 22)" by simp
  then have "round_even (q * 100) \<le> 10 ^ 22" by (rule round_even_le)
  then have "?n div 100 < 10 ^ Suc 21" by simp
  from nat_str_length [OF this] show ?thesis
    by (simp add: two_decimals_def Let_def nat_str_digit)
qed

lemma fraction_digits:
  assumes "list_all is_digit s" and "s \<noteq> []"
  shows "fraction_part (CHR ''.'' # s)"
proof -
  have "exponent_part []" by code_simp
  moreover have "takeWhile is_digit s = s" "dropWhile is_digit s = []" using assms(1) by (simp_all add: list_all_iff)
  ultimately have "takeWhile is_digit s \<noteq> [] \<and> exponent_part (dropWhile is_digit s)" using assms(2) by metis
  then show ?thesis unfolding fraction_part_def by simp
qed

lemma format_finite:
  assumes "0 \<le> q" and "q \<le> 10 ^ 20"
  shows "readable (format_celsius (Finite neg q))"
proof -
  let ?n = "nat (round_even (q * 100))" and ?s = "if neg then ''-'' else []"
  let ?d = "nat_str (?n mod 100 div 10)" and ?e = "nat_str (?n mod 10)"
  have r: "?s @ two_decimals q = ?s @ nat_str (?n div 100) @ ''.'' @ ?d @ ?e"
    by (simp add: two_decimals_def Let_def)
  from two_decimals_length [OF assms] have "length (?s @ two_decimals q) \<le> 31" by simp
  then have "format_celsius (Finite neg q) = ?s @ two_decimals q" unfolding format_celsius_def Let_def double.case by (rule take_all)
  moreover have "readable (?s @ nat_str (?n div 100) @ ''.'' @ ?d @ ?e)"
  proof (rule readable_parts)
    have dot: "\<not> is_digit CHR ''.''" "number_char CHR ''.''" by code_simp+
    have de: "list_all is_digit (?d @ ?e)" "?d @ ?e \<noteq> []" using nat_str_digits by simp_all
    from fraction_digits [OF this] show "fraction_part (''.'' @ ?d @ ?e)" by simp
    show "''.'' @ ?d @ ?e = [] \<or> \<not> is_digit (hd (''.'' @ ?d @ ?e))" using dot(1) by simp
    show "list_all number_char (''.'' @ ?d @ ?e)"
      using de(1) dot(2) digit_number_char by (auto simp: list_all_iff)
  qed
  ultimately show ?thesis by (simp only: r)
qed

lemma format_not_finite: "\<not> finite_value v \<Longrightarrow> non_finite (format_celsius v) \<and> \<not> readable (format_celsius v)"
proof -
  have r: "\<not> readable ''nan''" "\<not> readable ''-nan''" "\<not> readable ''inf''" "\<not> readable ''-inf''" by code_simp+
  assume "\<not> finite_value v"
  then show ?thesis by (cases v) (auto simp: finite_value_def format_celsius_def non_finite_def r)
qed

lemma format_readable: "magnitude_ok v \<Longrightarrow> readable (format_celsius v) \<longleftrightarrow> finite_value v"
  using format_finite format_not_finite by (cases v) (auto simp: magnitude_ok_def finite_value_def)

lemma format_printed: "magnitude_ok v \<Longrightarrow> readable (format_celsius v) \<or> non_finite (format_celsius v)"
  using format_readable format_not_finite by blast

section \<open>The output is JSON unless a temperature is not finite\<close>

text \<open>The temperatures the document holds.\<close>

definition reported :: "hardware \<Rightarrow> double list" where
  "reported h =
     (if hw_have_sensors h
      then concat (map (\<lambda>(chip, fs). List.map_filter temperature fs) (case hw_chips h of None \<Rightarrow> [] | Some cs \<Rightarrow> cs))
      else [])"

abbreviation tokens_of :: "(string \<times> json) list \<Rightarrow> string list" where
  "tokens_of kvs \<equiv> concat (map (\<lambda>(k, v). number_tokens v) kvs)"

lemma number_tokens_simps [simp]:
  "number_tokens (signed v) = [int_str (sint v)]" "number_tokens (unsigned v) = [int_str (uint v)]"
  by (simp_all add: signed_def unsigned_def)

lemma feature_tokens:
  "concat (map number_tokens (concat (map (feature_json chip) fs))) = map format_celsius (List.map_filter temperature fs)"
  by (induction fs) (auto simp: feature_json_def map_filter_simps split: option.split)

lemma thermals_tokens:
  "tokens_of (thermals_fields (Some cs)) = map format_celsius (concat (map (\<lambda>(chip, fs). List.map_filter temperature fs) cs))"
  by (induction cs) (auto simp: thermals_fields_def feature_tokens)

definition all_ints :: "string list \<Rightarrow> bool" where
  "all_ints ts \<longleftrightarrow> list_all (\<lambda>t. \<exists>i. t = int_str i) ts"

lemma all_ints_simps [simp]:
  "all_ints []" "all_ints (int_str i # ts) \<longleftrightarrow> all_ints ts" "all_ints (ts @ us) \<longleftrightarrow> all_ints ts \<and> all_ints us"
  by (auto simp: all_ints_def)

lemma all_ints_concat: "(\<And>ts. ts \<in> set tss \<Longrightarrow> all_ints ts) \<Longrightarrow> all_ints (concat tss)"
  by (induction tss) simp_all

lemma topology_tokens: "all_ints (tokens_of (topology_fields h))"
proof (cases h)
  case (Loaded t)
  have pci: "all_ints (number_tokens (pci_json p))" for p
    by (simp add: pci_json_def split: option.split)
  have node: "all_ints (concat (map number_tokens (node_json t i)))" for i
    by (simp add: node_json_def split: option.split)
  have infos: "all_ints (tokens_of (info_fields info))" for info
    by (simp add: info_fields_def split: option.split)
  have "all_ints (tokens_of (concat (map info_fields infos)))" for infos
    using infos by (induction infos) simp_all
  moreover have "all_ints (concat (map number_tokens (concat (map (node_json t) is))))" for "is"
    using node by (induction "is") simp_all
  moreover have "all_ints (concat (map (number_tokens \<circ> pci_json) ps))" for ps
    using pci by (induction ps) simp_all
  ultimately show ?thesis by (simp add: topology_fields_def Loaded split: option.split)
qed (simp_all add: topology_fields_def)

lemma gpus_tokens: "all_ints (tokens_of (gpus_fields gpus))"
proof -
  have "all_ints (concat (map number_tokens (gpu_json ig)))" for ig
    by (simp add: gpu_json_def split: option.split)
  then have "all_ints (concat (map number_tokens (concat (map gpu_json igs))))" for igs
    by (induction igs) simp_all
  then show ?thesis by (cases gpus) (simp_all add: gpus_fields_def)
qed

lemma document_tokens:
  obtains ts us where "number_tokens (document h) = ts @ map format_celsius (reported h) @ us" and "all_ints ts" and "all_ints us"
proof -
  have "tokens_of (thermals_fields chips) = map format_celsius (concat (map (\<lambda>(chip, fs). List.map_filter temperature fs)
      (case chips of None \<Rightarrow> [] | Some cs \<Rightarrow> cs)))" for chips
    by (cases chips) (simp_all only: thermals_tokens option.case, simp add: thermals_fields_def)
  then have "number_tokens (document h) = tokens_of (topology_fields (hw_topology h)) @ map format_celsius (reported h)
      @ (if hw_have_nvml h then tokens_of (gpus_fields (hw_gpus h)) else [])"
    by (simp add: document_def reported_def)
  moreover have "all_ints (if hw_have_nvml h then tokens_of (gpus_fields (hw_gpus h)) else [])" by (simp add: gpus_tokens)
  ultimately show thesis using topology_tokens that by blast
qed

lemma all_ints_readable: "all_ints ts \<Longrightarrow> list_all readable ts"
  using readable_int by (auto simp: all_ints_def list_all_iff)

lemma document_good:
  assumes "list_all magnitude_ok (reported h)"
  shows "good (document h) \<longleftrightarrow> list_all finite_value (reported h)" and "printed (document h)"
proof -
  obtain ts us where d: "number_tokens (document h) = ts @ map format_celsius (reported h) @ us"
    and tu: "list_all readable ts" "list_all readable us" by (metis document_tokens all_ints_readable)
  have "list_all (readable \<circ> format_celsius) (reported h) \<longleftrightarrow> list_all finite_value (reported h)"
    using assms format_readable by (intro list.pred_cong) (auto simp: list_all_iff)
  with tu show "good (document h) \<longleftrightarrow> list_all finite_value (reported h)"
    by (simp add: good_def d list.pred_map)
  from d tu assms format_printed show "printed (document h)" by (auto simp: printed_def list_all_iff)
qed

section \<open>What the normalizer makes of it\<close>

text \<open>
  A decoded document as \<open>serde_json\<close> holds it: a later field replaces an earlier one of the same name;
  \<open>num\<close> decodes a number token.
\<close>

fun decoded :: "(string \<Rightarrow> pyval) \<Rightarrow> json \<Rightarrow> pyval" where
  "decoded num (Number t) = num t"
| "decoded num (Text s) = PyStr s"
| "decoded num (Flag b) = PyBool b"
| "decoded num Null = PyNone"
| "decoded num (Array xs) = PyList (map (decoded num) xs)"
| "decoded num (Object kvs) = PyDict (fold (\<lambda>(k, v). AList.update k v) (map (\<lambda>(k, v). (k, decoded num v)) kvs) [])"

definition hardware_attributes :: "topology \<Rightarrow> pyval" where
  "hardware_attributes t =
     (let count = (\<lambda>n. PyInt (max 0 (sint n)));
          dmi = (\<lambda>name. case map_of (rev (map (\<lambda>(n, v). (attr_or n, attr_or v)) (case tp_infos t of None \<Rightarrow> [] | Some is \<Rightarrow> is))) name of
                   None \<Rightarrow> PyNone | Some v \<Rightarrow> PyStr v)
      in PyDict
        [(''numa_nodes'', count (tp_numa t)), (''package_count'', count (tp_packages t)),
         (''core_count'', count (tp_cores t)), (''pu_count'', count (tp_pus t)),
         (''l3_cache_bytes'', case tp_l3 t of None \<Rightarrow> PyNone | Some b \<Rightarrow> PyInt (uint b)),
         (''machine_model'', dmi ''DMIProductName''), (''bios_vendor'', dmi ''DMIBIOSVendor'')])"

definition no_attributes :: pyval where
  "no_attributes = PyDict
     [(''numa_nodes'', PyNone), (''package_count'', PyNone), (''core_count'', PyNone), (''pu_count'', PyNone),
      (''l3_cache_bytes'', PyNone), (''machine_model'', PyNone), (''bios_vendor'', PyNone)]"

lemma map_of_fold_update:
  "map_of (fold (\<lambda>(k, v). AList.update k v) kvs d) k = (case map_of (rev kvs) k of Some v \<Rightarrow> Some v | None \<Rightarrow> map_of d k)"
  by (induction kvs arbitrary: d) (auto simp: AList.update_conv' map_add_def split: option.split)

lemma map_of_map_decoded: "map_of (map (\<lambda>(k, v). (k, decoded num v)) kvs) k = map_option (decoded num) (map_of kvs k)"
  by (induction kvs) auto

definition lookup_last :: "(string \<times> json) list \<Rightarrow> string \<Rightarrow> json option" where
  "lookup_last kvs k = map_of (rev kvs) k"

lemma decoded_get: "v_get (decoded num (Object kvs)) k = map_option (decoded num) (lookup_last kvs k)"
  by (simp add: map_of_fold_update lookup_last_def rev_map map_of_map_decoded option.case_eq_if)

lemma lookup_last_simps:
  "lookup_last [] k = None"
  "lookup_last (kvs @ kvs') k = (case lookup_last kvs' k of Some v \<Rightarrow> Some v | None \<Rightarrow> lookup_last kvs k)"
  "lookup_last ((k', v) # kvs) k = (case lookup_last kvs k of Some w \<Rightarrow> Some w | None \<Rightarrow> if k = k' then Some v else None)"
  by (auto simp: lookup_last_def map_add_def split: option.split)

lemma lookup_last_none: "k \<notin> fst ` set kvs \<Longrightarrow> lookup_last kvs k = None"
  by (simp add: lookup_last_def map_of_eq_None_iff)

lemma info_keys: "fst ` set (info_fields info) \<subseteq> snd ` set INFO_KEYS"
proof (cases "map_of INFO_KEYS (attr_or (fst info))")
  case (Some k)
  from map_of_SomeD [OF this] have "k \<in> snd ` set INFO_KEYS" by force
  with Some show ?thesis by (simp add: info_fields_def)
qed (simp add: info_fields_def)

lemma info_key_iff:
  assumes "(name, k) \<in> set INFO_KEYS"
  shows "map_of INFO_KEYS x = Some k \<longleftrightarrow> x = name"
proof -
  have d: "distinct (map fst INFO_KEYS)" "distinct (map snd INFO_KEYS)" by code_simp+
  from d(2) have "inj_on snd (set INFO_KEYS)" by (simp add: distinct_map)
  with assms have "(x, k) \<in> set INFO_KEYS \<longleftrightarrow> x = name" by (metis inj_onD prod.inject snd_conv)
  with d(1) show ?thesis by (simp add: map_of_eq_Some_iff)
qed

lemma info_named:
  assumes "(name, k) \<in> set INFO_KEYS"
  shows "lookup_last (info_fields (n, v)) k = (if attr_or n = name then Some (Text (attr_or v)) else None)"
  using info_key_iff [OF assms, of "attr_or n"] by (auto simp: info_fields_def lookup_last_def split: option.split)

lemma infos_last:
  assumes "(name, k) \<in> set INFO_KEYS"
  shows "lookup_last (concat (map info_fields infos)) k =
    map_option Text (map_of (rev (map (\<lambda>(n, v). (attr_or n, attr_or v)) infos)) name)"
proof (induction infos)
  case (Cons nv infos)
  obtain n v where "nv = (n, v)" by fastforce
  with Cons info_named [OF assms, of n v] show ?case
    by (auto simp: lookup_last_simps map_add_def split: option.splits)
qed (simp add: lookup_last_simps)

lemma sint_count_of: "sint (count_of n) = max 0 (sint n)"
  by (simp add: count_of_def sint_up_scast is_up)

lemma infos_none: "k \<notin> snd ` set INFO_KEYS \<Longrightarrow> lookup_last (concat (map info_fields infos)) k = None"
proof -
  have "fst ` set (concat (map info_fields infos)) \<subseteq> snd ` set INFO_KEYS"
    by (induction infos) (simp_all add: image_Un info_keys)
  then show "k \<notin> snd ` set INFO_KEYS \<Longrightarrow> lookup_last (concat (map info_fields infos)) k = None"
    by (intro lookup_last_none) blast
qed

lemma later_fields:
  assumes "k \<notin> {''thermals'', ''thermals_error'', ''gpus''}"
  shows "lookup_last (if hw_have_sensors h then thermals_fields (hw_chips h) else []) k = None"
    and "lookup_last (if hw_have_nvml h then gpus_fields (hw_gpus h) else []) k = None"
  using assms by (auto intro!: lookup_last_none simp: thermals_fields_def gpus_fields_def split: option.split)

lemma document_lookup:
  assumes "k \<notin> {''thermals'', ''thermals_error'', ''gpus''}"
    and "k \<notin> {''schema'', ''collected_at'', ''hostname'', ''has_sensors'', ''has_nvml''}"
  shows "v_get (decoded num (document h)) k = map_option (decoded num) (lookup_last (topology_fields (hw_topology h)) k)"
  unfolding document_def decoded_get lookup_last_simps(2) later_fields [OF assms(1)]
  using assms(2) by (simp add: lookup_last_simps(1,3) split: option.split)

lemma counts_found:
  "lookup_last (topology_fields (Loaded t)) ''numa_nodes'' = Some (signed (count_of (tp_numa t)))"
  "lookup_last (topology_fields (Loaded t)) ''packages'' = Some (signed (count_of (tp_packages t)))"
  "lookup_last (topology_fields (Loaded t)) ''cores'' = Some (signed (count_of (tp_cores t)))"
  "lookup_last (topology_fields (Loaded t)) ''pus'' = Some (signed (count_of (tp_pus t)))"
  "lookup_last (topology_fields (Loaded t)) ''l3_cache_bytes'' = map_option unsigned (tp_l3 t)"
proof -
  have k: "list_all (\<lambda>k. k \<notin> snd ` set INFO_KEYS) [''numa_nodes'', ''packages'', ''cores'', ''pus'', ''l3_cache_bytes'']"
    by (simp add: INFO_KEYS_def)
  show "lookup_last (topology_fields (Loaded t)) ''numa_nodes'' = Some (signed (count_of (tp_numa t)))"
    "lookup_last (topology_fields (Loaded t)) ''packages'' = Some (signed (count_of (tp_packages t)))"
    "lookup_last (topology_fields (Loaded t)) ''cores'' = Some (signed (count_of (tp_cores t)))"
    "lookup_last (topology_fields (Loaded t)) ''pus'' = Some (signed (count_of (tp_pus t)))"
    "lookup_last (topology_fields (Loaded t)) ''l3_cache_bytes'' = map_option unsigned (tp_l3 t)"
    using k infos_none
    by (simp_all add: topology_fields_def lookup_last_simps split: option.split)
qed

lemma info_found:
  assumes "(name, k) \<in> set INFO_KEYS"
  shows "lookup_last (topology_fields (Loaded t)) k =
    map_option Text (map_of (rev (map (\<lambda>(n, v). (attr_or n, attr_or v)) (case tp_infos t of None \<Rightarrow> [] | Some is \<Rightarrow> is))) name)"
proof -
  have "list_all (\<lambda>(n, k). k \<notin> set [''numa_nodes'', ''packages'', ''cores'', ''pus'', ''l3_cache_bytes'', ''numa_detail'', ''pci_devices'']) INFO_KEYS"
    by code_simp
  with assms have "k \<notin> set [''numa_nodes'', ''packages'', ''cores'', ''pus'', ''l3_cache_bytes'', ''numa_detail'', ''pci_devices'']"
    by (auto simp: list_all_iff)
  then show ?thesis
    using infos_last [OF assms]
    by (cases "tp_infos t"; cases "tp_l3 t") (simp_all add: topology_fields_def lookup_last_simps option.map_comp split: option.split)
qed

lemma signed_decoded:
  assumes "\<And>i. - (2 ^ 63) \<le> i \<Longrightarrow> i < 2 ^ 64 \<Longrightarrow> num (int_str i) = PyInt i"
  shows "decoded num (signed v) = PyInt (sint v)" and "decoded num (unsigned v) = PyInt (uint v)"
proof -
  have "- (2 ^ 63) \<le> sint v" "sint v < 2 ^ 64" using sint_greater_eq [of v] sint_less [of v] by simp_all
  then show "decoded num (signed v) = PyInt (sint v)" by (simp add: signed_def assms)
  have "- (2 ^ 63) \<le> uint v" by (rule order_trans [OF _ uint_ge_0]) simp
  moreover have "uint v < 2 ^ 64" using uint_lt2p [of v] by simp
  ultimately
  show "decoded num (unsigned v) = PyInt (uint v)" by (simp add: unsigned_def assms)
qed

lemma v_get_insert: "v_get (insert_field k' v (PyDict d)) k = (if k = k' then Some v else v_get (PyDict d) k)"
  by (simp add: AList.update_conv')

lemma document_dict: "\<exists>d. decoded num (document h) = PyDict d"
  by (simp add: document_def)

lemma main_document:
  assumes "read_args False args = Document"
  shows "hwprobe_main args h = compact (document h) @ [CHR 0x0A]"
  by (simp add: hwprobe_main_def assms write_document put_def)

lemma main_read:
  assumes "read_args False args = Document" and "list_all magnitude_ok (reported h)"
  shows "read_json (hwprobe_main args h) = (if list_all finite_value (reported h) then Some (document h) else None)"
  unfolding main_document [OF assms(1)]
  using read_compact [OF document_good(2) [OF assms(2)], of "[CHR 0x0A]"] document_good(1) [OF assms(2)]
  by (simp add: spaces_def)

lemma hwprobe_parse_document:
  assumes "hw_topology h = Loaded t" and num: "\<And>i. - (2 ^ 63) \<le> i \<Longrightarrow> i < 2 ^ 64 \<Longrightarrow> num (int_str i) = PyInt i"
    and "dc_json dc raw = Some (decoded num (document h))"
  shows "hwprobe_parse dc raw version scope =
    parsed_as (insert_field ''tool_version'' (PyStr version) (decoded num (document h))) (97 / 100)
      (host_hint scope (hardware_attributes t))"
proof -
  let ?doc = "insert_field ''tool_version'' (PyStr version) (decoded num (document h))"
  have get: "v_get ?doc k = v_get (decoded num (document h)) k" if "k \<noteq> ''tool_version''" for k
    using document_dict [of num h] that by (auto simp: v_get_insert simp del: insert_field.simps)
  have sd: "decoded num (signed v) = PyInt (sint v)" "decoded num (unsigned v) = PyInt (uint v)" for v
    using signed_decoded [of num v] num by blast+
  have count: "v_get ?doc ''numa_nodes'' = Some (PyInt (max 0 (sint (tp_numa t))))"
    "v_get ?doc ''packages'' = Some (PyInt (max 0 (sint (tp_packages t))))"
    "v_get ?doc ''cores'' = Some (PyInt (max 0 (sint (tp_cores t))))"
    "v_get ?doc ''pus'' = Some (PyInt (max 0 (sint (tp_pus t))))"
    by (simp_all add: get document_lookup assms(1) counts_found sd sint_count_of)
  have l3: "v_get ?doc ''l3_cache_bytes'' = map_option (\<lambda>b. PyInt (uint b)) (tp_l3 t)"
    by (cases "tp_l3 t") (simp_all add: get document_lookup assms(1) counts_found sd)
  let ?infos = "map (\<lambda>(n, v). (attr_or n, attr_or v)) (case tp_infos t of None \<Rightarrow> [] | Some is \<Rightarrow> is)"
  have keys: "(''DMIProductName'', ''machine_model'') \<in> set INFO_KEYS" "(''DMIBIOSVendor'', ''bios_vendor'') \<in> set INFO_KEYS"
    by (simp_all add: INFO_KEYS_def)
  have info: "v_get ?doc ''machine_model'' = map_option PyStr (map_of (rev ?infos) ''DMIProductName'')"
    "v_get ?doc ''bios_vendor'' = map_option PyStr (map_of (rev ?infos) ''DMIBIOSVendor'')"
    by (simp_all add: get document_lookup assms(1) info_found [OF keys(1)] info_found [OF keys(2)] option.map_comp comp_def)
  have "or_null (map_option f x) = (case x of None \<Rightarrow> PyNone | Some y \<Rightarrow> f y)" for f and x :: "'x option"
    by (cases x) (simp_all add: or_null_def)
  note o = this
  have "or_null (Some v) = v" for v by (simp add: or_null_def)
  then show ?thesis
    by (simp add: hwprobe_parse_def Let_def json_or_def assms(3) count l3 info o hardware_attributes_def)
qed

lemma hwprobe_parse_nothing:
  assumes "dc_json dc raw = None"
  shows "hwprobe_parse dc raw version scope = parsed_as (PyDict [(''tool_version'', PyStr version)]) (6 / 10) (host_hint scope no_attributes)"
  by (simp add: hwprobe_parse_def Let_def json_or_def assms or_null_def no_attributes_def)

section \<open>Properties\<close>

text \<open>
  C13. The calls of the probe write one JSON document: its standard output is the document, written
  compactly, and a line feed; a reader of JSON gets exactly the document back when every temperature
  libsensors reports is finite, and rejects the whole output when one is not (temperatures beyond 10
  to the 20 degrees, which the buffer of 32 bytes would cut off, excepted).
\<close>

theorem probe_writes_document:
  assumes "read_args False args = Document" and "list_all magnitude_ok (reported h)"
  shows "hwprobe_main args h = compact (document h) @ [CHR 0x0A] \<and>
    read_json (hwprobe_main args h) = (if list_all finite_value (reported h) then Some (document h) else None)"
  using main_document [OF assms(1)] main_read [OF assms] by simp

definition sample_topology :: topology where
  "sample_topology =
     \<lparr>tp_numa = 1, tp_packages = 1, tp_cores = 4, tp_pus = 8, tp_l3 = Some 8388608,
      tp_infos = Some [(Some ''DMIProductName'', Some ''X1''), (Some ''Backend'', None)],
      tp_node = (\<lambda>i. Some (0, 17179869184)), tp_pci = []\<rparr>"

definition sample_hardware :: "double \<Rightarrow> hardware" where
  "sample_hardware v =
     \<lparr>hw_now = ''2026-01-01T00:00:00Z'', hw_hostname = Some ''h'', hw_topology = Loaded sample_topology,
      hw_have_sensors = True,
      hw_chips = Some [(''coretemp'', [\<lparr>fe_is_temp = True, fe_has_input = True, fe_value = Some v, fe_label = None\<rparr>])],
      hw_have_nvml = False, hw_gpus = None\<rparr>"

lemma sample_reported: "reported (sample_hardware v) = [v]"
  by (simp add: reported_def sample_hardware_def temperature_def map_filter_simps)

theorem probe_writes_document_witness:
  "read_json (hwprobe_main [] (sample_hardware (Finite False (91 / 2)))) = Some (document (sample_hardware (Finite False (91 / 2)))) \<and>
   read_json (hwprobe_main [] (sample_hardware (Not_A_Number False))) = None"
proof -
  have "read_args False [] = Document" by simp
  note probe = probe_writes_document [OF this]
  from probe [THEN conjunct2, of "sample_hardware (Finite False (91 / 2))"] probe [THEN conjunct2, of "sample_hardware (Not_A_Number False)"]
  show ?thesis by (simp add: sample_reported magnitude_ok_def finite_value_def)
qed

text \<open>
  C14. From the probe to the stored host: when hwloc loads and the worker decodes what the probe
  printed as the JSON it is, an item of the probe whose bytes can be read is normalized; the host's
  row, new or found by its key, gets the counts (negative ones as zero), the size of the level 3 cache
  and the last model and BIOS vendor hwloc names, and the item's row the whole document, redacted,
  with the tool's version and confidence 0.97, and the host. But one temperature that is not finite
  costs the whole document: the item is stored with nothing but the version, at 0.6, and the host
  with every one of these attributes null.
\<close>

theorem probed_host_attributes:
  assumes "list_all magnitude_ok (reported h)" and "hw_topology h = Loaded t"
    and num: "\<And>i. - (2 ^ 63) \<le> i \<Longrightarrow> i < 2 ^ 64 \<Longrightarrow> num (int_str i) = PyInt i"
    and decodes: "dc_json dc raw = map_option (decoded num) (read_json (hwprobe_main [] h))"
    and "pe_source_tool ev = ''hwprobe''" and "fetch_object s3 (pe_raw_ref ev) = Inr raw"
    and "fetch_run_scope (pe_run_id ev) d = (Inr scope, d)" and "host_storable tenant scope d"
    and "pe_id ev \<in> ei_id ` set (db_evidence d)"
  shows "\<exists>a d'. normalize_one (worker_env dc hs s3 tenant) ev d = (Inr (), d') \<and>
    a \<in> set (db_assets d') \<and> asset_key a = (tenant, host_key scope) \<and>
    (let fits = list_all finite_value (reported h);
         attributes = (if fits then hardware_attributes t else no_attributes);
         version = (''tool_version'', PyStr (pe_version ev));
         doc = (if fits then insert_field (fst version) (snd version) (decoded num (document h)) else PyDict [version]) in
     (case find (\<lambda>x. asset_key x = (tenant, host_key scope)) (db_assets d) of
        None \<Rightarrow> asset_run_id a = pe_run_id ev \<and> asset_attributes a = attributes
      | Some old \<Rightarrow> asset_id a = asset_id old \<and> asset_run_id a = asset_run_id old \<and>
          asset_attributes a = jsonb_concat (asset_attributes old) attributes) \<and>
     db_evidence d' = map (\<lambda>e. if ei_id e = pe_id ev
         then e\<lparr>ei_parsed := Some (fst (redact_value hs doc)), ei_asset_id := Some (asset_id a),
                ei_confidence := (if fits then 97 / 100 else 6 / 10)\<rparr>
         else e) (db_evidence d))"
proof -
  have reg: "registry_get dc (pe_source_tool ev) = Some (hwprobe_parse dc)"
    by (simp add: assms(5) registry_get_def REGISTERED_def)
  obtain result attributes a d' where p: "hwprobe_parse dc raw (pe_version ev) scope = Inr result"
    and hint: "pr_hint result = Some (host_hint scope attributes)"
    and n: "normalize_one (worker_env dc hs s3 tenant) ev d = (Inr (), d')"
    and a: "a \<in> set (db_assets d')" "asset_key a = (tenant, host_key scope)"
    and row: "host_stored d tenant (pe_run_id ev) scope attributes a"
    and ev': "db_evidence d' = map (\<lambda>e. if ei_id e = pe_id ev
       then parsed_row (Some (asset_id a)) (fst (redact_value hs (pr_parsed result))) (pr_confidence result) e else e) (db_evidence d)"
    and "db_runs d' = db_runs d"
    by (rule normalize_one_parses [OF reg assms(6-9)])
  have json: "dc_json dc raw = map_option (decoded num) (if list_all finite_value (reported h) then Some (document h) else None)"
    using main_read [OF _ assms(1), of "[]"] by (simp add: decodes)
  have "hwprobe_parse dc raw (pe_version ev) scope =
    (if list_all finite_value (reported h)
     then parsed_as (insert_field ''tool_version'' (PyStr (pe_version ev)) (decoded num (document h))) (97 / 100)
            (host_hint scope (hardware_attributes t))
     else parsed_as (PyDict [(''tool_version'', PyStr (pe_version ev))]) (6 / 10) (host_hint scope no_attributes))"
    using hwprobe_parse_document [OF assms(2) num] hwprobe_parse_nothing json by simp
  with p have res: "pr_parsed result = (if list_all finite_value (reported h)
        then insert_field ''tool_version'' (PyStr (pe_version ev)) (decoded num (document h))
        else PyDict [(''tool_version'', PyStr (pe_version ev))])"
      "pr_confidence result = (if list_all finite_value (reported h) then 97 / 100 else 6 / 10)"
      "pr_hint result = Some (host_hint scope (if list_all finite_value (reported h) then hardware_attributes t else no_attributes))"
    by (auto simp: parsed_as_def)
  from hint res(3) have "host_hint scope attributes =
      host_hint scope (if list_all finite_value (reported h) then hardware_attributes t else no_attributes)" by simp
  from arg_cong [OF this, of ah_attributes]
  have attrs: "attributes = (if list_all finite_value (reported h) then hardware_attributes t else no_attributes)" by simp
  show ?thesis
    using n a row unfolding host_stored_def attrs
    by (intro exI [of _ a] exI [of _ d'] conjI; simp only: Let_def fst_conv snd_conv ev' parsed_row_def res option.simps if_False
        refl simp_thms)
qed

definition number_value :: "string \<Rightarrow> pyval" where
  "number_value t =
     (if prefix ''-'' t then (case decimal (tl t) of Some n \<Rightarrow> PyInt (- n) | None \<Rightarrow> PyFloat None t)
      else (case decimal t of Some n \<Rightarrow> PyInt n | None \<Rightarrow> PyFloat None t))"

lemma decimal_nat_str: "decimal (nat_str n) = Some (int n)"
proof -
  have digit: "ascii_digit (digit_char d) \<and> of_char (digit_char d) = (48 + int d)" if "d < 10" for d
  proof -
    have "list_all (\<lambda>d. ascii_digit (digit_char d) \<and> of_char (digit_char d) = (48 + int d)) [0..<10]" by code_simp
    with that show ?thesis by (simp add: list_all_iff)
  qed
  have "list_all ascii_digit (nat_str n) \<and> foldl (\<lambda>a c. 10 * a + (of_char c - 48)) 0 (nat_str n) = int n"
  proof (induction n rule: nat_str.induct)
    case (1 n)
    have "10 * int (n div 10) + int (n mod 10) = int n" by presburger
    with 1 digit [of n] digit [of "n mod 10"] show ?case
      by (cases "n < 10") (simp_all add: nat_str.simps [of n])
  qed
  with nat_str_digits [of n] show ?thesis by (simp add: decimal_def)
qed

lemma number_value_int: "number_value (int_str i) = PyInt i"
proof -
  have minus: "\<not> is_digit CHR ''-''" by code_simp
  have "\<not> prefix ''-'' (nat_str n)" for n
    using nat_str_digits [of n] minus by (cases "nat_str n") auto
  then show ?thesis by (auto simp: number_value_def int_str_def decimal_nat_str)
qed

definition probe_decoders :: "hardware \<Rightarrow> decoders" where
  "probe_decoders h =
     \<lparr>dc_text = (\<lambda>raw. []), dc_json = (\<lambda>raw. map_option (decoded number_value) (read_json (hwprobe_main [] h)))\<rparr>"

definition probe_item :: pending_evidence where
  "probe_item = \<lparr>pe_id = 2, pe_run_id = 9, pe_source_tool = ''hwprobe'', pe_version = ''0.1.0'', pe_raw_ref = ''s3://b/k''\<rparr>"

theorem probed_host_attributes_witness:
  "(\<exists>d' a. normalize_one (worker_env (probe_decoders (sample_hardware (Finite False (91 / 2)))) (\<lambda>s. 0)
       (\<lambda>bucket key. Inr []) 5) probe_item pending_db = (Inr (), d') \<and> a \<in> set (db_assets d') \<and>
      asset_attributes a = PyDict
        [(''numa_nodes'', PyInt 1), (''package_count'', PyInt 1), (''core_count'', PyInt 4), (''pu_count'', PyInt 8),
         (''l3_cache_bytes'', PyInt 8388608), (''machine_model'', PyStr ''X1''), (''bios_vendor'', PyNone)] \<and>
      map ei_confidence (db_evidence d') = [97 / 100]) \<and>
   (\<exists>d' a. normalize_one (worker_env (probe_decoders (sample_hardware (Not_A_Number False))) (\<lambda>s. 0)
       (\<lambda>bucket key. Inr []) 5) probe_item pending_db = (Inr (), d') \<and> a \<in> set (db_assets d') \<and>
      asset_attributes a = no_attributes \<and>
      map ei_parsed (db_evidence d') = [Some (PyDict [(''tool_version'', PyStr ''0.1.0'')])])"
proof -
  have t: "hw_topology (sample_hardware v) = Loaded sample_topology" for v by (simp add: sample_hardware_def)
  have dec: "dc_json (probe_decoders h) [] = map_option (decoded number_value) (read_json (hwprobe_main [] h))" for h
    by (simp add: probe_decoders_def)
  have ok: "list_all magnitude_ok (reported (sample_hardware (Finite False (91 / 2))))"
    "list_all magnitude_ok (reported (sample_hardware (Not_A_Number False)))"
    by (simp_all add: sample_reported magnitude_ok_def)
  have attrs: "hardware_attributes sample_topology = PyDict
      [(''numa_nodes'', PyInt 1), (''package_count'', PyInt 1), (''core_count'', PyInt 4), (''pu_count'', PyInt 8),
       (''l3_cache_bytes'', PyInt 8388608), (''machine_model'', PyStr ''X1''), (''bios_vendor'', PyNone)]"
    by (simp add: hardware_attributes_def sample_topology_def attr_or_def)
  have tool: "pe_source_tool probe_item = ''hwprobe''" by (simp add: probe_item_def)
  have raw: "fetch_object (\<lambda>bucket key. Inr []) (pe_raw_ref probe_item) = Inr []"
    by (simp add: probe_item_def fetch_object_def parse_s3_uri_def split_once_def)
  have scope: "fetch_run_scope (pe_run_id probe_item) pending_db = (Inr (PyDict []), pending_db)"
    by (simp add: probe_item_def fetch_run_scope_def pending_db_def sample_db_def)
  have host: "host_storable 5 (PyDict []) pending_db" and new: "find (\<lambda>x. asset_key x = (5, host_key (PyDict []))) (db_assets pending_db) = None"
    by (simp_all add: host_storable_def host_known_def has_asset_def has_tenant_def asset_key_def host_key_def host_from_scope_def
        get_as_def str_or_def Let_def pending_db_def sample_db_def)
  have item: "pe_id probe_item \<in> ei_id ` set (db_evidence pending_db)"
    and ids: "map ei_id (db_evidence pending_db) = [2]" and pid: "pe_id probe_item = 2" "pe_version probe_item = ''0.1.0''"
    by (simp_all add: probe_item_def pending_db_def sample_db_def)
  have clean: "fst (redact_value (\<lambda>s. 0) (PyDict [(''tool_version'', PyStr ''0.1.0'')])) = PyDict [(''tool_version'', PyStr ''0.1.0'')]"
    by code_simp
  from ids obtain e where e: "db_evidence pending_db = [e]" "ei_id e = 2" by auto
  note stored = probed_host_attributes [OF _ t number_value_int dec tool raw scope host item, of _ "\<lambda>s. 0"]
  from stored [OF ok(1)] stored [OF ok(2)] show ?thesis
    by (auto simp: sample_reported finite_value_def attrs new Let_def e pid clean)
qed

end
