(* ===== verification/Routing.thy ===== *)
theory Routing
  imports Py_Text
begin

text \<open>
  \<open>auditcore_gateway/types.py\<close> and \<open>routing.py\<close>: the request types of the model gateway and the
  router that resolves a task kind, a budget and a privacy tier to a chain of provider and model.
  The routing table is the YAML document as the code sees it, a dynamic value; \<open>routing_yaml\<close> is the
  table shipped with the service.
\<close>

section \<open>types.py\<close>

datatype task_kind = SUMMARIZE | CLASSIFY | REASON | LONG_CONTEXT | CODE

fun task_kind_value :: "task_kind \<Rightarrow> string" where
  "task_kind_value SUMMARIZE = ''SUMMARIZE''"
| "task_kind_value CLASSIFY = ''CLASSIFY''"
| "task_kind_value REASON = ''REASON''"
| "task_kind_value LONG_CONTEXT = ''LONG_CONTEXT''"
| "task_kind_value CODE = ''CODE''"

definition all_task_kinds :: "task_kind list" where
  "all_task_kinds = [SUMMARIZE, CLASSIFY, REASON, LONG_CONTEXT, CODE]"

text \<open>\<open>f"{task_kind}"\<close>.\<close>

definition task_kind_text :: "task_kind \<Rightarrow> string" where
  "task_kind_text k = ''TaskKind.'' @ task_kind_value k"

definition budget_tiers :: "string list" where
  "budget_tiers = [''low'', ''normal'', ''high'']"

definition privacy_tiers :: "string list" where
  "privacy_tiers = [''standard'', ''sensitive'', ''air_gapped'']"

datatype role = SYSTEM | USER | ASSISTANT

fun role_value :: "role \<Rightarrow> string" where
  "role_value SYSTEM = ''system''"
| "role_value USER = ''user''"
| "role_value ASSISTANT = ''assistant''"

record message =
  msg_role :: role
  msg_content :: string

record complete_request =
  cq_task_kind :: task_kind
  cq_messages :: "message list"
  cq_output_schema :: "pydict option"
  cq_tenant_id :: string
  cq_budget_hint :: string
  cq_privacy :: string
  cq_agent :: string
  cq_max_tokens :: int
  cq_temperature :: rat

text \<open>The constraints pydantic checks when a request is built.\<close>

definition mk_complete_request :: "complete_request \<Rightarrow> complete_request res" where
  "mk_complete_request q =
     (if cq_budget_hint q \<notin> set budget_tiers then Inl (ValueError ''budget_hint'')
      else if cq_privacy q \<notin> set privacy_tiers then Inl (ValueError ''privacy'')
      else if cq_max_tokens q < 1 \<or> 200000 < cq_max_tokens q then Inl (ValueError ''max_tokens'')
      else if cq_temperature q < 0 \<or> 2 < cq_temperature q then Inl (ValueError ''temperature'')
      else Inr q)"

text \<open>A float is \<open>None\<close> when it is not finite.\<close>

record model_response =
  mr_content :: string
  mr_parsed :: pyval
  mr_provider :: string
  mr_model :: string
  mr_tier_used :: string
  mr_input_tokens :: int
  mr_output_tokens :: int
  mr_cost_usd :: "rat option"
  mr_latency_ms :: int
  mr_schema_valid :: "bool option"
  mr_schema_errors :: "string list"

type_synonym target = "string \<times> string"

record route_decision =
  rd_primary :: target
  rd_secondary :: "target option"
  rd_tertiary :: "target option"
  rd_critic_loop :: bool

section \<open>routing.py\<close>

type_synonym slot = "pyval \<times> pyval"

definition slot_of :: "pyval \<Rightarrow> slot res" where
  "slot_of v =
     bindE (py_index v ''provider'') (\<lambda>p. bindE (py_index v ''model'') (\<lambda>m. Inr (p, m)))"

definition optional_slot :: "pyval \<Rightarrow> string \<Rightarrow> slot option res" where
  "optional_slot slot key =
     bindE (py_contains slot key) (\<lambda>present.
       if present then bindE (py_index slot key) (\<lambda>v. bindE (slot_of v) (\<lambda>s. Inr (Some s)))
       else Inr None)"

text \<open>A Python set of hashable members, in which equal numbers are one member.\<close>

definition py_set :: "pyval \<Rightarrow> pyval list res" where
  "py_set v =
     bindE (py_iter v) (\<lambda>xs. if list_all hashable xs then Inr xs else Inl (TypeError ''unhashable type''))"

definition in_set :: "pyval list \<Rightarrow> pyval \<Rightarrow> bool res" where
  "in_set xs v = (if hashable v then Inr (list_ex (py_eq v) xs) else Inl (TypeError ''unhashable type''))"

fun keep_allowed :: "pyval list \<Rightarrow> slot option list \<Rightarrow> slot list res" where
  "keep_allowed denied [] = Inr []"
| "keep_allowed denied (None # ss) = keep_allowed denied ss"
| "keep_allowed denied (Some s # ss) =
     bindE (in_set denied (fst s)) (\<lambda>d.
     bindE (keep_allowed denied ss) (\<lambda>chain. Inr (if d then chain else s # chain)))"

definition nth_slot :: "slot list \<Rightarrow> nat \<Rightarrow> slot option" where
  "nth_slot chain i = (if i < length chain then Some (chain ! i) else None)"

definition drop_denied ::
  "slot \<Rightarrow> slot option \<Rightarrow> slot option \<Rightarrow> pyval list \<Rightarrow> (slot \<times> slot option \<times> slot option) res" where
  "drop_denied primary secondary tertiary denied =
     bindE (keep_allowed denied [Some primary, secondary, tertiary]) (\<lambda>chain.
       case chain of
         [] \<Rightarrow> Inl (RoutingError ''privacy=sensitive removed every routed provider for this slot'')
       | s # _ \<Rightarrow> Inr (s, nth_slot chain 1, nth_slot chain 2))"

text \<open>Building a \<open>RouteDecision\<close>: pydantic accepts strings only.\<close>

fun as_target :: "slot \<Rightarrow> target res" where
  "as_target (PyStr p, PyStr m) = Inr (p, m)"
| "as_target _ = Inl (ValueError ''Input should be a valid string'')"

definition optional_target :: "slot option \<Rightarrow> target option res" where
  "optional_target s = (case s of None \<Rightarrow> Inr None | Some x \<Rightarrow> bindE (as_target x) (\<lambda>t. Inr (Some t)))"

definition mk_decision :: "slot \<Rightarrow> slot option \<Rightarrow> slot option \<Rightarrow> bool \<Rightarrow> route_decision res" where
  "mk_decision primary secondary tertiary critic =
     bindE (as_target primary) (\<lambda>p. bindE (optional_target secondary) (\<lambda>s. bindE (optional_target tertiary) (\<lambda>t.
       Inr \<lparr>rd_primary = p, rd_secondary = s, rd_tertiary = t, rd_critic_loop = critic\<rparr>)))"

definition privacy_override :: "pyval \<Rightarrow> string \<Rightarrow> pyval res" where
  "privacy_override table tier =
     bindE (py_get table ''privacy_overrides'' (PyDict [])) (\<lambda>o1. py_get o1 tier (PyDict []))"

definition resolve_air_gapped :: "pyval \<Rightarrow> task_kind \<Rightarrow> route_decision res" where
  "resolve_air_gapped table task_kind =
     bindE (privacy_override table ''air_gapped'') (\<lambda>override.
     bindE (py_get override ''routes'' (PyDict [])) (\<lambda>all_routes.
     bindE (py_get all_routes (task_kind_value task_kind) PyNone) (\<lambda>routes.
     if \<not> py_truthy routes
     then Inl (RoutingError (''no air_gapped route defined for task_kind='' @ task_kind_text task_kind))
     else bindE (py_index routes ''primary'') (\<lambda>v. bindE (slot_of v) (\<lambda>p. mk_decision p None None False)))))"

definition apply_privacy ::
  "pyval \<Rightarrow> string \<Rightarrow> slot \<Rightarrow> slot option \<Rightarrow> slot option \<Rightarrow> bool \<Rightarrow> route_decision res" where
  "apply_privacy table privacy primary secondary tertiary critic =
     (if privacy = ''sensitive'' then
        bindE (privacy_override table ''sensitive'') (\<lambda>override.
        bindE (py_get override ''deny_providers'' (PyList [])) (\<lambda>deny.
        bindE (py_set deny) (\<lambda>denied.
        bindE (drop_denied primary secondary tertiary denied) (\<lambda>(p, s, t).
        mk_decision p s t critic))))
      else mk_decision primary secondary tertiary critic)"

definition resolve :: "pyval \<Rightarrow> task_kind \<Rightarrow> string \<Rightarrow> string \<Rightarrow> route_decision res" where
  "resolve table task_kind budget privacy =
     (if privacy = ''air_gapped'' then resolve_air_gapped table task_kind
      else
        bindE (py_index table ''defaults'') (\<lambda>defaults.
        bindE (py_index defaults (task_kind_value task_kind)) (\<lambda>by_budget.
        bindE (py_index by_budget budget) (\<lambda>slot.
        bindE (py_index slot ''primary'') (\<lambda>v.
        bindE (slot_of v) (\<lambda>primary.
        bindE (optional_slot slot ''secondary'') (\<lambda>secondary.
        bindE (optional_slot slot ''tertiary'') (\<lambda>tertiary.
        bindE (py_get slot ''primary'' (PyDict [])) (\<lambda>pr.
        bindE (py_get pr ''critic_loop'' (PyBool False)) (\<lambda>critic.
        apply_privacy table privacy primary secondary tertiary (py_truthy critic)))))))))))"

definition fallback_settings :: "pyval \<Rightarrow> pyval res" where
  "fallback_settings table = py_get table ''fallback'' (PyDict [])"

definition cost_caps :: "pyval \<Rightarrow> pyval res" where
  "cost_caps table = py_get table ''cost_caps'' (PyDict [])"

text \<open>The chain of attempts of a decision, in the order of the tiers.\<close>

definition attempts :: "route_decision \<Rightarrow> (string \<times> target) list" where
  "attempts route =
     (''primary'', rd_primary route) #
     (case rd_secondary route of None \<Rightarrow> [] | Some t \<Rightarrow> [(''secondary'', t)]) @
     (case rd_tertiary route of None \<Rightarrow> [] | Some t \<Rightarrow> [(''tertiary'', t)])"

section \<open>routing.yaml\<close>

definition slot_yaml :: "string \<Rightarrow> string \<Rightarrow> pyval" where
  "slot_yaml p m = PyDict [(''provider'', PyStr p), (''model'', PyStr m)]"

definition tiers_yaml :: "pyval list \<Rightarrow> pyval" where
  "tiers_yaml ss = PyDict (zip [''primary'', ''secondary'', ''tertiary''] ss)"

definition defaults_yaml :: pyval where
  "defaults_yaml = PyDict
     [(''SUMMARIZE'', PyDict
        [(''low'', tiers_yaml [slot_yaml ''anthropic'' ''claude-haiku-4-5-20251001'',
           slot_yaml ''openai'' ''gpt-4.1-mini'', slot_yaml ''google'' ''gemini-1.5-flash'']),
         (''normal'', tiers_yaml [slot_yaml ''anthropic'' ''claude-haiku-4-5-20251001'',
           slot_yaml ''openai'' ''gpt-4.1-mini'']),
         (''high'', tiers_yaml [slot_yaml ''anthropic'' ''claude-sonnet-4-6'', slot_yaml ''openai'' ''gpt-5''])]),
      (''CLASSIFY'', PyDict
        [(''low'', tiers_yaml [slot_yaml ''anthropic'' ''claude-haiku-4-5-20251001'',
           slot_yaml ''local'' ''llama-3.1-8b-instruct'']),
         (''normal'', tiers_yaml [slot_yaml ''anthropic'' ''claude-haiku-4-5-20251001'',
           slot_yaml ''openai'' ''gpt-4.1-mini'']),
         (''high'', tiers_yaml [slot_yaml ''anthropic'' ''claude-sonnet-4-6''])]),
      (''REASON'', PyDict
        [(''low'', tiers_yaml [slot_yaml ''anthropic'' ''claude-sonnet-4-6'', slot_yaml ''openai'' ''gpt-5-mini'']),
         (''normal'', tiers_yaml [slot_yaml ''anthropic'' ''claude-opus-4-7'', slot_yaml ''openai'' ''gpt-5'',
           slot_yaml ''google'' ''gemini-2.0-pro'']),
         (''high'', tiers_yaml [PyDict [(''provider'', PyStr ''anthropic''), (''model'', PyStr ''claude-opus-4-7''),
             (''critic_loop'', PyBool True)], slot_yaml ''openai'' ''gpt-5''])]),
      (''LONG_CONTEXT'', PyDict
        [(''low'', tiers_yaml [slot_yaml ''anthropic'' ''claude-sonnet-4-6'']),
         (''normal'', tiers_yaml [slot_yaml ''anthropic'' ''claude-sonnet-4-6'',
           slot_yaml ''google'' ''gemini-2.0-pro-1m'']),
         (''high'', tiers_yaml [slot_yaml ''anthropic'' ''claude-opus-4-7''])]),
      (''CODE'', PyDict
        [(''low'', tiers_yaml [slot_yaml ''anthropic'' ''claude-sonnet-4-6'']),
         (''normal'', tiers_yaml [slot_yaml ''anthropic'' ''claude-sonnet-4-6'', slot_yaml ''openai'' ''gpt-5'']),
         (''high'', tiers_yaml [slot_yaml ''anthropic'' ''claude-opus-4-7''])])]"

definition overrides_yaml :: pyval where
  "overrides_yaml = PyDict
     [(''sensitive'', PyDict
        [(''allowed_providers'', PyList [PyStr ''anthropic'', PyStr ''openai'']),
         (''deny_providers'', PyList [PyStr ''google'']), (''require_zero_retention'', PyBool True)]),
      (''air_gapped'', PyDict
        [(''allowed_providers'', PyList [PyStr ''local'']),
         (''routes'', PyDict
            [(''SUMMARIZE'', tiers_yaml [slot_yaml ''local'' ''llama-3.1-8b-instruct'']),
             (''CLASSIFY'', tiers_yaml [slot_yaml ''local'' ''llama-3.1-8b-instruct'']),
             (''REASON'', tiers_yaml [slot_yaml ''local'' ''llama-3.1-70b-instruct'']),
             (''LONG_CONTEXT'', tiers_yaml [slot_yaml ''local'' ''llama-3.1-70b-instruct'']),
             (''CODE'', tiers_yaml [slot_yaml ''local'' ''deepseek-coder-33b''])])])]"

definition routing_yaml :: pyval where
  "routing_yaml = PyDict
     [(''defaults'', defaults_yaml), (''privacy_overrides'', overrides_yaml),
      (''fallback'', PyDict [(''consecutive_failure_threshold'', PyInt 3), (''cooldown_seconds'', PyInt 300),
         (''escalate_on_schema_failure'', PyBool True)]),
      (''cost_caps'', PyDict [(''default_run_soft_cap_usd'', PyFloat (Some 5) ''5.0''),
         (''default_run_hard_cap_usd'', PyFloat (Some 25) ''25.0''), (''on_hard_cap'', PyStr ''degrade'')])]"

section \<open>What resolving guarantees\<close>

definition providers_of :: "route_decision \<Rightarrow> string list" where
  "providers_of route = map (\<lambda>a. fst (snd a)) (attempts route)"

lemma attempts_tiers: "subseq (map fst (attempts route)) [''primary'', ''secondary'', ''tertiary'']"
  by (cases "rd_secondary route"; cases "rd_tertiary route") (simp_all add: attempts_def)

lemma attempts_nonempty [simp]: "attempts route \<noteq> []"
  by (simp add: attempts_def)

lemma as_target_str: "as_target s = Inr t \<Longrightarrow> s = (PyStr (fst t), PyStr (snd t))"
  by (cases s rule: as_target.cases) auto

lemma optional_target_Inr:
  "optional_target s = Inr t \<longleftrightarrow> (case s of None \<Rightarrow> t = None | Some x \<Rightarrow> \<exists>y. as_target x = Inr y \<and> t = Some y)"
  by (auto simp: optional_target_def bindE_eq_Inr split: option.split)

definition present :: "'a option list \<Rightarrow> 'a list" where
  "present ss = map the (filter (\<lambda>s. s \<noteq> None) ss)"

lemma present_simps [simp]:
  "present [] = []" "present (None # ss) = present ss" "present (Some x # ss) = x # present ss"
  by (simp_all add: present_def)

lemma keep_allowed_filter:
  "keep_allowed denied ss = Inr chain \<Longrightarrow>
     chain = filter (\<lambda>s. \<not> list_ex (py_eq (fst s)) denied) (present ss)"
proof (induction ss arbitrary: chain)
  case Nil
  then show ?case by simp
next
  case (Cons s ss)
  show ?case
  proof (cases s)
    case None
    with Cons show ?thesis by simp
  next
    case (Some x)
    with Cons.prems obtain d rest where d: "in_set denied (fst x) = Inr d" and r: "keep_allowed denied ss = Inr rest"
      and chain: "chain = (if d then rest else x # rest)" by auto
    from d have "d = list_ex (py_eq (fst x)) denied" by (simp add: in_set_def split: if_splits)
    with Some chain Cons.IH [OF r] show ?thesis by simp
  qed
qed

text \<open>The slots of a decision before it is built.\<close>

definition chain_of :: "slot \<Rightarrow> slot option \<Rightarrow> slot option \<Rightarrow> slot list" where
  "chain_of p s t = present [Some p, s, t]"

lemma mk_decision_targets:
  assumes "mk_decision p s t critic = Inr route"
  shows "map (\<lambda>a. (PyStr (fst (snd a)), PyStr (snd (snd a)))) (attempts route) = chain_of p s t"
    and "rd_critic_loop route = critic"
  using assms
  by (auto simp: mk_decision_def optional_target_Inr attempts_def chain_of_def dest!: as_target_str split: option.splits)

lemma nth_slot_chain:
  "length chain \<le> 3 \<Longrightarrow> chain = x # rest \<Longrightarrow> chain_of x (nth_slot chain 1) (nth_slot chain 2) = chain"
  by (cases rest; cases "tl rest") (auto simp: chain_of_def nth_slot_def)

lemma drop_denied_chain:
  assumes "drop_denied p s t denied = Inr (p', s', t')"
  shows "chain_of p' s' t' = filter (\<lambda>x. \<not> list_ex (py_eq (fst x)) denied) (chain_of p s t)"
proof -
  from assms obtain rest where k: "keep_allowed denied [Some p, s, t] = Inr (p' # rest)"
    and r: "s' = nth_slot (p' # rest) 1" "t' = nth_slot (p' # rest) 2"
    by (auto simp: drop_denied_def simp del: keep_allowed.simps split: list.splits)
  from keep_allowed_filter [OF k] have f: "p' # rest = filter (\<lambda>x. \<not> list_ex (py_eq (fst x)) denied) (chain_of p s t)"
    by (simp add: chain_of_def)
  have "length (chain_of p s t) \<le> 3" by (cases s; cases t) (simp_all add: chain_of_def)
  then have "length (p' # rest) \<le> 3" unfolding f by (meson length_filter_le order_trans)
  with nth_slot_chain [of "p' # rest" p' rest] f show ?thesis by (simp add: r)
qed

lemma py_eq_str [simp]: "py_eq (PyStr p) v \<longleftrightarrow> v = PyStr p"
  by (cases v) (auto simp: py_eq_def split: option.splits)

text \<open>What both resolutions read from the table before the privacy tier matters.\<close>

lemma resolve_slots:
  assumes "resolve table k b privacy = Inr route" and "privacy \<noteq> ''air_gapped''"
  obtains defaults by_budget slot v pr critic p s t where
    "py_index table ''defaults'' = Inr defaults" and "py_index defaults (task_kind_value k) = Inr by_budget"
    and "py_index by_budget b = Inr slot" and "py_index slot ''primary'' = Inr v" and "slot_of v = Inr p"
    and "optional_slot slot ''secondary'' = Inr s" and "optional_slot slot ''tertiary'' = Inr t"
    and "py_get slot ''primary'' (PyDict []) = Inr pr" and "py_get pr ''critic_loop'' (PyBool False) = Inr critic"
    and "apply_privacy table privacy p s t (py_truthy critic) = Inr route"
  using assms unfolding resolve_def by (simp only: if_False) (elim bindE_InrE)

lemma resolve_sensitive_filters:
  assumes "resolve table k b ''sensitive'' = Inr route" and "resolve table k b ''standard'' = Inr std"
    and "privacy_override table ''sensitive'' = Inr override"
    and "py_get override ''deny_providers'' (PyList []) = Inr (PyList (map PyStr ds))"
  shows "map snd (attempts route) = filter (\<lambda>t. fst t \<notin> set ds) (map snd (attempts std))"
    and "rd_critic_loop route = rd_critic_loop std"
proof -
  obtain defaults by_budget slot v pr critic p s t where
    r: "py_index table ''defaults'' = Inr defaults" "py_index defaults (task_kind_value k) = Inr by_budget"
      "py_index by_budget b = Inr slot" "py_index slot ''primary'' = Inr v" "slot_of v = Inr p"
      "optional_slot slot ''secondary'' = Inr s" "optional_slot slot ''tertiary'' = Inr t"
      "py_get slot ''primary'' (PyDict []) = Inr pr" "py_get pr ''critic_loop'' (PyBool False) = Inr critic"
    and m0: "apply_privacy table ''standard'' p s t (py_truthy critic) = Inr std"
    by (rule resolve_slots [OF assms(2)]) simp
  from m0 have std: "mk_decision p s t (py_truthy critic) = Inr std" by (simp add: apply_privacy_def)
  from assms(1) r have "apply_privacy table ''sensitive'' p s t (py_truthy critic) = Inr route"
    by (simp add: resolve_def)
  with assms(3,4) obtain d where d0: "drop_denied p s t (map PyStr ds) = Inr d"
    and m0: "(case d of (p, s, t) \<Rightarrow> mk_decision p s t (py_truthy critic)) = Inr route"
    by (auto simp: apply_privacy_def py_set_def list_all_iff split: if_splits simp del: split_paired_All)
  obtain p' s' t' where d: "drop_denied p s t (map PyStr ds) = Inr (p', s', t')"
    and m: "mk_decision p' s' t' (py_truthy critic) = Inr route"
    using d0 m0 by (cases d) auto
  let ?f = "\<lambda>a. (PyStr (fst (snd a)), PyStr (snd (snd a)))"
  have "map ?f (attempts route) = filter (\<lambda>x. \<not> list_ex (py_eq (fst x)) (map PyStr ds)) (map ?f (attempts std))"
    unfolding mk_decision_targets(1) [OF m] mk_decision_targets(1) [OF std] by (rule drop_denied_chain [OF d])
  also have "\<dots> = map ?f (filter (\<lambda>a. fst (snd a) \<notin> set ds) (attempts std))"
    by (auto simp: filter_map comp_def list_ex_iff image_iff intro!: arg_cong [of _ _ "map ?f"] filter_cong)
  finally have "map (\<lambda>t. (PyStr (fst t), PyStr (snd t))) (map snd (attempts route)) =
      map (\<lambda>t. (PyStr (fst t), PyStr (snd t))) (map snd (filter (\<lambda>a. fst (snd a) \<notin> set ds) (attempts std)))"
    by (simp add: comp_def)
  then have "map snd (attempts route) = map snd (filter (\<lambda>a. fst (snd a) \<notin> set ds) (attempts std))"
    by (rule map_injective) (auto intro: injI prod_eqI)
  then show "map snd (attempts route) = filter (\<lambda>t. fst t \<notin> set ds) (map snd (attempts std))"
    by (simp add: filter_map comp_def)
  show "rd_critic_loop route = rd_critic_loop std"
    by (simp add: mk_decision_targets(2) [OF m] mk_decision_targets(2) [OF std])
qed

section \<open>Properties\<close>

text \<open>
  Privacy wins over budget: for any routing table, an air-gapped request resolves without
  looking at the budget, and to a single provider without fallback tiers.
\<close>

lemma resolve_air_gapped_single:
  assumes "resolve table k b ''air_gapped'' = Inr route"
  shows "resolve table k b' ''air_gapped'' = Inr route \<and> attempts route = [(''primary'', rd_primary route)]"
proof -
  from assms have r: "resolve_air_gapped table k = Inr route" by (simp add: resolve_def)
  then have "rd_secondary route = None \<and> rd_tertiary route = None"
    by (auto simp: resolve_air_gapped_def mk_decision_def optional_target_def split: if_splits)
  with r show ?thesis by (simp add: resolve_def attempts_def)
qed

lemma resolve_air_gapped_single_witness:
  "\<exists>route. resolve routing_yaml CODE ''high'' ''air_gapped'' = Inr route \<and>
     attempts route = [(''primary'', (''local'', ''deepseek-coder-33b''))]"
proof -
  have r: "resolve routing_yaml CODE ''low'' ''air_gapped'' = Inr
     \<lparr>rd_primary = (''local'', ''deepseek-coder-33b''), rd_secondary = None, rd_tertiary = None, rd_critic_loop = False\<rparr>"
    by code_simp
  from resolve_air_gapped_single [OF r, of "''high''"] show ?thesis by simp
qed

text \<open>
  C26. The sensitive tier only removes: its chain of attempts is the standard chain without the
  denied providers, in the same order, whatever the table.
\<close>

theorem resolve_sensitive_chain:
  assumes "resolve table k b ''sensitive'' = Inr route" and "resolve table k b ''standard'' = Inr std"
    and "privacy_override table ''sensitive'' = Inr override"
    and "py_get override ''deny_providers'' (PyList []) = Inr (PyList (map PyStr ds))"
  shows "map snd (attempts route) = filter (\<lambda>t. fst t \<notin> set ds) (map snd (attempts std)) \<and>
    set (providers_of route) \<inter> set ds = {} \<and> rd_critic_loop route = rd_critic_loop std"
proof -
  note r = resolve_sensitive_filters [OF assms]
  have "set (providers_of route) = fst ` set (map snd (attempts route))"
    by (simp add: providers_of_def image_image)
  then have "set (providers_of route) \<inter> set ds = {}" unfolding r(1) by auto
  with r show ?thesis by simp
qed

definition decision :: "target \<Rightarrow> target option \<Rightarrow> target option \<Rightarrow> route_decision" where
  "decision p s t = \<lparr>rd_primary = p, rd_secondary = s, rd_tertiary = t, rd_critic_loop = False\<rparr>"

theorem resolve_sensitive_chain_witness:
  "map snd (attempts (decision (''anthropic'', ''claude-opus-4-7'') (Some (''openai'', ''gpt-5'')) None)) =
     filter (\<lambda>t. fst t \<notin> set [''google'']) (map snd (attempts
       (decision (''anthropic'', ''claude-opus-4-7'') (Some (''openai'', ''gpt-5'')) (Some (''google'', ''gemini-2.0-pro'')))))"
proof -
  have "resolve routing_yaml REASON ''normal'' ''sensitive'' =
      Inr (decision (''anthropic'', ''claude-opus-4-7'') (Some (''openai'', ''gpt-5'')) None)"
    by code_simp
  moreover have "resolve routing_yaml REASON ''normal'' ''standard'' = Inr
      (decision (''anthropic'', ''claude-opus-4-7'') (Some (''openai'', ''gpt-5'')) (Some (''google'', ''gemini-2.0-pro'')))"
    by code_simp
  moreover have "privacy_override routing_yaml ''sensitive'' = Inr (PyDict
        [(''allowed_providers'', PyList [PyStr ''anthropic'', PyStr ''openai'']),
         (''deny_providers'', PyList [PyStr ''google'']), (''require_zero_retention'', PyBool True)])"
    by code_simp
  moreover have "py_get (PyDict
        [(''allowed_providers'', PyList [PyStr ''anthropic'', PyStr ''openai'']),
         (''deny_providers'', PyList [PyStr ''google'']), (''require_zero_retention'', PyBool True)])
      ''deny_providers'' (PyList []) = Inr (PyList (map PyStr [''google'']))"
    by simp
  ultimately show ?thesis by (rule resolve_sensitive_chain [THEN conjunct1])
qed

definition resolves_within :: "string \<Rightarrow> string list \<Rightarrow> task_kind \<Rightarrow> string \<Rightarrow> bool" where
  "resolves_within privacy allowed k b =
     (case resolve routing_yaml k b privacy of
        Inl e \<Rightarrow> False | Inr route \<Rightarrow> list_all (\<lambda>p. p \<in> set allowed) (providers_of route))"

lemma shipped_routes:
  "list_all (\<lambda>k. list_all (\<lambda>b. resolves_within ''air_gapped'' [''local''] k b \<and>
      resolves_within ''sensitive'' [''anthropic'', ''openai'', ''local''] k b \<and>
      resolves_within ''standard'' [''anthropic'', ''openai'', ''google'', ''local''] k b) budget_tiers) all_task_kinds"
  by code_simp

lemma all_task_kinds_all: "k \<in> set all_task_kinds"
  by (cases k) (simp_all add: all_task_kinds_def)

lemma shipped_table_routes:
  assumes "b \<in> set budget_tiers"
  shows "(\<exists>r. resolve routing_yaml k b ''air_gapped'' = Inr r \<and> set (providers_of r) = {''local''}) \<and>
    (\<exists>r. resolve routing_yaml k b ''sensitive'' = Inr r \<and> set (providers_of r) \<subseteq> {''anthropic'', ''openai'', ''local''}) \<and>
    (\<exists>r. resolve routing_yaml k b ''standard'' = Inr r \<and>
       set (providers_of r) \<subseteq> {''anthropic'', ''openai'', ''google'', ''local''})"
proof -
  have w: "resolves_within ''air_gapped'' [''local''] k b"
    "resolves_within ''sensitive'' [''anthropic'', ''openai'', ''local''] k b"
    "resolves_within ''standard'' [''anthropic'', ''openai'', ''google'', ''local''] k b"
    using shipped_routes assms all_task_kinds_all [of k] by (auto simp: list_all_iff)
  have one: "set (providers_of r) = {p}" if "list_all (\<lambda>q. q \<in> set [p]) (providers_of r)" for r p
    using that by (cases "attempts r") (auto simp: providers_of_def list_all_iff)
  from w(1) one have "\<exists>r. resolve routing_yaml k b ''air_gapped'' = Inr r \<and> set (providers_of r) = {''local''}"
    unfolding resolves_within_def by (cases "resolve routing_yaml k b ''air_gapped''") auto
  moreover from w(2) have "\<exists>r. resolve routing_yaml k b ''sensitive'' = Inr r \<and>
      set (providers_of r) \<subseteq> {''anthropic'', ''openai'', ''local''}"
    by (auto simp: resolves_within_def list_all_iff split: sum.splits)
  moreover from w(3) have "\<exists>r. resolve routing_yaml k b ''standard'' = Inr r \<and>
      set (providers_of r) \<subseteq> {''anthropic'', ''openai'', ''google'', ''local''}"
    by (auto simp: resolves_within_def list_all_iff split: sum.splits)
  ultimately show ?thesis by blast
qed

lemma shipped_resolves:
  assumes "b \<in> set budget_tiers" and "privacy \<in> set privacy_tiers"
  shows "\<exists>r. resolve routing_yaml k b privacy = Inr r"
proof -
  from assms(2) have "privacy = ''standard'' \<or> privacy = ''sensitive'' \<or> privacy = ''air_gapped''"
    by (simp add: privacy_tiers_def)
  with shipped_table_routes [OF assms(1), of k] show ?thesis by (elim disjE) (simp_all, blast+)
qed

text \<open>
  With the table that is shipped, every valid request resolves: an air-gapped one to local
  models only, a sensitive one without google, a standard one to the four providers.
\<close>

lemma shipped_table_total:
  assumes "b \<in> set budget_tiers"
  shows "(\<exists>r. resolve routing_yaml k b ''air_gapped'' = Inr r \<and> set (providers_of r) = {''local''}) \<and>
    (\<exists>r. resolve routing_yaml k b ''sensitive'' = Inr r \<and> set (providers_of r) \<subseteq> {''anthropic'', ''openai'', ''local''}) \<and>
    (\<exists>r. resolve routing_yaml k b ''standard'' = Inr r \<and>
       set (providers_of r) \<subseteq> {''anthropic'', ''openai'', ''google'', ''local''})"
  using assms by (rule shipped_table_routes)

lemma shipped_table_total_witness:
  "\<exists>r. resolve routing_yaml CLASSIFY ''low'' ''air_gapped'' = Inr r \<and> set (providers_of r) = {''local''}"
  using shipped_table_total [of "''low''" CLASSIFY] by (simp add: budget_tiers_def)

text \<open>
  The list of allowed providers of the sensitive tier is not enforced, only the list of denied
  ones: the shipped table allows anthropic and openai, and a sensitive low-budget classification
  still falls back to the local provider.
\<close>

lemma sensitive_allow_list_not_enforced:
  "\<exists>r override. resolve routing_yaml CLASSIFY ''low'' ''sensitive'' = Inr r \<and>
     privacy_override routing_yaml ''sensitive'' = Inr override \<and>
     py_get override ''allowed_providers'' PyNone = Inr (PyList [PyStr ''anthropic'', PyStr ''openai'']) \<and>
     providers_of r = [''anthropic'', ''local'']"
proof (intro exI conjI)
  show "resolve routing_yaml CLASSIFY ''low'' ''sensitive'' =
      Inr (decision (''anthropic'', ''claude-haiku-4-5-20251001'') (Some (''local'', ''llama-3.1-8b-instruct'')) None)"
    by code_simp
  show "privacy_override routing_yaml ''sensitive'' = Inr (PyDict
        [(''allowed_providers'', PyList [PyStr ''anthropic'', PyStr ''openai'']),
         (''deny_providers'', PyList [PyStr ''google'']), (''require_zero_retention'', PyBool True)])"
    by code_simp
qed (simp_all add: decision_def providers_of_def attempts_def)

end
