(* ===== verification/Providers.thy ===== *)
theory Providers
  imports Routing Py_Float "HOL-Library.AList"
begin

text \<open>
  \<open>auditcore_gateway/providers/\<close>: the four adapters, each turning a list of messages into the call
  of its SDK and the reply into a \<open>ModelResponse\<close>, and the lazily filled registry \<open>get_provider\<close>.

  The SDKs, the HTTP client and the clock are not under src: they are the fields of the record
  \<open>sdk\<close>, commands on a world \<open>'w\<close>. Replies have the types the SDKs document; a token count is absent
  (\<open>None\<close>), Python's \<open>None\<close> (\<open>Some None\<close>) or an integer.
\<close>

section \<open>config.py\<close>

record gateway_settings =
  gs_anthropic_api_key :: string
  gs_openai_api_key :: string
  gs_google_api_key :: string
  gs_local_endpoint :: string

definition or_none :: "string \<Rightarrow> string option" where
  "or_none s = (if s = [] then None else Some s)"

section \<open>The SDKs\<close>

type_synonym token_count = "int option option"

record anthropic_call =
  ac_api_key :: "string option"
  ac_model :: string
  ac_system :: "string option"
  ac_messages :: "(string \<times> string) list"
  ac_max_tokens :: int
  ac_temperature :: rat

record anthropic_reply =
  ap_blocks :: "string option list"
  ap_input_tokens :: token_count
  ap_output_tokens :: token_count

record openai_call =
  oc_api_key :: "string option"
  oc_model :: string
  oc_messages :: "(string \<times> string) list"
  oc_max_tokens :: int
  oc_temperature :: rat

record openai_reply =
  oy_choices :: "string option list"
  oy_prompt_tokens :: token_count
  oy_completion_tokens :: token_count

record google_call =
  gc_api_key :: "string option"
  gc_model :: string
  gc_prompt :: string
  gc_max_tokens :: int
  gc_temperature :: rat

record google_reply =
  gy_text :: "string option res"
  gy_prompt_tokens :: token_count
  gy_candidates_tokens :: token_count

record 'w sdk =
  sdk_anthropic :: "anthropic_call \<Rightarrow> ('w, anthropic_reply) cmd"
  sdk_openai :: "openai_call \<Rightarrow> ('w, openai_reply) cmd"
  sdk_google :: "google_call \<Rightarrow> ('w, google_reply) cmd"
  sdk_local_post :: "string \<Rightarrow> pyval \<Rightarrow> ('w, pyval) cmd"
  sdk_clock :: "'w \<Rightarrow> rat \<times> 'w"

text \<open>\<open>getattr(usage, name, 0)\<close> in an \<open>int\<close> field of a pydantic model.\<close>

definition token_field :: "token_count \<Rightarrow> int res" where
  "token_field t =
     (case t of None \<Rightarrow> Inr 0 | Some None \<Rightarrow> Inl (ValueError ''Input should be a valid integer'') | Some (Some n) \<Rightarrow> Inr n)"

definition perf_counter :: "'w sdk \<Rightarrow> ('w, rat) cmd" where
  "perf_counter sdk w = (case sdk_clock sdk w of (t, w') \<Rightarrow> (Inr t, w'))"

text \<open>\<open>int((time.perf_counter() - t0) * 1000)\<close> around a call.\<close>

definition timed :: "'w sdk \<Rightarrow> ('w, 'a) cmd \<Rightarrow> ('w, 'a \<times> int) cmd" where
  "timed sdk m =
     bindC (perf_counter sdk) (\<lambda>t0. bindC m (\<lambda>x. bindC (perf_counter sdk) (\<lambda>t1.
       returnC (x, rat_trunc (float_mult (float_round (t1 - t0)) 1000)))))"

text \<open>What the adapters build: everything that is not an argument has the model's default.\<close>

definition model_response_of ::
  "string \<Rightarrow> string \<Rightarrow> string \<Rightarrow> int res \<Rightarrow> int res \<Rightarrow> int \<Rightarrow> model_response res" where
  "model_response_of name content model input_tokens output_tokens latency_ms =
     bindE input_tokens (\<lambda>i. bindE output_tokens (\<lambda>ot.
       Inr \<lparr>mr_content = content, mr_parsed = PyNone, mr_provider = name, mr_model = model,
            mr_tier_used = ''primary'', mr_input_tokens = i, mr_output_tokens = ot, mr_cost_usd = Some 0,
            mr_latency_ms = latency_ms, mr_schema_valid = None, mr_schema_errors = []\<rparr>))"

definition wire_message :: "message \<Rightarrow> string \<times> string" where
  "wire_message m = (role_value (msg_role m), msg_content m)"

definition system_text :: "message list \<Rightarrow> string" where
  "system_text ms = str_join ''\<newline>\<newline>'' (map msg_content (filter (\<lambda>m. msg_role m = SYSTEM) ms))"

section \<open>The adapters\<close>

definition anthropic_complete ::
  "gateway_settings \<Rightarrow> 'w sdk \<Rightarrow> message list \<Rightarrow> string \<Rightarrow> int \<Rightarrow> rat \<Rightarrow> ('w, model_response) cmd" where
  "anthropic_complete cfg sdk ms model max_tokens temperature =
     bindC (timed sdk (sdk_anthropic sdk
       \<lparr>ac_api_key = or_none (gs_anthropic_api_key cfg), ac_model = model, ac_system = or_none (system_text ms),
        ac_messages = map wire_message (filter (\<lambda>m. msg_role m \<noteq> SYSTEM) ms),
        ac_max_tokens = max_tokens, ac_temperature = temperature\<rparr>)) (\<lambda>(resp, latency_ms).
     liftC (model_response_of ''anthropic''
       (concat (map (\<lambda>b. case b of None \<Rightarrow> [] | Some t \<Rightarrow> t) (ap_blocks resp))) model
       (token_field (ap_input_tokens resp)) (token_field (ap_output_tokens resp)) latency_ms))"

definition first_choice :: "string option list \<Rightarrow> string res" where
  "first_choice cs =
     (case cs of [] \<Rightarrow> Inl (LookupError ''list index out of range'')
      | c # _ \<Rightarrow> Inr (case c of None \<Rightarrow> [] | Some t \<Rightarrow> t))"

definition openai_complete ::
  "gateway_settings \<Rightarrow> 'w sdk \<Rightarrow> message list \<Rightarrow> string \<Rightarrow> int \<Rightarrow> rat \<Rightarrow> ('w, model_response) cmd" where
  "openai_complete cfg sdk ms model max_tokens temperature =
     bindC (timed sdk (sdk_openai sdk
       \<lparr>oc_api_key = or_none (gs_openai_api_key cfg), oc_model = model, oc_messages = map wire_message ms,
        oc_max_tokens = max_tokens, oc_temperature = temperature\<rparr>)) (\<lambda>(resp, latency_ms).
     bindC (liftC (first_choice (oy_choices resp))) (\<lambda>text.
     liftC (model_response_of ''openai'' text model
       (token_field (oy_prompt_tokens resp)) (token_field (oy_completion_tokens resp)) latency_ms)))"

text \<open>\<open>m.role.upper()\<close>.\<close>

fun role_upper :: "role \<Rightarrow> string" where
  "role_upper SYSTEM = ''SYSTEM''"
| "role_upper USER = ''USER''"
| "role_upper ASSISTANT = ''ASSISTANT''"

definition google_prompt :: "message list \<Rightarrow> string" where
  "google_prompt ms =
     (let system = system_text ms;
          history = str_join ''\<newline>\<newline>'' (map (\<lambda>m. role_upper (msg_role m) @ '': '' @ msg_content m)
                      (filter (\<lambda>m. msg_role m \<noteq> SYSTEM) ms)) in
      if system \<noteq> [] then system @ ''\<newline>\<newline>'' @ history else history)"

definition google_complete ::
  "gateway_settings \<Rightarrow> 'w sdk \<Rightarrow> message list \<Rightarrow> string \<Rightarrow> int \<Rightarrow> rat \<Rightarrow> ('w, model_response) cmd" where
  "google_complete cfg sdk ms model max_tokens temperature =
     bindC (timed sdk (sdk_google sdk
       \<lparr>gc_api_key = or_none (gs_google_api_key cfg), gc_model = model, gc_prompt = google_prompt ms,
        gc_max_tokens = max_tokens, gc_temperature = temperature\<rparr>)) (\<lambda>(resp, latency_ms).
     bindC (liftC (gy_text resp)) (\<lambda>text.
     liftC (model_response_of ''google'' (case text of None \<Rightarrow> [] | Some t \<Rightarrow> t) model
       (token_field (gy_prompt_tokens resp)) (token_field (gy_candidates_tokens resp)) latency_ms)))"

text \<open>\<open>v[0]\<close>.\<close>

fun py_first :: "pyval \<Rightarrow> pyval res" where
  "py_first (PyList (x # xs)) = Inr x"
| "py_first (PyList []) = Inl (LookupError ''list index out of range'')"
| "py_first (PyStr (c # cs)) = Inr (PyStr [c])"
| "py_first (PyStr []) = Inl (LookupError ''string index out of range'')"
| "py_first (PyDict d) = Inl (KeyError ''0'')"
| "py_first v = Inl (TypeError (py_type v @ '' object is not subscriptable''))"

definition as_text :: "pyval \<Rightarrow> string res" where
  "as_text v = (case v of PyStr s \<Rightarrow> Inr s | _ \<Rightarrow> Inl (ValueError ''Input should be a valid string''))"

definition local_body :: "message list \<Rightarrow> string \<Rightarrow> int \<Rightarrow> rat \<Rightarrow> string \<Rightarrow> pyval" where
  "local_body ms model max_tokens temperature temperature_repr = PyDict
     [(''model'', PyStr model),
      (''messages'', PyList (map (\<lambda>m. PyDict [(''role'', PyStr (role_value (msg_role m))), (''content'', PyStr (msg_content m))]) ms)),
      (''max_tokens'', PyInt max_tokens), (''temperature'', PyFloat (Some temperature) temperature_repr)]"

definition local_content :: "pyval \<Rightarrow> pyval res" where
  "local_content data =
     bindE (py_index data ''choices'') (\<lambda>choices. bindE (py_first choices) (\<lambda>c.
     bindE (py_index c ''message'') (\<lambda>m. py_index m ''content'')))"

definition local_usage :: "pyval \<Rightarrow> pyval res" where
  "local_usage data = bindE (py_get data ''usage'' PyNone) (\<lambda>u. Inr (py_or u (PyDict [])))"

definition local_tokens :: "pyval \<Rightarrow> string \<Rightarrow> int res" where
  "local_tokens usage key = bindE (py_get usage key (PyInt 0)) py_int"

definition local_response :: "string \<Rightarrow> pyval \<Rightarrow> int \<Rightarrow> model_response res" where
  "local_response model data latency_ms =
     bindE (local_content data) (\<lambda>text.
     bindE (local_usage data) (\<lambda>usage.
     bindE (local_tokens usage ''prompt_tokens'') (\<lambda>i.
     bindE (local_tokens usage ''completion_tokens'') (\<lambda>ot.
     bindE (as_text text) (\<lambda>content.
     model_response_of ''local'' content model (Inr i) (Inr ot) latency_ms)))))"

text \<open>\<open>float_repr\<close> is Python's \<open>repr\<close> of a float, which the JSON body shows.\<close>

definition local_complete ::
  "gateway_settings \<Rightarrow> 'w sdk \<Rightarrow> (rat \<Rightarrow> string) \<Rightarrow> message list \<Rightarrow> string \<Rightarrow> int \<Rightarrow> rat \<Rightarrow> ('w, model_response) cmd" where
  "local_complete cfg sdk float_repr ms model max_tokens temperature =
     bindC (timed sdk (sdk_local_post sdk
              (rstrip (\<lambda>c. c = CHR ''/'') (gs_local_endpoint cfg) @ ''/v1/chat/completions'')
              (local_body ms model max_tokens temperature (float_repr temperature)))) (\<lambda>(data, latency_ms).
     liftC (local_response model data latency_ms))"

section \<open>The registry\<close>

datatype provider = AnthropicProvider | OpenAIProvider | GoogleProvider | LocalProvider

fun provider_name :: "provider \<Rightarrow> string" where
  "provider_name AnthropicProvider = ''anthropic''"
| "provider_name OpenAIProvider = ''openai''"
| "provider_name GoogleProvider = ''google''"
| "provider_name LocalProvider = ''local''"

type_synonym registry = "(string \<times> provider) list"

definition register :: "provider \<Rightarrow> registry \<Rightarrow> registry" where
  "register p reg = AList.update (provider_name p) p reg"

definition builtin_provider :: "string \<Rightarrow> provider option" where
  "builtin_provider name =
     (if name = ''anthropic'' then Some AnthropicProvider
      else if name = ''openai'' then Some OpenAIProvider
      else if name = ''google'' then Some GoogleProvider
      else if name = ''local'' then Some LocalProvider
      else None)"

definition get_provider :: "string \<Rightarrow> (registry, provider) cmd" where
  "get_provider name reg =
     (case map_of reg name of
        Some p \<Rightarrow> (Inr p, reg)
      | None \<Rightarrow>
          (case builtin_provider name of
             None \<Rightarrow> (Inl (KeyError (''unknown provider: '' @ name)), reg)
           | Some p \<Rightarrow> (Inr p, register p reg)))"

fun provider_complete ::
  "gateway_settings \<Rightarrow> 'w sdk \<Rightarrow> (rat \<Rightarrow> string) \<Rightarrow> provider \<Rightarrow> message list \<Rightarrow> string \<Rightarrow> int \<Rightarrow> rat \<Rightarrow>
   ('w, model_response) cmd" where
  "provider_complete cfg sdk fr AnthropicProvider = anthropic_complete cfg sdk"
| "provider_complete cfg sdk fr OpenAIProvider = openai_complete cfg sdk"
| "provider_complete cfg sdk fr GoogleProvider = google_complete cfg sdk"
| "provider_complete cfg sdk fr LocalProvider = local_complete cfg sdk fr"

section \<open>The provider protocol\<close>

text \<open>
  What the gateway relies on: a response carries the provider's name and the model that was asked
  for, and nothing of the validation that the gateway adds.
\<close>

locale provider_adapter =
  fixes name :: string
    and complete :: "message list \<Rightarrow> string \<Rightarrow> int \<Rightarrow> rat \<Rightarrow> ('w, model_response) cmd"
  assumes labelled: "complete ms model mt temp w = (Inr resp, w') \<Longrightarrow> mr_provider resp = name \<and> mr_model resp = model"
    and unvalidated: "complete ms model mt temp w = (Inr resp, w') \<Longrightarrow>
      mr_parsed resp = PyNone \<and> mr_schema_valid resp = None \<and> mr_schema_errors resp = []"

lemma model_response_of_fields:
  "model_response_of name content model i ot ms = Inr resp \<Longrightarrow>
     mr_provider resp = name \<and> mr_model resp = model \<and> mr_parsed resp = PyNone \<and> mr_schema_valid resp = None \<and>
     mr_schema_errors resp = [] \<and> mr_content resp = content"
  by (auto simp: model_response_of_def)

interpretation adapter: provider_adapter "provider_name p" "provider_complete cfg sdk fr p" for p cfg sdk fr
proof
  fix ms model mt temp w resp w'
  assume "provider_complete cfg sdk fr p ms model mt temp w = (Inr resp, w')"
  then have "mr_provider resp = provider_name p \<and> mr_model resp = model \<and>
      mr_parsed resp = PyNone \<and> mr_schema_valid resp = None \<and> mr_schema_errors resp = []"
    by (cases p) (auto simp: anthropic_complete_def openai_complete_def google_complete_def local_complete_def
        local_response_def elim!: bindC_cases dest!: model_response_of_fields)
  then show "mr_provider resp = provider_name p \<and> mr_model resp = model"
    and "mr_parsed resp = PyNone \<and> mr_schema_valid resp = None \<and> mr_schema_errors resp = []" by auto
qed

text \<open>The registry maps a name to the provider of that name.\<close>

definition registry_sound :: "registry \<Rightarrow> bool" where
  "registry_sound reg \<longleftrightarrow> (\<forall>n p. map_of reg n = Some p \<longrightarrow> provider_name p = n)"

lemma builtin_provider_name: "builtin_provider n = Some p \<Longrightarrow> provider_name p = n"
  by (auto simp: builtin_provider_def split: if_splits)

lemma get_provider_sound:
  assumes "registry_sound reg" and "get_provider n reg = (r, reg')"
  shows "registry_sound reg' \<and> (\<forall>p. r = Inr p \<longrightarrow> provider_name p = n)"
  using assms
  by (auto simp: get_provider_def registry_sound_def register_def update_conv' builtin_provider_name
      split: option.splits if_splits)

lemma registry_sound_empty [simp]: "registry_sound []"
  by (simp add: registry_sound_def)

end
