(* ===== verification/Validator.thy ===== *)
theory Validator
  imports Registry
begin

text \<open>
  \<open>auditcore_gateway/validator.py\<close>: JSON is taken out of a model's text (as it is, from a markdown
  fence, or the first balanced block), and checked against a schema. \<open>jload\<close> is \<open>json.loads\<close>, with
  \<open>Inl\<close> where it raises a \<open>JSONDecodeError\<close>; \<open>iter_errors\<close> is the jsonschema validator.
\<close>

section \<open>extract_json\<close>

text \<open>
  The pattern \<open>```(?:json)?\s*(\{.*?\}|\[.*?\])\s*```\<close> with DOTALL. After the fence the white space is
  followed by an opening bracket, and the group ends at the first closing bracket that is followed
  by white space and a fence. No backtracking into \<open>(?:json)?\<close> or \<open>\s*\<close> can help: what follows
  them is neither a letter nor white space.
\<close>

definition fence :: string where
  "fence = ''```''"

fun until_close :: "char \<Rightarrow> string \<Rightarrow> string option" where
  "until_close cl [] = None"
| "until_close cl (c # cs) =
     (if c = cl \<and> prefix fence (dropWhile py_space cs) then Some [c]
      else map_option (\<lambda>t. c # t) (until_close cl cs))"

definition closer_of :: "char \<Rightarrow> char option" where
  "closer_of c = (if c = CHR ''{'' then Some CHR ''}'' else if c = CHR ''['' then Some CHR '']'' else None)"

definition fence_at :: "string \<Rightarrow> string option" where
  "fence_at s =
     (if prefix fence s then
        let t = drop 3 s; u = (if prefix ''json'' t then drop 4 t else t) in
        (case dropWhile py_space u of
           [] \<Rightarrow> None
         | c # cs \<Rightarrow>
             (case closer_of c of
                None \<Rightarrow> None
              | Some cl \<Rightarrow> map_option (\<lambda>t. c # t) (until_close cl cs)))
      else None)"

fun fence_search :: "string \<Rightarrow> string option" where
  "fence_search [] = fence_at []"
| "fence_search (c # cs) = (case fence_at (c # cs) of Some g \<Rightarrow> Some g | None \<Rightarrow> fence_search cs)"

text \<open>The scan for a balanced block, from its opening bracket; brackets inside strings count too.\<close>

fun balanced :: "char \<Rightarrow> char \<Rightarrow> nat \<Rightarrow> string \<Rightarrow> string option" where
  "balanced op cl depth [] = None"
| "balanced op cl depth (c # cs) =
     (if c = op then map_option (\<lambda>t. c # t) (balanced op cl (Suc depth) cs)
      else if c = cl then
        (if depth = 1 then Some [c] else map_option (\<lambda>t. c # t) (balanced op cl (depth - 1) cs))
      else map_option (\<lambda>t. c # t) (balanced op cl depth cs))"

fun first_block :: "json_decoder \<Rightarrow> string \<Rightarrow> (char \<times> char) list \<Rightarrow> pyval" where
  "first_block jload text [] = PyNone"
| "first_block jload text ((op, cl) # pairs) =
     (case balanced op cl 0 (dropWhile (\<lambda>c. c \<noteq> op) text) of
        None \<Rightarrow> first_block jload text pairs
      | Some block \<Rightarrow>
          (case jload block of Inr v \<Rightarrow> v | Inl m \<Rightarrow> first_block jload text pairs))"

definition bracket_pairs :: "(char \<times> char) list" where
  "bracket_pairs = [(CHR ''{'', CHR ''}''), (CHR ''['', CHR '']'')]"

definition extract_json :: "json_decoder \<Rightarrow> string \<Rightarrow> pyval" where
  "extract_json jload text =
     (let t = strip py_space text in
      if t = [] then PyNone
      else case jload t of
        Inr v \<Rightarrow> v
      | Inl m \<Rightarrow>
          (case fence_search t of
             Some g \<Rightarrow> (case jload g of Inr v \<Rightarrow> v | Inl m \<Rightarrow> PyNone)
           | None \<Rightarrow> first_block jload t bracket_pairs))"

section \<open>validate\<close>

text \<open>
  The path of a schema violation: keys of objects and positions in arrays. Errors are sorted by
  path; paths with the same beginning lead into the same container, so a key is never compared with
  a position, and their mutual order below is immaterial.
\<close>

datatype path_elem = PIndex nat | PKey string

instantiation path_elem :: linorder
begin

fun less_eq_path_elem :: "path_elem \<Rightarrow> path_elem \<Rightarrow> bool" where
  "PIndex i \<le> PIndex j = (i \<le> j)"
| "PIndex i \<le> PKey k = True"
| "PKey k \<le> PIndex i = False"
| "PKey k \<le> PKey k' = (k \<le> k')"

definition less_path_elem :: "path_elem \<Rightarrow> path_elem \<Rightarrow> bool" where
  "less_path_elem x y = (x \<le> y \<and> \<not> y \<le> x)"

instance
proof
  fix x y z :: path_elem
  show "x < y \<longleftrightarrow> x \<le> y \<and> \<not> y \<le> x" by (simp add: less_path_elem_def)
  show "x \<le> x" by (cases x) auto
  show "x \<le> z" if "x \<le> y" "y \<le> z" using that by (cases x; cases y; cases z) auto
  show "x = y" if "x \<le> y" "y \<le> x" using that by (cases x; cases y) auto
  show "x \<le> y \<or> y \<le> x" by (cases x; cases y) auto
qed

end

record schema_violation =
  sv_path :: "path_elem list"
  sv_message :: string

type_synonym schema_checker = "pydict \<Rightarrow> pyval \<Rightarrow> schema_violation list res"

fun path_elem_str :: "path_elem \<Rightarrow> string" where
  "path_elem_str (PIndex i) = nat_str i"
| "path_elem_str (PKey k) = k"

definition violation_str :: "schema_violation \<Rightarrow> string" where
  "violation_str e =
     (let p = str_join ''/'' (map path_elem_str (sv_path e)) in
      (if p = [] then ''<root>'' else p) @ '': '' @ sv_message e)"

definition validate :: "schema_checker \<Rightarrow> pyval \<Rightarrow> pydict \<Rightarrow> string list res" where
  "validate iter_errors parsed schema =
     bindE (iter_errors schema parsed) (\<lambda>errs. Inr (map violation_str (sort_key sv_path errs)))"

lemma validate_empty: "validate iter_errors v schema = Inr [] \<longleftrightarrow> iter_errors schema v = Inr []"
  by (auto simp: validate_def bindE_eq_Inr) (metis length_0_conv length_sort)

section \<open>Lemmas on the extraction\<close>

lemma until_close_prefix: "until_close cl s = Some t \<Longrightarrow> prefix t s"
  by (induction s arbitrary: t) (auto split: if_splits)

lemma fence_at_sublist: "fence_at s = Some g \<Longrightarrow> sublist g s"
proof -
  assume "fence_at s = Some g"
  then obtain u c cs cl t where u: "suffix u s" and d: "dropWhile py_space u = c # cs"
    and t: "until_close cl cs = Some t" and g: "g = c # t"
    by (auto simp: fence_at_def Let_def suffix_drop split: if_splits list.splits option.splits)
      (metis suffix_drop suffix_order.order_trans)+
  from d have "suffix (c # cs) u" using suffix_dropWhile [of py_space u] by simp
  with u have "suffix (c # cs) s" by (rule suffix_order.order_trans [rotated])
  moreover from until_close_prefix [OF t] have "prefix g (c # cs)" by (simp add: g)
  ultimately show ?thesis unfolding sublist_altdef' by blast
qed

lemma fence_search_sublist: "fence_search s = Some g \<Longrightarrow> sublist g s"
proof (induction s)
  case Nil
  then show ?case using fence_at_sublist [of "[]" g] by simp
next
  case (Cons c cs)
  then show ?case using fence_at_sublist [of "c # cs" g]
    by (auto split: option.splits simp: sublist_Cons_right)
qed

lemma balanced_prefix: "balanced op cl d s = Some t \<Longrightarrow> prefix t s"
  by (induction s arbitrary: d t) (auto split: if_splits)

lemma first_block_sublist:
  "first_block jload text pairs = v \<Longrightarrow> v = PyNone \<or> (\<exists>t. sublist t text \<and> jload t = Inr v)"
proof (induction pairs)
  case Nil
  then show ?case by simp
next
  case (Cons pr pairs)
  obtain op cl where p: "pr = (op, cl)" by (cases pr)
  show ?case
  proof (cases "balanced op cl 0 (dropWhile (\<lambda>c. c \<noteq> op) text)")
    case None
    with Cons p show ?thesis by simp
  next
    case (Some t)
    have "sublist t text"
      using balanced_prefix [OF Some] suffix_dropWhile [of "\<lambda>c. c \<noteq> op" "text"] unfolding sublist_altdef' by blast
    with Some Cons p show ?thesis by (cases "jload t") auto
  qed
qed

lemma strip_sublist: "sublist (strip p s) s"
proof -
  have "suffix (lstrip p s) s" by (simp add: lstrip_def suffix_dropWhile)
  moreover have "prefix (strip p s) (lstrip p s)"
    unfolding strip_def rstrip_def suffix_to_prefix [symmetric]
    using suffix_dropWhile [of p "rev (lstrip p s)"] by (simp add: suffix_to_prefix)
  ultimately show ?thesis unfolding sublist_altdef' by blast
qed

lemma strip_ends:
  assumes "s \<noteq> []" and "\<not> p (hd s)" and "\<not> p (last s)"
  shows "strip p s = s"
proof -
  from assms(1,2) have "lstrip p s = s" by (cases s) (simp_all add: lstrip_def)
  moreover from assms(1,3) have "dropWhile p (rev s) = rev s" by (cases s rule: rev_cases) simp_all
  ultimately show ?thesis by (simp add: strip_def rstrip_def)
qed

definition backtick :: char where
  "backtick = CHR 0x60"

lemma fence_backticks: "fence = [backtick, backtick, backtick]"
  by (simp add: fence_def backtick_def)

lemma fence_search_None: "backtick \<notin> set s \<Longrightarrow> fence_search s = None"
proof (induction s)
  case Nil
  show ?case by (simp add: fence_at_def fence_def)
next
  case (Cons c cs)
  then have "fence_at (c # cs) = None" by (simp add: fence_at_def fence_backticks)
  with Cons show ?case by simp
qed

lemma until_close_end:
  assumes "backtick \<notin> set inner" and "\<not> py_space cl" and "cl \<noteq> backtick" and "list_all py_space ws"
  shows "until_close cl (inner @ [cl] @ ws @ fence) = Some (inner @ [cl])"
  using assms(1)
proof (induction inner)
  case Nil
  have "dropWhile py_space (ws @ fence) = fence"
    using assms(4) by (subst dropWhile_append2) (auto simp: list_all_iff fence_backticks backtick_def py_space_def)
  then show ?case by simp
next
  case (Cons c cs)
  have "\<not> prefix fence (dropWhile py_space (cs @ [cl] @ ws @ fence))"
  proof -
    have "dropWhile py_space (cs @ [cl] @ ws @ fence) = dropWhile py_space (cs @ [cl]) @ ws @ fence"
      using assms(2) dropWhile_append1 [of cl "cs @ [cl]" py_space "ws @ fence"] by simp
    moreover obtain x xs where "dropWhile py_space (cs @ [cl]) = x # xs"
      using assms(2) by (cases "dropWhile py_space (cs @ [cl])") (auto simp: dropWhile_eq_Nil_conv)
    moreover from this have "x \<in> set (cs @ [cl])" by (metis list.set_intros(1) set_dropWhileD)
    ultimately show ?thesis using Cons.prems assms(3) by (auto simp: fence_backticks)
  qed
  with Cons show ?case by simp
qed

text \<open>A block by bracket counts: every proper non-empty prefix leaves a bracket open.\<close>

definition closes_at_end :: "char \<Rightarrow> char \<Rightarrow> string \<Rightarrow> bool" where
  "closes_at_end op cl block \<longleftrightarrow>
     count_list block op = count_list block cl \<and>
     (\<forall>n. 0 < n \<and> n < length block \<longrightarrow> count_list (take n block) cl < count_list (take n block) op)"

lemma balanced_from:
  assumes "op \<noteq> cl" and "d + count_list block op = count_list block cl" and "block \<noteq> []"
    and "\<And>n. n < length block \<Longrightarrow> count_list (take n block) cl < d + count_list (take n block) op"
  shows "balanced op cl d (block @ post) = Some block"
  using assms(2-4)
proof (induction block arbitrary: d)
  case Nil
  then show ?case by simp
next
  case (Cons c cs)
  have d: "0 < d" using Cons.prems(3) [of 0] by simp
  have step: "balanced op cl d' (cs @ post) = Some cs"
    if "d' + count_list cs op = count_list cs cl" and "cs \<noteq> []"
      and "d' + count_list [c] cl = d + count_list [c] op" for d'
  proof (rule Cons.IH [OF that(1,2)])
    fix n
    assume "n < length cs"
    with Cons.prems(3) [of "Suc n"] that(3) show "count_list (take n cs) cl < d' + count_list (take n cs) op"
      by (auto split: if_splits)
  qed
  show ?case
  proof (cases "cs = []")
    case True
    with Cons.prems(1) d assms(1) show ?thesis by (auto split: if_splits)
  next
    case False
    with Cons.prems(3) [of 1] assms(1) have c: "c = cl \<Longrightarrow> d \<noteq> 1" by (cases cs) auto
    show ?thesis
      using Cons.prems(1) assms(1) False d c step [of "Suc d"] step [of "d - 1"] step [of d]
      by (auto split: if_splits)
  qed
qed

lemma balanced_block:
  assumes "op \<noteq> cl" and "closes_at_end op cl (op # rest)" and "rest \<noteq> []"
  shows "balanced op cl 0 (op # rest @ post) = Some (op # rest)"
proof -
  have "balanced op cl 1 (rest @ post) = Some rest"
  proof (rule balanced_from [OF assms(1) _ assms(3)])
    show "1 + count_list rest op = count_list rest cl"
      using assms(1,2) by (simp add: closes_at_end_def)
  next
    fix n
    assume "n < length rest"
    with assms(1,2) show "count_list (take n rest) cl < 1 + count_list (take n rest) op"
      by (auto simp: closes_at_end_def dest: spec [of _ "Suc n"])
  qed
  with assms(1) show ?thesis by simp
qed

section \<open>Properties\<close>

text \<open>
  Nothing is made up: a value that is extracted is the JSON decoding of a part of the model's
  text.
\<close>

lemma extract_json_sound:
  assumes "extract_json jload msg = v" and "v \<noteq> PyNone"
  shows "\<exists>t. sublist t msg \<and> jload t = Inr v"
proof -
  let ?t = "strip py_space msg"
  have "\<exists>t. sublist t ?t \<and> jload t = Inr v"
  proof (cases "jload ?t")
    case (Inr w)
    with assms show ?thesis by (intro exI [of _ ?t]) (auto simp: extract_json_def Let_def split: if_splits)
  next
    case (Inl m)
    show ?thesis
    proof (cases "fence_search ?t")
      case None
      with Inl assms show ?thesis
        using first_block_sublist [of jload ?t bracket_pairs v]
        by (auto simp: extract_json_def Let_def split: if_splits)
    next
      case (Some g)
      with Inl assms fence_search_sublist [OF Some] show ?thesis
        by (auto simp: extract_json_def Let_def split: if_splits sum.splits)
    qed
  qed
  with strip_sublist [of py_space msg] show ?thesis by (meson sublist_order.order_trans)
qed

definition sample_jload :: json_decoder where
  "sample_jload t = (if t = CHR 0x7B # ''1'' @ [CHR 0x7D] then Inr (PyInt 1) else Inl ''Expecting value'')"

lemma extract_json_sound_witness:
  "\<exists>t. sublist t (CHR 0x7B # ''1'' @ [CHR 0x7D]) \<and> sample_jload t = Inr (PyInt 1)"
  by (rule extract_json_sound [of sample_jload]) (code_simp, simp)

text \<open>
  JSON in a markdown fence is found: an object between \<open>```json\<close> and \<open>```\<close> that has no backtick
  inside is what is decoded, when the whole text is not JSON.
\<close>

lemma extract_json_fenced:
  assumes "jload (fence @ ''json\<newline>'' @ body @ ''\<newline>'' @ fence) = Inl m" and "jload body = Inr v"
    and "body = CHR 0x7B # inner @ [CHR 0x7D]" and "backtick \<notin> set body"
  shows "extract_json jload (fence @ ''json\<newline>'' @ body @ ''\<newline>'' @ fence) = v"
proof -
  let ?text = "fence @ ''json\<newline>'' @ body @ ''\<newline>'' @ fence"
  have strip: "strip py_space ?text = ?text"
    by (rule strip_ends) (simp_all add: fence_def py_space_def)
  have "until_close CHR 0x7D (inner @ [CHR 0x7D] @ ''\<newline>'' @ fence) = Some (inner @ [CHR 0x7D])"
    using assms(3,4) by (intro until_close_end) (simp_all add: py_space_def backtick_def)
  then have "fence_at ?text = Some body"
    by (simp add: fence_at_def assms(3) fence_def closer_of_def py_space_def Let_def)
  then have "fence_search ?text = Some body" by (simp add: fence_def)
  with assms(1,2) strip show ?thesis
    by (simp add: extract_json_def Let_def)
qed

lemma extract_json_fenced_witness:
  "extract_json sample_jload (fence @ ''json\<newline>'' @ (CHR 0x7B # ''1'' @ [CHR 0x7D]) @ ''\<newline>'' @ fence) = PyInt 1"
  by (rule extract_json_fenced [where m = "''Expecting value''" and inner = "''1''"])
    (simp_all add: sample_jload_def fence_def backtick_def)

text \<open>
  JSON in prose is found: without a fence, the first opening brace starts a block that ends
  where its braces balance, and this block is decoded.
\<close>

lemma extract_json_prose:
  assumes "jload (strip py_space (pre @ block @ post)) = Inl m" and "jload block = Inr v"
    and "backtick \<notin> set (pre @ block @ post)" and "CHR 0x7B \<notin> set pre"
    and "block = CHR 0x7B # rest" and "rest \<noteq> []" and "closes_at_end CHR 0x7B CHR 0x7D block"
    and "pre = [] \<or> \<not> py_space (hd pre)" and "post = [] \<or> \<not> py_space (last post)"
  shows "extract_json jload (pre @ block @ post) = v"
proof -
  let ?text = "pre @ block @ post"
  have "last block = CHR 0x7D"
  proof (rule ccontr)
    assume last: "last block \<noteq> CHR 0x7D"
    let ?n = "length block - 1"
    have b: "block = take ?n block @ [last block]"
      using assms(5) by (metis append_butlast_last_id butlast_conv_take list.distinct(1))
    from assms(6) assms(5) have n: "0 < ?n" "?n < length block" by (cases rest; simp)+
    with assms(7) have "count_list (take ?n block) CHR 0x7D < count_list (take ?n block) CHR 0x7B"
      by (simp add: closes_at_end_def)
    moreover have "count_list block CHR 0x7D = count_list (take ?n block) CHR 0x7D"
      using last arg_cong [OF b, of "\<lambda>xs. count_list xs CHR 0x7D"] by (simp add: count_list_append)
    moreover have "count_list (take ?n block) CHR 0x7B \<le> count_list block CHR 0x7B"
      using arg_cong [OF b, of "\<lambda>xs. count_list xs CHR 0x7B"] by (simp add: count_list_append)
    ultimately show False using assms(7) by (simp add: closes_at_end_def)
  qed
  then have strip: "strip py_space ?text = ?text"
    using assms(5,8,9) by (intro strip_ends) (auto simp: py_space_def hd_append last_append)
  have "dropWhile (\<lambda>c. c \<noteq> CHR 0x7B) ?text = block @ post"
    using assms(4,5) by (subst dropWhile_append2) auto
  moreover have "balanced CHR 0x7B CHR 0x7D 0 (block @ post) = Some block"
    using balanced_block [of "CHR 0x7B" "CHR 0x7D" rest post] assms(5,6,7) by simp
  ultimately have "first_block jload ?text bracket_pairs = v"
    using assms(2) by (simp add: bracket_pairs_def)
  with assms(1,3) strip assms(5) show ?thesis
    by (simp add: extract_json_def Let_def fence_search_None)
qed

lemma extract_json_prose_witness:
  "extract_json sample_jload (''Sure: '' @ (CHR 0x7B # ''1'' @ [CHR 0x7D]) @ '' done.'') = PyInt 1"
proof (rule extract_json_prose [where m = "''Expecting value''" and rest = "''1'' @ [CHR 0x7D]"])
  show "sample_jload (strip py_space (''Sure: '' @ (CHR 0x7B # ''1'' @ [CHR 0x7D]) @ '' done.'')) = Inl ''Expecting value''"
    by code_simp
  show "closes_at_end CHR 0x7B CHR 0x7D (CHR 0x7B # ''1'' @ [CHR 0x7D])"
    by (auto simp: closes_at_end_def less_Suc_eq numeral_eq_Suc)
qed (simp_all add: sample_jload_def backtick_def py_space_def)

end
