(* ===== verification/Cost.thy ===== *)
theory Cost
  imports Registry Py_Float
begin

text \<open>
  \<open>auditcore_gateway/cost.py\<close>: the price of a call from the token counts and the per-million rates of
  the pricing table, in Python's arithmetic: integers are unbounded, a float overflows to a value that
  is not finite, and an integer that has no float raises.
\<close>

text \<open>\<open>tokens * rate / 1_000_000\<close>: an integer rate multiplies exactly and the quotient of two integers
  raises on overflow; with a float rate the count is converted first, which raises if it is too large.\<close>

definition priced_int :: "int \<Rightarrow> pyfloat res" where
  "priced_int n =
     (case to_float (of_int n / 1000000) of
        None \<Rightarrow> Inl (OverflowError ''integer division result too large for a float'')
      | Some q \<Rightarrow> Inr (Some q))"

fun priced :: "int \<Rightarrow> pyval \<Rightarrow> pyfloat res" where
  "priced n (PyInt k) = priced_int (n * k)"
| "priced n (PyBool b) = priced_int (n * (if b then 1 else 0))"
| "priced n (PyFloat r _) =
     (case to_float (of_int n) of
        None \<Rightarrow> Inl (OverflowError ''int too large to convert to float'')
      | Some m \<Rightarrow> Inr (py_divide (py_mult (Some m) r) 1000000))"
| "priced n v = Inl (TypeError (''unsupported operand type for /: '' @ py_type v))"

definition zero_rate :: pyval where
  "zero_rate = PyFloat (Some 0) ''0.0''"

definition cost_usd :: "pyval \<Rightarrow> string \<Rightarrow> string \<Rightarrow> int \<Rightarrow> int \<Rightarrow> pyfloat res" where
  "cost_usd table provider model input_tokens output_tokens =
     bindE (py_get table provider (PyDict [])) (\<lambda>models.
     bindE (py_get models model PyNone) (\<lambda>rates.
     if \<not> py_truthy rates then Inr (Some 0)
     else
       bindE (py_get rates ''input_per_1m'' zero_rate) (\<lambda>ri.
       bindE (priced input_tokens ri) (\<lambda>ci.
       bindE (py_get rates ''output_per_1m'' zero_rate) (\<lambda>ro.
       bindE (priced output_tokens ro) (\<lambda>co.
       Inr (py_add ci co)))))))"

definition load_costs :: "fs \<Rightarrow> (string \<Rightarrow> pyval res) \<Rightarrow> path \<Rightarrow> pyval res" where
  "load_costs fs yaml p =
     (if \<not> path_exists fs p then Inr (PyDict [])
      else bindE (read_text fs p) (\<lambda>t. bindE (yaml t) (\<lambda>v. Inr (py_or v (PyDict [])))))"

section \<open>pricing.yaml\<close>

definition rates_yaml :: "rat \<Rightarrow> string \<Rightarrow> rat \<Rightarrow> string \<Rightarrow> pyval" where
  "rates_yaml i ri ot ro = PyDict [(''input_per_1m'', PyFloat (Some i) ri), (''output_per_1m'', PyFloat (Some ot) ro)]"

definition pricing_local :: pyval where
  "pricing_local = PyDict
     [(''llama-3.1-8b-instruct'', rates_yaml 0 ''0.0'' 0 ''0.0''),
      (''llama-3.1-70b-instruct'', rates_yaml 0 ''0.0'' 0 ''0.0''),
      (''deepseek-coder-33b'', rates_yaml 0 ''0.0'' 0 ''0.0'')]"

definition pricing_anthropic :: pyval where
  "pricing_anthropic = PyDict
     [(''claude-haiku-4-5-20251001'', rates_yaml 1 ''1.0'' 5 ''5.0''),
      (''claude-sonnet-4-6'', rates_yaml 3 ''3.0'' 15 ''15.0''),
      (''claude-opus-4-7'', rates_yaml 15 ''15.0'' 75 ''75.0'')]"

text \<open>The rates of openai and google, some of which are not dyadic: the floats nearest to them.\<close>

definition pricing_openai :: pyval where
  "pricing_openai = PyDict
     [(''gpt-4.1-mini'', rates_yaml (float_round (2 / 5)) ''0.4'' (float_round (8 / 5)) ''1.6''),
      (''gpt-5-mini'', rates_yaml (1 / 2) ''0.5'' 2 ''2.0''),
      (''gpt-5'', rates_yaml 5 ''5.0'' 20 ''20.0'')]"

definition pricing_google :: pyval where
  "pricing_google = PyDict
     [(''gemini-1.5-flash'', rates_yaml (float_round (3 / 20)) ''0.15'' (float_round (3 / 5)) ''0.6''),
      (''gemini-2.0-pro'', rates_yaml (5 / 2) ''2.5'' 10 ''10.0''),
      (''gemini-2.0-pro-1m'', rates_yaml (7 / 2) ''3.5'' 14 ''14.0'')]"

definition pricing_yaml :: pyval where
  "pricing_yaml = PyDict
     [(''anthropic'', pricing_anthropic), (''openai'', pricing_openai), (''google'', pricing_google),
      (''local'', pricing_local)]"

section \<open>Pricing is monotone\<close>

fun rate_ok :: "pyval \<Rightarrow> bool" where
  "rate_ok (PyInt k) = (0 \<le> k)"
| "rate_ok (PyFloat (Some r) _) = (0 \<le> r)"
| "rate_ok _ = False"

definition rates_ok :: "pyval \<Rightarrow> bool" where
  "rates_ok v = (case v of
     PyDict d \<Rightarrow> rate_ok (dict_get d ''input_per_1m'' zero_rate) \<and> rate_ok (dict_get d ''output_per_1m'' zero_rate)
   | _ \<Rightarrow> False)"

text \<open>No rate is above \<open>b\<close>.\<close>

fun rate_below :: "rat \<Rightarrow> pyval \<Rightarrow> bool" where
  "rate_below b (PyInt k) = (of_int k \<le> b)"
| "rate_below b (PyFloat (Some r) _) = (r \<le> b)"
| "rate_below b _ = False"

definition rates_below :: "rat \<Rightarrow> pyval \<Rightarrow> bool" where
  "rates_below b v = (case v of
     PyDict d \<Rightarrow> rate_below b (dict_get d ''input_per_1m'' zero_rate) \<and> rate_below b (dict_get d ''output_per_1m'' zero_rate)
   | _ \<Rightarrow> False)"

lemma priced_mono:
  assumes "rate_ok v" and "0 \<le> n" and "n \<le> n'" and "priced n' v = Inr (Some c')"
  obtains c where "priced n v = Inr (Some c)" and "0 \<le> c" and "c \<le> c'"
proof (cases v rule: rate_ok.cases)
  case (1 k)
  with assms(1-3) have "0 \<le> (of_int (n * k) :: rat) / 1000000" "(of_int (n * k) :: rat) / 1000000 \<le> of_int (n' * k) / 1000000"
    by (simp, intro divide_right_mono) (simp_all add: mult_right_mono)
  moreover from 1 assms(4) have "to_float (of_int (n' * k) / 1000000) = Some c'" by (simp add: priced_int_def split: option.splits)
  ultimately obtain c where "to_float (of_int (n * k) / 1000000) = Some c" "0 \<le> c" "c \<le> c'"
    by (metis to_float_mono)
  with 1 that show thesis by (simp add: priced_int_def)
next
  case (2 r rp)
  with assms(1) have r: "0 \<le> r" by simp
  from 2 assms(4) obtain m' p' where m': "to_float (of_int n') = Some m'" and p': "to_float (m' * r) = Some p'"
    and c': "to_float (p' / 1000000) = Some c'"
    by (auto simp: py_divide_def py_mult_def bind_eq_Some_conv split: option.splits)
  from assms(2,3) obtain m where m: "to_float (of_int n) = Some m" "0 \<le> m" "m \<le> m'"
    by (auto intro: to_float_mono [OF m', of "of_int n"])
  from r m(2,3) obtain p where p: "to_float (m * r) = Some p" "0 \<le> p" "p \<le> p'"
    by (auto intro: to_float_mono [OF p', of "m * r"] simp: mult_right_mono)
  from p(2,3) obtain c where c: "to_float (p / 1000000) = Some c" "0 \<le> c" "c \<le> c'"
    by (auto intro: to_float_mono [OF c', of "p / 1000000"] simp: divide_right_mono)
  from m(1) p(1) c 2 show thesis by (intro that [of c]) (simp_all add: py_divide_def py_mult_def)
qed (use assms(1) in auto)

lemma priced_raises: "rate_ok v \<Longrightarrow> priced n v = Inl e \<Longrightarrow> \<exists>m. e = OverflowError m"
  by (cases v rule: rate_ok.cases) (auto simp: priced_int_def split: option.splits)

lemma priced_bounded:
  assumes "rate_ok v" and "rate_below (2 ^ 900) v" and "0 \<le> n" and "n \<le> 2 ^ 63"
  obtains c where "priced n v = Inr (Some c)" and "0 \<le> c" and "c \<le> 2 ^ 963"
proof (cases v rule: rate_ok.cases)
  case (1 k)
  with assms(1,2) have k: "0 \<le> k" "(of_int k :: rat) \<le> 2 ^ 900" by simp_all
  from assms(4) have "(of_int n :: rat) \<le> 2 ^ 63" by (metis of_int_le_iff of_int_numeral of_int_power)
  with k assms(3) have "(of_int n :: rat) * of_int k \<le> 2 ^ 63 * 2 ^ 900" by (intro mult_mono) simp_all
  moreover from k assms(3) have pos: "0 \<le> (of_int n :: rat) * of_int k" by simp
  ultimately have "of_int (n * k) / 1000000 \<le> (2 ^ 963 :: rat)" by (simp add: power_add [symmetric])
  with pos obtain c where "to_float (of_int (n * k) / 1000000) = Some c" "0 \<le> c" "c \<le> 2 ^ 963"
    by (auto intro: to_float_bounded [of "of_int (n * k) / 1000000" 963])
  with 1 that show thesis by (simp add: priced_int_def)
next
  case (2 r rp)
  with assms(1,2) have r: "0 \<le> r" "r \<le> 2 ^ 900" by simp_all
  from assms(4) have "(of_int n :: rat) \<le> 2 ^ 63" by (metis of_int_le_iff of_int_numeral of_int_power)
  with assms(3) obtain m where m: "to_float (of_int n) = Some m" "0 \<le> m" "m \<le> 2 ^ 63"
    by (auto intro: to_float_bounded [of "of_int n" 63])
  with r have "m * r \<le> 2 ^ 63 * 2 ^ 900" by (intro mult_mono) simp_all
  with m r obtain p where p: "to_float (m * r) = Some p" "0 \<le> p" "p \<le> 2 ^ 963"
    by (auto intro: to_float_bounded [of "m * r" 963] simp: power_add [symmetric])
  then obtain c where c: "to_float (p / 1000000) = Some c" "0 \<le> c" "c \<le> 2 ^ 963"
    by (auto intro: to_float_bounded [of "p / 1000000" 963])
  from m(1) p(1) c 2 show thesis by (intro that [of c]) (simp_all add: py_divide_def py_mult_def)
qed (use assms(1) in auto)

lemma rates_okE:
  assumes "rates_ok rates"
  obtains d where "rates = PyDict d" and "rate_ok (dict_get d ''input_per_1m'' zero_rate)"
    and "rate_ok (dict_get d ''output_per_1m'' zero_rate)"
  using assms by (auto simp: rates_ok_def split: pyval.splits)

text \<open>The price from the two rates.\<close>

lemma cost_usd_rates:
  assumes "py_get table provider (PyDict []) = Inr models" and "py_get models model PyNone = Inr (PyDict d)" and "d \<noteq> []"
  shows "cost_usd table provider model i ot =
    bindE (priced i (dict_get d ''input_per_1m'' zero_rate)) (\<lambda>ci.
    bindE (priced ot (dict_get d ''output_per_1m'' zero_rate)) (\<lambda>co. Inr (py_add ci co)))"
  using assms by (simp add: cost_usd_def)

lemma cost_usd_mono_aux:
  assumes "py_get table provider (PyDict []) = Inr models" and "py_get models model PyNone = Inr rates"
    and "rates_ok rates" and "0 \<le> i" and "i \<le> i'" and "0 \<le> ot" and "ot \<le> ot'"
    and "cost_usd table provider model i' ot' = Inr (Some c')"
  shows "\<exists>c. cost_usd table provider model i ot = Inr (Some c) \<and> 0 \<le> c \<and> c \<le> c'"
proof -
  from assms(3) obtain d where d: "rates = PyDict d" and ok: "rate_ok (dict_get d ''input_per_1m'' zero_rate)"
    "rate_ok (dict_get d ''output_per_1m'' zero_rate)" by (rule rates_okE)
  show ?thesis
  proof (cases "d = []")
    case True
    with assms(1,2,8) d show ?thesis by (simp add: cost_usd_def)
  next
    case False
    note eq = cost_usd_rates [OF assms(1) assms(2) [unfolded d] False]
    from assms(8) obtain ci' co' where c': "priced i' (dict_get d ''input_per_1m'' zero_rate) = Inr (Some ci')"
      "priced ot' (dict_get d ''output_per_1m'' zero_rate) = Inr (Some co')" "to_float (ci' + co') = Some c'"
      by (auto simp: eq py_add_def bind_eq_Some_conv)
    obtain ci where ci: "priced i (dict_get d ''input_per_1m'' zero_rate) = Inr (Some ci)" "0 \<le> ci" "ci \<le> ci'"
      by (rule priced_mono [OF ok(1) assms(4,5) c'(1)])
    obtain co where co: "priced ot (dict_get d ''output_per_1m'' zero_rate) = Inr (Some co)" "0 \<le> co" "co \<le> co'"
      by (rule priced_mono [OF ok(2) assms(6,7) c'(2)])
    from ci co have "0 \<le> ci + co" "ci + co \<le> ci' + co'" by linarith+
    then obtain c where "to_float (ci + co) = Some c" "0 \<le> c" "c \<le> c'" by (rule to_float_mono [OF c'(3)])
    with ci(1) co(1) show ?thesis by (simp add: eq py_add_def)
  qed
qed

lemma cost_usd_raises:
  assumes "py_get table provider (PyDict []) = Inr models" and "py_get models model PyNone = Inr rates"
    and "rates_ok rates" and "cost_usd table provider model i ot = Inl e"
  shows "\<exists>m. e = OverflowError m"
proof -
  from assms(3) obtain d where d: "rates = PyDict d" and ok: "rate_ok (dict_get d ''input_per_1m'' zero_rate)"
    "rate_ok (dict_get d ''output_per_1m'' zero_rate)" by (rule rates_okE)
  have "d \<noteq> []" using assms(1,2,4) d by (auto simp: cost_usd_def)
  with assms(4) show ?thesis
    using priced_raises [OF ok(1)] priced_raises [OF ok(2)]
    by (auto simp: cost_usd_rates [OF assms(1) assms(2) [unfolded d]] bindE_eq_Inl)
qed

lemma cost_usd_bounded:
  assumes "py_get table provider (PyDict []) = Inr models" and "py_get models model PyNone = Inr rates"
    and "rates_ok rates" and "rates_below (2 ^ 900) rates" and "0 \<le> i" "i \<le> 2 ^ 63" and "0 \<le> ot" "ot \<le> 2 ^ 63"
  shows "\<exists>c. cost_usd table provider model i ot = Inr (Some c)"
proof -
  from assms(3) obtain d where d: "rates = PyDict d" and ok: "rate_ok (dict_get d ''input_per_1m'' zero_rate)"
    "rate_ok (dict_get d ''output_per_1m'' zero_rate)" by (rule rates_okE)
  from assms(4) d have below: "rate_below (2 ^ 900) (dict_get d ''input_per_1m'' zero_rate)"
    "rate_below (2 ^ 900) (dict_get d ''output_per_1m'' zero_rate)" by (simp_all add: rates_below_def)
  show ?thesis
  proof (cases "d = []")
    case True
    with assms(1,2) d show ?thesis by (simp add: cost_usd_def)
  next
    case False
    obtain ci where ci: "priced i (dict_get d ''input_per_1m'' zero_rate) = Inr (Some ci)" "0 \<le> ci" "ci \<le> 2 ^ 963"
      by (rule priced_bounded [OF ok(1) below(1) assms(5,6)])
    obtain co where co: "priced ot (dict_get d ''output_per_1m'' zero_rate) = Inr (Some co)" "0 \<le> co" "co \<le> 2 ^ 963"
      by (rule priced_bounded [OF ok(2) below(2) assms(7,8)])
    from ci(2,3) co(2,3) obtain c where "to_float (ci + co) = Some c"
      by (auto intro: to_float_bounded [of "ci + co" 964])
    with ci(1) co(1) show ?thesis by (simp add: cost_usd_rates [OF assms(1) assms(2) [unfolded d] False] py_add_def)
  qed
qed

section \<open>Properties\<close>

text \<open>
  C39. Costs are sound bounds for budgets: with non-negative rates a finite price is not negative and
  never falls when a call uses more tokens, rounding included, and whenever the larger call has a finite
  price so has the smaller; every price is finite for counts up to \<open>2 ^ 63\<close> and rates up to \<open>2 ^ 900\<close>;
  beyond that a price may overflow, and the only exception is Python's \<open>OverflowError\<close>.
\<close>

theorem cost_usd_monotone:
  assumes "py_get table provider (PyDict []) = Inr models" and "py_get models model PyNone = Inr rates"
    and "rates_ok rates" and "0 \<le> i" and "i \<le> i'" and "0 \<le> ot" and "ot \<le> ot'"
  shows "(\<forall>c'. cost_usd table provider model i' ot' = Inr (Some c') \<longrightarrow>
      (\<exists>c. cost_usd table provider model i ot = Inr (Some c) \<and> 0 \<le> c \<and> c \<le> c')) \<and>
    (i' \<le> 2 ^ 63 \<and> ot' \<le> 2 ^ 63 \<and> rates_below (2 ^ 900) rates \<longrightarrow>
      (\<exists>c'. cost_usd table provider model i' ot' = Inr (Some c'))) \<and>
    (\<forall>e. cost_usd table provider model i' ot' = Inl e \<longrightarrow> (\<exists>m. e = OverflowError m))"
  using cost_usd_mono_aux [OF assms] cost_usd_bounded [OF assms(1-3)] cost_usd_raises [OF assms(1-3)] assms(4-7)
  by (intro conjI allI impI) auto

theorem cost_usd_monotone_witness:
  "\<exists>c c'. cost_usd pricing_yaml ''anthropic'' ''claude-opus-4-7'' 10 20 = Inr (Some c) \<and>
     cost_usd pricing_yaml ''anthropic'' ''claude-opus-4-7'' 30 20 = Inr (Some c') \<and> 0 \<le> c \<and> c \<le> c'"
proof -
  let ?rates = "rates_yaml 15 ''15.0'' 75 ''75.0''"
  have rates: "rates_ok ?rates" "rates_below (2 ^ 900) ?rates" by (simp_all add: rates_yaml_def rates_ok_def rates_below_def)
  have table: "py_get pricing_yaml ''anthropic'' (PyDict []) = Inr pricing_anthropic"
    "py_get pricing_anthropic ''claude-opus-4-7'' PyNone = Inr ?rates"
    by (simp_all add: pricing_yaml_def pricing_anthropic_def)
  note t = cost_usd_monotone [OF table rates(1), of 10 30 20 20]
  from t rates(2) obtain c' where "cost_usd pricing_yaml ''anthropic'' ''claude-opus-4-7'' 30 20 = Inr (Some c')" by auto
  with t show ?thesis by auto
qed

text \<open>
  A model that the table does not price costs nothing, whatever the number of tokens.
\<close>

lemma cost_usd_unpriced:
  assumes "table = PyDict d" and "map_of d provider = None \<or> (\<exists>ms. map_of d provider = Some (PyDict ms) \<and> map_of ms model = None)"
  shows "cost_usd table provider model i ot = Inr (Some 0)"
  using assms
  by (auto simp: cost_usd_def dict_get_def)

lemma cost_usd_unpriced_witness:
  "cost_usd (PyDict [(''local'', pricing_local)]) ''openai'' ''gpt-5'' 1000 1000 = Inr (Some 0)"
  using cost_usd_unpriced [of "PyDict [(''local'', pricing_local)]" "[(''local'', pricing_local)]" "''openai''"
      "''gpt-5''" 1000 1000] by simp

end
