(* ===== verification/Gateway.thy ===== *)
theory Gateway
  imports Providers Validator Cost
begin

text \<open>
  \<open>auditcore_gateway/gateway.py\<close> and the endpoints of \<open>main.py\<close>: a request is routed, its tiers are
  tried in order until one answers (and, when escalation is on, answers in the schema), and every
  answer is priced. The state is the provider registry and the world of the SDKs.
\<close>

record 'w gateway_env =
  ge_table :: pyval
  ge_costs :: pyval
  ge_settings :: gateway_settings
  ge_sdk :: "'w sdk"
  ge_float_repr :: "rat \<Rightarrow> string"
  ge_jload :: json_decoder
  ge_checker :: schema_checker

type_synonym 'w gateway_world = "registry \<times> 'w"

text \<open>\<open>str(e)\<close>.\<close>

fun exn_str :: "exn \<Rightarrow> string" where
  "exn_str (KeyError m) = str_repr m"
| "exn_str (HTTPException code m) = nat_str code @ '': '' @ m"
| "exn_str (ValueError m) = m" | "exn_str (TypeError m) = m" | "exn_str (AttributeError m) = m"
| "exn_str (LookupError m) = m" | "exn_str (OverflowError m) = m" | "exn_str (RuntimeError m) = m"
| "exn_str (RoutingError m) = m" | "exn_str (BundleError m) = m" | "exn_str (AgentSpecError m) = m"
| "exn_str (OSError m) = m" | "exn_str (DbError m) = m" | "exn_str (S3Error m) = m" | "exn_str (OtherError m) = m"

section \<open>One attempt\<close>

definition call_provider ::
  "'w gateway_env \<Rightarrow> complete_request \<Rightarrow> string \<Rightarrow> string \<Rightarrow> ('w gateway_world, model_response) cmd" where
  "call_provider env req pname model =
     bindC (on_fst (get_provider pname)) (\<lambda>p.
     bindC (on_snd (timed (ge_sdk env)
              (provider_complete (ge_settings env) (ge_sdk env) (ge_float_repr env) p
                 (cq_messages req) model (cq_max_tokens req) (cq_temperature req)))) (\<lambda>(resp, latency_ms).
     bindC (liftC (cost_usd (ge_costs env) pname model (mr_input_tokens resp) (mr_output_tokens resp))) (\<lambda>c.
     returnC (resp\<lparr>mr_latency_ms := latency_ms, mr_cost_usd := c\<rparr>))))"

definition attach_validation ::
  "'w gateway_env \<Rightarrow> model_response \<Rightarrow> pydict \<Rightarrow> model_response res" where
  "attach_validation env resp schema =
     (let parsed = extract_json (ge_jload env) (mr_content resp) in
      if parsed = PyNone
      then Inr (resp\<lparr>mr_schema_valid := Some False, mr_schema_errors := [''model output was not valid JSON'']\<rparr>)
      else bindE (validate (ge_checker env) parsed schema) (\<lambda>errors.
        Inr (resp\<lparr>mr_parsed := (if errors = [] then parsed else PyNone),
                  mr_schema_valid := Some (errors = []), mr_schema_errors := errors\<rparr>)))"

text \<open>The schema a request asks for: an empty one counts as none.\<close>

definition wanted_schema :: "complete_request \<Rightarrow> pydict option" where
  "wanted_schema req = (case cq_output_schema req of None \<Rightarrow> None | Some s \<Rightarrow> if s = [] then None else Some s)"

definition attempt ::
  "'w gateway_env \<Rightarrow> complete_request \<Rightarrow> string \<Rightarrow> target \<Rightarrow> ('w gateway_world, model_response) cmd" where
  "attempt env req tier_name t =
     bindC (call_provider env req (fst t) (snd t)) (\<lambda>r.
     let resp = r\<lparr>mr_tier_used := tier_name\<rparr> in
     (case wanted_schema req of
        None \<Rightarrow> returnC resp
      | Some schema \<Rightarrow> liftC (attach_validation env resp schema)))"

definition escalates :: "bool \<Rightarrow> complete_request \<Rightarrow> model_response \<Rightarrow> bool" where
  "escalates escalate req resp \<longleftrightarrow> escalate \<and> wanted_schema req \<noteq> None \<and> mr_schema_valid resp = Some False"

section \<open>complete\<close>

definition exhausted :: "complete_request \<Rightarrow> exn option \<Rightarrow> exn" where
  "exhausted req last_err =
     RuntimeError (''all routing tiers exhausted for task_kind='' @ task_kind_text (cq_task_kind req) @ '': '' @
       (case last_err of None \<Rightarrow> ''None'' | Some e \<Rightarrow> exn_str e))"

text \<open>The loop over the tiers; \<open>except Exception\<close> catches whatever an attempt raises.\<close>

fun try_tiers ::
  "'w gateway_env \<Rightarrow> complete_request \<Rightarrow> bool \<Rightarrow> exn option \<Rightarrow> (string \<times> target) list \<Rightarrow>
   ('w gateway_world, model_response) cmd" where
  "try_tiers env req escalate last_err [] w = (Inl (exhausted req last_err), w)"
| "try_tiers env req escalate last_err ((tier_name, t) # rest) w =
     (case attempt env req tier_name t w of
        (Inl e, w') \<Rightarrow> try_tiers env req escalate (Some e) rest w'
      | (Inr resp, w') \<Rightarrow>
          if escalates escalate req resp
          then try_tiers env req escalate (Some (RuntimeError ''schema validation failed'')) rest w'
          else (Inr resp, w'))"

definition escalation :: "pyval \<Rightarrow> bool res" where
  "escalation table =
     bindE (fallback_settings table) (\<lambda>f.
     bindE (py_get f ''escalate_on_schema_failure'' (PyBool False)) (\<lambda>v. Inr (py_truthy v)))"

definition gateway_complete :: "'w gateway_env \<Rightarrow> complete_request \<Rightarrow> ('w gateway_world, model_response) cmd" where
  "gateway_complete env req =
     bindC (liftC (resolve (ge_table env) (cq_task_kind req) (cq_budget_hint req) (cq_privacy req))) (\<lambda>route.
     bindC (liftC (escalation (ge_table env))) (\<lambda>escalate.
     try_tiers env req escalate None (attempts route)))"

section \<open>The endpoints\<close>

text \<open>\<open>POST /v1/complete\<close>.\<close>

definition complete_endpoint :: "'w gateway_env \<Rightarrow> complete_request \<Rightarrow> ('w gateway_world, model_response) cmd" where
  "complete_endpoint env req w =
     (case gateway_complete env req w of
        (Inl e, w') \<Rightarrow> (Inl (HTTPException 502 (exn_str e)), w')
      | (Inr resp, w') \<Rightarrow> (Inr resp, w'))"

definition target_json :: "target \<Rightarrow> pyval" where
  "target_json t = PyDict [(''provider'', PyStr (fst t)), (''model'', PyStr (snd t))]"

definition optional_target_json :: "target option \<Rightarrow> pyval" where
  "optional_target_json t = (case t of None \<Rightarrow> PyNone | Some x \<Rightarrow> target_json x)"

text \<open>\<open>POST /v1/resolve\<close>: budget and privacy are not checked against the literals here.\<close>

definition resolve_endpoint :: "'w gateway_env \<Rightarrow> task_kind \<Rightarrow> string \<Rightarrow> string \<Rightarrow> pyval res" where
  "resolve_endpoint env task_kind budget_hint privacy =
     bindE (resolve (ge_table env) task_kind budget_hint privacy) (\<lambda>d.
       Inr (PyDict
         [(''primary'', target_json (rd_primary d)), (''secondary'', optional_target_json (rd_secondary d)),
          (''tertiary'', optional_target_json (rd_tertiary d)), (''critic_loop'', PyBool (rd_critic_loop d))]))"

text \<open>\<open>lifespan\<close>: the two tables are read from disk, the pricing beside the routing.\<close>

definition load_gateway ::
  "fs \<Rightarrow> (string \<Rightarrow> pyval res) \<Rightarrow> path \<Rightarrow> gateway_settings \<Rightarrow> 'w sdk \<Rightarrow> (rat \<Rightarrow> string) \<Rightarrow> json_decoder \<Rightarrow>
   schema_checker \<Rightarrow> 'w gateway_env res" where
  "load_gateway fs yaml routing_config cfg sdk fr jload checker =
     bindE (read_text fs routing_config) (\<lambda>t.
     bindE (yaml t) (\<lambda>table.
     bindE (load_costs fs yaml (butlast routing_config @ [''pricing.yaml''])) (\<lambda>costs.
     Inr \<lparr>ge_table = table, ge_costs = costs, ge_settings = cfg, ge_sdk = sdk, ge_float_repr = fr,
          ge_jload = jload, ge_checker = checker\<rparr>)))"

section \<open>Failing through tiers\<close>

text \<open>
  The attempts of a list fail one after the other: each raises, or answers out of schema while
  escalation is on. The relation holds between the worlds before and after.
\<close>

inductive fails_through ::
  "'w gateway_env \<Rightarrow> complete_request \<Rightarrow> bool \<Rightarrow> (string \<times> target) list \<Rightarrow> 'w gateway_world \<Rightarrow> 'w gateway_world \<Rightarrow> bool"
  for env req escalate where
  none: "fails_through env req escalate [] w w"
| raised: "attempt env req tier t w = (Inl e, w1) \<Longrightarrow> fails_through env req escalate rest w1 w2 \<Longrightarrow>
    fails_through env req escalate ((tier, t) # rest) w w2"
| out_of_schema: "attempt env req tier t w = (Inr resp, w1) \<Longrightarrow> escalates escalate req resp \<Longrightarrow>
    fails_through env req escalate rest w1 w2 \<Longrightarrow> fails_through env req escalate ((tier, t) # rest) w w2"

inductive_simps fails_through_Nil: "fails_through env req escalate [] w w'"

inductive_cases fails_through_Cons: "fails_through env req escalate (a # rest) w w'"

lemma try_tiers_outcome:
  assumes "try_tiers env req escalate last_err ats w = (res, w')"
  shows "(\<exists>pre tier t post resp w1. ats = pre @ (tier, t) # post \<and> fails_through env req escalate pre w w1 \<and>
       attempt env req tier t w1 = (Inr resp, w') \<and> \<not> escalates escalate req resp \<and> res = Inr resp) \<or>
     (fails_through env req escalate ats w w' \<and> (\<exists>le. res = Inl (exhausted req le)))"
  using assms
proof (induction ats arbitrary: last_err w)
  case Nil
  then show ?case by (auto intro: fails_through.none)
next
  case (Cons a rest)
  obtain tier t where a: "a = (tier, t)" by (cases a)
  have later: ?case if f: "\<And>ws w2. fails_through env req escalate ws w1 w2 \<Longrightarrow> fails_through env req escalate ((tier, t) # ws) w w2"
    and r: "try_tiers env req escalate le rest w1 = (res, w')" for w1 le
    using Cons.IH [OF r]
  proof (elim disjE exE conjE)
    fix pre tier' t' post resp w2
    assume "rest = pre @ (tier', t') # post" and "fails_through env req escalate pre w1 w2"
      and "attempt env req tier' t' w2 = (Inr resp, w')" and "\<not> escalates escalate req resp" and "res = Inr resp"
    with f show ?thesis
      by (intro disjI1 exI [of _ "(tier, t) # pre"] exI [of _ tier'] exI [of _ t'] exI [of _ post] exI [of _ resp]
          exI [of _ w2]) (simp add: a)
  next
    fix le
    assume "fails_through env req escalate rest w1 w'" and "res = Inl (exhausted req le)"
    with f show ?thesis by (auto simp: a)
  qed
  obtain r w1 where at: "attempt env req tier t w = (r, w1)" by (cases "attempt env req tier t w")
  show ?case
  proof (cases r)
    case (Inl e)
    with at Cons.prems a show ?thesis
      by (intro later [of w1 "Some e"]) (auto intro: fails_through.raised)
  next
    case (Inr resp)
    show ?thesis
    proof (cases "escalates escalate req resp")
      case True
      with at Inr Cons.prems a show ?thesis
        by (intro later [of w1 "Some (RuntimeError ''schema validation failed'')"])
          (auto intro: fails_through.out_of_schema)
    next
      case False
      with at Inr Cons.prems a show ?thesis
        by (intro disjI1 exI [of _ "[]"] exI [of _ tier] exI [of _ t] exI [of _ rest] exI [of _ resp] exI [of _ w])
          (auto intro: fails_through.none)
    qed
  qed
qed

lemma gateway_complete_routed:
  assumes "resolve (ge_table env) (cq_task_kind req) (cq_budget_hint req) (cq_privacy req) = Inr route"
    and "escalation (ge_table env) = Inr escalate"
  shows "gateway_complete env req = try_tiers env req escalate None (attempts route)"
  by (rule ext) (simp add: gateway_complete_def assms)

lemma gateway_complete_returned:
  assumes "gateway_complete env req w = (Inr resp, w')"
  obtains route escalate where
    "resolve (ge_table env) (cq_task_kind req) (cq_budget_hint req) (cq_privacy req) = Inr route"
    and "escalation (ge_table env) = Inr escalate"
    and "try_tiers env req escalate None (attempts route) w = (Inr resp, w')"
  using assms unfolding gateway_complete_def by (auto elim!: bindC_cases)

section \<open>What an attempt guarantees\<close>

lemma timed_returned: "timed sdk m w = (Inr (x, ms), w') \<Longrightarrow> \<exists>w1 w2. m w1 = (Inr x, w2)"
  unfolding timed_def by (auto elim!: bindC_cases) blast

lemma call_provider_sound:
  assumes "registry_sound (fst w)" and "call_provider env req n m w = (r, w')"
  shows "registry_sound (fst w')"
  using assms get_provider_sound [OF assms(1)]
  by (auto simp: call_provider_def on_fst_eq on_snd_eq elim!: bindC_cases)

lemma call_provider_returned:
  assumes "registry_sound (fst w)" and "call_provider env req n m w = (Inr resp, w')"
  shows "mr_provider resp = n \<and> mr_model resp = m \<and> mr_schema_valid resp = None \<and> mr_parsed resp = PyNone \<and>
    mr_schema_errors resp = [] \<and>
    cost_usd (ge_costs env) n m (mr_input_tokens resp) (mr_output_tokens resp) = Inr (mr_cost_usd resp)"
proof -
  from assms(2) obtain p w1 resp0 ms w2 c where
    g: "get_provider n (fst w) = (Inr p, fst w1)"
    and t: "timed (ge_sdk env) (provider_complete (ge_settings env) (ge_sdk env) (ge_float_repr env) p
              (cq_messages req) m (cq_max_tokens req) (cq_temperature req)) (snd w1) = (Inr (resp0, ms), snd w2)"
    and c: "cost_usd (ge_costs env) n m (mr_input_tokens resp0) (mr_output_tokens resp0) = Inr c"
    and resp: "resp = resp0\<lparr>mr_latency_ms := ms, mr_cost_usd := c\<rparr>"
    by (auto simp: call_provider_def on_fst_eq on_snd_eq elim!: bindC_cases)
  from timed_returned [OF t] obtain u v where
    "provider_complete (ge_settings env) (ge_sdk env) (ge_float_repr env) p
       (cq_messages req) m (cq_max_tokens req) (cq_temperature req) u = (Inr resp0, v)" by blast
  from adapter.labelled [OF this] adapter.unvalidated [OF this] get_provider_sound [OF assms(1) g] c
  show ?thesis by (simp add: resp)
qed

lemma attach_validation_returned:
  assumes "attach_validation env r schema = Inr resp"
  shows "mr_provider resp = mr_provider r \<and> mr_model resp = mr_model r \<and> mr_tier_used resp = mr_tier_used r \<and>
    mr_input_tokens resp = mr_input_tokens r \<and> mr_output_tokens resp = mr_output_tokens r \<and>
    mr_cost_usd resp = mr_cost_usd r \<and> mr_content resp = mr_content r \<and> mr_schema_valid resp \<noteq> None \<and>
    (mr_schema_valid resp = Some True \<longrightarrow> mr_parsed resp \<noteq> PyNone \<and>
       mr_parsed resp = extract_json (ge_jload env) (mr_content r) \<and>
       ge_checker env schema (mr_parsed resp) = Inr [])"
  using assms
  by (auto simp: attach_validation_def Let_def validate_empty [symmetric] split: if_splits)

lemma attempt_sound:
  assumes "registry_sound (fst w)" and "attempt env req tier t w = (r, w')"
  shows "registry_sound (fst w')"
  using assms(2)
  by (auto simp: attempt_def Let_def elim!: bindC_cases split: option.splits
      dest!: call_provider_sound [OF assms(1)])

lemma attempt_returned:
  assumes "registry_sound (fst w)" and "attempt env req tier t w = (Inr resp, w')"
  shows "mr_tier_used resp = tier \<and> mr_provider resp = fst t \<and> mr_model resp = snd t \<and>
    cost_usd (ge_costs env) (fst t) (snd t) (mr_input_tokens resp) (mr_output_tokens resp) = Inr (mr_cost_usd resp)"
    and "wanted_schema req = Some schema \<Longrightarrow> mr_schema_valid resp \<noteq> None \<and>
      (mr_schema_valid resp = Some True \<longrightarrow> mr_parsed resp \<noteq> PyNone \<and>
        mr_parsed resp = extract_json (ge_jload env) (mr_content resp) \<and>
        ge_checker env schema (mr_parsed resp) = Inr [])"
proof -
  from assms(2) obtain r where call: "call_provider env req (fst t) (snd t) w = (Inr r, w')"
    and v: "case wanted_schema req of None \<Rightarrow> resp = r\<lparr>mr_tier_used := tier\<rparr>
            | Some schema \<Rightarrow> attach_validation env (r\<lparr>mr_tier_used := tier\<rparr>) schema = Inr resp"
    by (auto simp: attempt_def Let_def elim!: bindC_cases split: option.splits)
  note c = call_provider_returned [OF assms(1) call]
  show "mr_tier_used resp = tier \<and> mr_provider resp = fst t \<and> mr_model resp = snd t \<and>
    cost_usd (ge_costs env) (fst t) (snd t) (mr_input_tokens resp) (mr_output_tokens resp) = Inr (mr_cost_usd resp)"
  proof (cases "wanted_schema req")
    case None
    with v c show ?thesis by simp
  next
    case (Some schema)
    with v have "attach_validation env (r\<lparr>mr_tier_used := tier\<rparr>) schema = Inr resp" by simp
    from attach_validation_returned [OF this] c show ?thesis by simp
  qed
  assume "wanted_schema req = Some schema"
  with v have "attach_validation env (r\<lparr>mr_tier_used := tier\<rparr>) schema = Inr resp" by simp
  from attach_validation_returned [OF this] show "mr_schema_valid resp \<noteq> None \<and>
      (mr_schema_valid resp = Some True \<longrightarrow> mr_parsed resp \<noteq> PyNone \<and>
        mr_parsed resp = extract_json (ge_jload env) (mr_content resp) \<and>
        ge_checker env schema (mr_parsed resp) = Inr [])" by auto
qed

lemma fails_through_sound:
  "fails_through env req escalate ats w w' \<Longrightarrow> registry_sound (fst w) \<Longrightarrow> registry_sound (fst w')"
  by (induction rule: fails_through.induct) (auto dest: attempt_sound)

section \<open>Only the routed providers are called\<close>

text \<open>Two SDKs that cannot be told apart by calls of the named provider.\<close>

definition agree_on :: "'w sdk \<Rightarrow> 'w sdk \<Rightarrow> string \<Rightarrow> bool" where
  "agree_on s s' n \<longleftrightarrow> sdk_clock s = sdk_clock s' \<and>
     (n = ''anthropic'' \<longrightarrow> sdk_anthropic s = sdk_anthropic s') \<and> (n = ''openai'' \<longrightarrow> sdk_openai s = sdk_openai s') \<and>
     (n = ''google'' \<longrightarrow> sdk_google s = sdk_google s') \<and> (n = ''local'' \<longrightarrow> sdk_local_post s = sdk_local_post s')"

lemma provider_complete_agree:
  "agree_on s s' (provider_name p) \<Longrightarrow>
     timed s (provider_complete cfg s fr p ms m mt temp) = timed s' (provider_complete cfg s' fr p ms m mt temp)"
  by (cases p) (auto simp: agree_on_def timed_def perf_counter_def [abs_def] anthropic_complete_def openai_complete_def
      google_complete_def local_complete_def)

lemma bindC_cong_at:
  "m s = m' s \<Longrightarrow> (\<And>x t. m s = (Inr x, t) \<Longrightarrow> f x t = g x t) \<Longrightarrow> bindC m f s = bindC m' g s"
  by (auto simp: bindC_def split: prod.splits sum.splits)

lemma attempt_agree:
  assumes "registry_sound (fst w)" and "agree_on s s' (fst t)"
  shows "attempt (env\<lparr>ge_sdk := s\<rparr>) req tier t w = attempt (env\<lparr>ge_sdk := s'\<rparr>) req tier t w"
proof -
  have "call_provider (env\<lparr>ge_sdk := s\<rparr>) req (fst t) (snd t) w = call_provider (env\<lparr>ge_sdk := s'\<rparr>) req (fst t) (snd t) w"
    unfolding call_provider_def
  proof (rule bindC_cong_at)
    fix p w1
    assume "on_fst (get_provider (fst t)) w = (Inr p, w1)"
    with get_provider_sound [OF assms(1)] have "provider_name p = fst t" by (auto simp: on_fst_eq)
    with assms(2) have "agree_on s s' (provider_name p)" by simp
    from provider_complete_agree [OF this]
    show "bindC (on_snd (timed (ge_sdk (env\<lparr>ge_sdk := s\<rparr>))
            (provider_complete (ge_settings (env\<lparr>ge_sdk := s\<rparr>)) (ge_sdk (env\<lparr>ge_sdk := s\<rparr>))
               (ge_float_repr (env\<lparr>ge_sdk := s\<rparr>)) p (cq_messages req) (snd t) (cq_max_tokens req) (cq_temperature req))))
          (\<lambda>(resp, latency_ms). bindC (liftC (cost_usd (ge_costs (env\<lparr>ge_sdk := s\<rparr>)) (fst t) (snd t)
             (mr_input_tokens resp) (mr_output_tokens resp))) (\<lambda>c.
             returnC (resp\<lparr>mr_latency_ms := latency_ms, mr_cost_usd := c\<rparr>))) w1 =
        bindC (on_snd (timed (ge_sdk (env\<lparr>ge_sdk := s'\<rparr>))
            (provider_complete (ge_settings (env\<lparr>ge_sdk := s'\<rparr>)) (ge_sdk (env\<lparr>ge_sdk := s'\<rparr>))
               (ge_float_repr (env\<lparr>ge_sdk := s'\<rparr>)) p (cq_messages req) (snd t) (cq_max_tokens req) (cq_temperature req))))
          (\<lambda>(resp, latency_ms). bindC (liftC (cost_usd (ge_costs (env\<lparr>ge_sdk := s'\<rparr>)) (fst t) (snd t)
             (mr_input_tokens resp) (mr_output_tokens resp))) (\<lambda>c.
             returnC (resp\<lparr>mr_latency_ms := latency_ms, mr_cost_usd := c\<rparr>))) w1"
      by simp
  qed simp
  then show ?thesis
    unfolding attempt_def by (rule bindC_cong_at) (simp add: attach_validation_def Let_def split: option.split)
qed

lemma try_tiers_agree:
  assumes "registry_sound (fst w)" and "\<forall>a \<in> set ats. agree_on s s' (fst (snd a))"
  shows "try_tiers (env\<lparr>ge_sdk := s\<rparr>) req esc le ats w = try_tiers (env\<lparr>ge_sdk := s'\<rparr>) req esc le ats w"
  using assms
proof (induction ats arbitrary: le w)
  case Nil
  show ?case by simp
next
  case (Cons a rest)
  obtain tier t where a: "a = (tier, t)" by (cases a)
  obtain r w1 where at: "attempt (env\<lparr>ge_sdk := s'\<rparr>) req tier t w = (r, w1)"
    by (cases "attempt (env\<lparr>ge_sdk := s'\<rparr>) req tier t w")
  with Cons.prems a attempt_agree [of w s s' t env req tier]
  have at': "attempt (env\<lparr>ge_sdk := s\<rparr>) req tier t w = (r, w1)" by simp
  from attempt_sound [OF Cons.prems(1) at] have "registry_sound (fst w1)" .
  with Cons.IH Cons.prems(2) a at at' show ?case by (simp split: sum.split)
qed

lemma gateway_complete_agree:
  assumes "registry_sound (fst w)"
    and "\<And>route. resolve (ge_table env) (cq_task_kind req) (cq_budget_hint req) (cq_privacy req) = Inr route \<Longrightarrow>
      \<forall>n \<in> set (providers_of route). agree_on s s' n"
  shows "gateway_complete (env\<lparr>ge_sdk := s\<rparr>) req w = gateway_complete (env\<lparr>ge_sdk := s'\<rparr>) req w"
proof (cases "resolve (ge_table env) (cq_task_kind req) (cq_budget_hint req) (cq_privacy req)")
  case (Inl e)
  then show ?thesis by (simp add: gateway_complete_def bindC_def)
next
  case (Inr route)
  from assms(2) [OF Inr] have "\<forall>a \<in> set (attempts route). agree_on s s' (fst (snd a))" by (simp add: providers_of_def)
  from try_tiers_agree [OF assms(1) this] Inr show ?thesis
    by (cases "escalation (ge_table env)") (simp_all add: gateway_complete_def bindC_def)
qed

section \<open>Properties\<close>

text \<open>An installation whose local model answers and whose other providers fail, for the witnesses.\<close>

definition sample_content :: string where
  "sample_content = CHR 0x7B # ''1'' @ [CHR 0x7D]"

definition sample_sdk :: "unit sdk" where
  "sample_sdk =
     \<lparr>sdk_anthropic = (\<lambda>c. raiseC (OtherError ''down'')), sdk_openai = (\<lambda>c. raiseC (OtherError ''down'')),
      sdk_google = (\<lambda>c. raiseC (OtherError ''down'')),
      sdk_local_post = (\<lambda>url body. returnC (PyDict [(''choices'', PyList [PyDict [(''message'', PyDict
         [(''content'', PyStr sample_content)])]])])),
      sdk_clock = (\<lambda>w. (0, w))\<rparr>"

definition sample_env :: "unit gateway_env" where
  "sample_env =
     \<lparr>ge_table = routing_yaml, ge_costs = pricing_yaml,
      ge_settings = \<lparr>gs_anthropic_api_key = [], gs_openai_api_key = [], gs_google_api_key = [],
        gs_local_endpoint = ''http://localhost:11434''\<rparr>,
      ge_sdk = sample_sdk, ge_float_repr = (\<lambda>r. ''0.2''), ge_jload = sample_jload, ge_checker = (\<lambda>schema v. Inr [])\<rparr>"

definition sample_request :: "string \<Rightarrow> complete_request" where
  "sample_request privacy =
     \<lparr>cq_task_kind = CLASSIFY, cq_messages = [\<lparr>msg_role = USER, msg_content = ''hi''\<rparr>],
      cq_output_schema = Some [(''type'', PyStr ''integer'')], cq_tenant_id = ''t'', cq_budget_hint = ''low'',
      cq_privacy = privacy, cq_agent = ''a'', cq_max_tokens = 4096, cq_temperature = 1 / 5\<rparr>"

definition sample_response :: "string \<Rightarrow> model_response" where
  "sample_response tier =
     \<lparr>mr_content = sample_content, mr_parsed = PyInt 1, mr_provider = ''local'', mr_model = ''llama-3.1-8b-instruct'',
      mr_tier_used = tier, mr_input_tokens = 0, mr_output_tokens = 0, mr_cost_usd = Some 0, mr_latency_ms = 0,
      mr_schema_valid = Some True, mr_schema_errors = []\<rparr>"

lemma sample_attempt_local:
  "attempt sample_env (sample_request privacy) tier (''local'', ''llama-3.1-8b-instruct'') (reg, ()) =
     (Inr (sample_response tier), (if map_of reg ''local'' = None then register LocalProvider reg else reg, ()))"
  if "registry_sound reg" "map_of reg ''local'' = None \<or> map_of reg ''local'' = Some LocalProvider"
proof -
  have g: "get_provider ''local'' reg =
      (Inr LocalProvider, if map_of reg ''local'' = None then register LocalProvider reg else reg)"
    using that(2) by (auto simp: get_provider_def builtin_provider_def)
  have x: "extract_json sample_jload sample_content = PyInt 1" by code_simp
  show ?thesis
    by (simp add: attempt_def call_provider_def bindC_def on_fst_def on_snd_def g timed_def perf_counter_def
        sample_env_def sample_sdk_def local_complete_def local_response_def local_content_def local_usage_def
        local_tokens_def as_text_def model_response_of_def sample_request_def wanted_schema_def attach_validation_def
        x validate_def float_mult_def cost_usd_def pricing_yaml_def pricing_local_def rates_yaml_def py_divide_def
        py_mult_def py_add_def dict_get_def py_or_def sample_response_def Let_def rat_trunc_def)
qed

lemma sample_escalation: "escalation (ge_table sample_env) = Inr True"
  by (simp add: escalation_def fallback_settings_def sample_env_def routing_yaml_def dict_get_def)

lemma sample_route_sensitive:
  "resolve (ge_table sample_env) CLASSIFY ''low'' ''sensitive'' = Inr
     (decision (''anthropic'', ''claude-haiku-4-5-20251001'') (Some (''local'', ''llama-3.1-8b-instruct'')) None)"
  unfolding sample_env_def by code_simp

lemma sample_complete_sensitive:
  "gateway_complete sample_env (sample_request ''sensitive'') ([], ()) =
     (Inr (sample_response ''secondary''),
      (register LocalProvider (register AnthropicProvider []), ()))"
proof -
  let ?reg = "register AnthropicProvider []"
  have reg: "registry_sound ?reg" "map_of ?reg ''local'' = None"
    by (auto simp: registry_sound_def register_def)
  have a: "attempt sample_env (sample_request ''sensitive'') ''primary'' (''anthropic'', ''claude-haiku-4-5-20251001'') ([], ()) =
      (Inl (OtherError ''down''), (?reg, ()))"
    by (simp add: attempt_def call_provider_def bindC_def on_fst_def on_snd_def get_provider_def builtin_provider_def
        timed_def perf_counter_def sample_env_def sample_sdk_def anthropic_complete_def)
  have b: "attempt sample_env (sample_request ''sensitive'') ''secondary'' (''local'', ''llama-3.1-8b-instruct'') (?reg, ()) =
      (Inr (sample_response ''secondary''), (register LocalProvider ?reg, ()))"
    using sample_attempt_local [of ?reg "''sensitive''" "''secondary''"] reg by simp
  have req: "cq_task_kind (sample_request ''sensitive'') = CLASSIFY" "cq_budget_hint (sample_request ''sensitive'') = ''low''"
    "cq_privacy (sample_request ''sensitive'') = ''sensitive''"
    by (simp_all add: sample_request_def)
  show ?thesis
    by (simp add: gateway_complete_def req sample_route_sensitive sample_escalation attempts_def decision_def a b
        escalates_def sample_response_def)
qed

text \<open>
  C4. The first acceptable tier wins: a response comes from one of the routed tiers, is labelled
  with that tier, its provider and its model, is priced at that model's rates, and every tier
  before it was tried, in order, and failed; no later tier is called.
\<close>

theorem gateway_first_acceptable_tier:
  assumes "gateway_complete env req (reg, w) = (Inr resp, w')" and "registry_sound reg"
  shows "\<exists>route escalate pre tier t post w1.
    resolve (ge_table env) (cq_task_kind req) (cq_budget_hint req) (cq_privacy req) = Inr route \<and>
    escalation (ge_table env) = Inr escalate \<and>
    attempts route = pre @ (tier, t) # post \<and> fails_through env req escalate pre (reg, w) w1 \<and>
    attempt env req tier t w1 = (Inr resp, w') \<and> \<not> escalates escalate req resp \<and>
    mr_tier_used resp = tier \<and> mr_provider resp = fst t \<and> mr_model resp = snd t \<and>
    cost_usd (ge_costs env) (fst t) (snd t) (mr_input_tokens resp) (mr_output_tokens resp) = Inr (mr_cost_usd resp)"
proof -
  from assms(1) obtain route escalate where
    r: "resolve (ge_table env) (cq_task_kind req) (cq_budget_hint req) (cq_privacy req) = Inr route"
      "escalation (ge_table env) = Inr escalate"
    and t: "try_tiers env req escalate None (attempts route) (reg, w) = (Inr resp, w')"
    by (rule gateway_complete_returned)
  from try_tiers_outcome [OF t] obtain pre tier tg post w1 where
    p: "attempts route = pre @ (tier, tg) # post" "fails_through env req escalate pre (reg, w) w1"
      "attempt env req tier tg w1 = (Inr resp, w')" "\<not> escalates escalate req resp"
    by auto
  from fails_through_sound [OF p(2)] assms(2) have "registry_sound (fst w1)" by simp
  from attempt_returned(1) [OF this p(3)] r p show ?thesis by blast
qed

theorem gateway_first_acceptable_tier_witness:
  "mr_tier_used (sample_response ''secondary'') = ''secondary'' \<and>
   cost_usd pricing_yaml ''local'' ''llama-3.1-8b-instruct'' 0 0 = Inr (Some 0)"
proof -
  let ?r = "sample_response ''secondary''"
  from gateway_first_acceptable_tier [OF sample_complete_sensitive registry_sound_empty] obtain t where
    "mr_provider ?r = fst t" and "mr_model ?r = snd t" and
    "cost_usd (ge_costs sample_env) (fst t) (snd t) (mr_input_tokens ?r) (mr_output_tokens ?r) = Inr (mr_cost_usd ?r)"
    by (elim exE conjE) (rule that)
  then show ?thesis by (simp add: sample_response_def sample_env_def)
qed

text \<open>
  C5. Schema guarantee: when the table escalates on schema failures (the shipped one does) and the
  request has a schema, a response is only returned if its JSON was extracted from its content and
  the schema checker found no violation in it.
\<close>

theorem gateway_schema_guarantee:
  assumes "gateway_complete env req (reg, w) = (Inr resp, w')" and "registry_sound reg"
    and "escalation (ge_table env) = Inr True" and "cq_output_schema req = Some schema" and "schema \<noteq> []"
  shows "mr_schema_valid resp = Some True \<and> mr_parsed resp = extract_json (ge_jload env) (mr_content resp) \<and>
    mr_parsed resp \<noteq> PyNone \<and> ge_checker env schema (mr_parsed resp) = Inr []"
proof -
  from assms(4,5) have ws: "wanted_schema req = Some schema" by (simp add: wanted_schema_def)
  from assms(1) obtain route where
    t: "try_tiers env req True None (attempts route) (reg, w) = (Inr resp, w')"
    using assms(3) by (auto elim: gateway_complete_returned)
  from try_tiers_outcome [OF t] obtain pre tier tg w1 where
    p: "fails_through env req True pre (reg, w) w1" "attempt env req tier tg w1 = (Inr resp, w')"
      "\<not> escalates True req resp"
    by auto
  from fails_through_sound [OF p(1)] assms(2) have s: "registry_sound (fst w1)" by simp
  from attempt_returned(2) [OF s p(2) ws] p(3) ws show ?thesis
    by (cases "mr_schema_valid resp") (auto simp: escalates_def)
qed

theorem gateway_schema_guarantee_witness:
  "mr_schema_valid (sample_response ''secondary'') = Some True \<and>
   mr_parsed (sample_response ''secondary'') = extract_json sample_jload sample_content"
  using gateway_schema_guarantee [OF sample_complete_sensitive registry_sound_empty sample_escalation,
      of "[(''type'', PyStr ''integer'')]"]
  by (simp add: sample_request_def sample_env_def sample_response_def)

text \<open>
  C16. With the shipped table a well-formed request always ends: in a response, or in one HTTP 502
  that reports exhausted tiers, and then every tier of the route was tried in order and failed.
\<close>

theorem complete_endpoint_total:
  assumes "ge_table env = routing_yaml" and "mk_complete_request q = Inr req"
    and "complete_endpoint env req w = (res, w')"
  shows "\<exists>route. resolve routing_yaml (cq_task_kind req) (cq_budget_hint req) (cq_privacy req) = Inr route \<and>
    (case res of
       Inr resp \<Rightarrow> gateway_complete env req w = (Inr resp, w')
     | Inl e \<Rightarrow> fails_through env req True (attempts route) w w' \<and>
         (\<exists>why. e = HTTPException 502 (''all routing tiers exhausted for task_kind='' @
            task_kind_text (cq_task_kind req) @ '': '' @ why)))"
proof -
  from assms(2) have b: "cq_budget_hint req \<in> set budget_tiers" and p: "cq_privacy req \<in> set privacy_tiers"
    by (auto simp: mk_complete_request_def split: if_splits)
  obtain route where
    r: "resolve routing_yaml (cq_task_kind req) (cq_budget_hint req) (cq_privacy req) = Inr route"
    using shipped_resolves [OF b p] by blast
  have esc: "escalation (ge_table env) = Inr True"
    using assms(1) by (simp add: escalation_def fallback_settings_def routing_yaml_def dict_get_def)
  obtain res0 w0 where g: "gateway_complete env req w = (res0, w0)" by (cases "gateway_complete env req w")
  with r esc assms(1) have t: "try_tiers env req True None (attempts route) w = (res0, w0)"
    by (simp add: gateway_complete_routed)
  show ?thesis
  proof (cases res0)
    case (Inr resp)
    with g assms(3) r show ?thesis by (auto simp: complete_endpoint_def)
  next
    case (Inl e)
    with try_tiers_outcome [OF t] obtain le where "fails_through env req True (attempts route) w w0"
      and "e = exhausted req le" by auto
    with g Inl assms(3) r show ?thesis by (auto simp: complete_endpoint_def exhausted_def)
  qed
qed

theorem complete_endpoint_total_witness:
  "\<exists>why. complete_endpoint (sample_env\<lparr>ge_sdk := sample_sdk\<lparr>sdk_local_post := \<lambda>url body. raiseC (OtherError ''down'')\<rparr>\<rparr>)
     (sample_request ''air_gapped'') ([], ()) =
     (Inl (HTTPException 502 (''all routing tiers exhausted for task_kind=TaskKind.CLASSIFY: '' @ why)),
      (register LocalProvider [], ()))"
proof -
  let ?env = "sample_env\<lparr>ge_sdk := sample_sdk\<lparr>sdk_local_post := \<lambda>url body. raiseC (OtherError ''down'')\<rparr>\<rparr>"
  let ?req = "sample_request ''air_gapped''"
  have ok: "mk_complete_request ?req = Inr ?req"
    by (simp add: mk_complete_request_def sample_request_def budget_tiers_def privacy_tiers_def)
  have tab: "ge_table ?env = routing_yaml" by (simp add: sample_env_def)
  have r: "resolve routing_yaml CLASSIFY ''low'' ''air_gapped'' = Inr (decision (''local'', ''llama-3.1-8b-instruct'') None None)"
    by code_simp
  have esc: "escalation routing_yaml = Inr True" using sample_escalation by (simp add: sample_env_def)
  have req: "cq_task_kind ?req = CLASSIFY" "cq_budget_hint ?req = ''low''" "cq_privacy ?req = ''air_gapped''"
    by (simp_all add: sample_request_def)
  have at: "attempt ?env ?req ''primary'' (''local'', ''llama-3.1-8b-instruct'') ([], ()) =
      (Inl (OtherError ''down''), (register LocalProvider [], ()))"
    by (simp add: attempt_def call_provider_def bindC_def on_fst_def on_snd_def get_provider_def builtin_provider_def
        timed_def perf_counter_def sample_env_def sample_sdk_def local_complete_def)
  have e: "complete_endpoint ?env ?req ([], ()) =
      (Inl (HTTPException 502 (exn_str (exhausted ?req (Some (OtherError ''down''))))), (register LocalProvider [], ()))"
    by (simp add: complete_endpoint_def gateway_complete_def bindC_def tab req attempts_def decision_def at r esc)
  from complete_endpoint_total [OF tab ok e] obtain why where
    "exn_str (exhausted ?req (Some (OtherError ''down''))) =
       ''all routing tiers exhausted for task_kind='' @ task_kind_text CLASSIFY @ '': '' @ why"
    by (auto simp: req)
  with e show ?thesis by (auto simp: task_kind_text_def)
qed

text \<open>
  C15. No egress for air-gapped requests: with the shipped table, whatever the other SDKs do, the
  result and the world after an air-gapped request are the same, so none of them is called.
\<close>

theorem air_gapped_calls_local_only:
  assumes "ge_table env = routing_yaml" and "cq_privacy req = ''air_gapped''" and "registry_sound reg"
  shows "gateway_complete env req (reg, w) =
    gateway_complete (env\<lparr>ge_sdk := (ge_sdk env)\<lparr>sdk_anthropic := f, sdk_openai := h, sdk_google := k\<rparr>\<rparr>) req (reg, w)"
proof -
  let ?s = "(ge_sdk env)\<lparr>sdk_anthropic := f, sdk_openai := h, sdk_google := k\<rparr>"
  have "gateway_complete (env\<lparr>ge_sdk := ge_sdk env\<rparr>) req (reg, w) = gateway_complete (env\<lparr>ge_sdk := ?s\<rparr>) req (reg, w)"
  proof (rule gateway_complete_agree)
    fix route
    assume "resolve (ge_table env) (cq_task_kind req) (cq_budget_hint req) (cq_privacy req) = Inr route"
    with assms(1,2) have "resolve routing_yaml (cq_task_kind req) ''low'' ''air_gapped'' = Inr route"
      by (simp add: resolve_def)
    with shipped_table_routes [of "''low''" "cq_task_kind req"] have "set (providers_of route) = {''local''}"
      by (auto simp: budget_tiers_def)
    then show "\<forall>n \<in> set (providers_of route). agree_on (ge_sdk env) ?s n"
      by (simp add: agree_on_def)
  qed (use assms(3) in simp)
  then show ?thesis by simp
qed

theorem air_gapped_calls_local_only_witness:
  "gateway_complete sample_env (sample_request ''air_gapped'') ([], ()) =
   gateway_complete (sample_env\<lparr>ge_sdk := (ge_sdk sample_env)\<lparr>sdk_anthropic := \<lambda>c w. (Inl (OtherError ''leak''), w),
     sdk_openai := \<lambda>c w. (Inl (OtherError ''leak''), w), sdk_google := \<lambda>c w. (Inl (OtherError ''leak''), w)\<rparr>\<rparr>)
     (sample_request ''air_gapped'') ([], ())"
  by (rule air_gapped_calls_local_only) (simp_all add: sample_env_def sample_request_def)

text \<open>
  A sensitive request never reaches a denied provider: with the shipped table, whatever the
  google SDK does, the result and the world are the same.
\<close>

lemma sensitive_never_calls_google:
  assumes "ge_table env = routing_yaml" and "cq_privacy req = ''sensitive''" and "cq_budget_hint req \<in> set budget_tiers"
    and "registry_sound reg"
  shows "gateway_complete env req (reg, w) =
    gateway_complete (env\<lparr>ge_sdk := (ge_sdk env)\<lparr>sdk_google := k\<rparr>\<rparr>) req (reg, w)"
proof -
  let ?s = "(ge_sdk env)\<lparr>sdk_google := k\<rparr>"
  have "gateway_complete (env\<lparr>ge_sdk := ge_sdk env\<rparr>) req (reg, w) = gateway_complete (env\<lparr>ge_sdk := ?s\<rparr>) req (reg, w)"
  proof (rule gateway_complete_agree)
    fix route
    assume "resolve (ge_table env) (cq_task_kind req) (cq_budget_hint req) (cq_privacy req) = Inr route"
    with assms(1,2) shipped_table_routes [OF assms(3), of "cq_task_kind req"]
    have "set (providers_of route) \<subseteq> {''anthropic'', ''openai'', ''local''}" by auto
    then have "''google'' \<notin> set (providers_of route)" by auto
    then show "\<forall>n \<in> set (providers_of route). agree_on (ge_sdk env) ?s n"
      by (auto simp: agree_on_def)
  qed (use assms(4) in simp)
  then show ?thesis by simp
qed

lemma sensitive_never_calls_google_witness:
  "gateway_complete sample_env (sample_request ''sensitive'') ([], ()) =
   gateway_complete (sample_env\<lparr>ge_sdk := (ge_sdk sample_env)\<lparr>sdk_google := \<lambda>c w. (Inl (OtherError ''leak''), w)\<rparr>\<rparr>)
     (sample_request ''sensitive'') ([], ())"
  by (rule sensitive_never_calls_google) (simp_all add: sample_env_def sample_request_def budget_tiers_def)

end
