(* ===== verification/Endpoints.thy ===== *)
theory Endpoints
  imports Ingestion Gateway
begin

text \<open>
  What the two FastAPI services do around their handlers: the connection pool of the ingestion API
  (\<open>db.py\<close>; psycopg's pool is the record \<open>pooling\<close>), its start and stop, the body of
  \<open>POST /v1/resolve\<close> at the gateway, and the health endpoints.
\<close>

section \<open>The pool\<close>

record ('p, 'w) pooling =
  po_open :: "('w, 'p) cmd"
  po_close :: "'p \<Rightarrow> ('w, unit) cmd"

text \<open>The state is the module's \<open>_pool\<close> beside the world.\<close>

definition get_pool :: "('p, 'w) pooling \<Rightarrow> ('p option \<times> 'w, 'p) cmd" where
  "get_pool po s =
     (case s of
        (Some p, w) \<Rightarrow> (Inr p, s)
      | (None, w) \<Rightarrow> (case po_open po w of (Inl e, w') \<Rightarrow> (Inl e, (None, w')) | (Inr p, w') \<Rightarrow> (Inr p, (Some p, w'))))"

definition close_pool :: "('p, 'w) pooling \<Rightarrow> ('p option \<times> 'w, unit) cmd" where
  "close_pool po s =
     (case s of
        (None, w) \<Rightarrow> (Inr (), s)
      | (Some p, w) \<Rightarrow> (case po_close po p w of (Inl e, w') \<Rightarrow> (Inl e, (Some p, w')) | (Inr _, w') \<Rightarrow> (Inr (), (None, w'))))"

text \<open>\<open>lifespan\<close>: the object store client first, then the requests, then the pool is closed.\<close>

definition lifespan ::
  "'o minio \<Rightarrow> ingestion_settings \<Rightarrow> ('p, 'w) pooling \<Rightarrow> ('o store_world \<times> 'p option \<times> 'w, unit) cmd \<Rightarrow>
   ('o store_world \<times> 'p option \<times> 'w, unit) cmd" where
  "lifespan mi cfg po serve =
     bindC (on_fst (client mi cfg)) (\<lambda>_. bindC serve (\<lambda>_. on_snd (close_pool po)))"

definition healthz :: pyval where
  "healthz = PyDict [(''status'', PyStr ''ok'')]"

lemma get_pool_again: "get_pool po s = (Inr p, s') \<Longrightarrow> fst s' = Some p \<and> get_pool po s' = (Inr p, s')"
  by (auto simp: get_pool_def split: prod.splits option.splits sum.splits)

lemma close_pool_closes: "close_pool po s = (Inr (), s') \<Longrightarrow> fst s' = None"
  by (auto simp: close_pool_def split: prod.splits option.splits sum.splits)

text \<open>A service that stops normally leaves no pool open and has its client.\<close>

lemma lifespan_leaves:
  assumes "lifespan mi cfg po serve s = (Inr (), s')"
  shows "fst (snd s') = None"
proof -
  from assms obtain s1 where "on_snd (close_pool po) s1 = (Inr (), s')"
    by (auto simp: lifespan_def elim!: bindC_cases)
  then show ?thesis by (auto simp: on_snd_def split: prod.splits dest: close_pool_closes)
qed

section \<open>POST /v1/resolve\<close>

definition str_field :: "pydict \<Rightarrow> string \<Rightarrow> string \<Rightarrow> string option" where
  "str_field d k dflt = (case map_of d k of None \<Rightarrow> Some dflt | Some (PyStr s) \<Rightarrow> Some s | Some v \<Rightarrow> None)"

text \<open>\<open>ResolveRequest\<close>: the task kind by its value, the other two any text.\<close>

definition resolve_request :: "pyval \<Rightarrow> (task_kind \<times> string \<times> string) option" where
  "resolve_request body =
     (case body of
        PyDict d \<Rightarrow>
          (case (map_of d ''task_kind'', str_field d ''budget_hint'' ''normal'', str_field d ''privacy'' ''standard'') of
             (Some (PyStr k), Some b, Some p) \<Rightarrow>
               map_option (\<lambda>t. (t, b, p)) (find (\<lambda>t. task_kind_value t = k) all_task_kinds)
           | _ \<Rightarrow> None)
      | _ \<Rightarrow> None)"

definition post_resolve :: "'w gateway_env \<Rightarrow> pyval \<Rightarrow> pyval res" where
  "post_resolve env body =
     (case resolve_request body of
        None \<Rightarrow> Inl (HTTPException 422 ''Unprocessable Entity'')
      | Some (t, b, p) \<Rightarrow> resolve_endpoint env t b p)"

lemma resolve_request_defaults:
  "resolve_request (PyDict [(''task_kind'', PyStr (task_kind_value t))]) = Some (t, ''normal'', ''standard'')"
  by (cases t) (simp_all add: resolve_request_def str_field_def all_task_kinds_def)

end
