(* ===== verification/Tape.thy ===== *)
theory Tape
  imports Lifecycle
begin

text \<open>
  Passes among other processes. Every method of PgRepo opens a connection of its own and is one
  transaction; between two of them anything may happen to the database. A tape is a repository
  that plays this: it holds the databases that the next methods will find, and the log of the
  methods already done, each with the database it found and the one it left. A method that finds
  no further database on the tape is one that has not happened yet, and the pass stops there.

  \<open>discover_run\<close> and \<open>assemble_run_report\<close> are polymorphic in the repository, so the tape runs
  the very definitions of Runner and Report. The lemmas are of two kinds: a rely/guarantee rule for
  a pass on a tape, and the agreement of a tape nobody interferes with and the sequential pass.
\<close>

type_synonym transition = "db \<times> db"
type_synonym tape = "db list \<times> transition list"

definition not_yet :: exn where
  "not_yet = OtherError ''the next database access has not happened yet''"

definition taped :: "(db, 'a) cmd \<Rightarrow> (tape, 'a) cmd" where
  "taped m t =
     (case fst t of
        [] \<Rightarrow> (Inl not_yet, t)
      | d # ds \<Rightarrow> (case m d of (r, d') \<Rightarrow> (r, (ds, snd t @ [(d, d')]))))"

definition taped_repo :: "uuid \<Rightarrow> tape repo_ops" where
  "taped_repo tenant =
     \<lparr>evidence_for_category = (\<lambda>r c. taped (pg_evidence_for_category r c)),
      assets_for_run = (\<lambda>r. taped (pg_assets_for_run r)),
      categories_present = (\<lambda>r. taped (pg_categories_present r)),
      write_observations = (\<lambda>ows. taped (pg_write_observations tenant ows)),
      observations_for_run = (\<lambda>r. taped (pg_observations_for_run r)),
      write_report_sections = (\<lambda>rss. taped (pg_write_report_sections tenant rss)),
      set_run_status = (\<lambda>r st. taped (pg_set_run_status r st)),
      audit = (\<lambda>r a md. taped (pg_audit tenant r a md))\<rparr>"

lemma taped_repo_simps [simp]:
  "evidence_for_category (taped_repo tenant) r c = taped (pg_evidence_for_category r c)"
  "assets_for_run (taped_repo tenant) r = taped (pg_assets_for_run r)"
  "categories_present (taped_repo tenant) r = taped (pg_categories_present r)"
  "write_observations (taped_repo tenant) ows = taped (pg_write_observations tenant ows)"
  "observations_for_run (taped_repo tenant) r = taped (pg_observations_for_run r)"
  "write_report_sections (taped_repo tenant) rss = taped (pg_write_report_sections tenant rss)"
  "set_run_status (taped_repo tenant) r st = taped (pg_set_run_status r st)"
  "audit (taped_repo tenant) r a md = taped (pg_audit tenant r a md)"
  by (simp_all add: taped_repo_def)

section \<open>Rely and guarantee\<close>

text \<open>
  What a log owes to the others (every database it found was traceable and had kept the references
  of the one the pass left before), and what the pass owes to them (its own transitions are safe).
\<close>

fun undisturbed :: "transition list \<Rightarrow> bool" where
  "undisturbed [] = True"
| "undisturbed [(d, d')] = traceable d"
| "undisturbed ((d, d') # (e, e') # ts) =
     (traceable d \<and> refs_kept d' e \<and> undisturbed ((e, e') # ts))"

definition honest :: "transition list \<Rightarrow> bool" where
  "honest ts \<longleftrightarrow> (\<forall>(d, d') \<in> set ts. safe d d')"

definition last_db :: "transition list \<Rightarrow> db" where
  "last_db ts = snd (last ts)"

lemma undisturbed_snoc:
  "ts \<noteq> [] \<Longrightarrow> undisturbed (ts @ [(d, d')]) \<longleftrightarrow> undisturbed ts \<and> refs_kept (last_db ts) d \<and> traceable d"
proof (induction ts rule: undisturbed.induct)
  case 1
  then show ?case by simp
next
  case (2 d d')
  then show ?case by (auto simp: last_db_def)
next
  case (3 d d' e e' ts)
  then show ?case by (simp add: last_db_def)
qed

lemma honest_snoc [simp]: "honest (ts @ [(d, d')]) \<longleftrightarrow> honest ts \<and> safe d d'"
  by (auto simp: honest_def)

lemma last_db_snoc [simp]: "last_db (ts @ [(d, d')]) = d'"
  by (simp add: last_db_def)

text \<open>A condition on the database that no safe transition undoes.\<close>

definition stable :: "(db \<Rightarrow> bool) \<Rightarrow> bool" where
  "stable K \<longleftrightarrow> (\<forall>d d'. K d \<longrightarrow> refs_kept d d' \<longrightarrow> K d')"

lemma stableI: "(\<And>d d'. K d \<Longrightarrow> refs_kept d d' \<Longrightarrow> K d') \<Longrightarrow> stable K"
  by (simp add: stable_def)

lemma stableD: "stable K \<Longrightarrow> K d \<Longrightarrow> refs_kept d d' \<Longrightarrow> K d'"
  by (simp add: stable_def)

lemma stable_True [simp]: "stable (\<lambda>d. True)"
  by (simp add: stable_def)

lemma stable_conj [simp]: "stable K \<Longrightarrow> stable L \<Longrightarrow> stable (\<lambda>d. K d \<and> L d)"
  by (auto simp: stable_def)

lemma stable_ball [simp]: "(\<And>x. x \<in> A \<Longrightarrow> stable (K x)) \<Longrightarrow> stable (\<lambda>d. \<forall>x\<in>A. K x d)"
  by (auto simp: stable_def)

lemma stable_refs [simp]:
  "stable (\<lambda>d. u \<in> evidence_refs d)" "stable (\<lambda>d. u \<in> asset_refs d)" "stable (\<lambda>d. u \<in> observation_refs d)"
  by (auto simp: stable_def refs_kept_def)

lemma stable_cites [simp]: "stable (\<lambda>d. cites d ow)"
  by (auto simp: stable_def intro: cites_kept)

lemma stable_embeds [simp]: "stable (\<lambda>d. embeds d s)"
  by (auto simp: stable_def intro: embeds_kept)

text \<open>The assertions on a tape: as long as the others keep to the rule, so has the pass.\<close>

definition sound :: "(db \<Rightarrow> bool) \<Rightarrow> tape \<times> 'g \<Rightarrow> bool" where
  "sound K p \<longleftrightarrow> (case snd (fst p) of ts \<Rightarrow>
     ts \<noteq> [] \<and> (undisturbed ts \<longrightarrow> honest ts \<and> K (last_db ts)))"

lemma sound_mono: "sound K p \<Longrightarrow> (\<And>d. K d \<Longrightarrow> L d) \<Longrightarrow> sound L p"
  by (auto simp: sound_def)

abbreviation settles ::
  "(db \<Rightarrow> bool) \<Rightarrow> (tape \<times> 'g, 'a) cmd \<Rightarrow> ('a \<Rightarrow> db \<Rightarrow> bool) \<Rightarrow> bool" where
  "settles K m Q \<equiv> hoare (sound K) m (\<lambda>x. sound (Q x)) (\<lambda>e. sound (\<lambda>d. True))"

text \<open>The rule of a method: it must be safe, and what it returns is known of the database it leaves.\<close>

lemma settles_taped:
  assumes "stable K"
    and "\<And>d r d'. traceable d \<Longrightarrow> K d \<Longrightarrow> m d = (r, d') \<Longrightarrow> safe d d'"
    and "\<And>d x d'. traceable d \<Longrightarrow> K d \<Longrightarrow> K d' \<Longrightarrow> m d = (Inr x, d') \<Longrightarrow> Q x d'"
  shows "settles K (on_fst (taped m)) Q"
proof -
  have done_next: "sound (\<lambda>d. case r of Inl e \<Rightarrow> True | Inr x \<Rightarrow> Q x d) ((ds, ts @ [(d, d')]), g)"
    if s: "sound K ((d # ds, ts), g)" and m: "m d = (r, d')" for d ds ts g r d'
  proof (cases "undisturbed (ts @ [(d, d')])")
    case True
    from s have "ts \<noteq> []" by (simp add: sound_def)
    with True s have h: "honest ts" "traceable d" and K: "K d"
      by (auto simp: sound_def undisturbed_snoc intro: stableD [OF assms(1)])
    from assms(2) [OF h(2) K m] have sf: "safe d d'" .
    with K have "K d'" by (auto intro: stableD [OF assms(1)] safeD)
    with assms(3) [OF h(2) K] m h sf show ?thesis by (cases r) (simp_all add: sound_def)
  qed (simp add: sound_def)
  show ?thesis
  proof (rule hoareI)
    fix s x t
    assume "sound K s" and "on_fst (taped m) s = (Inr x, t)"
    then show "sound (Q x) t"
      by (cases s) (auto simp: on_fst_def taped_def not_yet_def split: list.splits prod.splits dest!: done_next)
  next
    fix s e t
    assume "sound K s" and "on_fst (taped m) s = (Inl e, t)"
    then show "sound (\<lambda>d. True) t"
      by (cases s) (auto simp: on_fst_def taped_def split: list.splits prod.splits dest!: done_next intro: sound_mono)
  qed
qed

lemma settles_bind:
  "settles K m R \<Longrightarrow> (\<And>x. settles (R x) (f x) Q) \<Longrightarrow> settles K (bindC m f) Q"
  by (rule hoare_bind)

lemma settles_return: "(\<And>d. K d \<Longrightarrow> Q x d) \<Longrightarrow> settles K (returnC x) Q"
  by (rule hoare_return) (erule sound_mono)

lemma settles_weaken: "settles K' m Q' \<Longrightarrow> (\<And>d. K d \<Longrightarrow> K' d) \<Longrightarrow> (\<And>x d. Q' x d \<Longrightarrow> Q x d) \<Longrightarrow> settles K m Q"
  by (rule hoare_pre [where P' = "sound K'"], erule hoare_post) (auto intro: sound_mono)

lemma settles_lift: "(\<And>x d. r = Inr x \<Longrightarrow> K d \<Longrightarrow> Q x d) \<Longrightarrow> settles K (liftC r) Q"
  by (cases r) (auto simp: hoare_def intro: sound_mono)

lemma settles_on_snd:
  assumes "\<And>g x g' d. K d \<Longrightarrow> m g = (Inr x, g') \<Longrightarrow> Q x d"
  shows "settles K (on_snd m) Q"
  using assms by (auto simp: hoare_def on_snd_def sound_def split: prod.splits sum.splits)

lemma settles_mapC:
  assumes "stable K" and "\<And>y. stable (Q y)"
    and "\<And>x L. x \<in> set xs \<Longrightarrow> stable L \<Longrightarrow> settles (\<lambda>d. K d \<and> L d) (m x) (\<lambda>y d. (K d \<and> L d) \<and> Q y d)"
  shows "settles K (mapC m xs) (\<lambda>ys d. K d \<and> (\<forall>y \<in> set ys. Q y d))"
proof -
  have "settles (\<lambda>d. K d \<and> L d) (mapC m xs) (\<lambda>ys d. (K d \<and> L d) \<and> (\<forall>y \<in> set ys. Q y d))" if "stable L" for L
    using assms(3) that
  proof (induction xs arbitrary: L)
    case Nil
    show ?case unfolding mapC.simps by (rule settles_return) simp
  next
    case (Cons x xs)
    have step: "settles (\<lambda>d. K d \<and> L d) (m x) (\<lambda>y d. (K d \<and> L d) \<and> Q y d)"
      using Cons.prems(1) [of x L] Cons.prems(2) by simp
    have rest: "settles (\<lambda>d. (K d \<and> L d) \<and> Q y d) (mapC m xs)
        (\<lambda>ys d. (K d \<and> L d \<and> Q y d) \<and> (\<forall>y \<in> set ys. Q y d))" for y
      using Cons.prems(1)
      by (intro settles_weaken [OF Cons.IH [of "\<lambda>d. L d \<and> Q y d"]])
        (simp_all add: Cons.prems(2) assms(2))
    show ?case
      unfolding mapC.simps
      by (rule settles_bind [OF step], rule settles_bind [OF rest], rule settles_return) auto
  qed
  from this [of "\<lambda>d. True"] show ?thesis by simp
qed

section \<open>Each method is safe\<close>

lemma reads_same:
  "pg_evidence_for_category r c d = (x, d') \<Longrightarrow> d' = d" "pg_assets_for_run r d = (y, d') \<Longrightarrow> d' = d"
  "pg_categories_present r d = (z, d') \<Longrightarrow> d' = d" "pg_observations_for_run r d = (w, d') \<Longrightarrow> d' = d"
  by (simp_all add: pg_evidence_for_category_def pg_assets_for_run_def pg_categories_present_def
      pg_observations_for_run_def)

lemma reads_refs:
  "pg_evidence_for_category r c d = (Inr evs, d') \<Longrightarrow> e \<in> set evs \<Longrightarrow> (ev_id e, r) \<in> evidence_refs d'"
  "pg_assets_for_run r d = (Inr as, d') \<Longrightarrow> a \<in> set as \<Longrightarrow> (as_id a, r) \<in> asset_refs d'"
  "pg_observations_for_run r d = (Inr obs, d') \<Longrightarrow> ob \<in> set obs \<Longrightarrow> (or_id ob, r) \<in> observation_refs d'"
  by (auto simp: pg_evidence_for_category_def pg_assets_for_run_def pg_observations_for_run_def run_evidence_def
      pg_observation_rows_def to_evidence_row_def to_asset_row_def to_observation_row_def
      evidence_refs_def asset_refs_def observation_refs_def image_iff) blast+

lemma written_safe:
  assumes a: "append_only d d'"
    and new: "rv_written (pg_view d') = rv_written (pg_view d) @ new" "\<And>ow. ow \<in> set new \<Longrightarrow> cites d ow"
    and new': "rv_sections (pg_view d') = rv_sections (pg_view d) @ new'" "\<And>s. s \<in> set new' \<Longrightarrow> embeds d s"
  shows "safe d d'"
proof (rule safeI)
  show r: "refs_kept d d'" using a by (rule append_only_refs)
  assume t: "traceable d"
  with a have "distinct (map ob_id (db_observations d'))" by (simp add: append_only_def traceable_def)
  with t r new new' show "traceable d'" by (intro traceable_step [of d d' new new']) (simp_all add: pg_view_fields)
qed

lemma write_observations_safe:
  assumes "pg_write_observations tenant ows d = (r, d')" and "\<forall>ow \<in> set ows. cites d ow"
  shows "safe d d'"
proof -
  from assms(1) have w: "write_observations (pg_repo tenant) ows d = (r, d')" by simp
  then have a: "append_only d d'" by (rule preservesD [OF pg_append.write_kept])
  show ?thesis
  proof (cases r)
    case (Inl e)
    from pg.write_observations_raises [OF w [unfolded Inl]] have "pg_view d' = pg_view d" .
    then show ?thesis by (intro written_safe [OF a, of "[]" "[]"]) simp_all
  next
    case (Inr n)
    from pg.write_observations_returns [OF w [unfolded Inr]]
    have "pg_view d' = (pg_view d)\<lparr>rv_written := rv_written (pg_view d) @ ows\<rparr>" by simp
    with assms(2) show ?thesis by (intro written_safe [OF a, of ows "[]"]) simp_all
  qed
qed

lemma write_sections_safe:
  assumes "pg_write_report_sections tenant rss d = (r, d')" and "\<forall>s \<in> set rss. embeds d s"
  shows "safe d d'"
proof -
  from assms(1) have w: "write_report_sections (pg_repo tenant) rss d = (r, d')" by simp
  then have a: "append_only d d'" by (rule preservesD [OF pg_append.sections_kept])
  show ?thesis
  proof (cases r)
    case (Inl e)
    from pg.write_sections_raises [OF w [unfolded Inl]] have "pg_view d' = pg_view d" .
    then show ?thesis by (intro written_safe [OF a, of "[]" "[]"]) simp_all
  next
    case (Inr n)
    from pg.write_sections_returns [OF w [unfolded Inr]]
    have "pg_view d' = (pg_view d)\<lparr>rv_sections := rv_sections (pg_view d) @ rss\<rparr>" by simp
    with assms(2) show ?thesis by (intro written_safe [OF a, of "[]" rss]) simp_all
  qed
qed

lemma set_status_safe: "pg_set_run_status r st d = (x, d') \<Longrightarrow> safe d d'"
  by (auto simp: pg_set_run_status_def split: option.splits intro!: safe_same refs_kept_parts)

lemma audit_safe: "pg_audit tenant r a md d = (x, d') \<Longrightarrow> safe d d'"
  by (auto simp: pg_audit_def transaction_def insert_audit_def intro!: safe_same refs_kept_parts)

section \<open>Each pass keeps to the rule\<close>

lemma settles_if: "(b \<Longrightarrow> settles K m Q) \<Longrightarrow> (\<not> b \<Longrightarrow> settles K m' Q) \<Longrightarrow> settles K (if b then m else m') Q"
  by simp

lemma settles_status: "stable K \<Longrightarrow> settles K (on_fst (set_run_status (taped_repo tenant) r st)) (\<lambda>x. K)"
  unfolding taped_repo_simps by (rule settles_taped) (auto dest: set_status_safe)

lemma settles_audit: "stable K \<Longrightarrow> settles K (on_fst (audit (taped_repo tenant) r a md)) (\<lambda>x. K)"
  unfolding taped_repo_simps by (rule settles_taped) (auto dest: audit_safe)

lemma settles_categories: "stable K \<Longrightarrow> settles K (on_fst (categories_present (taped_repo tenant) r)) (\<lambda>x. K)"
  unfolding taped_repo_simps by (rule settles_taped) (auto dest: reads_same)

lemma settles_assets:
  "settles (\<lambda>d. True) (on_fst (assets_for_run (taped_repo tenant) r)) (\<lambda>as d. \<forall>a \<in> set as. (as_id a, r) \<in> asset_refs d)"
  unfolding taped_repo_simps by (rule settles_taped) (auto dest: reads_same reads_refs)

lemma settles_observations:
  "settles (\<lambda>d. True) (on_fst (observations_for_run (taped_repo tenant) r))
     (\<lambda>obs d. \<forall>ob \<in> set obs. (or_id ob, r) \<in> observation_refs d)"
  unfolding taped_repo_simps by (rule settles_taped) (auto dest: reads_same reads_refs)

lemma settles_evidence:
  assumes "stable K"
  shows "settles K (mapC (\<lambda>cat. on_fst (evidence_for_category (taped_repo tenant) r cat)) cats)
    (\<lambda>chunks d. K d \<and> (\<forall>chunk \<in> set chunks. \<forall>e \<in> set chunk. (ev_id e, r) \<in> evidence_refs d))"
  by (rule settles_mapC) (auto simp: assms dest: reads_same reads_refs intro!: settles_taped)

lemma settles_write:
  assumes "stable K" and "\<And>d. K d \<Longrightarrow> \<forall>ow \<in> set ows. cites d ow"
  shows "settles K (on_fst (write_observations (taped_repo tenant) ows)) (\<lambda>x. K)"
  unfolding taped_repo_simps by (rule settles_taped) (auto simp: assms intro: write_observations_safe)

lemma settles_sections:
  assumes "stable K" and "\<And>d. K d \<Longrightarrow> \<forall>s \<in> set rss. embeds d s"
  shows "settles K (on_fst (write_report_sections (taped_repo tenant) rss)) (\<lambda>x. K)"
  unfolding taped_repo_simps by (rule settles_taped) (auto simp: assms intro: write_sections_safe)

text \<open>What a checked answer cites is what the agent was given.\<close>

lemma answer_cites:
  assumes "run_domain gateway rid agent dmn evidence assets tenant budget privacy g = (Inr result, g')"
    and "\<forall>e \<in> set evidence. (ev_id e, rid) \<in> evidence_refs d" and "\<forall>a \<in> set assets. (as_id a, rid) \<in> asset_refs d"
  shows "\<forall>ow \<in> set (dr_observations result). cites d ow"
proof
  fix ow
  assume ow: "ow \<in> set (dr_observations result)"
  from assms(1) obtain res where r: "read_domain_result rid agent dmn evidence assets res = Inr result"
    by (rule run_domain_returned)
  from read_domain_result_accepts(1,2) [OF r ow] assms(2,3) show "cites d ow"
    by (fastforce simp: cites_def sourced_def)
qed

lemma report_embeds:
  assumes "assemble_report gateway rid agent observations tenant budget privacy g = (Inr out, g')"
    and "\<forall>ob \<in> set observations. (or_id ob, rid) \<in> observation_refs d"
  shows "\<forall>s \<in> set (rp_sections out). embeds d s"
  using assemble_report_sections [OF assms(1)] assms(2) by (fastforce simp: embeds_def)

lemma settles_agent_step:
  "settles (\<lambda>d. \<forall>a \<in> set assets. (as_id a, ra_run_id ra) \<in> asset_refs d)
     (agent_step (taped_repo tenant) ra assets report grp)
     (\<lambda>x d. \<forall>a \<in> set assets. (as_id a, ra_run_id ra) \<in> asset_refs d)"
proof -
  let ?A = "\<lambda>d. \<forall>a \<in> set assets. (as_id a, ra_run_id ra) \<in> asset_refs d"
  let ?E = "\<lambda>chunks d. ?A d \<and> (\<forall>chunk \<in> set chunks. \<forall>e \<in> set chunk. (ev_id e, ra_run_id ra) \<in> evidence_refs d)"
  let ?W = "\<lambda>result d. ?A d \<and> (\<forall>ow \<in> set (dr_observations result). cites d ow)"
  obtain a dmn cats where grp: "grp = (a, dmn, cats)" by (cases grp)
  have st: "stable ?A" "stable (?W result)" for result by simp_all
  have run: "settles (?E chunks) (on_snd (run_domain (ra_gateway ra) (ra_run_id ra) agent dmn (concat chunks) assets
      (ra_tenant_id ra) (ra_budget_hint ra) (ra_privacy ra))) ?W" for chunks agent
  proof (rule settles_on_snd)
    fix g result g' d
    assume known: "?E chunks d"
      and "run_domain (ra_gateway ra) (ra_run_id ra) agent dmn (concat chunks) assets (ra_tenant_id ra)
        (ra_budget_hint ra) (ra_privacy ra) g = (Inr result, g')"
    from answer_cites [OF this(2)] known show "?W result d" by simp
  qed
  have stores: "settles (?W result) (on_fst (write_observations (taped_repo tenant) (dr_observations result)))
      (\<lambda>x. ?W result)" for result
    by (rule settles_write [OF st(2)]) simp
  show ?thesis
    unfolding grp agent_step_def prod.case Let_def
    by (intro settles_if settles_return settles_bind [OF settles_lift [where Q = "\<lambda>x. ?A"]]
        settles_bind [OF settles_evidence [OF st(1)]] settles_bind [OF run] settles_bind [OF stores]
        settles_bind [OF settles_audit [OF st(2)]]) simp_all
qed

lemma settles_agent_loop:
  "settles (\<lambda>d. \<forall>a \<in> set assets. (as_id a, ra_run_id ra) \<in> asset_refs d)
     (agent_loop (taped_repo tenant) ra assets report grps)
     (\<lambda>x d. \<forall>a \<in> set assets. (as_id a, ra_run_id ra) \<in> asset_refs d)"
proof (induction grps arbitrary: report)
  case Nil
  show ?case unfolding agent_loop.simps by (rule settles_return)
next
  case (Cons grp grps)
  show ?case unfolding agent_loop.simps by (rule settles_bind [OF settles_agent_step Cons])
qed

lemma settles_discover_run: "settles (\<lambda>d. True) (discover_run (taped_repo tenant) ra) (\<lambda>x d. True)"
proof -
  let ?A = "\<lambda>assets d. \<forall>a \<in> set assets. (as_id a, ra_run_id ra) \<in> asset_refs d"
  have loop: "settles (?A assets) (agent_loop (taped_repo tenant) ra assets report grps) (\<lambda>x d. True)"
    for assets report grps
    by (rule settles_weaken [OF settles_agent_loop]) simp_all
  have rest: "settles (?A assets) (case group_categories categories [] [] of (dropped, m) \<Rightarrow>
      bindC (agent_loop (taped_repo tenant) ra assets ((new_report (ra_run_id ra))\<lparr>rr_dropped := dropped\<rparr>) m) (f dropped m))
      (\<lambda>x d. True)" if "\<And>dropped m x. settles (\<lambda>d. True) (f dropped m x) (\<lambda>x d. True)"
    for assets categories and f :: "string list \<Rightarrow> by_agent \<Rightarrow> run_report \<Rightarrow> (tape \<times> 'a, run_report) cmd"
    by (cases "group_categories categories [] []") (simp add: settles_bind [OF loop that])
  show ?thesis
    unfolding discover_run_def Let_def
    by (rule settles_bind [OF settles_status [OF stable_True]],
        rule settles_bind [OF settles_categories [OF stable_True]], rule settles_bind [OF settles_assets], rule rest,
        rule settles_bind [OF settles_status [OF stable_True]],
        rule settles_bind [OF settles_audit [OF stable_True]], rule settles_return)
qed

lemma settles_assemble: "settles (\<lambda>d. True) (assemble_run_report (taped_repo tenant) ra) (\<lambda>x d. True)"
proof -
  let ?O = "\<lambda>obs d. \<forall>ob \<in> set obs. (or_id ob, ra_run_id ra) \<in> observation_refs d"
  let ?S = "\<lambda>result d. \<forall>s \<in> set (rp_sections result). embeds d s"
  have st: "stable (?S result)" for result by simp
  have run: "settles (?O obs) (on_snd (assemble_report (ra_gateway ra) (ra_run_id ra) agent obs
      (ra_tenant_id ra) (ra_budget_hint ra) (ra_privacy ra))) ?S" for obs agent
    by (rule settles_on_snd) (auto dest: report_embeds)
  have stores: "settles (?S result) (on_fst (write_report_sections (taped_repo tenant) (rp_sections result)))
      (\<lambda>x. ?S result)" for result
    by (rule settles_sections [OF st]) simp
  have lift: "settles (?O obs) (liftC r) (\<lambda>x. ?O obs)" for obs and r :: "agent_definition res"
    by (rule settles_lift)
  show ?thesis
    unfolding assemble_run_report_def Let_def
    by (intro settles_if settles_return settles_bind [OF settles_observations] settles_bind [OF lift] settles_bind [OF run] settles_bind [OF stores]
        settles_bind [OF settles_status [OF st]] settles_bind [OF settles_audit [OF st]]) simp_all
qed

end
