(* ===== verification/Interleaving.thy ===== *)
theory Interleaving
  imports Tape
begin

text \<open>
  The concurrent system: any number of discovery and report passes, each at its own place, run
  statement by statement between the requests of the ingestion API, the statements of the
  normalizer and one another. A running pass is represented by the databases its methods have found
  so far: replaying the pass on them says what it has done and which method comes next.

  The lemmas show that a replay is causal (a longer tape extends the log by what the next method
  does) and agrees with the sequential pass when nobody interferes, and that every interleaving
  keeps the system's integrity guarantee.
\<close>

section \<open>Replays\<close>

text \<open>A log with nothing in between, from one database to another.\<close>

fun solo :: "db \<Rightarrow> transition list \<Rightarrow> db \<Rightarrow> bool" where
  "solo d [] d' = (d' = d)"
| "solo d ((a, b) # ts) d' = (a = d \<and> solo b ts d')"

lemma solo_append: "solo d (ts @ us) e \<longleftrightarrow> (\<exists>c. solo d ts c \<and> solo c us e)"
  by (induction d ts e rule: solo.induct) auto

definition causal :: "(tape \<times> 'g, 'a) cmd \<Rightarrow> bool" where
  "causal m \<longleftrightarrow>
     (\<forall>L g. fst (snd (m (([], L), g))) = ([], L)) \<and>
     (\<forall>ds e L g r ds' L' g'. m ((ds, L), g) = (r, ((ds', L'), g')) \<longrightarrow>
        m ((ds @ [e], L), g) = (r, ((ds' @ [e], L'), g')) \<or>
        (r = Inl not_yet \<and> ds' = [] \<and> (\<exists>r2 g2 e'. m ((ds @ [e], L), g) = (r2, (([], L' @ [(e, e')]), g2)))))"

definition agrees :: "(db \<times> 'g, 'a) cmd \<Rightarrow> (tape \<times> 'g, 'a) cmd \<Rightarrow> bool" where
  "agrees m mt \<longleftrightarrow>
     (\<forall>d g r d' g'. m (d, g) = (r, (d', g')) \<longrightarrow>
        (\<exists>ts. solo d ts d' \<and> (\<forall>rest L. mt ((map fst ts @ rest, L), g) = (r, ((rest, L @ ts), g')))))"

text \<open>A command on a database and its counterpart on a tape.\<close>

definition replays :: "(db \<times> 'g, 'a) cmd \<Rightarrow> (tape \<times> 'g, 'a) cmd \<Rightarrow> bool" where
  "replays m mt \<longleftrightarrow> causal mt \<and> agrees m mt"

lemma causal_idle: "causal m \<Longrightarrow> fst (snd (m (([], L), g))) = ([], L)"
  by (simp add: causal_def)

lemma causal_bind:
  assumes "causal m" and "\<And>x. causal (f x)"
  shows "causal (bindC m f)"
proof -
  have idle: "fst (snd (m (([], L), g))) = ([], L)" "fst (snd (f x (([], L), g))) = ([], L)" for L g x
    using assms by (simp_all add: causal_def)
  have idle_bind: "fst (snd (bindC m f (([], L), g))) = ([], L)" for L g
  proof -
    obtain r g' where "m (([], L), g) = (r, (([], L), g'))" using idle(1) [of L g] by (metis prod.collapse)
    then show ?thesis by (cases r) (simp_all add: bindC_def idle(2))
  qed
  have "bindC m f ((ds @ [e], L), g) = (r, ((ds' @ [e], L'), g')) \<or>
      (r = Inl not_yet \<and> ds' = [] \<and> (\<exists>r2 g2 e'. bindC m f ((ds @ [e], L), g) = (r2, (([], L' @ [(e, e')]), g2))))"
    if run: "bindC m f ((ds, L), g) = (r, ((ds', L'), g'))" for ds e L g r ds' L' g'
  proof -
    obtain q ds1 L1 g1 where m: "m ((ds, L), g) = (q, ((ds1, L1), g1))" by (metis prod.exhaust)
    with assms(1) consider (same) "m ((ds @ [e], L), g) = (q, ((ds1 @ [e], L1), g1))"
      | (on) r2 g2 e' where "q = Inl not_yet" and "ds1 = []" and "m ((ds @ [e], L), g) = (r2, (([], L1 @ [(e, e')]), g2))"
      unfolding causal_def by blast
    then show ?thesis
    proof cases
      case same
      show ?thesis
      proof (cases q)
        case (Inl a)
        with same m run show ?thesis by (simp add: bindC_def)
      next
        case (Inr x)
        with m run have "f x ((ds1, L1), g1) = (r, ((ds', L'), g'))" by (simp add: bindC_def)
        with assms(2) [of x] have "f x ((ds1 @ [e], L1), g1) = (r, ((ds' @ [e], L'), g')) \<or>
          (r = Inl not_yet \<and> ds' = [] \<and> (\<exists>r2 g2 e'. f x ((ds1 @ [e], L1), g1) = (r2, (([], L' @ [(e, e')]), g2))))"
          unfolding causal_def by blast
        with same Inr show ?thesis by (simp add: bindC_def)
      qed
    next
      case on
      from on(1,2) m run have r: "r = Inl not_yet" "ds' = []" "L' = L1" by (auto simp: bindC_def)
      show ?thesis
      proof (cases r2)
        case (Inl a)
        with on(3) r show ?thesis by (simp add: bindC_def)
      next
        case (Inr x)
        obtain r3 g3 where "f x (([], L1 @ [(e, e')]), g2) = (r3, (([], L1 @ [(e, e')]), g3))"
          using idle(2) [of x "L1 @ [(e, e')]" g2] by (metis prod.collapse)
        with on(3) Inr r show ?thesis by (simp add: bindC_def)
      qed
    qed
  qed
  with idle_bind show ?thesis unfolding causal_def by blast
qed

lemma agrees_bind:
  assumes "agrees m mt" and "\<And>x. agrees (f x) (ft x)"
  shows "agrees (bindC m f) (bindC mt ft)"
  unfolding agrees_def
proof (intro allI impI)
  fix d g r d' g'
  assume run: "bindC m f (d, g) = (r, (d', g'))"
  obtain q d1 g1 where m: "m (d, g) = (q, (d1, g1))" by (metis prod.exhaust)
  with assms(1) obtain ts where ts: "solo d ts d1"
    and mt: "mt ((map fst ts @ rest, L), g) = (q, ((rest, L @ ts), g1))" for rest L
    unfolding agrees_def by blast
  show "\<exists>ts. solo d ts d' \<and> (\<forall>rest L. bindC mt ft ((map fst ts @ rest, L), g) = (r, ((rest, L @ ts), g')))"
  proof (cases q)
    case (Inl e)
    with m run ts mt show ?thesis by (intro exI [of _ ts]) (auto simp: bindC_def)
  next
    case (Inr x)
    with m run have "f x (d1, g1) = (r, (d', g'))" by (simp add: bindC_def)
    with assms(2) [of x] obtain us where us: "solo d1 us d'"
      and ft: "ft x ((map fst us @ rest, L), g1) = (r, ((rest, L @ us), g'))" for rest L
      unfolding agrees_def by blast
    have "bindC mt ft ((map fst (ts @ us) @ rest, L), g) = (r, ((rest, L @ (ts @ us)), g'))" for rest L
      using mt [of "map fst us @ rest" L] ft [of rest "L @ ts"] Inr by (simp add: bindC_def)
    with ts us show ?thesis by (intro exI [of _ "ts @ us"]) (auto simp: solo_append)
  qed
qed

lemma replaysD:
  assumes "replays m mt" and "m (d, g) = (r, (d', g'))"
  obtains ts where "solo d ts d'" and "mt ((map fst ts, L), g) = (r, (([], L @ ts), g'))"
proof -
  from assms obtain ts where ts: "solo d ts d'" and "\<And>rest L. mt ((map fst ts @ rest, L), g) = (r, ((rest, L @ ts), g'))"
    unfolding replays_def agrees_def by blast
  from this(2) [of "[]" L] have "mt ((map fst ts, L), g) = (r, (([], L @ ts), g'))" by simp
  with ts show thesis by (rule that)
qed

lemma replays_bind: "replays m mt \<Longrightarrow> (\<And>x. replays (f x) (ft x)) \<Longrightarrow> replays (bindC m f) (bindC mt ft)"
  by (simp add: replays_def causal_bind agrees_bind)

lemma replays_pure:
  assumes "\<And>s g. m (s, g) = (fst (h g), (s, snd (h g)))" and "\<And>s g. mt (s, g) = (fst (h g), (s, snd (h g)))"
  shows "replays m mt"
proof -
  have "causal mt" by (simp add: causal_def assms(2))
  moreover have "agrees m mt"
    unfolding agrees_def by (intro allI impI exI [of _ "[]"]) (simp add: assms)
  ultimately show ?thesis by (simp add: replays_def)
qed

lemma replays_return: "replays (returnC x) (returnC x)"
  by (rule replays_pure [where h = "\<lambda>g. (Inr x, g)"]) simp_all

lemma replays_lift: "replays (liftC x) (liftC x)"
  by (rule replays_pure [where h = "\<lambda>g. (x, g)"]) simp_all

lemma replays_on_snd: "replays (on_snd m) (on_snd m)"
  by (rule replays_pure [where h = m]) (simp_all add: on_snd_def split: prod.split)

lemma replays_taped: "replays (on_fst m) (on_fst (taped m))"
proof -
  have "causal (on_fst (taped m))"
    unfolding causal_def by (auto simp: on_fst_def taped_def split: list.splits prod.splits)
  moreover have "agrees (on_fst m) (on_fst (taped m))"
    unfolding agrees_def
  proof (intro allI impI)
    fix d and g :: 'g and r d' g'
    assume "on_fst m (d, g) = (r, (d', g'))"
    then have "m d = (r, d')" and "g' = g" by (auto simp: on_fst_eq)
    then show "\<exists>ts. solo d ts d' \<and> (\<forall>rest L. on_fst (taped m) ((map fst ts @ rest, L), g) = (r, ((rest, L @ ts), g')))"
      by (intro exI [of _ "[(d, d')]"]) (simp add: on_fst_def taped_def)
  qed
  ultimately show ?thesis by (simp add: replays_def)
qed

lemma replays_mapC: "(\<And>x. replays (m x) (mt x)) \<Longrightarrow> replays (mapC m xs) (mapC mt xs)"
  by (induction xs) (auto intro: replays_return replays_bind)

lemma replays_if: "replays m mt \<Longrightarrow> replays n nt \<Longrightarrow> replays (if b then m else n) (if b then mt else nt)"
  by simp

lemma replays_prod: "(\<And>a b. replays (f a b) (ft a b)) \<Longrightarrow> replays (case p of (a, b) \<Rightarrow> f a b) (case p of (a, b) \<Rightarrow> ft a b)"
  by (cases p) simp

lemmas replays_intros = replays_if replays_bind replays_return replays_lift replays_on_snd replays_taped
  replays_mapC replays_prod

lemma replays_agent_loop: "replays (agent_loop (pg_repo tenant) ra assets report grps)
    (agent_loop (taped_repo tenant) ra assets report grps)"
proof (induction grps arbitrary: report)
  case Nil
  show ?case unfolding agent_loop.simps by (rule replays_return)
next
  case (Cons grp grps)
  have "replays (agent_step (pg_repo tenant) ra assets report grp) (agent_step (taped_repo tenant) ra assets report grp)"
    unfolding agent_step_def Let_def taped_repo_simps pg_repo_simps by (intro replays_intros)
  then show ?case unfolding agent_loop.simps by (rule replays_bind) (rule Cons)
qed

lemma replays_discover_run: "replays (discover_run (pg_repo tenant) ra) (discover_run (taped_repo tenant) ra)"
  unfolding discover_run_def Let_def taped_repo_simps pg_repo_simps by (intro replays_intros replays_agent_loop)

lemma replays_assemble: "replays (assemble_run_report (pg_repo tenant) ra) (assemble_run_report (taped_repo tenant) ra)"
  unfolding assemble_run_report_def Let_def taped_repo_simps pg_repo_simps by (intro replays_intros)

section \<open>The system\<close>

datatype pass_kind = Discovery | Reporting

text \<open>
  A pass: its kind, its tenant and arguments, the state of its gateway (from which every answer it
  gets is drawn), the database it started in and the databases its methods have found so far.
\<close>

record 'g pass =
  ps_kind :: pass_kind
  ps_tenant :: uuid
  ps_args :: "'g run_args"
  ps_gateway_state :: 'g
  ps_started :: db

definition replay :: "'g pass \<Rightarrow> db list \<Rightarrow> tape \<times> 'g" where
  "replay ps ds =
     (let w = ((ds, [(ps_started ps, ps_started ps)]), ps_gateway_state ps) in
      case ps_kind ps of
        Discovery \<Rightarrow> snd (discover_run (taped_repo (ps_tenant ps)) (ps_args ps) w)
      | Reporting \<Rightarrow> snd (assemble_run_report (taped_repo (ps_tenant ps)) (ps_args ps) w))"

definition pass_log :: "'g pass \<Rightarrow> db list \<Rightarrow> transition list" where
  "pass_log ps ds = snd (fst (replay ps ds))"

text \<open>What the sequential passes of Runner and Report do.\<close>

definition sequential :: "'g pass \<Rightarrow> db \<times> 'g \<Rightarrow> bool" where
  "sequential ps w \<longleftrightarrow>
     (case ps_kind ps of
        Discovery \<Rightarrow> snd (discover_run (pg_repo (ps_tenant ps)) (ps_args ps) (ps_started ps, ps_gateway_state ps)) = w
      | Reporting \<Rightarrow> snd (assemble_run_report (pg_repo (ps_tenant ps)) (ps_args ps) (ps_started ps, ps_gateway_state ps)) = w)"

type_synonym 'g passes = "('g pass \<times> db list) list"

inductive interleaved :: "'o deployment \<Rightarrow> 'o store_world \<Rightarrow> db \<Rightarrow> 'g passes \<Rightarrow> bool" for dep where
  begun: "traceable d \<Longrightarrow> interleaved dep st d []"
| other: "interleaved dep st d ps \<Longrightarrow> sys_step dep (st, d, h :: 'g) (st', d', h') \<Longrightarrow> interleaved dep st' d' ps"
| started: "interleaved dep st d ps \<Longrightarrow> ps_started p = d \<Longrightarrow> interleaved dep st d (ps @ [(p, [])])"
| called: "interleaved dep st d ps \<Longrightarrow> i < length ps \<Longrightarrow> ps ! i = (p, ds) \<Longrightarrow>
    pass_log p (ds @ [d]) = pass_log p ds @ [(d, d')] \<Longrightarrow> interleaved dep st d' (ps[i := (p, ds @ [d])])"

section \<open>The guarantee survives every interleaving\<close>

lemma pass_log_sound: "sound (\<lambda>d. True) (replay p ds)"
proof -
  let ?w = "((ds, [(ps_started p, ps_started p)]), ps_gateway_state p)"
  have w: "sound (\<lambda>d. True) ?w" by (simp add: sound_def honest_def)
  show ?thesis
  proof (cases "ps_kind p")
    case Discovery
    obtain r t where run: "discover_run (taped_repo (ps_tenant p)) (ps_args p) ?w = (r, t)"
      by (metis prod.exhaust)
    from hoareD_normal [OF settles_discover_run w] hoareD_raised [OF settles_discover_run w] run
    have "sound (\<lambda>d. True) t" by (cases r) auto
    with Discovery run show ?thesis by (simp add: replay_def)
  next
    case Reporting
    obtain r t where run: "assemble_run_report (taped_repo (ps_tenant p)) (ps_args p) ?w = (r, t)"
      by (metis prod.exhaust)
    from hoareD_normal [OF settles_assemble w] hoareD_raised [OF settles_assemble w] run
    have "sound (\<lambda>d. True) t" by (cases r) auto
    with Reporting run show ?thesis by (simp add: replay_def)
  qed
qed

lemma honest_log: "undisturbed (pass_log p ds) \<Longrightarrow> honest (pass_log p ds)" and pass_log_nonempty: "pass_log p ds \<noteq> []"
  using pass_log_sound [of p ds] by (simp_all add: sound_def pass_log_def)

lemma replay_causal: "causal (discover_run (taped_repo tenant) ra)" "causal (assemble_run_report (taped_repo tenant) ra)"
  using replays_discover_run replays_assemble by (auto simp: replays_def)

lemma pass_log_nil: "pass_log p [] = [(ps_started p, ps_started p)]"
  by (cases "ps_kind p") (simp_all add: pass_log_def replay_def causal_idle [OF replay_causal(1)] causal_idle [OF replay_causal(2)])

text \<open>What is true of every reachable configuration.\<close>

definition in_order :: "db \<Rightarrow> 'g passes \<Rightarrow> bool" where
  "in_order d ps \<longleftrightarrow> traceable d \<and>
     (\<forall>(p, ds) \<in> set ps. undisturbed (pass_log p ds) \<and> refs_kept (last_db (pass_log p ds)) d)"

lemma in_order_step:
  assumes "in_order d ps" and "safe d d'"
  shows "in_order d' ps"
  using assms by (auto simp: in_order_def intro: refs_kept_trans safeD)

lemma interleaved_in_order: "interleaved dep st d ps \<Longrightarrow> in_order d ps"
proof (induction rule: interleaved.induct)
  case (begun d st)
  then show ?case by (simp add: in_order_def)
next
  case (other st d ps h st' d' h')
  from safe_sys_step [OF other(2)] show ?case by (intro in_order_step [OF other.IH]) simp
next
  case (started st d ps p)
  then show ?case by (auto simp: in_order_def pass_log_nil last_db_def)
next
  case (called st d ps i p ds d')
  from called(2,3) have mem: "(p, ds) \<in> set ps" by (metis nth_mem)
  with called.IH have u: "undisturbed (pass_log p ds)" and k: "refs_kept (last_db (pass_log p ds)) d" and t: "traceable d"
    by (auto simp: in_order_def)
  from u k t have u': "undisturbed (pass_log p (ds @ [d]))"
    by (simp add: called(4) undisturbed_snoc pass_log_nonempty)
  then have "safe d d'" using honest_log [of p "ds @ [d]"] by (simp add: called(4))
  from in_order_step [OF called.IH this] have "in_order d' ps" .
  moreover have "refs_kept (last_db (pass_log p (ds @ [d]))) d'" by (simp add: called(4))
  ultimately show ?case using u' by (auto simp: in_order_def dest!: set_update_subset_insert [THEN subsetD])
qed

section \<open>A pass alone\<close>

lemma causal_log:
  assumes "causal m"
  shows "snd (fst (snd (m ((ds @ [e], L), g)))) = snd (fst (snd (m ((ds, L), g)))) \<or>
    (\<exists>e'. snd (fst (snd (m ((ds @ [e], L), g)))) = snd (fst (snd (m ((ds, L), g)))) @ [(e, e')])"
proof -
  obtain r ds' L' g' where run: "m ((ds, L), g) = (r, ((ds', L'), g'))" by (metis prod.exhaust)
  with assms have "m ((ds @ [e], L), g) = (r, ((ds' @ [e], L'), g')) \<or>
    (\<exists>r2 g2 e'. m ((ds @ [e], L), g) = (r2, (([], L' @ [(e, e')]), g2)))" unfolding causal_def by blast
  with run show ?thesis by auto
qed

lemma pass_log_extend:
  obtains (same) "pass_log p (ds @ [e]) = pass_log p ds"
    | (next_call) e' where "pass_log p (ds @ [e]) = pass_log p ds @ [(e, e')]"
proof -
  have "pass_log p (ds @ [e]) = pass_log p ds \<or> (\<exists>e'. pass_log p (ds @ [e]) = pass_log p ds @ [(e, e')])"
    by (cases "ps_kind p") (simp_all add: pass_log_def replay_def causal_log replay_causal)
  then show thesis using that by blast
qed

lemma pass_log_length: "length (pass_log p ds) \<le> Suc (length ds)"
proof (induction ds rule: rev_induct)
  case Nil
  show ?case by (simp add: pass_log_nil)
next
  case (snoc e ds)
  then show ?case by (cases rule: pass_log_extend [of p ds e]) simp_all
qed

text \<open>If every database on the tape was used, so was every prefix.\<close>

lemma pass_log_prefix:
  assumes "pass_log p (map fst (ts @ [t])) = s # ts @ [t]"
  shows "pass_log p (map fst ts) = s # ts"
proof -
  have l: "length (pass_log p (map fst ts)) \<le> Suc (length ts)" using pass_log_length [of p "map fst ts"] by simp
  show ?thesis
  proof (cases rule: pass_log_extend [of p "map fst ts" "fst t"])
    case same
    with assms l show ?thesis by simp
  next
    case (next_call e')
    with assms show ?thesis by simp
  qed
qed

lemma replay_sequential:
  assumes "sequential p (d', g')"
  obtains ts where "solo (ps_started p) ts d'" and "replay p (map fst ts) = (([], (ps_started p, ps_started p) # ts), g')"
proof -
  have "\<exists>ts. solo (ps_started p) ts d' \<and> replay p (map fst ts) = (([], (ps_started p, ps_started p) # ts), g')"
  proof (cases "ps_kind p")
    case Discovery
    with assms have "snd (discover_run (pg_repo (ps_tenant p)) (ps_args p) (ps_started p, ps_gateway_state p)) = (d', g')"
      by (simp add: sequential_def)
    then obtain r where "discover_run (pg_repo (ps_tenant p)) (ps_args p) (ps_started p, ps_gateway_state p) = (r, (d', g'))"
      by (metis prod.collapse)
    from replaysD [OF replays_discover_run this, of "[(ps_started p, ps_started p)]"] obtain ts where "solo (ps_started p) ts d'"
      and "discover_run (taped_repo (ps_tenant p)) (ps_args p) ((map fst ts, [(ps_started p, ps_started p)]), ps_gateway_state p) =
        (r, (([], [(ps_started p, ps_started p)] @ ts), g'))" .
    with Discovery show ?thesis by (intro exI [of _ ts]) (simp add: replay_def)
  next
    case Reporting
    with assms have "snd (assemble_run_report (pg_repo (ps_tenant p)) (ps_args p) (ps_started p, ps_gateway_state p)) = (d', g')"
      by (simp add: sequential_def)
    then obtain r where "assemble_run_report (pg_repo (ps_tenant p)) (ps_args p) (ps_started p, ps_gateway_state p) = (r, (d', g'))"
      by (metis prod.collapse)
    from replaysD [OF replays_assemble this, of "[(ps_started p, ps_started p)]"] obtain ts where "solo (ps_started p) ts d'"
      and "assemble_run_report (taped_repo (ps_tenant p)) (ps_args p) ((map fst ts, [(ps_started p, ps_started p)]), ps_gateway_state p) =
        (r, (([], [(ps_started p, ps_started p)] @ ts), g'))" .
    with Reporting show ?thesis by (intro exI [of _ ts]) (simp add: replay_def)
  qed
  then show thesis using that by blast
qed

lemma solo_steps:
  assumes "interleaved dep st (ps_started p) ps" and "solo (ps_started p) ts d'"
    and "pass_log p (map fst ts) = (ps_started p, ps_started p) # ts"
  shows "interleaved dep st d' (ps @ [(p, map fst ts)])"
  using assms(2,3)
proof (induction ts arbitrary: d' rule: rev_induct)
  case Nil
  with started [OF assms(1)] show ?case by simp
next
  case (snoc t ts)
  from snoc.prems(1) obtain c where c: "solo (ps_started p) ts c" and t: "t = (c, d')"
    by (cases t) (auto simp: solo_append)
  note before = pass_log_prefix [OF snoc.prems(2)]
  from snoc.IH [OF c before] have "interleaved dep st c (ps @ [(p, map fst ts)])" .
  from called [OF this, of "length ps" p "map fst ts" d'] snoc.prems(2) before t show ?case
    by (simp add: nth_append list_update_append)
qed

lemma sequential_interleaves:
  assumes "interleaved dep st d ps" and "ps_started p = d" and "sequential p (d', g')"
  shows "\<exists>ds. replay p ds = (([], pass_log p ds), g') \<and> interleaved dep st d' (ps @ [(p, ds)])"
proof -
  from replay_sequential [OF assms(3)] obtain ts where ts: "solo (ps_started p) ts d'"
    and r: "replay p (map fst ts) = (([], (ps_started p, ps_started p) # ts), g')" .
  then have l: "pass_log p (map fst ts) = (ps_started p, ps_started p) # ts" by (simp add: pass_log_def)
  from assms(1,2) have "interleaved dep st (ps_started p) ps" by simp
  from solo_steps [OF this ts l] r l show ?thesis by (intro exI [of _ "map fst ts"]) simp
qed

section \<open>Properties\<close>

text \<open>
  C1. The system's integrity guarantee under concurrency: however the methods of any number of
  discovery and report passes interleave with one another, with uploads, with the normalizer's
  statements and with uninterrupted passes, every stored observation cites evidence of its own run
  and describes assets of its own run, every stored section embeds only observations of its own
  run, and observation identifiers stay unique.
\<close>

theorem interleaved_traceable:
  assumes "interleaved dep st d ps"
  shows "traceable d"
  using interleaved_in_order [OF assms] by (simp add: in_order_def)

text \<open>Two discovery passes over the run of \<open>sample_db\<close>, the second one inside the first.\<close>

definition outer_pass :: "unit pass" where
  "outer_pass = \<lparr>ps_kind = Discovery, ps_tenant = 5, ps_args = sample_args, ps_gateway_state = (), ps_started = sample_db\<rparr>"

definition inner_pass :: "unit pass" where
  "inner_pass = outer_pass\<lparr>ps_started := sample_started\<rparr>"

lemma sample_traceable: "traceable sample_db"
  by (simp add: traceable_def sample_db_def)

lemma start_again: "pg_set_run_status 9 ''discovering'' sample_db = (Inr (), sample_started)"
    "pg_set_run_status 9 ''discovering'' sample_started = (Inr (), sample_started)"
  by (simp_all add: pg_set_run_status_def sample_started_def sample_db_def update_run_status_def)

lemma sample_sequential:
  assumes "p \<in> {outer_pass, inner_pass}"
  obtains d' where "sequential p (d', ())" and "map observation_write.truncate (db_observations d') = [sample_write]"
proof -
  obtain report d' where r: "discover_run (pg_repo 5) sample_args (sample_db, ()) = (Inr report, (d', ()))"
    and o: "map observation_write.truncate (db_observations d') = [sample_write]"
    by (rule sample_pass)
  have "discover_run (pg_repo 5) sample_args (sample_started, ()) = discover_run (pg_repo 5) sample_args (sample_db, ())"
  proof -
    have "ra_run_id sample_args = 9" by (simp add: sample_args_def)
    then show ?thesis by (simp add: discover_run_def bindC_def [of "on_fst (pg_set_run_status 9 ''discovering'')"]
        on_fst_def [of "pg_set_run_status 9 ''discovering''"] start_again)
  qed
  with r assms have "sequential p (d', ())" by (auto simp: sequential_def inner_pass_def outer_pass_def)
  from this o show thesis by (rule that)
qed

lemma outer_first: "pass_log outer_pass [sample_db] = [(sample_db, sample_db), (sample_db, sample_started)]"
  "pass_log outer_pass [sample_db, d] = [(sample_db, sample_db), (sample_db, sample_started), (d, d)]"
  by (simp_all add: pass_log_def replay_def outer_pass_def discover_run_def bindC_def on_fst_def taped_def start_again
      sample_args_def pg_categories_present_def)

theorem interleaved_traceable_witness:
  "\<exists>d ps. interleaved sample_dep (True, ()) d (ps :: unit passes) \<and> length ps = 2 \<and>
     map observation_write.truncate (db_observations d) = [sample_write] \<and> traceable d"
proof -
  have "interleaved sample_dep (True, ()) sample_db ([] @ [(outer_pass, [])])"
    by (intro started begun sample_traceable) (simp add: outer_pass_def)
  then have "interleaved sample_dep (True, ()) sample_db [(outer_pass, [])]" by simp
  from called [OF this, of 0 outer_pass "[]" sample_started]
  have one: "interleaved sample_dep (True, ()) sample_started [(outer_pass, [sample_db])]"
    by (simp add: outer_first pass_log_nil) (simp add: outer_pass_def)
  obtain d' where "sequential inner_pass (d', ())" and o: "map observation_write.truncate (db_observations d') = [sample_write]"
    by (rule sample_sequential [of inner_pass]) simp_all
  from sequential_interleaves [OF one _ this(1)] obtain ds where
    "interleaved sample_dep (True, ()) d' [(outer_pass, [sample_db]), (inner_pass, ds)]"
    by (auto simp: inner_pass_def)
  from called [OF this, of 0 outer_pass "[sample_db]" d']
  have i: "interleaved sample_dep (True, ()) d' [(outer_pass, [sample_db, d']), (inner_pass, ds)]"
    by (simp add: outer_first)
  from interleaved_traceable [OF i] i o show ?thesis
    by (intro exI [of _ d'] exI [of _ "[(outer_pass, [sample_db, d']), (inner_pass, ds)]"]) simp
qed



end
