(* ===== verification/Rerun.thy ===== *)
theory Rerun
  imports Runner
begin

text \<open>
  Running the discovery of a run again. The pass reads evidence, assets and categories, none of
  which it changes, so with a gateway that gives the same answers a second pass does what the first
  one did: it is deterministic, and not idempotent.
\<close>

context repo_store
begin

text \<open>
  Two executions of a command from stores with the same inputs and the same gateway state: if the
  first returns, the second raises or returns the same, and both write the same observations.
\<close>

definition mirrors :: "('s \<times> 'g, 'a) cmd \<Rightarrow> bool" where
  "mirrors m \<longleftrightarrow>
     (\<forall>s t g x s' g' y t' h. inputs s = inputs t \<longrightarrow> m (s, g) = (Inr x, (s', g')) \<longrightarrow> m (t, g) = (Inr y, (t', h)) \<longrightarrow>
        y = x \<and> h = g' \<and> inputs s' = inputs t' \<and>
        (\<exists>new. rv_written (view s') = rv_written (view s) @ new \<and> rv_written (view t') = rv_written (view t) @ new))"

lemma mirrorsD:
  assumes "mirrors m" and "inputs s = inputs t" and "m (s, g) = (Inr x, (s', g'))" and "m (t, g) = (Inr y, (t', h))"
  obtains new where "y = x" and "h = g'" and "inputs s' = inputs t'"
    and "rv_written (view s') = rv_written (view s) @ new" and "rv_written (view t') = rv_written (view t) @ new"
  using assms unfolding mirrors_def by blast

lemma mirrors_bind:
  assumes "mirrors m" and "\<And>x. mirrors (f x)"
  shows "mirrors (bindC m f)"
  unfolding mirrors_def
proof (intro allI impI)
  fix s t g x s' g' y t' h
  assume i: "inputs s = inputs t" and "bindC m f (s, g) = (Inr x, (s', g'))" and "bindC m f (t, g) = (Inr y, (t', h))"
  then obtain a s1 g1 b t1 h1 where m: "m (s, g) = (Inr a, (s1, g1))" "m (t, g) = (Inr b, (t1, h1))"
    and f: "f a (s1, g1) = (Inr x, (s', g'))" "f b (t1, h1) = (Inr y, (t', h))"
    by (auto elim!: bindC_cases)
  from mirrorsD [OF assms(1) i m] obtain new where same: "b = a" "h1 = g1" "inputs s1 = inputs t1"
    and w: "rv_written (view s1) = rv_written (view s) @ new" "rv_written (view t1) = rv_written (view t) @ new" .
  from f(2) same(1,2) have "f a (t1, g1) = (Inr y, (t', h))" by simp
  from mirrorsD [OF assms(2) same(3) f(1) this] obtain new' where "y = x" "h = g'" "inputs s' = inputs t'"
    and "rv_written (view s') = rv_written (view s1) @ new'" "rv_written (view t') = rv_written (view t1) @ new'" .
  with w show "y = x \<and> h = g' \<and> inputs s' = inputs t' \<and>
      (\<exists>new. rv_written (view s') = rv_written (view s) @ new \<and> rv_written (view t') = rv_written (view t) @ new)"
    by simp
qed

lemma mirrors_on_fst:
  assumes "\<And>s t x s' y t'. inputs s = inputs t \<Longrightarrow> m s = (Inr x, s') \<Longrightarrow> m t = (Inr y, t') \<Longrightarrow>
    y = x \<and> inputs s' = inputs t' \<and>
    (\<exists>new. rv_written (view s') = rv_written (view s) @ new \<and> rv_written (view t') = rv_written (view t) @ new)"
  shows "mirrors (on_fst m)"
  unfolding mirrors_def
proof (intro allI impI)
  fix s t and g :: 'g and x s' g' y t' h
  assume i: "inputs s = inputs t" and "on_fst m (s, g) = (Inr x, (s', g'))" and "on_fst m (t, g) = (Inr y, (t', h))"
  then have m: "m s = (Inr x, s')" "m t = (Inr y, t')" and g: "g' = g" "h = g" by (auto simp: on_fst_eq)
  from assms [OF i m] g show "y = x \<and> h = g' \<and> inputs s' = inputs t' \<and>
      (\<exists>new. rv_written (view s') = rv_written (view s) @ new \<and> rv_written (view t') = rv_written (view t) @ new)" by simp
qed

lemma mirrors_pure:
  assumes "\<And>s g. m (s, g) = (fst (k g), (s, snd (k g)))"
  shows "mirrors m"
  unfolding mirrors_def by (auto simp: assms)

lemma mirrors_return: "mirrors (returnC x)"
  by (rule mirrors_pure [where k = "\<lambda>g. (Inr x, g)"]) simp

lemma mirrors_lift: "mirrors (liftC x)"
  by (rule mirrors_pure [where k = "\<lambda>g. (x, g)"]) simp

lemma mirrors_on_snd: "mirrors (on_snd m)"
  by (rule mirrors_pure [where k = m]) (simp add: on_snd_def split: prod.split)

lemma mirrors_evidence: "mirrors (on_fst (evidence_for_category ops r c))"
  by (rule mirrors_on_fst) (auto simp: evidence_for_category inputs_def)

lemma mirrors_assets: "mirrors (on_fst (assets_for_run ops r))"
  by (rule mirrors_on_fst) (auto simp: assets_for_run inputs_def)

lemma mirrors_categories: "mirrors (on_fst (categories_present ops r))"
  by (rule mirrors_on_fst) (auto simp: categories_present inputs_def)

lemma mirrors_write: "mirrors (on_fst (write_observations ops xs))"
  by (rule mirrors_on_fst) (auto simp: inputs_write dest!: write_observations_returns)

lemma mirrors_status: "mirrors (on_fst (set_run_status ops r st))"
  by (rule mirrors_on_fst) (auto simp: inputs_status view_status_def dest!: set_status_returns)

lemma mirrors_audit: "mirrors (on_fst (audit ops r a md))"
  by (rule mirrors_on_fst) (auto simp: inputs_audit dest!: audit_returns)

lemma mirrors_mapC: "(\<And>x. mirrors (m x)) \<Longrightarrow> mirrors (mapC m xs)"
  by (induction xs) (simp_all add: mirrors_return mirrors_bind)

lemma mirrors_if: "mirrors m \<Longrightarrow> mirrors n \<Longrightarrow> mirrors (if b then m else n)"
  by simp

lemma mirrors_prod: "(\<And>a b. mirrors (f a b)) \<Longrightarrow> mirrors (case p of (a, b) \<Rightarrow> f a b)"
  by (cases p) simp

lemmas mirrors_intros = mirrors_if mirrors_bind mirrors_return mirrors_lift mirrors_on_snd mirrors_evidence
  mirrors_assets mirrors_categories mirrors_write mirrors_status mirrors_audit mirrors_mapC mirrors_prod

lemma mirrors_agent_loop: "mirrors (agent_loop ops ra assets report grps)"
proof (induction grps arbitrary: report)
  case Nil
  show ?case unfolding agent_loop.simps by (rule mirrors_return)
next
  case (Cons grp grps)
  show ?case unfolding agent_loop.simps agent_step_def Let_def by (intro mirrors_intros Cons)
qed

lemma mirrors_discover_run: "mirrors (discover_run ops ra)"
  unfolding discover_run_def Let_def by (intro mirrors_intros mirrors_agent_loop)

end

section \<open>Property\<close>

text \<open>Databases in which the sample pass does the same.\<close>

definition like_sample :: "db \<Rightarrow> bool" where
  "like_sample d \<longleftrightarrow> db_assets d = db_assets sample_db \<and> db_evidence d = db_evidence sample_db \<and>
     db_collate d = db_collate sample_db \<and> db_gen d = db_gen sample_db \<and> has_run d 9 \<and> has_tenant d 5 \<and>
     of_nat (db_next d) \<notin> ob_id ` set (db_observations d)"

lemma like_sample_reads:
  assumes "like_sample d"
  shows "pg_categories_present 9 d = (Inr [''hardware''], d)" and "pg_assets_for_run 9 d = (Inr [sample_asset], d)"
    and "pg_evidence_for_category 9 ''hardware'' d = (Inr [sample_evidence], d)"
  using assms
  by (simp_all add: like_sample_def pg_categories_present_def pg_assets_for_run_def pg_evidence_for_category_def
      run_evidence_def sample_db_def sample_asset_def sample_evidence_def to_asset_row_def to_evidence_row_def py_or_def)

lemma like_sample_writes:
  assumes "like_sample d"
  shows "pg_write_observations 5 [sample_write] d =
     (Inr 1, d\<lparr>db_observations := db_observations d @ [observation_write.extend sample_write
        \<lparr>ob_id = of_nat (db_next d), ob_tenant = 5, ob_created_at = db_now d\<rparr>], db_next := Suc (db_next d)\<rparr>)"
  using assms
  by (simp add: pg_write_observations_def transaction_def insert_observation_def bindC_def like_sample_def
      sample_db_def sample_write_def to_write_sample domain_of_def all_domains_def
      evidence_ids_check_def check_passes_def array_length_def has_asset_def)

lemma like_sample_pass:
  assumes "like_sample d"
  obtains report d' where "discover_run (pg_repo 5) sample_args (d, ()) = (Inr report, (d', ()))"
    and "map observation_write.truncate (db_observations d') = map observation_write.truncate (db_observations d) @ [sample_write]"
    and "db_next d' = Suc (db_next d)" and "db_assets d' = db_assets d" and "db_evidence d' = db_evidence d"
    and "db_collate d' = db_collate d" and "db_gen d' = db_gen d" and "has_run d' 9" and "has_tenant d' 5"
    and "ob_id ` set (db_observations d') = insert (of_nat (db_next d)) (ob_id ` set (db_observations d))"
proof -
  let ?start = "d\<lparr>db_runs := update_run_status 9 DISCOVERING (db_runs d)\<rparr>"
  from assms have like: "like_sample ?start" by (simp add: like_sample_def has_run_def has_tenant_def)
  obtain dr where run: "run_domain sample_gateway 9 sample_agent ''hardware'' [sample_evidence] [sample_asset] ''t''
      ''normal'' ''standard'' () = (Inr dr, ())"
    and obs: "dr_observations dr = [sample_write]"
    using sample_run by (auto simp: sample_write_def run_domain_def sample_gateway_def)
  have status: "pg_set_run_status 9 ''discovering'' d = (Inr (), ?start)"
    "pg_set_run_status 9 ''reporting'' e = (Inr (), e\<lparr>db_runs := update_run_status 9 REPORTING (db_runs e)\<rparr>)" for e
    by (simp_all add: pg_set_run_status_def)
  have log: "pg_audit 5 9 action md e = (Inr (), e\<lparr>db_audit := db_audit e @
      [\<lparr>au_tenant = 5, au_actor = ''orchestrator'', au_action = action, au_resource_type = ''run'',
        au_resource_id = uuid_str 9, au_metadata = md\<rparr>]\<rparr>)" for action md e
    by (simp add: pg_audit_def transaction_def insert_audit_def)
  have grp: "group_categories [''hardware''] [] [] = ([], [(''hardware'', ''hardware'', [''hardware''])])"
    by (simp add: binding_for_def CATEGORY_BINDINGS_def add_category_def)
  have reg: "reg_contains [(''hardware'', sample_agent)] ''hardware''" "reg_get [(''hardware'', sample_agent)] ''hardware'' = Inr sample_agent"
    by (simp_all add: reg_contains_def reg_get_def)
  have args: "ra_run_id sample_args = 9" "ra_gateway sample_args = sample_gateway" "ra_tenant_id sample_args = ''t''"
    "ra_budget_hint sample_args = ''normal''" "ra_privacy sample_args = ''standard''"
    "ra_registry sample_args = [(''hardware'', sample_agent)]"
    by (simp_all add: sample_args_def)
  let ?wrote = "?start\<lparr>db_observations := db_observations d @ [observation_write.extend sample_write
        \<lparr>ob_id = of_nat (db_next d), ob_tenant = 5, ob_created_at = db_now d\<rparr>], db_next := Suc (db_next d)\<rparr>"
  have stored: "pg_write_observations 5 [sample_write] ?start = (Inr 1, ?wrote)"
    using like_sample_writes [OF like] by simp
  have step: "agent_step (pg_repo 5) sample_args [sample_asset] r (''hardware'', ''hardware'', [''hardware'']) (?start, ()) =
      (Inr (add_result ''hardware'' 1 dr r), (snd (pg_audit 5 9 ''discovery.agent_run''
         (agent_run_metadata ''hardware'' ''hardware'' 1 1 dr) ?wrote), ()))" for r
    by (simp add: agent_step_def bindC_def on_fst_def on_snd_def reg args like_sample_reads [OF like] run obs
        stored log)
  let ?done = "snd (pg_audit 5 9 ''discovery.agent_run'' (agent_run_metadata ''hardware'' ''hardware'' 1 1 dr) ?wrote)"
  let ?report = "add_result ''hardware'' 1 dr ((new_report 9)\<lparr>rr_dropped := []\<rparr>)"
  let ?final = "snd (pg_audit 5 9 ''discovery.complete'' [(''observations'', ACount (rr_observations_written ?report)),
      (''dropped'', ACount (length (rr_dropped ?report))), (''cost_usd'', AFloat (rr_cost_usd ?report))]
      (?done\<lparr>db_runs := update_run_status 9 REPORTING (db_runs ?done)\<rparr>))"
  have pass: "discover_run (pg_repo 5) sample_args (d, ()) = (Inr ?report, (?final, ()))"
    by (simp add: discover_run_def bindC_def on_fst_def args status like_sample_reads [OF like] grp step
        log del: group_categories.simps)
  from assms have "has_run d 9" "has_tenant d 5" by (simp_all add: like_sample_def)
  then show thesis by (intro that [OF pass]) (simp_all add: log has_run_def has_tenant_def observation_write.defs)
qed

lemma discovers_again:
  assumes "discover_run (pg_repo tenant) ra (d, g) = (Inr report, (d1, g1))"
    and "discover_run (pg_repo tenant) ra (d1, g) = (Inr report', (d2, g2))"
  shows "report' = report \<and> (\<exists>new.
    map observation_write.truncate (db_observations d1) = map observation_write.truncate (db_observations d) @ new \<and>
    map observation_write.truncate (db_observations d2) = map observation_write.truncate (db_observations d1) @ new)"
proof -
  have "pg.inputs d = pg.inputs d1"
    using assms(1) by (cases rule: pg.discover_run_cases) (simp_all add: pg.inputs_def view_status_def)
  from pg.mirrorsD [OF pg.mirrors_discover_run this assms] obtain new where "report' = report"
    and "rv_written (pg_view d1) = rv_written (pg_view d) @ new" and "rv_written (pg_view d2) = rv_written (pg_view d1) @ new" .
  then show ?thesis by (auto simp: pg_view_fields)
qed

text \<open>
  C30. Discovery is not idempotent: running the pass again over the same run, with a gateway that
  gives the same answers, returns the same report and stores every observation of the first pass a
  second time.
\<close>

theorem discover_again_duplicates:
  assumes "discover_run (pg_repo tenant) ra (d, g) = (Inr report, (d1, g1))"
    and "discover_run (pg_repo tenant) ra (d1, g) = (Inr report', (d2, g2))"
  shows "report' = report \<and> (\<exists>new.
    map observation_write.truncate (db_observations d1) = map observation_write.truncate (db_observations d) @ new \<and>
    map observation_write.truncate (db_observations d2) = map observation_write.truncate (db_observations d1) @ new)"
  using assms by (rule discovers_again)

theorem discover_again_duplicates_witness:
  "\<exists>report d1 d2. discover_run (pg_repo 5) sample_args (sample_db, ()) = (Inr report, (d1, ())) \<and>
     discover_run (pg_repo 5) sample_args (d1, ()) = (Inr report, (d2, ())) \<and>
     map observation_write.truncate (db_observations d2) = [sample_write, sample_write]"
proof -
  have "like_sample sample_db" by (simp add: like_sample_def sample_db_def has_run_def has_tenant_def)
  then obtain report d1 where r1: "discover_run (pg_repo 5) sample_args (sample_db, ()) = (Inr report, (d1, ()))"
    and o1: "map observation_write.truncate (db_observations d1) = map observation_write.truncate (db_observations sample_db) @ [sample_write]"
    and f: "db_next d1 = Suc (db_next sample_db)" "db_assets d1 = db_assets sample_db" "db_evidence d1 = db_evidence sample_db"
      "db_collate d1 = db_collate sample_db" "db_gen d1 = db_gen sample_db" "has_run d1 9" "has_tenant d1 5"
    and ids: "ob_id ` set (db_observations d1) = insert (of_nat (db_next sample_db)) (ob_id ` set (db_observations sample_db))"
    by (rule like_sample_pass)
  have "of_nat (db_next d1) \<notin> ob_id ` set (db_observations d1)"
    unfolding ids f(1) by (simp add: sample_db_def)
  with f have "like_sample d1" by (simp add: like_sample_def)
  then obtain report' d2 where r2: "discover_run (pg_repo 5) sample_args (d1, ()) = (Inr report', (d2, ()))"
    by (rule like_sample_pass)
  from discover_again_duplicates [OF r1 r2] r1 r2 o1 show ?thesis by (auto simp: sample_db_def)
qed

end
