(* ===== verification/Report_Render.thy ===== *)
theory Report_Render
  imports Markers Py_Text "HOL-Library.AList" "HOL-Library.Multiset"
begin

text \<open>
  \<open>auditcore_report/render.py\<close>: the deterministic report of a run. Rows are dictionaries. Jinja2 and
  WeasyPrint are not under src: a template is a function of its name and its context, the PDF
  renderer an optional function, absent when the import fails.
\<close>

section \<open>Constants and data\<close>

definition DOMAIN_ORDER :: "string list" where
  "DOMAIN_ORDER =
     [''hardware'', ''software'', ''network'', ''security'', ''performance'', ''cloud'', ''k8s'', ''db'']"

definition DOMAIN_LABELS :: "(string \<times> string) list" where
  "DOMAIN_LABELS =
     [(''hardware'', ''Hardware''), (''software'', ''Software''), (''network'', ''Network''),
      (''security'', ''Security''), (''performance'', ''Performance''), (''cloud'', ''Cloud''),
      (''k8s'', ''Kubernetes''), (''db'', ''Database'')]"

record report_data =
  pd_run :: pydict
  pd_assets :: "pydict list"
  pd_evidence :: "pydict list"
  pd_observations :: "pydict list"

section \<open>Grouping and counting\<close>

type_synonym domain_groups = "(string \<times> pydict list) list"

definition row_domain :: "pydict \<Rightarrow> string res" where
  "row_domain obs = str_key (dict_get obs ''domain'' (PyStr ''software''))"

text \<open>\<open>grouped.setdefault(k, []).append(obs)\<close>: a known key keeps its place, a new one goes last.\<close>

definition append_to :: "string \<Rightarrow> pydict \<Rightarrow> domain_groups \<Rightarrow> domain_groups" where
  "append_to k obs grouped =
     AList.update k ((case map_of grouped k of None \<Rightarrow> [] | Some xs \<Rightarrow> xs) @ [obs]) grouped"

fun group_rows :: "pydict list \<Rightarrow> domain_groups \<Rightarrow> domain_groups res" where
  "group_rows [] grouped = Inr grouped"
| "group_rows (obs # rest) grouped =
     bindE (row_domain obs) (\<lambda>k. group_rows rest (append_to k obs grouped))"

fun ordered_known :: "string list \<Rightarrow> domain_groups \<Rightarrow> domain_groups" where
  "ordered_known [] grouped = []"
| "ordered_known (d # ds) grouped =
     (case map_of grouped d of
        Some (x # xs) \<Rightarrow> (d, x # xs) # ordered_known ds grouped
      | _ \<Rightarrow> ordered_known ds grouped)"

definition observations_by_domain :: "pydict list \<Rightarrow> domain_groups res" where
  "observations_by_domain observations =
     bindE (group_rows observations []) (\<lambda>grouped.
       Inr (ordered_known DOMAIN_ORDER grouped
            @ filter (\<lambda>(domain, items). map_of DOMAIN_LABELS domain = None) grouped))"

text \<open>\<open>r.get(key, "unknown")\<close> as a key.\<close>

definition row_key :: "string \<Rightarrow> pydict \<Rightarrow> string res" where
  "row_key key r = str_key (dict_get r key (PyStr ''unknown''))"

fun count_loop :: "string \<Rightarrow> pydict list \<Rightarrow> (string \<times> nat) list \<Rightarrow> (string \<times> nat) list res" where
  "count_loop key [] out = Inr out"
| "count_loop key (r # rows) out =
     bindE (row_key key r) (\<lambda>k.
       count_loop key rows (AList.update k ((case map_of out k of None \<Rightarrow> 0 | Some n \<Rightarrow> n) + 1) out))"

text \<open>\<open>sorted(out.items())\<close>: the keys are distinct, so the counts are never compared.\<close>

definition count_by :: "pydict list \<Rightarrow> string \<Rightarrow> (string \<times> nat) list res" where
  "count_by rows key = bindE (count_loop key rows []) (\<lambda>out. Inr (sort_key fst out))"

section \<open>Rendering\<close>

record render_context =
  rc_data :: report_data
  rc_generated_at :: string
  rc_domains :: domain_groups
  rc_domain_labels :: "(string \<times> string) list"
  rc_evidence_by_category :: "(string \<times> nat) list"

definition check_audience :: "string \<Rightarrow> unit res" where
  "check_audience audience =
     (if audience \<in> set [''technical'', ''summary''] then Inr ()
      else Inl (ValueError (''unknown audience: '' @ audience)))"

definition render_html ::
  "(string \<Rightarrow> render_context \<Rightarrow> string res) \<Rightarrow> string \<Rightarrow> report_data \<Rightarrow> string \<Rightarrow> string res" where
  "render_html tpl now data audience =
     bindE (check_audience audience) (\<lambda>_.
     bindE (observations_by_domain (pd_observations data)) (\<lambda>domains.
     bindE (count_by (pd_evidence data) ''category'') (\<lambda>counts.
     tpl (audience @ ''.html.j2'')
       \<lparr>rc_data = data, rc_generated_at = now, rc_domains = domains, rc_domain_labels = DOMAIN_LABELS,
        rc_evidence_by_category = counts\<rparr>)))"

definition render_pdf :: "(string \<Rightarrow> 'b res) option \<Rightarrow> string \<Rightarrow> 'b res" where
  "render_pdf weasyprint html =
     (case weasyprint of
        None \<Rightarrow> Inl (RuntimeError (''PDF rendering requires the `pdf` extra: '' @
                  ''pip install auditcore-report-generator[pdf]''))
      | Some write_pdf \<Rightarrow> write_pdf html)"

section \<open>What the grouping is\<close>

text \<open>The reference: a table over the keys in the order they first appear.\<close>

definition first_order :: "string list \<Rightarrow> string list" where
  "first_order ks = rev (remdups (rev ks))"

definition tally :: "(string \<Rightarrow> 'v) \<Rightarrow> string list \<Rightarrow> (string \<times> 'v) list" where
  "tally f ks = map (\<lambda>k. (k, f k)) (first_order ks)"

lemma first_order_simps [simp]:
  "first_order [] = []" "set (first_order ks) = set ks" "distinct (first_order ks)"
  "first_order (ks @ [k]) = (if k \<in> set ks then first_order ks else first_order ks @ [k])"
  by (simp_all add: first_order_def)

lemma tally_Nil [simp]: "tally f [] = []"
  by (simp add: tally_def)

lemma map_of_tally: "map_of (tally f ks) k = (if k \<in> set ks then Some (f k) else None)"
  by (auto simp: tally_def map_of_map_restrict restrict_map_def)

lemma update_pairs:
  "distinct ks \<Longrightarrow> AList.update k v (map (\<lambda>d. (d, f d)) ks) =
     (if k \<in> set ks then map (\<lambda>d. (d, if d = k then v else f d)) ks else map (\<lambda>d. (d, f d)) ks @ [(k, v)])"
  by (induction ks) auto

lemma tally_update:
  assumes "\<And>d. d \<noteq> k \<Longrightarrow> f' d = f d" and "f' k = v"
  shows "AList.update k v (tally f ks) = tally f' (ks @ [k])"
proof -
  have f': "f' = (\<lambda>d. if d = k then v else f d)" using assms by (auto simp: fun_eq_iff)
  have "map (\<lambda>d. (d, f d)) (first_order ks) = map (\<lambda>d. (d, f' d)) (first_order ks)" if "k \<notin> set ks"
    using that by (auto simp: f')
  then show ?thesis
    using update_pairs [of "first_order ks" k v f] by (auto simp: tally_def f')
qed

lemma tally_keep_known:
  "filter (\<lambda>(k, v). P k) (tally f ks) = map (\<lambda>k. (k, f k)) (filter P (first_order ks))"
  by (simp add: tally_def filter_map comp_def)

definition row_keys :: "(pydict \<Rightarrow> string res) \<Rightarrow> pydict list \<Rightarrow> string list" where
  "row_keys key rows = map (\<lambda>r. projr (key r)) rows"

definition keyed :: "(pydict \<Rightarrow> string res) \<Rightarrow> string \<Rightarrow> pydict list \<Rightarrow> pydict list" where
  "keyed key k rows = filter (\<lambda>r. key r = Inr k) rows"

definition keys_ok :: "(pydict \<Rightarrow> string res) \<Rightarrow> pydict list \<Rightarrow> bool" where
  "keys_ok key rows \<longleftrightarrow> (\<forall>r \<in> set rows. \<not> isl (key r))"

lemma keyed_simps [simp]:
  "keyed key k [] = []" "keyed key k (rows @ rows') = keyed key k rows @ keyed key k rows'"
  "keyed key k (r # rows) = (if key r = Inr k then r # keyed key k rows else keyed key k rows)"
  by (simp_all add: keyed_def)

lemma row_keys_simps [simp]:
  "row_keys key [] = []" "row_keys key (rows @ rows') = row_keys key rows @ row_keys key rows'"
  "row_keys key (r # rows) = projr (key r) # row_keys key rows"
  by (simp_all add: row_keys_def)

lemma keys_ok_simps [simp]:
  "keys_ok key []" "keys_ok key (rows @ rows') \<longleftrightarrow> keys_ok key rows \<and> keys_ok key rows'"
  "keys_ok key (r # rows) \<longleftrightarrow> \<not> isl (key r) \<and> keys_ok key rows"
  by (auto simp: keys_ok_def)

lemma not_isl_Inr: "\<not> isl x \<Longrightarrow> x = Inr (projr x)"
  by (cases x) auto

lemma keyed_absent: "keys_ok key rows \<Longrightarrow> k \<notin> set (row_keys key rows) \<Longrightarrow> keyed key k rows = []"
  by (force simp: keyed_def row_keys_def filter_empty_conv)

lemma keyed_present: "keys_ok key rows \<Longrightarrow> k \<in> set (row_keys key rows) \<Longrightarrow> keyed key k rows \<noteq> []"
  by (auto simp: keyed_def row_keys_def filter_empty_conv keys_ok_def dest!: not_isl_Inr)

text \<open>Both loops compute such a table.\<close>

lemma group_rows_append:
  "group_rows (rows @ rows') g = bindE (group_rows rows g) (group_rows rows')"
  by (induction rows arbitrary: g) (auto simp: bindE_def split: sum.split)

lemma group_rows_tally:
  "keys_ok row_domain rows \<Longrightarrow>
   group_rows rows [] = Inr (tally (\<lambda>k. keyed row_domain k rows) (row_keys row_domain rows))"
proof (induction rows rule: rev_induct)
  case Nil
  show ?case by simp
next
  case (snoc r rows)
  then obtain k where k: "row_domain r = Inr k" by (auto dest!: not_isl_Inr)
  have "append_to k r (tally (\<lambda>k. keyed row_domain k rows) (row_keys row_domain rows)) =
      tally (\<lambda>k. keyed row_domain k (rows @ [r])) (row_keys row_domain rows @ [k])"
    unfolding append_to_def using snoc.prems keyed_absent [of row_domain rows k]
    by (intro tally_update) (simp_all add: k map_of_tally)
  with snoc k show ?case by (simp add: group_rows_append)
qed

lemma count_loop_append:
  "count_loop key (rows @ rows') out = bindE (count_loop key rows out) (count_loop key rows')"
  by (induction rows arbitrary: out) (auto simp: bindE_def split: sum.split)

lemma count_loop_tally:
  "keys_ok (row_key key) rows \<Longrightarrow>
   count_loop key rows [] = Inr (tally (\<lambda>k. length (keyed (row_key key) k rows)) (row_keys (row_key key) rows))"
proof (induction rows rule: rev_induct)
  case Nil
  show ?case by simp
next
  case (snoc r rows)
  then obtain k where k: "row_key key r = Inr k" by (auto dest!: not_isl_Inr)
  let ?t = "tally (\<lambda>k. length (keyed (row_key key) k rows)) (row_keys (row_key key) rows)"
  have "AList.update k ((case map_of ?t k of None \<Rightarrow> 0 | Some n \<Rightarrow> n) + 1) ?t =
      tally (\<lambda>k. length (keyed (row_key key) k (rows @ [r]))) (row_keys (row_key key) rows @ [k])"
    using snoc.prems keyed_absent [of "row_key key" rows k]
    by (intro tally_update) (simp_all add: k map_of_tally)
  with snoc k show ?case by (simp add: count_loop_append)
qed

lemma ordered_known_tally:
  "(\<And>k. k \<in> set ks \<Longrightarrow> f k \<noteq> []) \<Longrightarrow>
   ordered_known ds (tally f ks) = map (\<lambda>d. (d, f d)) (filter (\<lambda>d. d \<in> set ks) ds)"
  by (induction ds) (auto simp: map_of_tally split: list.split)

lemma no_label_iff: "map_of DOMAIN_LABELS d = None \<longleftrightarrow> d \<notin> set DOMAIN_ORDER"
  by (auto simp: map_of_eq_None_iff DOMAIN_LABELS_def DOMAIN_ORDER_def)

lemma observations_by_domain_exact:
  assumes "keys_ok row_domain rows"
  shows "observations_by_domain rows = Inr (map (\<lambda>d. (d, keyed row_domain d rows))
     (filter (\<lambda>d. d \<in> set (row_keys row_domain rows)) DOMAIN_ORDER @
      filter (\<lambda>d. d \<notin> set DOMAIN_ORDER) (first_order (row_keys row_domain rows))))"
  using keyed_present [OF assms]
  by (simp add: observations_by_domain_def group_rows_tally [OF assms] ordered_known_tally no_label_iff tally_keep_known)

lemma count_by_exact:
  assumes "keys_ok (row_key key) rows"
  shows "count_by rows key = Inr (map (\<lambda>k. (k, length (keyed (row_key key) k rows)))
     (sort (first_order (row_keys (row_key key) rows))))"
proof -
  have "sort_key fst (map (\<lambda>k. (k, f k)) ks) = map (\<lambda>k. (k, f k)) (sort ks)" for f :: "string \<Rightarrow> nat" and ks
  proof (induction ks)
    case (Cons k ks)
    have "insort_key fst (k, f k) (map (\<lambda>k. (k, f k)) xs) = map (\<lambda>k. (k, f k)) (insort k xs)" for xs
      by (induction xs) auto
    with Cons show ?case by simp
  qed simp
  then show ?thesis by (simp add: count_by_def count_loop_tally [OF assms] tally_def)
qed

text \<open>Every row is in exactly one of the groups.\<close>

lemma mset_groups:
  "keys_ok key rows \<Longrightarrow> distinct ks \<Longrightarrow> set (row_keys key rows) \<subseteq> set ks \<Longrightarrow>
   mset (concat (map (\<lambda>k. keyed key k rows) ks)) = mset rows"
proof (induction rows)
  case Nil
  show ?case by (induction ks) auto
next
  case (Cons r rows)
  then obtain k where k: "key r = Inr k" "k \<in> set ks" by (auto dest!: not_isl_Inr)
  have "mset (concat (map (\<lambda>d. keyed key d (r # rows)) ds)) =
      (if k \<in> set ds then {#r#} else {#}) + mset (concat (map (\<lambda>d. keyed key d rows) ds))" if "distinct ds" for ds
    using that k(1) by (induction ds) auto
  with Cons k show ?case by simp
qed


section \<open>Properties\<close>

lemma groups_partition:
  assumes "keys_ok row_domain rows"
  obtains groups where "observations_by_domain rows = Inr groups" and "mset (concat (map snd groups)) = mset rows"
    and "distinct (map fst groups)"
    and "\<forall>(d, items) \<in> set groups. items \<noteq> [] \<and> items = filter (\<lambda>r. row_domain r = Inr d) rows"
    and "groups = map (\<lambda>d. (d, filter (\<lambda>r. row_domain r = Inr d) rows))
      (filter (\<lambda>d. \<exists>r \<in> set rows. row_domain r = Inr d) DOMAIN_ORDER @
       filter (\<lambda>d. d \<notin> set DOMAIN_ORDER) (first_order (map (\<lambda>r. projr (row_domain r)) rows)))"
proof -
  let ?ks = "row_keys row_domain rows"
  let ?ds = "filter (\<lambda>d. d \<in> set ?ks) DOMAIN_ORDER @ filter (\<lambda>d. d \<notin> set DOMAIN_ORDER) (first_order ?ks)"
  let ?gs = "map (\<lambda>d. (d, keyed row_domain d rows)) ?ds"
  have dist: "distinct ?ds" by (auto simp: DOMAIN_ORDER_def)
  have ds: "set ?ds = set ?ks" by auto
  have fsts: "map fst ?gs = ?ds" by (simp add: comp_def)
  show thesis
  proof (rule that [of ?gs])
    show "observations_by_domain rows = Inr ?gs" by (rule observations_by_domain_exact [OF assms])
    show "mset (concat (map snd ?gs)) = mset rows"
      using mset_groups [OF assms dist] ds by (simp add: comp_def)
    show "distinct (map fst ?gs)" unfolding fsts by (rule dist)
    show "\<forall>(d, items) \<in> set ?gs. items \<noteq> [] \<and> items = filter (\<lambda>r. row_domain r = Inr d) rows"
      using ds keyed_present [OF assms] unfolding keyed_def [symmetric] by auto
    have "d \<in> set ?ks \<longleftrightarrow> (\<exists>r \<in> set rows. row_domain r = Inr d)" for d
      using assms by (force simp: row_keys_def keys_ok_def dest: not_isl_Inr)
    then show "?gs = map (\<lambda>d. (d, filter (\<lambda>r. row_domain r = Inr d) rows))
      (filter (\<lambda>d. \<exists>r \<in> set rows. row_domain r = Inr d) DOMAIN_ORDER @
       filter (\<lambda>d. d \<notin> set DOMAIN_ORDER) (first_order (map (\<lambda>r. projr (row_domain r)) rows)))"
      by (simp add: keyed_def row_keys_def)
  qed
qed

text \<open>
  C22. The report shows every observation once and in its place: grouping by domain partitions the
  rows, no group is empty and no domain comes twice, and the groups are exactly these: first the
  domains of the document's order that have rows, in that order, then every other domain in the
  order it first appears, each with exactly the rows of the domain in their order.
\<close>

theorem observations_by_domain_partition:
  assumes "keys_ok row_domain rows"
  shows "\<exists>groups. observations_by_domain rows = Inr groups \<and> mset (concat (map snd groups)) = mset rows \<and>
    distinct (map fst groups) \<and>
    (\<forall>(d, items) \<in> set groups. items \<noteq> [] \<and> items = filter (\<lambda>r. row_domain r = Inr d) rows) \<and>
    groups = map (\<lambda>d. (d, filter (\<lambda>r. row_domain r = Inr d) rows))
      (filter (\<lambda>d. \<exists>r \<in> set rows. row_domain r = Inr d) DOMAIN_ORDER @
       filter (\<lambda>d. d \<notin> set DOMAIN_ORDER) (first_order (map (\<lambda>r. projr (row_domain r)) rows)))"
  using assms by (rule groups_partition) blast

definition sample_rows :: "pydict list" where
  "sample_rows =
     [[(''domain'', PyStr ''db''), (''topic'', PyStr ''a'')], [(''domain'', PyStr ''lab''), (''topic'', PyStr ''b'')],
      [(''topic'', PyStr ''c'')], [(''domain'', PyStr ''db''), (''topic'', PyStr ''d'')]]"

theorem observations_by_domain_partition_witness:
  "\<exists>groups. observations_by_domain sample_rows = Inr groups \<and> mset (concat (map snd groups)) = mset sample_rows \<and>
     map fst groups = [''software'', ''db'', ''lab'']"
proof -
  have ok: "keys_ok row_domain sample_rows" by (simp add: sample_rows_def row_domain_def)
  have e: "observations_by_domain sample_rows = Inr [(''software'', [sample_rows ! 2]),
      (''db'', [sample_rows ! 0, sample_rows ! 3]), (''lab'', [sample_rows ! 1])]"
    by (simp add: observations_by_domain_def sample_rows_def row_domain_def append_to_def DOMAIN_ORDER_def
        DOMAIN_LABELS_def)
  from observations_by_domain_partition [OF ok] obtain groups where g: "observations_by_domain sample_rows = Inr groups"
    and m: "mset (concat (map snd groups)) = mset sample_rows"
    by (elim exE conjE) (rule that)
  from g [unfolded e] have "map fst groups = [''software'', ''db'', ''lab'']" by auto
  with g m show ?thesis by (intro exI conjI)
qed

lemma render_html_audience:
  "audience \<notin> {''technical'', ''summary''} \<Longrightarrow>
   render_html tpl now data audience = Inl (ValueError (''unknown audience: '' @ audience))"
  by (simp add: render_html_def check_audience_def)

end
