(* ===== verification/Report_Sections.thy ===== *)
theory Report_Sections
  imports Report_Render
begin

text \<open>
  \<open>auditcore_report/sections.py\<close>: rendering of the sections the report agent wrote. A marker of an
  observation becomes its topic, a marker of anything else an explicit \<open>(unknown observation)\<close>.
\<close>

record sections_data =
  sd_run :: pydict
  sd_sections :: "pydict list"
  sd_topics :: "(string \<times> string) list"

definition unknown_observation :: string where
  "unknown_observation = ''*(unknown observation)*''"

definition marker_repl :: "(string \<times> string) list \<Rightarrow> string \<Rightarrow> string" where
  "marker_repl topics oid =
     (case map_of topics oid of
        Some topic \<Rightarrow> if topic \<noteq> [] then ''*'' @ topic @ ''*'' else unknown_observation
      | None \<Rightarrow> unknown_observation)"

definition expand_markers :: "string \<Rightarrow> (string \<times> string) list \<Rightarrow> string" where
  "expand_markers body_md topics = sub_markers (marker_repl topics) body_md"

text \<open>\<open>[s for s in sections if s["audience"] == audience]\<close>.\<close>

fun of_audience :: "string \<Rightarrow> pydict list \<Rightarrow> pydict list res" where
  "of_audience audience [] = Inr []"
| "of_audience audience (s # ss) =
     bindE (py_index (PyDict s) ''audience'') (\<lambda>a.
     bindE (of_audience audience ss) (\<lambda>rest. Inr (if a = PyStr audience then s # rest else rest)))"

text \<open>The sort key \<open>s["order"]\<close>; orders that are not numbers are not modelled.\<close>

definition section_order :: "pydict \<Rightarrow> rat res" where
  "section_order s =
     bindE (py_index (PyDict s) ''order'') (\<lambda>v.
       case py_num v of Some n \<Rightarrow> Inr n | None \<Rightarrow> Inl (OtherError ''order is not a number''))"

definition sorted_sections :: "pydict list \<Rightarrow> pydict list res" where
  "sorted_sections ss =
     bindE (mapE section_order ss) (\<lambda>keys. Inr (map snd (sort_key fst (zip keys ss))))"

definition expand_section :: "(string \<times> string) list \<Rightarrow> pydict \<Rightarrow> pydict res" where
  "expand_section topics s =
     bindE (py_index (PyDict s) ''body_md'') (\<lambda>b.
       case b of
         PyStr body \<Rightarrow> Inr (AList.update ''body_md'' (PyStr (expand_markers body topics)) s)
       | v \<Rightarrow> Inl (TypeError (''expected string or bytes-like object, got '' @ py_type v)))"

record sections_context =
  sc_data :: sections_data
  sc_audience :: string
  sc_sections :: "pydict list"
  sc_generated_at :: string

definition render_sections_html ::
  "(string \<Rightarrow> sections_context \<Rightarrow> string res) \<Rightarrow> string \<Rightarrow> sections_data \<Rightarrow> string \<Rightarrow> string res" where
  "render_sections_html tpl now data audience =
     bindE (check_audience audience) (\<lambda>_.
     bindE (of_audience audience (sd_sections data)) (\<lambda>chosen.
     bindE (sorted_sections chosen) (\<lambda>sections.
     bindE (mapE (expand_section (sd_topics data)) sections) (\<lambda>expanded.
     tpl ''sections.html.j2''
       \<lparr>sc_data = data, sc_audience = audience, sc_sections = expanded, sc_generated_at = now\<rparr>))))"

section \<open>Expansion leaves no marker\<close>

text \<open>A marker has no asterisk, so text that is expanded cannot complete one.\<close>

lemma marker_char_star: "\<not> marker_char CHR ''*''"
  by (simp add: marker_char_def)

lemma marker_without_star: "list_all marker_char m \<Longrightarrow> CHR ''*'' \<notin> set (marker m)"
proof
  assume "list_all marker_char m" and "CHR ''*'' \<in> set (marker m)"
  then have "CHR ''*'' \<in> set m" by (simp add: marker_def marker_open_def)
  with \<open>list_all marker_char m\<close> have "marker_char CHR ''*''" by (simp add: list_all_iff)
  with marker_char_star show False by simp
qed

lemma repl_stars: "\<exists>t. marker_repl topics m = CHR ''*'' # t @ ''*''"
  by (auto simp: marker_repl_def unknown_observation_def split: option.split)

lemma expand_simps [simp]:
  "expand_markers [] topics = []"
  "match_marker (c # cs) = None \<Longrightarrow> expand_markers (c # cs) topics = c # expand_markers cs topics"
  "length m = 36 \<Longrightarrow> list_all marker_char m \<Longrightarrow>
     expand_markers (marker m @ rest) topics = marker_repl topics m @ expand_markers rest topics"
  by (simp_all add: expand_markers_def sub_markers_def tokens_char tokens_marker)

lemma expand_prefix:
  "prefix p (expand_markers s topics) \<Longrightarrow> CHR ''*'' \<notin> set p \<Longrightarrow> prefix p s"
proof (induction s arbitrary: p rule: marker_induct)
  case Nil
  then show ?case by simp
next
  case (char c cs)
  then show ?case by (cases p) auto
next
  case (marker m rest)
  from repl_stars obtain t where "marker_repl topics m = CHR ''*'' # t @ ''*''" by blast
  with marker show ?case by (cases p) auto
qed

lemma match_marker_prefix: "match_marker s \<noteq> None \<longleftrightarrow> (\<exists>m. length m = 36 \<and> list_all marker_char m \<and> prefix (marker m) s)"
proof
  assume "match_marker s \<noteq> None"
  then obtain m rest where "match_marker s = Some (m, rest)" by auto
  then show "\<exists>m. length m = 36 \<and> list_all marker_char m \<and> prefix (marker m) s" by (auto simp: match_marker_Some)
next
  assume "\<exists>m. length m = 36 \<and> list_all marker_char m \<and> prefix (marker m) s"
  then obtain m rest where "s = marker m @ rest \<and> length m = 36 \<and> list_all marker_char m" by (auto simp: prefix_def)
  then have "match_marker s = Some (m, rest)" by (simp only: match_marker_Some)
  then show "match_marker s \<noteq> None" by simp
qed

lemma match_marker_before:
  assumes "match_marker s = None" and "\<And>p. prefix p s' \<Longrightarrow> CHR ''*'' \<notin> set p \<Longrightarrow> prefix p s"
  shows "match_marker s' = None"
proof (rule ccontr)
  assume "match_marker s' \<noteq> None"
  then obtain m where m: "length m = 36" "list_all marker_char m" and p: "prefix (marker m) s'"
    unfolding match_marker_prefix by (elim exE conjE)
  from assms(2) [OF p marker_without_star [OF m(2)]] m have "match_marker s \<noteq> None"
    unfolding match_marker_prefix by (intro exI conjI)
  with assms(1) show False by simp
qed

lemma prefix_before: "prefix p (s @ x # t) \<Longrightarrow> x \<notin> set p \<Longrightarrow> prefix p s"
  by (auto simp: prefix_append prefix_Cons)

lemma find_markers_star:
  "find_markers t = [] \<Longrightarrow> find_markers (t @ CHR ''*'' # s) = find_markers s"
proof (induction t rule: marker_induct)
  case Nil
  show ?case by simp
next
  case (char c cs)
  from char(1) have "match_marker ((c # cs) @ CHR ''*'' # s) = None"
    by (rule match_marker_before) (rule prefix_before)
  with char show ?case by (simp add: find_markers_def tokens_char)
next
  case (marker m rest)
  then show ?case by (simp add: find_markers_def tokens_marker)
qed

lemma unknown_no_marker: "find_markers ''(unknown observation)'' = []"
  by simp

lemma find_markers_repl:
  assumes "\<And>oid t. map_of topics oid = Some t \<Longrightarrow> find_markers t = []"
  shows "find_markers (marker_repl topics m @ s) = find_markers s"
proof -
  have "find_markers (CHR ''*'' # t @ CHR ''*'' # s) = find_markers s" if "find_markers t = []" for t
    using find_markers_star [OF that] by simp
  from this [OF unknown_no_marker] this [OF assms] show ?thesis
    by (auto simp: marker_repl_def unknown_observation_def split: option.split)
qed

lemma expand_no_markers:
  assumes "\<And>oid t. map_of topics oid = Some t \<Longrightarrow> find_markers t = []"
  shows "find_markers (expand_markers body topics) = []"
proof (induction body rule: marker_induct)
  case Nil
  show ?case by simp
next
  case (char c cs)
  then have "match_marker (c # expand_markers cs topics) = None"
    using expand_prefix [of _ "c # cs" topics] by (intro match_marker_before [OF char(1)]) simp_all
  with char show ?case by (simp add: find_markers_def tokens_char)
next
  case (marker m rest)
  then show ?case by (simp add: find_markers_repl [OF assms])
qed


lemma expand_sublist:
  "m \<in> set (find_markers body) \<Longrightarrow> sublist (marker_repl topics m) (expand_markers body topics)"
proof (induction body rule: marker_induct)
  case Nil
  then show ?case by simp
next
  case (char c cs)
  then show ?case by (simp add: find_markers_def tokens_char sublist_Cons_right)
next
  case (marker m' rest)
  then consider "m = m'" | "m \<in> set (find_markers rest)" by (auto simp: find_markers_def tokens_marker)
  then show ?case
  proof cases
    case 1
    with marker show ?thesis by simp
  next
    case 2
    with marker show ?thesis by (simp add: sublist_append)
  qed
qed

text \<open>A marker found in a body stands somewhere in it, and the expansion replaces it there.\<close>

lemma expand_at:
  "m \<in> set (find_markers body) \<Longrightarrow> \<exists>pre post. body = pre @ marker m @ post \<and>
     expand_markers body topics = expand_markers pre topics @ marker_repl topics m @ expand_markers post topics"
proof (induction body rule: marker_induct)
  case Nil
  then show ?case by simp
next
  case (char c cs)
  then have "m \<in> set (find_markers cs)" by (simp add: find_markers_def tokens_char)
  with char obtain pre post where cs: "cs = pre @ marker m @ post"
    and e: "expand_markers cs topics = expand_markers pre topics @ marker_repl topics m @ expand_markers post topics"
    by blast
  have "match_marker (c # pre) = None"
    by (rule match_marker_before [OF char(1)]) (auto simp: cs prefix_append intro: prefix_order.order_trans)
  with char(1) cs e show ?case by (intro exI [of _ "c # pre"] exI [of _ post]) simp
next
  case (marker m' rest)
  then consider "m = m'" | "m \<in> set (find_markers rest)" by (auto simp: find_markers_def tokens_marker)
  then show ?case
  proof cases
    case 1
    with marker show ?thesis by (intro exI [of _ "[]"] exI [of _ rest]) simp
  next
    case 2
    with marker obtain pre post where "rest = pre @ marker m @ post"
      and "expand_markers rest topics = expand_markers pre topics @ marker_repl topics m @ expand_markers post topics"
      by blast
    with marker show ?thesis by (intro exI [of _ "marker m' @ pre"] exI [of _ post]) simp
  qed
qed

lemma expand_unmarked: "find_markers body = [] \<Longrightarrow> expand_markers body topics = body"
proof (induction body rule: marker_induct)
  case Nil
  then show ?case by simp
next
  case (char c cs)
  then show ?case by (simp add: find_markers_def tokens_char)
next
  case (marker m rest)
  then show ?case by (simp add: find_markers_def tokens_marker)
qed

section \<open>Properties\<close>

text \<open>
  C0. Expansion is complete: when no topic contains a marker, no marker is left in the expanded body,
  each one stands in the text as its observation's topic or as \<open>(unknown observation)\<close>, and a body
  without markers is not touched.
\<close>

theorem expand_markers_complete:
  assumes "\<forall>p \<in> set topics. find_markers (snd p) = []"
  shows "find_markers (expand_markers body topics) = [] \<and>
    (\<forall>m \<in> set (find_markers body). sublist (marker_repl topics m) (expand_markers body topics)) \<and>
    (find_markers body = [] \<longrightarrow> expand_markers body topics = body)"
proof -
  from assms have "find_markers t = []" if "map_of topics oid = Some t" for oid t
    using map_of_SomeD [OF that] by auto
  then have "find_markers (expand_markers body topics) = []" by (rule expand_no_markers)
  with expand_sublist expand_unmarked show ?thesis by simp
qed

theorem expand_markers_complete_witness:
  "find_markers (expand_markers (''see '' @ marker (uuid_str 4) @ ''.'') [(uuid_str 4, ''CPU topology'')]) = [] \<and>
   sublist ''*CPU topology*'' (expand_markers (''see '' @ marker (uuid_str 4) @ ''.'') [(uuid_str 4, ''CPU topology'')])"
proof -
  have "\<forall>p \<in> set [(uuid_str 4, ''CPU topology'')]. find_markers (snd p) = []" by simp
  from expand_markers_complete [OF this, of "''see '' @ marker (uuid_str 4) @ ''.''"] show ?thesis
    by (simp add: find_markers_uuid marker_repl_def)
qed

end
