(* ===== verification/Report_Loader.thy ===== *)
theory Report_Loader
  imports Report_Sections Repo
begin

text \<open>
  \<open>auditcore_report/loader.py\<close>: reads a run and what belongs to it from the tables of Database into
  the data of the two renderers. Both functions only read.
\<close>

section \<open>load_sections\<close>

definition find_run :: "db \<Rightarrow> uuid \<Rightarrow> run_rec res" where
  "find_run d rid =
     (case find (\<lambda>r. run_id r = rid) (db_runs d) of
        None \<Rightarrow> Inl (LookupError (''run not found: '' @ uuid_str rid))
      | Some r \<Rightarrow> Inr r)"

definition section_dict :: "section_rec \<Rightarrow> pydict" where
  "section_dict s =
     [(''audience'', PyStr (rs_audience s)), (''order'', PyInt (rs_order s)),
      (''title'', PyStr (rs_title s)), (''body_md'', PyStr (rs_body_md s))]"

definition sections_of_run :: "db \<Rightarrow> uuid \<Rightarrow> section_rec list" where
  "sections_of_run d rid =
     sort_key (\<lambda>s. db_collate d (rs_audience s)) (sort_key rs_order
       (filter (\<lambda>s. rs_run_id s = rid) (db_sections d)))"

definition topics_of_run :: "db \<Rightarrow> uuid \<Rightarrow> (string \<times> string) list" where
  "topics_of_run d rid =
     dict_of (map (\<lambda>ob. (uuid_str (ob_id ob), ow_topic ob)) (filter (\<lambda>ob. ow_run_id ob = rid) (db_observations d)))"

definition load_sections :: "rendering \<Rightarrow> db \<Rightarrow> uuid \<Rightarrow> sections_data res" where
  "load_sections rd d rid =
     bindE (find_run d rid) (\<lambda>r. Inr
       \<lparr>sd_run = [(''id'', PyStr (uuid_str (run_id r))), (''status'', PyStr (run_status_value (run_state r))),
           (''started_at'', PyStr (rd_iso rd (run_started_at r)))],
        sd_sections = map section_dict (sections_of_run d rid),
        sd_topics = topics_of_run d rid\<rparr>)"

section \<open>load_run\<close>

definition asset_dict :: "asset_rec \<Rightarrow> pydict" where
  "asset_dict a =
     [(''id'', PyStr (uuid_str (asset_id a))), (''type'', PyStr (asset_type_value (asset_kind a))),
      (''natural_key'', PyStr (asset_natural_key a)), (''name'', PyStr (asset_name a)),
      (''attributes'', asset_attributes a)]"

definition evidence_dict :: "rendering \<Rightarrow> evidence_rec \<Rightarrow> pydict" where
  "evidence_dict rd e =
     [(''id'', PyStr (uuid_str (ei_id e))), (''asset_id'', opt_json (\<lambda>u. PyStr (uuid_str u)) (ei_asset_id e)),
      (''source_tool'', PyStr (ei_source_tool e)), (''source_tool_version'', PyStr (ei_source_tool_version e)),
      (''category'', PyStr (ei_category e)), (''parsed'', opt_json (\<lambda>v. v) (ei_parsed e)),
      (''confidence'', PyFloat (Some (ei_confidence e)) (rd_float rd (ei_confidence e))),
      (''collected_at'', PyStr (rd_iso rd (ei_collected_at e)))]"

definition observation_dict :: "observation_rec \<Rightarrow> pydict" where
  "observation_dict ob =
     [(''id'', PyStr (uuid_str (ob_id ob))), (''asset_id'', PyStr (uuid_str (ow_asset_id ob))),
      (''domain'', PyStr (ow_domain ob)), (''topic'', PyStr (ow_topic ob)), (''summary'', PyStr (ow_summary ob)),
      (''detail'', PyStr (ow_detail ob)), (''facts'', py_or (ow_facts ob) (PyDict [])),
      (''related_asset_ids'', uuids_json (ow_related_asset_ids ob)),
      (''evidence_ids'', uuids_json (ow_evidence_ids ob)),
      (''produced_by_agent'', PyStr (ow_produced_by_agent ob))]"

definition load_run :: "rendering \<Rightarrow> db \<Rightarrow> uuid \<Rightarrow> report_data res" where
  "load_run rd d rid =
     bindE (find_run d rid) (\<lambda>r. Inr
       \<lparr>pd_run = [(''id'', PyStr (uuid_str (run_id r))), (''status'', PyStr (run_status_value (run_state r))),
           (''scope'', run_scope r), (''started_at'', PyStr (rd_iso rd (run_started_at r))),
           (''completed_at'', opt_json (\<lambda>t. PyStr (rd_iso rd t)) (run_completed_at r)),
           (''cost_cents'', PyInt (run_cost_cents r))],
        pd_assets = map asset_dict
          (sort_key (\<lambda>a. db_collate d (asset_name a)) (filter (\<lambda>a. asset_run_id a = rid) (db_assets d))),
        pd_evidence = map (evidence_dict rd)
          (sort_key ei_collected_at (filter (\<lambda>e. ei_run_id e = rid) (db_evidence d))),
        pd_observations = map observation_dict
          (sort_key (\<lambda>ob. domain_rank (ow_domain ob)) (sort_key (\<lambda>ob. db_collate d (ow_topic ob))
            (filter (\<lambda>ob. ow_run_id ob = rid) (db_observations d))))\<rparr>)"

section \<open>Loaded rows render\<close>

lemma observation_rows_ok: "keys_ok row_domain (map observation_dict obs)"
  by (simp add: keys_ok_def row_domain_def observation_dict_def)

lemma evidence_rows_ok: "keys_ok (row_key ''category'') (map (evidence_dict rd) es)"
  by (simp add: keys_ok_def row_key_def evidence_dict_def)

lemma of_audience_rows:
  "of_audience a (map section_dict ss) = Inr (map section_dict (filter (\<lambda>s. rs_audience s = a) ss))"
  by (induction ss) (simp_all add: section_dict_def)

lemma section_order_dict: "section_order (section_dict s) = Inr (of_int (rs_order s))"
  by (simp add: section_order_def section_dict_def)

lemma insort_key_map: "insort_key f (g x) (map g xs) = map g (insort_key (\<lambda>y. f (g y)) x xs)"
  by (induction xs) auto

lemma sort_key_map: "sort_key f (map g xs) = map g (sort_key (\<lambda>x. f (g x)) xs)"
  by (induction xs) (simp_all add: insort_key_map)

lemma sort_key_of_int: "sort_key (\<lambda>x. of_int (f x) :: rat) xs = sort_key f xs"
proof (induction xs)
  case (Cons x xs)
  have "insort_key (\<lambda>x. of_int (f x) :: rat) x ys = insort_key f x ys" for ys by (induction ys) auto
  with Cons show ?case by simp
qed simp

lemma sorted_sections_rows: "sorted_sections (map section_dict ss) = Inr (map section_dict (sort_key rs_order ss))"
proof -
  have keys: "mapE section_order (map section_dict ss) = Inr (map (\<lambda>s. of_int (rs_order s)) ss)"
    by (induction ss) (simp_all add: section_order_dict)
  have zip: "zip (map (\<lambda>s. of_int (rs_order s) :: rat) ss) (map section_dict ss) =
      map (\<lambda>s. (of_int (rs_order s), section_dict s)) ss"
    by (induction ss) simp_all
  show ?thesis unfolding sorted_sections_def keys bindE_Inr zip
    by (simp add: sort_key_map sort_key_of_int comp_def)
qed

lemma expand_section_dict:
  "expand_section topics (section_dict s) =
     Inr (section_dict (s\<lparr>rs_body_md := expand_markers (rs_body_md s) topics\<rparr>))"
  by (simp add: expand_section_def section_dict_def)

lemma expand_section_rows:
  "mapE (expand_section topics) (map section_dict ss) =
     Inr (map (\<lambda>s. section_dict (s\<lparr>rs_body_md := expand_markers (rs_body_md s) topics\<rparr>)) ss)"
  by (induction ss) (simp_all add: expand_section_dict)

lemma sections_of_audience:
  "sort_key rs_order (filter (\<lambda>s. rs_audience s = a) (sections_of_run d rid)) =
     sort_key rs_order (filter (\<lambda>s. rs_run_id s = rid \<and> rs_audience s = a) (db_sections d))"
proof -
  have same: "sort_key f ys = ys" if "\<And>x. x \<in> set ys \<Longrightarrow> f x = c" for f :: "section_rec \<Rightarrow> string" and ys c
    using that by (intro sort_key_id_if_sorted) (auto simp: sorted_iff_nth_mono)
  have twice: "sort_key rs_order (sort_key rs_order xs) = sort_key rs_order xs" for xs
    by (intro sort_key_id_if_sorted) simp
  show ?thesis
    unfolding sections_of_run_def filter_sort filter_filter
    by (subst same [where c = "db_collate d a"]) (auto simp: twice filter_sort conj_commute)
qed

lemma sections_render:
  assumes "load_sections rd d rid = Inr data" and "audience \<in> {''technical'', ''summary''}"
  shows "render_sections_html tpl now data audience = tpl ''sections.html.j2''
    \<lparr>sc_data = data, sc_audience = audience,
     sc_sections = map (\<lambda>s. section_dict (s\<lparr>rs_body_md := expand_markers (rs_body_md s) (topics_of_run d rid)\<rparr>))
       (sort_key rs_order (filter (\<lambda>s. rs_run_id s = rid \<and> rs_audience s = audience) (db_sections d))),
     sc_generated_at = now\<rparr>"
proof -
  from assms(1) have data: "sd_sections data = map section_dict (sections_of_run d rid)" "sd_topics data = topics_of_run d rid"
    by (auto simp: load_sections_def)
  from assms(2) show ?thesis
    by (simp add: render_sections_html_def check_audience_def data of_audience_rows sorted_sections_rows
        sections_of_audience expand_section_rows)
qed

text \<open>
  The narrated report holds exactly the sections stored for the run and the audience, in their
  order, with every marker expanded and nothing else changed.
\<close>

lemma render_sections_exact:
  assumes "load_sections rd d rid = Inr data" and "audience \<in> {''technical'', ''summary''}"
  shows "render_sections_html tpl now data audience = tpl ''sections.html.j2''
    \<lparr>sc_data = data, sc_audience = audience,
     sc_sections = map (\<lambda>s. section_dict (s\<lparr>rs_body_md := expand_markers (rs_body_md s) (topics_of_run d rid)\<rparr>))
       (sort_key rs_order (filter (\<lambda>s. rs_run_id s = rid \<and> rs_audience s = audience) (db_sections d))),
     sc_generated_at = now\<rparr>"
  using assms by (rule sections_render)

definition sample_report_db :: db where
  "sample_report_db =
     \<lparr>db_tenants = [5], db_runs = [\<lparr>run_id = 9, run_tenant = 5, run_scope = PyDict [], run_state = COMPLETE, run_started_at = 0,
        run_completed_at = None, run_cost_cents = 0\<rparr>],
      db_assets = [], db_evidence = [],
      db_observations = [\<lparr>ow_run_id = 9, ow_asset_id = 2, ow_domain = ''db'', ow_topic = ''replication'',
        ow_summary = ''s'', ow_detail = ''d'', ow_facts = PyNone, ow_related_asset_ids = [], ow_evidence_ids = [3],
        ow_produced_by_agent = ''database@1'', ow_model_used = ''m'', ob_id = 4, ob_tenant = 5, ob_created_at = 0\<rparr>],
      db_sections = [\<lparr>rs_run_id = 9, rs_audience = ''summary'', rs_order = 1, rs_title = ''b'', rs_body_md = ''two'',
          rs_embedded_observations = [], rs_produced_by_agent = ''report@1'', rs_model_used = ''m'', sec_id = 21,
          sec_tenant = 5, sec_created_at = 0\<rparr>,
        \<lparr>rs_run_id = 9, rs_audience = ''summary'', rs_order = 0, rs_title = ''a'', rs_body_md = marker (uuid_str 4),
          rs_embedded_observations = [4], rs_produced_by_agent = ''report@1'', rs_model_used = ''m'', sec_id = 22,
          sec_tenant = 5, sec_created_at = 0\<rparr>],
      db_audit = [], db_notified = [], db_gen = (\<lambda>n. of_nat n), db_next = 100, db_now = 0, db_collate = (\<lambda>s. s)\<rparr>"

definition titles_tpl :: "string \<Rightarrow> sections_context \<Rightarrow> string res" where
  "titles_tpl name ctx =
     bindE (mapE (\<lambda>s. py_index (PyDict s) ''title'') (sc_sections ctx)) (\<lambda>ts. Inr (concat (map py_str ts)))"

lemma render_sections_exact_witness:
  "\<exists>data. load_sections \<lparr>rd_iso = \<lambda>t. [], rd_float = \<lambda>r. []\<rparr> sample_report_db 9 = Inr data \<and>
     render_sections_html titles_tpl [] data ''summary'' = Inr ''ab''"
proof -
  let ?rd = "\<lparr>rd_iso = \<lambda>t. [], rd_float = \<lambda>r. []\<rparr>"
  obtain data where l: "load_sections ?rd sample_report_db 9 = Inr data"
    by (simp add: load_sections_def find_run_def sample_report_db_def)
  from render_sections_exact [OF l, of "''summary''" titles_tpl "[]"] have
    "render_sections_html titles_tpl [] data ''summary'' = Inr ''ab''"
    by (simp add: titles_tpl_def sample_report_db_def section_dict_def)
  with l show ?thesis by blast
qed

text \<open>The counts by category of the evidence of a run.\<close>

definition category_counts :: "evidence_rec list \<Rightarrow> (string \<times> nat) list" where
  "category_counts es =
     map (\<lambda>k. (k, length (filter (\<lambda>e. ei_category e = k) es))) (sort (remdups (map ei_category es)))"

lemma category_key: "row_key ''category'' (evidence_dict rd e) = Inr (ei_category e)"
  by (simp add: row_key_def evidence_dict_def)

lemma keyed_evidence:
  "keyed (row_key ''category'') k (map (evidence_dict rd) es) = map (evidence_dict rd) (filter (\<lambda>e. ei_category e = k) es)"
  by (induction es) (simp_all add: category_key)

lemma count_evidence: "count_by (map (evidence_dict rd) es) ''category'' = Inr (category_counts es)"
proof -
  have keys: "row_keys (row_key ''category'') (map (evidence_dict rd) es) = map ei_category es"
    by (induction es) (simp_all add: category_key)
  have "sort (first_order ks) = sort (remdups ks)" for ks
    by (intro sorted_distinct_set_unique) simp_all
  then show ?thesis
    by (simp add: count_by_exact [OF evidence_rows_ok] keys keyed_evidence category_counts_def)
qed

lemma category_counts_sort: "category_counts (sort_key f es) = category_counts es"
proof -
  have "length (filter P (sort_key f es)) = length (filter P es)" for P
    by (simp add: filter_sort)
  moreover have "sort (remdups (map ei_category (sort_key f es))) = sort (remdups (map ei_category es))"
    by (intro sorted_distinct_set_unique) simp_all
  ultimately show ?thesis by (simp add: category_counts_def)
qed

lemma report_of_run:
  assumes "rid \<in> run_id ` set (db_runs d)" and "audience \<in> {''technical'', ''summary''}"
  obtains data groups where "load_run rd d rid = Inr data"
    and "\<And>tpl. render_html tpl now data audience = tpl (audience @ ''.html.j2'')
       \<lparr>rc_data = data, rc_generated_at = now, rc_domains = groups, rc_domain_labels = DOMAIN_LABELS,
        rc_evidence_by_category = category_counts (filter (\<lambda>e. ei_run_id e = rid) (db_evidence d))\<rparr>"
    and "mset (concat (map snd groups)) =
      mset (map observation_dict (filter (\<lambda>ob. ow_run_id ob = rid) (db_observations d)))"
    and "\<forall>(dmn, items) \<in> set groups. items \<noteq> [] \<and> (\<forall>i \<in> set items. row_domain i = Inr dmn)"
    and "mset (pd_assets data) = mset (map asset_dict (filter (\<lambda>a. asset_run_id a = rid) (db_assets d)))"
    and "mset (pd_evidence data) =
      mset (map (evidence_dict rd) (filter (\<lambda>e. ei_run_id e = rid) (db_evidence d)))"
proof -
  let ?obs = "sort_key (\<lambda>ob. domain_rank (ow_domain ob)) (sort_key (\<lambda>ob. db_collate d (ow_topic ob))
            (filter (\<lambda>ob. ow_run_id ob = rid) (db_observations d)))"
  let ?evs = "sort_key ei_collected_at (filter (\<lambda>e. ei_run_id e = rid) (db_evidence d))"
  let ?as = "sort_key (\<lambda>a. db_collate d (asset_name a)) (filter (\<lambda>a. asset_run_id a = rid) (db_assets d))"
  from assms(1) obtain r where "find (\<lambda>r. run_id r = rid) (db_runs d) = Some r"
    by (cases "find (\<lambda>r. run_id r = rid) (db_runs d)") (auto simp: find_None_iff)
  then obtain data where l: "load_run rd d rid = Inr data" and data: "pd_observations data = map observation_dict ?obs"
      "pd_evidence data = map (evidence_dict rd) ?evs" "pd_assets data = map asset_dict ?as"
    by (auto simp: load_run_def find_run_def)
  obtain groups where g: "observations_by_domain (map observation_dict ?obs) = Inr groups"
    and m: "mset (concat (map snd groups)) = mset (map observation_dict ?obs)"
    and own: "\<forall>(dmn, items) \<in> set groups. items \<noteq> [] \<and>
      items = filter (\<lambda>r. row_domain r = Inr dmn) (map observation_dict ?obs)"
    by (rule groups_partition [OF observation_rows_ok])
  show thesis
  proof (rule that [OF l])
    show "render_html tpl now data audience = tpl (audience @ ''.html.j2'')
       \<lparr>rc_data = data, rc_generated_at = now, rc_domains = groups, rc_domain_labels = DOMAIN_LABELS,
        rc_evidence_by_category = category_counts (filter (\<lambda>e. ei_run_id e = rid) (db_evidence d))\<rparr>" for tpl
      using assms(2) by (simp add: render_html_def check_audience_def data g count_evidence category_counts_sort)
    show "mset (concat (map snd groups)) =
        mset (map observation_dict (filter (\<lambda>ob. ow_run_id ob = rid) (db_observations d)))"
      using m by simp
    show "\<forall>(dmn, items) \<in> set groups. items \<noteq> [] \<and> (\<forall>i \<in> set items. row_domain i = Inr dmn)"
      using own by auto
  qed (simp_all add: data)
qed

text \<open>
  C21. The deterministic report leaves nothing of the run out: every run that is stored loads, with
  all its assets and evidence, and the template of the audience gets every observation exactly once,
  under its own domain, and for each category of the run's evidence, in alphabetical order, the
  number of the run's items in it.
\<close>

theorem report_shows_run:
  assumes "rid \<in> run_id ` set (db_runs d)" and "audience \<in> {''technical'', ''summary''}"
  shows "\<exists>data groups. load_run rd d rid = Inr data \<and>
    (\<forall>tpl. render_html tpl now data audience = tpl (audience @ ''.html.j2'')
       \<lparr>rc_data = data, rc_generated_at = now, rc_domains = groups, rc_domain_labels = DOMAIN_LABELS,
        rc_evidence_by_category =
          (let es = filter (\<lambda>e. ei_run_id e = rid) (db_evidence d) in
           map (\<lambda>k. (k, length (filter (\<lambda>e. ei_category e = k) es))) (sort (remdups (map ei_category es))))\<rparr>) \<and>
    mset (concat (map snd groups)) =
      mset (map observation_dict (filter (\<lambda>ob. ow_run_id ob = rid) (db_observations d))) \<and>
    (\<forall>(dmn, items) \<in> set groups. items \<noteq> [] \<and> (\<forall>i \<in> set items. row_domain i = Inr dmn)) \<and>
    mset (pd_assets data) = mset (map asset_dict (filter (\<lambda>a. asset_run_id a = rid) (db_assets d))) \<and>
    mset (pd_evidence data) = mset (map (evidence_dict rd) (filter (\<lambda>e. ei_run_id e = rid) (db_evidence d)))"
  by (rule report_of_run [where now = now and rd = rd, OF assms])
    (unfold category_counts_def Let_def, blast)

text \<open>A template that prints the domains and the categories with their counts in unary.\<close>

definition count_tpl :: "string \<Rightarrow> render_context \<Rightarrow> string res" where
  "count_tpl name ctx = Inr (concat (map fst (rc_domains ctx)) @
     concat (map (\<lambda>(k, n). k @ replicate n CHR ''.'') (rc_evidence_by_category ctx)))"

definition counted_db :: db where
  "counted_db = sample_report_db\<lparr>db_evidence := map (\<lambda>(n, t, c).
     \<lparr>ei_id = of_nat n, ei_tenant = 5, ei_run_id = (if n = 33 then 8 else 9), ei_asset_id = None, ei_source_tool = t,
      ei_source_tool_version = ''1'', ei_collected_at = 0, ei_category = c, ei_raw_ref = [], ei_parsed = None,
      ei_confidence = 1\<rparr>) [(31, ''ss'', ''network''), (32, ''lscpu'', ''hardware''), (33, ''ip'', ''network''), (34, ''ip'', ''network'')]\<rparr>"

theorem report_shows_run_witness:
  "\<exists>data groups. load_run \<lparr>rd_iso = \<lambda>t. [], rd_float = \<lambda>r. []\<rparr> counted_db 9 = Inr data \<and>
     render_html count_tpl [] data ''technical'' = Inr (concat (map fst groups) @ ''hardware.network..'') \<and>
     mset (concat (map snd groups)) = mset (map observation_dict (db_observations sample_report_db))"
proof -
  let ?rd = "\<lparr>rd_iso = \<lambda>t. [], rd_float = \<lambda>r. []\<rparr>"
  have run: "9 \<in> run_id ` set (db_runs counted_db)" and a: "''technical'' \<in> {''technical'', ''summary''}"
    by (simp_all add: counted_db_def sample_report_db_def)
  have obs: "filter (\<lambda>ob. ow_run_id ob = 9) (db_observations counted_db) = db_observations sample_report_db"
    by (simp add: counted_db_def sample_report_db_def)
  have cats: "(let es = filter (\<lambda>e. ei_run_id e = 9) (db_evidence counted_db) in
      map (\<lambda>k. (k, length (filter (\<lambda>e. ei_category e = k) es))) (sort (remdups (map ei_category es)))) =
    [(''hardware'', 1), (''network'', 2)]"
    by (simp add: counted_db_def sample_report_db_def)
  show ?thesis
    using report_shows_run [OF run a, of ?rd "[]"] unfolding cats obs by (auto simp: count_tpl_def numeral_2_eq_2)
qed

end
