(* ===== verification/Report_Cli.thy ===== *)
theory Report_Cli
  imports Report_Loader
begin

text \<open>
  \<open>auditcore_report/cli.py\<close>: the \<open>render\<close> command. It returns what it writes, where, and what it
  echoes to the standard error. The command line (click), the database connections and the file
  system's write errors are not modelled: the options are arguments, and \<open>ce_connect\<close> gives the
  database behind a DSN or the error of connecting to it.
\<close>

record 'b cli_env =
  ce_connect :: "string \<Rightarrow> db res"
  ce_rendering :: rendering
  ce_report_tpl :: "string \<Rightarrow> render_context \<Rightarrow> string res"
  ce_sections_tpl :: "string \<Rightarrow> sections_context \<Rightarrow> string res"
  ce_now :: string
  ce_weasyprint :: "(string \<Rightarrow> 'b res) option"

datatype 'b payload = Html string | Pdf 'b

datatype sink = Stdout | OutFile string

record 'b rendered =
  rx_sink :: sink
  rx_payload :: "'b payload"
  rx_stderr :: "string list"

definition payload_of :: "'b cli_env \<Rightarrow> bool \<Rightarrow> string \<Rightarrow> 'b payload res" where
  "payload_of env pdf html =
     (if pdf then bindE (render_pdf (ce_weasyprint env) html) (\<lambda>b. Inr (Pdf b)) else Inr (Html html))"

definition html_of :: "'b cli_env \<Rightarrow> uuid \<Rightarrow> string \<Rightarrow> string \<Rightarrow> string \<Rightarrow> string res" where
  "html_of env rid dsn audience source =
     bindE (ce_connect env dsn) (\<lambda>d.
     if source = ''sections''
     then bindE (load_sections (ce_rendering env) d rid) (\<lambda>data.
            render_sections_html (ce_sections_tpl env) (ce_now env) data audience)
     else bindE (load_run (ce_rendering env) d rid) (\<lambda>data.
            render_html (ce_report_tpl env) (ce_now env) data audience))"

definition render_command ::
  "'b cli_env \<Rightarrow> string \<Rightarrow> string \<Rightarrow> string \<Rightarrow> string \<Rightarrow> string option \<Rightarrow> bool \<Rightarrow> 'b rendered res" where
  "render_command env run_id_text dsn audience source out_path pdf =
     bindE (uuid_parse run_id_text) (\<lambda>rid.
     bindE (html_of env rid dsn audience source) (\<lambda>html.
     bindE (payload_of env pdf html) (\<lambda>payload.
     Inr (case out_path of
            Some p \<Rightarrow> \<lparr>rx_sink = OutFile p, rx_payload = payload, rx_stderr = [''wrote '' @ p]\<rparr>
          | None \<Rightarrow> \<lparr>rx_sink = Stdout, rx_payload = payload, rx_stderr = []\<rparr>))))"

section \<open>When the command renders\<close>

lemma load_found: "find_run d rid = Inr r \<Longrightarrow> \<exists>data. load_run rd d rid = Inr data"
  "find_run d rid = Inr r \<Longrightarrow> \<exists>data. load_sections rd d rid = Inr data"
  by (simp_all add: load_run_def load_sections_def)

lemma load_missing: "find_run d rid = Inl e \<Longrightarrow> load_run rd d rid = Inl e"
  "find_run d rid = Inl e \<Longrightarrow> load_sections rd d rid = Inl e"
  by (simp_all add: load_run_def load_sections_def)

text \<open>A report of a run that exists fails only where a template does.\<close>

lemma html_of_total:
  assumes "ce_connect env dsn = Inr d" and "find_run d rid = Inr r" and "audience \<in> {''technical'', ''summary''}"
    and "\<And>name ctx. \<exists>html. ce_report_tpl env name ctx = Inr html" and "\<And>name ctx. \<exists>html. ce_sections_tpl env name ctx = Inr html"
  shows "\<exists>html. html_of env rid dsn audience source = Inr html"
proof (cases "source = ''sections''")
  case True
  obtain data where l: "load_sections (ce_rendering env) d rid = Inr data" using load_found(2) [OF assms(2)] by blast
  from sections_render [OF l assms(3)] assms(5) show ?thesis by (simp add: html_of_def assms(1) True l)
next
  case False
  from assms(2) have "rid \<in> run_id ` set (db_runs d)"
    by (auto simp: find_run_def find_Some_iff split: option.splits)
  then obtain data where l: "load_run (ce_rendering env) d rid = Inr data"
    and "\<exists>html. render_html (ce_report_tpl env) (ce_now env) data audience = Inr html"
    by (rule report_of_run [OF _ assms(3), where now = "ce_now env" and rd = "ce_rendering env"]) (simp add: assms(4))
  then show ?thesis by (simp add: html_of_def assms(1) False l)
qed

section \<open>Property\<close>

text \<open>
  The render command succeeds exactly on what there is to render: with templates that render,
  the HTML of a run is written if and only if the database answers, the run exists in it and the
  audience is one of the two, whatever the run holds; nothing stored for a run makes its report
  fail.
\<close>

lemma render_command_total:
  assumes "\<forall>name ctx. \<exists>html. ce_report_tpl env name ctx = Inr html" and "\<forall>name ctx. \<exists>html. ce_sections_tpl env name ctx = Inr html"
  shows "(\<exists>rx html. render_command env (uuid_str rid) dsn audience source out False = Inr rx \<and> rx_payload rx = Html html) \<longleftrightarrow>
    audience \<in> {''technical'', ''summary''} \<and> (\<exists>d. ce_connect env dsn = Inr d \<and> (\<exists>r \<in> set (db_runs d). run_id r = rid))"
proof -
  have run: "(\<exists>r \<in> set (db_runs d). run_id r = rid) \<longleftrightarrow> (\<exists>r. find_run d rid = Inr r)" for d
    by (auto simp: find_run_def find_None_iff find_Some_iff split: option.splits)
  have "(\<exists>rx html. render_command env (uuid_str rid) dsn audience source out False = Inr rx \<and> rx_payload rx = Html html) \<longleftrightarrow>
      (\<exists>html. html_of env rid dsn audience source = Inr html)"
    by (cases "html_of env rid dsn audience source") (auto simp: render_command_def payload_of_def split: option.split)
  also have "\<dots> \<longleftrightarrow> audience \<in> {''technical'', ''summary''} \<and> (\<exists>d. ce_connect env dsn = Inr d \<and> (\<exists>r. find_run d rid = Inr r))"
  proof
    assume "\<exists>html. html_of env rid dsn audience source = Inr html"
    then obtain html d where h: "html_of env rid dsn audience source = Inr html" and d: "ce_connect env dsn = Inr d"
      by (auto simp: html_of_def)
    have "\<exists>r. find_run d rid = Inr r"
    proof (cases "find_run d rid")
      case (Inl e)
      with h d load_missing [OF Inl] show ?thesis by (simp add: html_of_def split: if_splits)
    qed simp
    moreover have "audience \<in> {''technical'', ''summary''}"
      using h d by (auto simp: html_of_def render_sections_html_def render_html_def check_audience_def split: if_splits)
    ultimately show "audience \<in> {''technical'', ''summary''} \<and> (\<exists>d. ce_connect env dsn = Inr d \<and> (\<exists>r. find_run d rid = Inr r))"
      using d by blast
  next
    assume "audience \<in> {''technical'', ''summary''} \<and> (\<exists>d. ce_connect env dsn = Inr d \<and> (\<exists>r. find_run d rid = Inr r))"
    with assms html_of_total show "\<exists>html. html_of env rid dsn audience source = Inr html" by blast
  qed
  finally show ?thesis by (simp only: run)
qed

definition sample_cli :: "unit cli_env" where
  "sample_cli =
     \<lparr>ce_connect = (\<lambda>dsn. if dsn = ''db'' then Inr sample_report_db else Inl (DbError ''connection refused'')),
      ce_rendering = \<lparr>rd_iso = \<lambda>t. [], rd_float = \<lambda>r. []\<rparr>, ce_report_tpl = (\<lambda>name ctx. Inr name),
      ce_sections_tpl = (\<lambda>name ctx. Inr name), ce_now = [], ce_weasyprint = None\<rparr>"

lemma render_command_total_witness:
  "(\<exists>rx html. render_command sample_cli (uuid_str 9) ''db'' ''summary'' ''sections'' None False = Inr rx \<and> rx_payload rx = Html html) \<and>
   \<not> (\<exists>rx html. render_command sample_cli (uuid_str 9) ''other'' ''summary'' ''sections'' None False = Inr rx \<and> rx_payload rx = Html html)"
proof -
  have "\<forall>name ctx. \<exists>html. ce_report_tpl sample_cli name ctx = Inr html" "\<forall>name ctx. \<exists>html. ce_sections_tpl sample_cli name ctx = Inr html"
    by (simp_all add: sample_cli_def)
  note total = render_command_total [OF this]
  have "ce_connect sample_cli ''db'' = Inr sample_report_db" "ce_connect sample_cli ''other'' = Inl (DbError ''connection refused'')"
    by (simp_all add: sample_cli_def)
  moreover have "\<exists>r \<in> set (db_runs sample_report_db). run_id r = 9" by (simp add: sample_report_db_def)
  ultimately show ?thesis unfolding total by simp
qed

end
