(* ===== verification/Schema_Gen.thy ===== *)
theory Schema_Gen
  imports Models "HOL-Library.AList"
begin

text \<open>
  \<open>models-py/scripts/generate_schemas.py\<close>: the JSON Schema files of the canonical models.
  \<open>model_json_schema\<close> of pydantic is a parameter; the result lists the files written, in order, with
  their paths below the repository root, and the lines printed.
\<close>

definition MODELS :: "string list" where
  "MODELS = [''Run'', ''Asset'', ''EvidenceItem'', ''Observation'', ''ReportSection'']"

text \<open>\<open>json.dumps(v, indent=2, sort_keys=True) + "\n"\<close>.\<close>

fun sort_keys :: "pyval \<Rightarrow> pyval"
  and sort_items :: "pydict \<Rightarrow> pydict" where
  "sort_keys (PyList xs) = PyList (map sort_keys xs)"
| "sort_keys (PyDict d) = PyDict (sort_key fst (sort_items d))"
| "sort_keys v = v"
| "sort_items [] = []"
| "sort_items ((k, v) # d) = (k, sort_keys v) # sort_items d"

definition json_file :: "pyval \<Rightarrow> string" where
  "json_file v = json_dumps 2 0 (sort_keys v) @ ''\<newline>''"

definition schema_path :: "string \<Rightarrow> string" where
  "schema_path name = ''schemas/'' @ to_snake name @ ''.json''"

definition schema_of :: "(string \<Rightarrow> pydict) \<Rightarrow> string \<Rightarrow> pydict" where
  "schema_of model_json_schema name =
     AList.update ''$schema'' (PyStr ''https://json-schema.org/draft/2020-12/schema'')
       (AList.update ''$id'' (PyStr (''https://schemas.auditcore.dev/v1/'' @ to_snake name @ ''.json''))
         (model_json_schema name))"

fun write_schemas ::
  "(string \<Rightarrow> pydict) \<Rightarrow> string list \<Rightarrow> pydict \<Rightarrow> (string \<times> string) list \<times> pydict" where
  "write_schemas mjs [] index = ([], index)"
| "write_schemas mjs (model # models) index =
     (let (files, index') = write_schemas mjs models (AList.update model (PyStr (schema_path model)) index)
      in ((schema_path model, json_file (PyDict (schema_of mjs model))) # files, index'))"

definition generate_schemas :: "(string \<Rightarrow> pydict) \<Rightarrow> (string \<times> string) list \<times> string list" where
  "generate_schemas mjs =
     (let (files, index) = write_schemas mjs MODELS [];
          all_files = files @ [(''schemas/index.json'', json_file (PyDict index))]
      in (all_files, map (\<lambda>f. ''wrote '' @ fst f) all_files))"

section \<open>What is written\<close>

lemma schema_paths:
  "map schema_path MODELS =
     [''schemas/run.json'', ''schemas/asset.json'', ''schemas/evidence_item.json'', ''schemas/observation.json'',
      ''schemas/report_section.json'']"
  by code_simp

lemma write_schemas_files:
  "fst (write_schemas mjs models index) = map (\<lambda>m. (schema_path m, json_file (PyDict (schema_of mjs m)))) models"
  by (induction models arbitrary: index) (simp_all add: case_prod_unfold Let_def)

lemma write_schemas_index:
  "snd (write_schemas mjs models index) = foldl (\<lambda>m n. AList.update n (PyStr (schema_path n)) m) index models"
  by (induction models arbitrary: index) (simp_all add: case_prod_unfold Let_def)

text \<open>No file is written twice, and the index names exactly the schema files.\<close>

lemma schema_files_distinct: "distinct (map fst (fst (generate_schemas mjs)))"
proof -
  have "map fst (fst (generate_schemas mjs)) = map schema_path MODELS @ [''schemas/index.json'']"
    by (simp add: generate_schemas_def case_prod_unfold Let_def write_schemas_files)
  then show ?thesis unfolding schema_paths by simp
qed

lemma schema_index: "snd (write_schemas mjs MODELS []) = map (\<lambda>m. (m, PyStr (schema_path m))) MODELS"
  by (simp add: write_schemas_index MODELS_def)

lemma schema_ids:
  "map_of (schema_of mjs name) ''$id'' = Some (PyStr (''https://schemas.auditcore.dev/v1/'' @ to_snake name @ ''.json''))"
  by (simp add: schema_of_def update_conv)

end
