(* ===== verification/Shipped_Agents.thy ===== *)
theory Shipped_Agents
  imports Registry Domains Routing
begin

text \<open>
  The agents that ship with the repository (\<open>src/agents\<close>): the tree of files, and of each
  \<open>agent.yaml\<close> the fields the loader reads. The prose (purpose, inputs, contract) and the texts of prompts
  and schemas are parameters. The loader, the category bindings and the shipped routing table are put
  together: what ships fits.
\<close>

section \<open>The tree\<close>

record shipped_agent =
  sh_name :: string
  sh_version :: string
  sh_task_kind :: string
  sh_budget_hint :: string
  sh_output_schema :: string

definition shared_schema :: string where
  "shared_schema = ''../_shared/discovery_agent_output.json''"

definition own_schema :: string where
  "own_schema = ''schemas/output.json''"

definition discovery_agent :: "string \<Rightarrow> shipped_agent" where
  "discovery_agent name =
     \<lparr>sh_name = name, sh_version = ''0.2.0'', sh_task_kind = ''REASON'', sh_budget_hint = ''normal'', sh_output_schema = shared_schema\<rparr>"

definition collection_planner_agent :: shipped_agent where
  "collection_planner_agent =
     \<lparr>sh_name = ''collection_planner'', sh_version = ''0.1.0'', sh_task_kind = ''REASON'', sh_budget_hint = ''low'',
       sh_output_schema = own_schema\<rparr>"

definition intake_agent :: shipped_agent where
  "intake_agent =
     \<lparr>sh_name = ''intake'', sh_version = ''0.1.0'', sh_task_kind = ''REASON'', sh_budget_hint = ''low'',
       sh_output_schema = own_schema\<rparr>"

definition normalization_agent :: shipped_agent where
  "normalization_agent =
     \<lparr>sh_name = ''normalization'', sh_version = ''0.1.0'', sh_task_kind = ''CLASSIFY'', sh_budget_hint = ''low'',
       sh_output_schema = own_schema\<rparr>"

definition report_agent :: shipped_agent where
  "report_agent =
     \<lparr>sh_name = ''report'', sh_version = ''0.2.0'', sh_task_kind = ''LONG_CONTEXT'', sh_budget_hint = ''normal'',
       sh_output_schema = own_schema\<rparr>"

text \<open>The directories of the tree but \<open>_shared\<close>, in their order.\<close>

definition AGENTS :: "shipped_agent list" where
  "AGENTS =
     [discovery_agent ''cloud_analysis'', collection_planner_agent, discovery_agent ''database'', discovery_agent ''hardware'',
      intake_agent, discovery_agent ''kubernetes'', normalization_agent, discovery_agent ''performance_analysis'', report_agent,
      discovery_agent ''security_analysis'']"

definition agent_files :: "shipped_agent \<Rightarrow> path list" where
  "agent_files a =
     [[sh_name a, ''agent.yaml''], [sh_name a, ''prompts'', ''system.md'']]
     @ (if sh_output_schema a = own_schema then [[sh_name a, ''schemas'', ''output.json'']] else [])"

definition FILES :: "path list" where
  "FILES = [''_shared'', ''discovery_agent_output.json''] # concat (map agent_files AGENTS)"

text \<open>The file system with the tree at \<open>ad\<close>: a proper prefix of a file is a directory.\<close>

definition tree_node :: "(path \<Rightarrow> string) \<Rightarrow> path \<Rightarrow> fs_node option" where
  "tree_node content rel =
     (if rel \<in> set FILES then Some (FFile (content rel))
      else (let inside = filter (\<lambda>f. prefix rel f) FILES in
        if inside = [] then None else Some (FDir (remdups (map (\<lambda>f. f ! length rel) inside)))))"

definition shipped_fs :: "path \<Rightarrow> (path \<Rightarrow> string) \<Rightarrow> fs" where
  "shipped_fs ad content p = (if prefix ad p then tree_node content (drop (length ad) p) else None)"

text \<open>What is written for people, and an \<open>agent.yaml\<close> as PyYAML reads it.\<close>

record prose =
  pr_purpose :: "string \<Rightarrow> string"
  pr_inputs :: "string \<Rightarrow> pyval list"
  pr_contract :: "string \<Rightarrow> pyval list"

definition agent_yaml :: "prose \<Rightarrow> shipped_agent \<Rightarrow> pyval" where
  "agent_yaml pr a = PyDict
     [(''name'', PyStr (sh_name a)), (''version'', PyStr (sh_version a)), (''purpose'', PyStr (pr_purpose pr (sh_name a))),
      (''task_kind'', PyStr (sh_task_kind a)), (''budget_hint'', PyStr (sh_budget_hint a)), (''privacy'', PyStr ''standard''),
      (''inputs'', PyList (pr_inputs pr (sh_name a))), (''output_schema'', PyStr (sh_output_schema a)),
      (''system_prompt'', PyStr ''prompts/system.md''), (''contract'', PyList (pr_contract pr (sh_name a)))]"

section \<open>Loading\<close>

lemma load_loop_returns:
  assumes "\<And>c. c \<in> set children \<Longrightarrow> eligible fs ad c \<Longrightarrow> \<exists>d. load_child fs yaml jload ad c = Inr d"
  shows "\<exists>r. load_loop fs yaml jload ad children agents = Inr r"
  using assms
proof (induction children arbitrary: agents)
  case (Cons c cs)
  have rest: "\<exists>r. load_loop fs yaml jload ad cs agents' = Inr r" for agents'
    using Cons.IH Cons.prems by simp
  show ?case
  proof (cases "eligible fs ad c")
    case True
    with Cons.prems obtain d where "load_child fs yaml jload ad c = Inr d" by auto
    with True rest show ?thesis by (simp add: load_child_def eligible_def)
  next
    case False
    with rest show ?thesis by (auto simp: eligible_def)
  qed
qed simp

lemma shipped_fs_at: "shipped_fs ad content (ad @ rel) = tree_node content rel"
  by (simp add: shipped_fs_def)

definition ENTRIES :: "string list" where
  "ENTRIES = ''_shared'' # map sh_name AGENTS"

lemma tree_root: "tree_node content [] = Some (FDir ENTRIES)"
proof -
  have "[] \<notin> set FILES \<and> remdups (map (\<lambda>f. f ! 0) FILES) = ENTRIES \<and> FILES \<noteq> []" by code_simp
  then show ?thesis by (simp add: tree_node_def)
qed

lemma tree_file: "rel \<in> set FILES \<Longrightarrow> tree_node content rel = Some (FFile (content rel))"
  by (simp add: tree_node_def)

lemma agent_files_shipped: "a \<in> set AGENTS \<Longrightarrow> set (agent_files a) \<subseteq> set FILES"
  by (auto simp: FILES_def)

lemma shared_shipped: "[''_shared'', ''discovery_agent_output.json''] \<in> set FILES"
  by (simp add: FILES_def)

lemma tree_agent_dir:
  assumes "a \<in> set AGENTS"
  shows "\<exists>es. tree_node content [sh_name a] = Some (FDir es)"
proof -
  have "list_all (\<lambda>a. [sh_name a] \<notin> set FILES \<and> filter (\<lambda>f. prefix [sh_name a] f) FILES \<noteq> []) AGENTS" by code_simp
  with assms show ?thesis by (simp add: tree_node_def list_all_iff Let_def)
qed

lemma shipped_eligible:
  "c \<in> set ENTRIES \<Longrightarrow> eligible (shipped_fs ad content) ad c \<longleftrightarrow> c \<in> set (map sh_name AGENTS)"
proof -
  have sh: "prefix ''_'' ''_shared''" "''_shared'' \<notin> set (map sh_name AGENTS)" by code_simp+
  have "list_all (\<lambda>a. \<not> prefix ''_'' (sh_name a)) AGENTS" by code_simp
  then have "eligible (shipped_fs ad content) ad (sh_name a)" if "a \<in> set AGENTS" for a
    using tree_agent_dir [OF that, of content] agent_files_shipped [OF that] tree_file [of "[sh_name a, ''agent.yaml'']" content] that
    by (auto simp: eligible_def is_dir_def path_exists_def shipped_fs_at list_all_iff agent_files_def)
  moreover have "\<not> eligible (shipped_fs ad content) ad ''_shared''" using sh(1) by (simp add: eligible_def)
  moreover assume "c \<in> set ENTRIES"
  ultimately show ?thesis using sh(2) by (auto simp: ENTRIES_def)
qed

lemma resolve_plain:
  assumes "''..'' \<notin> set ad"
  shows "path_resolve (ad @ p) = foldl (\<lambda>acc x. if x = ''..'' then butlast acc else acc @ [x]) ad p"
proof -
  have "foldl (\<lambda>acc x. if x = ''..'' then butlast acc else acc @ [x]) b ad = b @ ad" for b
    using assms by (induction ad arbitrary: b) auto
  then show ?thesis by (simp add: path_resolve_def)
qed

definition schema_file :: "shipped_agent \<Rightarrow> path" where
  "schema_file a =
     (if sh_output_schema a = own_schema then [sh_name a, ''schemas'', ''output.json'']
      else [''_shared'', ''discovery_agent_output.json''])"

lemma agent_facts:
  assumes "a \<in> set AGENTS"
  shows "sh_name a \<noteq> []" "sh_name a \<noteq> ''..''" "sh_task_kind a \<in> set VALID_TASK_KINDS" "sh_budget_hint a \<in> set VALID_BUDGETS"
    "sh_budget_hint a \<in> set budget_tiers" "sh_output_schema a = own_schema \<or> sh_output_schema a = shared_schema"
    "\<exists>k. task_kind_value k = sh_task_kind a" "schema_file a \<in> set FILES"
proof -
  have "list_all (\<lambda>a. sh_name a \<noteq> [] \<and> sh_name a \<noteq> ''..'' \<and> sh_task_kind a \<in> set VALID_TASK_KINDS \<and>
      sh_budget_hint a \<in> set VALID_BUDGETS \<and> sh_budget_hint a \<in> set budget_tiers \<and>
      (sh_output_schema a = own_schema \<or> sh_output_schema a = shared_schema) \<and>
      list_ex (\<lambda>k. task_kind_value k = sh_task_kind a) all_task_kinds \<and> schema_file a \<in> set FILES) AGENTS"
    by code_simp
  with assms show "sh_name a \<noteq> []" "sh_name a \<noteq> ''..''" "sh_task_kind a \<in> set VALID_TASK_KINDS" "sh_budget_hint a \<in> set VALID_BUDGETS"
    "sh_budget_hint a \<in> set budget_tiers" "sh_output_schema a = own_schema \<or> sh_output_schema a = shared_schema"
    "\<exists>k. task_kind_value k = sh_task_kind a" "schema_file a \<in> set FILES"
    by (auto simp: list_all_iff list_ex_iff)
qed

lemma shipped_child_loads:
  assumes "a \<in> set AGENTS" and "''..'' \<notin> set ad"
    and "yaml (content [sh_name a, ''agent.yaml'']) = Inr (agent_yaml pr a)"
    and "jload (content (schema_file a)) = Inr j"
  shows "\<exists>d. load_child (shipped_fs ad content) yaml jload ad (sh_name a) = Inr d \<and> ag_name d = sh_name a \<and>
    ag_task_kind d = sh_task_kind a \<and> ag_budget_hint d = sh_budget_hint a \<and> ag_privacy d = ''standard'' \<and>
    ag_output_schema d = Some j"
proof -
  note f = agent_facts [OF assms(1)]
  let ?fs = "shipped_fs ad content" and ?dir = "ad @ [sh_name a]"
  have spec: "read_text ?fs (ad @ [sh_name a, ''agent.yaml'']) = Inr (content [sh_name a, ''agent.yaml''])"
    using agent_files_shipped [OF assms(1)] by (simp add: read_text_def shipped_fs_at tree_file agent_files_def)
  have parts: "path_parts ''prompts/system.md'' = [''prompts'', ''system.md'']" "path_parts own_schema = [''schemas'', ''output.json'']"
    "path_parts shared_schema = [''..'', ''_shared'', ''discovery_agent_output.json'']" "\<not> prefix ''/'' ''prompts/system.md''"
    "\<not> prefix ''/'' own_schema" "\<not> prefix ''/'' shared_schema" "own_schema \<noteq> []" "shared_schema \<noteq> []" "own_schema \<noteq> shared_schema"
    by code_simp+
  have "path_resolve (path_join ?dir ''prompts/system.md'') = ad @ [sh_name a, ''prompts'', ''system.md'']"
    by (simp add: path_join_def parts resolve_plain [OF assms(2)] f(2))
  moreover have "?fs (ad @ [sh_name a, ''prompts'', ''system.md'']) = Some (FFile (content [sh_name a, ''prompts'', ''system.md'']))"
    using agent_files_shipped [OF assms(1)] by (simp add: shipped_fs_at tree_file agent_files_def)
  ultimately have prompt: "resolve_prompt ?fs ?dir (PyStr ''prompts/system.md'') sp = Inr (content [sh_name a, ''prompts'', ''system.md''])" for sp
    by (simp add: resolve_prompt_def as_path_text_def path_exists_def read_text_def)
  have "path_resolve (path_join ?dir (sh_output_schema a)) = ad @ schema_file a"
    using f(6) by (auto simp: path_join_def parts schema_file_def resolve_plain [OF assms(2)] f(2))
  moreover have "?fs (ad @ schema_file a) = Some (FFile (content (schema_file a)))" by (simp add: shipped_fs_at tree_file f(8))
  ultimately have schema: "resolve_schema ?fs jload ?dir (PyStr (sh_output_schema a)) sp = Inr (Some j)" for sp
    using f(6) parts(7,8) assms(4) by (auto simp: resolve_schema_def as_path_text_def path_exists_def read_text_def)
  have req: "require raw k sp = Inr s" if "map_of raw k = Some (PyStr s)" "s \<noteq> []" for raw k sp s
    using that by (simp add: require_def)
  have tk: "sh_task_kind a \<noteq> []" using f(3) by (auto simp: VALID_TASK_KINDS_def)
  have priv: "''standard'' \<in> set VALID_PRIVACY" by (simp add: VALID_PRIVACY_def)
  show ?thesis
    unfolding load_child_def load_one_def spec bindE_Inr assms(3) agent_yaml_def
    by (simp add: req [of _ "''name''" "sh_name a"] req [of _ "''task_kind''" "sh_task_kind a"] f(1,3,4) tk priv
        dir_name_def prompt schema py_or_def Let_def)
qed

lemma shipped_load:
  assumes "''..'' \<notin> set ad" and "list_all (\<lambda>a. yaml (content [sh_name a, ''agent.yaml'']) = Inr (agent_yaml pr a)) AGENTS"
    and "list_all (\<lambda>a. \<exists>j. jload (content (schema_file a)) = Inr j) AGENTS"
  obtains r where "registry_load (shipped_fs ad content) yaml jload ad = Inr r" and "reg_names r = map sh_name AGENTS"
    and "\<And>a. a \<in> set AGENTS \<Longrightarrow> \<exists>d. reg_get r (sh_name a) = Inr d \<and> ag_task_kind d = sh_task_kind a \<and>
      ag_budget_hint d = sh_budget_hint a \<and> ag_privacy d = ''standard''"
proof -
  let ?fs = "shipped_fs ad content"
  have child: "\<exists>d. load_child ?fs yaml jload ad (sh_name a) = Inr d \<and> ag_name d = sh_name a \<and> ag_task_kind d = sh_task_kind a \<and>
      ag_budget_hint d = sh_budget_hint a \<and> ag_privacy d = ''standard''" if "a \<in> set AGENTS" for a
  proof -
    from assms(3) that obtain j where j: "jload (content (schema_file a)) = Inr j" by (auto simp: list_all_iff)
    from assms(2) that have y: "yaml (content [sh_name a, ''agent.yaml'']) = Inr (agent_yaml pr a)"
      by (auto simp: list_all_iff)
    from shipped_child_loads [where content = content and yaml = yaml and jload = jload, OF that assms(1) y j]
    show ?thesis by blast
  qed
  have root: "?fs ad = Some (FDir ENTRIES)" using shipped_fs_at [of ad content "[]"] by (simp add: tree_root)
  have ent: "distinct ENTRIES" "sort ENTRIES = ''_shared'' # map sh_name AGENTS" "map sh_name AGENTS \<noteq> []" by code_simp+
  have "\<exists>d. load_child ?fs yaml jload ad c = Inr d" if "c \<in> set (sort ENTRIES)" "eligible ?fs ad c" for c
    using child that shipped_eligible [of c ad content] by fastforce
  from load_loop_returns [of "sort ENTRIES", OF this] obtain r where r: "load_loop ?fs yaml jload ad (sort ENTRIES) [] = Inr r"
    by blast
  have sh: "''_shared'' \<notin> set (map sh_name AGENTS)" by code_simp
  have "filter (eligible ?fs ad) (sort ENTRIES) = filter (\<lambda>c. c \<in> set (map sh_name AGENTS)) (sort ENTRIES)"
    by (rule filter_cong) (simp_all add: shipped_eligible del: set_map)
  also have "\<dots> = map sh_name AGENTS" unfolding ent(2) using sh by (simp add: filter_id_conv)
  finally have names: "filter (eligible ?fs ad) (sort ENTRIES) = map sh_name AGENTS" .
  have "r \<noteq> []"
  proof
    assume "r = []"
    with load_loop_entries [OF r] ent(1) names have "map sh_name AGENTS = []" by auto
    with ent(3) show False ..
  qed
  with r root have load: "registry_load ?fs yaml jload ad = Inr r" by (simp add: registry_load_def)
  note l = loaded_entries [OF load root ent(1)]
  have "\<exists>d. reg_get r (sh_name a) = Inr d \<and> ag_task_kind d = sh_task_kind a \<and> ag_budget_hint d = sh_budget_hint a \<and>
      ag_privacy d = ''standard''" if a: "a \<in> set AGENTS" for a
  proof -
    from a have "sh_name a \<in> set ENTRIES" by (simp add: ENTRIES_def)
    with l a have "reg_get r (sh_name a) = load_child ?fs yaml jload ad (sh_name a)"
      by (simp add: shipped_eligible load_child_def)
    with child [OF a] show ?thesis by auto
  qed
  with load conjunct1 [OF l] names that show thesis by simp
qed

section \<open>Property\<close>

text \<open>
  C17. What ships fits together: wherever the shipped tree is placed, if the YAML and JSON parsers read
  its files, the registry loads and holds exactly the ten agents; every category of evidence is bound
  to an agent that is there and asks for a reasoning model, the report agent is there, and what every agent
  declares to the gateway is a route of the shipped routing table. Three of the agents (intake,
  collection planning, normalization) are bound to no category.
\<close>

theorem shipped_agents_fit:
  assumes "''..'' \<notin> set ad" and "list_all (\<lambda>a. yaml (content [sh_name a, ''agent.yaml'']) = Inr (agent_yaml pr a)) AGENTS"
    and "list_all (\<lambda>a. \<exists>j. jload (content (schema_file a)) = Inr j) AGENTS"
  shows "\<exists>r. registry_load (shipped_fs ad content) yaml jload ad = Inr r \<and> length (reg_names r) = 10 \<and>
    (\<forall>(c, b) \<in> set CATEGORY_BINDINGS. \<exists>d. reg_get r (db_agent b) = Inr d \<and> ag_task_kind d = ''REASON'') \<and>
    reg_contains r ''report'' \<and>
    (\<forall>n \<in> set (reg_names r). \<exists>d k route. reg_get r n = Inr d \<and> task_kind_value k = ag_task_kind d \<and>
       resolve routing_yaml k (ag_budget_hint d) (ag_privacy d) = Inr route) \<and>
    filter (\<lambda>n. n \<noteq> ''report'' \<and> n \<notin> set (map (db_agent \<circ> snd) CATEGORY_BINDINGS)) (reg_names r) =
      [''collection_planner'', ''intake'', ''normalization'']"
proof -
  obtain r where r: "registry_load (shipped_fs ad content) yaml jload ad = Inr r" and names: "reg_names r = map sh_name AGENTS"
    and get: "\<And>a. a \<in> set AGENTS \<Longrightarrow> \<exists>d. reg_get r (sh_name a) = Inr d \<and> ag_task_kind d = sh_task_kind a \<and>
      ag_budget_hint d = sh_budget_hint a \<and> ag_privacy d = ''standard''"
    by (rule shipped_load [OF assms]) blast
  have bound: "list_all (\<lambda>(c, b). list_ex (\<lambda>a. sh_name a = db_agent b \<and> sh_task_kind a = ''REASON'') AGENTS) CATEGORY_BINDINGS"
    "length (map sh_name AGENTS) = 10" "list_ex (\<lambda>a. sh_name a = ''report'') AGENTS"
    "filter (\<lambda>n. n \<noteq> ''report'' \<and> n \<notin> set (map (db_agent \<circ> snd) CATEGORY_BINDINGS)) (map sh_name AGENTS) =
      [''collection_planner'', ''intake'', ''normalization'']"
    by code_simp+
  have "\<exists>d. reg_get r (db_agent b) = Inr d \<and> ag_task_kind d = ''REASON''" if "(c, b) \<in> set CATEGORY_BINDINGS" for c b
  proof -
    from bound(1) that obtain a where "a \<in> set AGENTS" "sh_name a = db_agent b" "sh_task_kind a = ''REASON''"
      by (auto simp: list_all_iff list_ex_iff)
    with get [of a] show ?thesis by auto
  qed
  moreover from bound(3) obtain a where "a \<in> set AGENTS" "sh_name a = ''report''" by (auto simp: list_ex_iff)
  with get [of a] have "reg_contains r ''report''" by (auto simp: reg_get_def reg_contains_def split: option.splits)
  moreover have "\<exists>d k route. reg_get r n = Inr d \<and> task_kind_value k = ag_task_kind d \<and>
      resolve routing_yaml k (ag_budget_hint d) (ag_privacy d) = Inr route" if "n \<in> set (reg_names r)" for n
  proof -
    from that names obtain a where a: "a \<in> set AGENTS" "n = sh_name a" by auto
    from get [OF a(1)] obtain d where d: "reg_get r n = Inr d" "ag_task_kind d = sh_task_kind a"
      "ag_budget_hint d = sh_budget_hint a" "ag_privacy d = ''standard''" by (auto simp: a(2))
    from agent_facts(7) [OF a(1)] obtain k where k: "task_kind_value k = sh_task_kind a" by blast
    from shipped_table_routes [OF agent_facts(5) [OF a(1)], of k]
    obtain route where "resolve routing_yaml k (sh_budget_hint a) ''standard'' = Inr route" by blast
    with d k show ?thesis by auto
  qed
  ultimately show ?thesis using r names bound(2,4) by auto
qed

definition path_text :: "path \<Rightarrow> string" where
  "path_text p = str_join ''/'' p"

definition no_prose :: prose where
  "no_prose = \<lparr>pr_purpose = (\<lambda>n. []), pr_inputs = (\<lambda>n. []), pr_contract = (\<lambda>n. [])\<rparr>"

definition shipped_yaml :: "string \<Rightarrow> pyval res" where
  "shipped_yaml t =
     (case find (\<lambda>a. path_text [sh_name a, ''agent.yaml''] = t) AGENTS of
        Some a \<Rightarrow> Inr (agent_yaml no_prose a) | None \<Rightarrow> Inr PyNone)"

theorem shipped_agents_fit_witness:
  "\<exists>r d. registry_load (shipped_fs [''opt'', ''agents''] path_text) shipped_yaml (\<lambda>t. Inr PyNone) [''opt'', ''agents''] = Inr r \<and>
     length (reg_names r) = 10 \<and> reg_get r ''hardware'' = Inr d \<and> ag_task_kind d = ''REASON''"
proof -
  have y: "list_all (\<lambda>a. shipped_yaml (path_text [sh_name a, ''agent.yaml'']) = Inr (agent_yaml no_prose a)) AGENTS"
    by code_simp
  have j: "list_all (\<lambda>a. \<exists>j. (\<lambda>t. Inr PyNone :: string + pyval) (path_text (schema_file a)) = Inr j) AGENTS"
    by (simp add: list_all_iff)
  have h: "(''hardware'', binding ''hardware'' ''hardware'') \<in> set CATEGORY_BINDINGS" by (simp add: CATEGORY_BINDINGS_def)
  have "''..'' \<notin> set [''opt'', ''agents'']" by simp
  from shipped_agents_fit [OF this y j] h show ?thesis by fastforce
qed

end
