(* ===== verification/Spec2Isabelle.thy ===== *)
theory Spec2Isabelle
  imports Pipeline Hwprobe Endpoints Interleaving Rerun Gateway Report_Cli Orchestrator_Main Allowlist_Drift Schema_Gen
    Shipped_Agents
begin

text \<open>
  AuditCore describes a system: a collector gathers tool output into a bundle, the ingestion API stores
  it, the normalizer parses it, discovery agents turn evidence into observations by asking a language
  model through the model gateway, the report agent narrates them, and the report generator renders
  both. Its promise is that every stated fact is traceable: an observation cites evidence of its run, a
  report section embeds observations of its run. This development models the Python services and
  packages, the tables they share, the Rust normalizer, the Go collector and the C++ hardware probe, and
  proves what they keep of that promise whatever the models, the network and the uploads bring.

  \<^bold>\<open>Foundations.\<close> \<open>Prelude\<close>: exceptions as values of a sum (\<open>'a
  res\<close>) and commands that pass a state and may raise (\<open>('s, 'a) cmd\<close>); a state
  change made before a raise stays, as in the code. \<open>Py_Values\<close>, \<open>Py_Text\<close>,
  \<open>Py_Uuid\<close>, \<open>Py_Float\<close>: the fragment of Python on dynamic values (truth,
  equality, \<open>get\<close>, subscription, iteration), \<open>str\<close>, \<open>repr\<close>,
  \<open>int\<close>, \<open>json.dumps\<close>, \<open>UUID\<close> over 128-bit words, and float
  arithmetic with rounding to binary64. Characters are 8-bit.

  \<^bold>\<open>Data.\<close> \<open>Models\<close> (\<open>packages/models-py\<close>: enumerations,
  classes and their constraints), \<open>Schema_Gen\<close>
  (\<open>scripts/generate_schemas.py\<close>), \<open>Database\<close> (the tables of
  \<open>01_schema.sql\<close>: \<open>db\<close> is a record of row lists, one statement per function,
  CHECK conditions three-valued, one transaction per connection block).

  \<^bold>\<open>Agents and orchestrator.\<close> \<open>Registry\<close>
  (\<open>packages/agents-py\<close>: loading the agent definitions from a file system; the locale
  \<open>agent_catalog\<close> is what the orchestrator uses of it). \<open>Shipped_Agents\<close>
  is the tree of \<open>src/agents\<close> that the loader reads. \<open>Domains\<close>,
  \<open>Repo\<close>, \<open>Gateway_Client\<close>, \<open>Discovery\<close>, \<open>Runner\<close>,
  \<open>Markers\<close>, \<open>Report\<close>, \<open>Orchestrator_Main\<close> follow the modules of
  \<open>services/orchestrator\<close>. The protocol \<open>Repo\<close> is the locale
  \<open>repo_store\<close>: its laws say what each method does to an abstract view of a run
  (categories, evidence, assets, observations, sections, status, audit trail); both passes are verified
  against it and \<open>PgRepo\<close> over the tables interprets it. \<open>Append_Only\<close> proves
  once, in the locale \<open>repo_preserved\<close>, that a relation every repository method keeps is
  kept by both passes, and interprets it with \<open>append_only\<close>.

  \<^bold>\<open>Model gateway.\<close> \<open>Routing\<close> (\<open>types.py\<close>,
  \<open>routing.py\<close>, \<open>routing.yaml\<close>), \<open>Cost\<close> (\<open>cost.py\<close>,
  \<open>pricing.yaml\<close>), \<open>Validator\<close> (\<open>validator.py\<close>),
  \<open>Providers\<close> (the four adapters, locale \<open>provider_adapter\<close>),
  \<open>Gateway\<close> (\<open>gateway.py\<close> and the endpoints of \<open>main.py\<close>; the
  abstract fallback is the relation \<open>fails_through\<close>). \<open>Endpoints\<close> holds what
  this service and the ingestion API do around their handlers.

  \<^bold>\<open>Ingestion.\<close> \<open>Bundle\<close>, \<open>Storage\<close>,
  \<open>Ingestion\<close> follow \<open>services/ingestion-api\<close>: the parser with all its
  refusals, the object store, the endpoints with their transactions.

  \<^bold>\<open>Normalizer.\<close> The Rust worker, \<open>services/normalizer-worker\<close>.
  \<open>Normalizer\<close> holds its statements (\<open>db.rs\<close>) and \<open>normalize.rs\<close>
  over an environment; \<open>Parsers\<close> the eight parsers and the registry
  (\<open>parsers/\<close>); \<open>Rust_Regex\<close> a leftmost-first matcher for the patterns of
  \<open>redact.rs\<close>, \<open>Redaction\<close> the nine rules and the walk over a value;
  \<open>Worker\<close> the object references (\<open>storage.rs\<close>) and the environment made of
  these parts; \<open>Worker_Loop\<close> the loop over notifications, ticks and lost connections
  (\<open>worker.rs\<close>).

  \<^bold>\<open>Collector.\<close> \<open>Collector\<close> is the Go program
  \<open>auditor-collect\<close> (\<open>collector/cmd\<close>, \<open>internal\<close>,
  \<open>pkg\<close>) over a record of what the operating system offers, with a log of every program
  started, and the Rego decision of \<open>policy/allowlist.rego\<close>. \<open>Hwprobe\<close> is the
  hardware probe it starts (\<open>collector/hwprobe\<close>), judged by \<open>Json_Text\<close>, a
  reader of JSON texts. \<open>Pipeline\<close> gives the ingestion API as the server the collector
  talks to.

  \<^bold>\<open>The system.\<close> \<open>Lifecycle\<close> puts uploads, normalizer statements and
  whole passes together as a step relation on one database. \<open>Tape\<close> and
  \<open>Interleaving\<close> refine it: a pass is run call by call by recording the answers its calls
  got, and any number of passes, uploads and normalizer statements alternate; what
  \<open>Lifecycle\<close> shows of whole passes is shown of these. \<open>Rerun\<close> is a pass
  repeated. \<open>Pipeline\<close> composes collector, ingestion, worker and discovery.

  \<^bold>\<open>Reports, connectors, tools.\<close> \<open>Report_Render\<close>,
  \<open>Report_Sections\<close>, \<open>Report_Loader\<close>, \<open>Report_Cli\<close> follow
  \<open>services/report-generator\<close>; \<open>Connectors\<close> the four pull-mode connectors,
  whose base class is the locale \<open>connector\<close>; \<open>Allowlist_Drift\<close> is
  \<open>tools/check_allowlist_drift.py\<close>.

  \<^bold>\<open>What is proved.\<close> Integrity: every reachable state is \<open>traceable\<close>,
  also when the calls of several passes interleave; a discovery pass stores only observations that cite
  evidence and assets of their run, and a report pass only sections that embed observations of theirs,
  whatever a model answers; a marker that the pass did not report names an observation. Exactness: what
  a conforming answer, an upload, a registry, a redaction or a report yields is stated as an equation.
  Containment: failed uploads roll back, repeated uploads change nothing, both passes only append, the
  collector starts only the entries of its allow-list and their \<open>--version\<close>, no kept part
  of a redacted string matches a rule, and only redacted values are stored as parsed. Progress: an
  upload of the collector is stored, its notification parses every item, and the agents bound to the
  items are run. Routing: privacy tiers and fallback, for any table where the code makes it so and for
  the shipped one where the table does. Round trips: a bundle built in Go and parsed in Python, the
  document the C++ probe streams and a JSON reader, the drift check's readers. Bounds: prices are
  monotone in binary64. Behaviour that is not what the documents say is proved as it is: the database
  accepts an observation without evidence, a second audit of a known host describes nothing, a repeated
  pass stores everything twice, host attributes are not redacted, one sensor without a finite value
  costs the whole hardware document, a drain of all runs can starve, what a connector collects is never
  parsed, and a valid marker that is not written in canonical form is rendered as an unknown
  observation.

  \<^bold>\<open>Parameters.\<close> Code that is not in the repository is an argument, arbitrary unless
  a theorem says otherwise: the YAML and JSON parsers, the JSON Schema checker, tarfile, the vendors'
  SDKs and HTTP, minio, Jinja2 and WeasyPrint, \<open>gen_random_uuid\<close>, the database's collation,
  clocks and \<open>isoformat\<close>; of the Rust worker UTF-8 and JSON decoding,
  \<open>Uuid::parse_str\<close>, the hash function and the S3 client; of the collector the operating
  system and the encoders of Go; of the probe hwloc, libsensors and NVML; FastAPI's reading and writing
  of bodies.

  \<^bold>\<open>Bounds.\<close> All loops of the program are structural or have a decreasing measure.
  Only the JSON reference reader has fuel, twice the length of its text and one more, which is shown to
  be enough for what the probe writes. The normalizer's batch of 500 and the 128-bit sum of disk sizes
  are the source's own limits. Characters are the code points 0 to 255. Confidences the worker writes
  (\<open>f32\<close> literals) are kept as the decimals written.

  \<^bold>\<open>Not modelled.\<close> The calls of one request to the ingestion API are one step, as
  its rows are one transaction; the normalizer's concurrent items run in some order. Failures of the
  database server itself, the Rust connection pool, logging, flag and option parsing,
  \<open>main.rs\<close>, the redactions column, which nothing reads. Infinite floats in Python.
  Templates, prompts and output schemas of the
  agents, and deployment files.
\<close>

section \<open>From the report pass to the rendered report\<close>

lemma report_pass_observations:
  assumes "assemble_run_report (pg_repo tenant) ra (d, g) = (res, (d', g'))"
  shows "db_observations d' = db_observations d"
proof -
  from preservesD [OF pg_append.assemble_run_report_kept assms]
  have "prefix (db_observations d) (db_observations d')" by (simp add: on_store_def append_only_def)
  moreover from report_pass_stores [OF assms] have "length (db_observations d') = length (db_observations d)"
    by (metis length_map)
  ultimately show ?thesis by (auto simp: prefix_def)
qed

lemma topics_of_observation:
  assumes "distinct (map ob_id (db_observations d))"
  shows "map_of (topics_of_run d rid) (uuid_str u) =
     map_option ow_topic (find (\<lambda>ob. ow_run_id ob = rid \<and> ob_id ob = u) (db_observations d))"
proof -
  let ?row = "\<lambda>ob. (uuid_str (ob_id ob), ow_topic ob)"
  have "distinct (map fst (map ?row (filter (\<lambda>ob. ow_run_id ob = rid) obs)))" if "distinct (map ob_id obs)"
    for obs :: "observation_rec list"
    using that by (induction obs) auto
  from dict_of_distinct [OF this [OF assms]]
  have "topics_of_run d rid = map ?row (filter (\<lambda>ob. ow_run_id ob = rid) (db_observations d))"
    unfolding topics_of_run_def .
  moreover have "map_of (map ?row (filter (\<lambda>ob. ow_run_id ob = rid) obs)) (uuid_str u) =
      map_option ow_topic (find (\<lambda>ob. ow_run_id ob = rid \<and> ob_id ob = u) obs)" for obs
    by (induction obs) auto
  ultimately show ?thesis by simp
qed

lemma dict_of_keys: "fst ` set (dict_of ps) = fst ` set ps"
proof (induction ps rule: rev_induct)
  case Nil
  show ?case by (simp add: dict_of_def)
next
  case (snoc p ps)
  then show ?case by (cases p) (simp add: dict_of_def dom_update)
qed

lemma topics_are_ids:
  assumes "map_of (topics_of_run d rid) m = Some t"
  shows "\<exists>u. m = uuid_str u"
proof -
  from assms have "m \<in> fst ` set (topics_of_run d rid)" by (force dest: map_of_SomeD)
  then show ?thesis unfolding topics_of_run_def dict_of_keys by auto
qed

text \<open>The observation a topic table knows an accepted marker by, and what stands for the marker.\<close>

lemma marker_shows:
  assumes "distinct (map ob_id (db_observations d))" and "ob \<in> set (db_observations d)" and "ow_run_id ob = rid"
    and "uuid_parse m = Inr (ob_id ob)"
  shows "marker_repl (topics_of_run d rid) m =
    (if m = uuid_str (ob_id ob) \<and> ow_topic ob \<noteq> [] then ''*'' @ ow_topic ob @ ''*'' else ''*(unknown observation)*'')"
proof (cases "m = uuid_str (ob_id ob)")
  case True
  have "find (\<lambda>x. ow_run_id x = rid \<and> ob_id x = ob_id ob) (db_observations d) = Some ob"
    by (rule find_distinct_key [OF assms(1,2)]) (simp_all add: assms(3))
  then have "map_of (topics_of_run d rid) (uuid_str (ob_id ob)) = Some (ow_topic ob)"
    using assms(1) by (simp add: topics_of_observation)
  then show ?thesis by (simp add: marker_repl_def unknown_observation_def True)
next
  case False
  then have "map_of (topics_of_run d rid) m = None"
    using topics_are_ids assms(4) by (cases "map_of (topics_of_run d rid) m") fastforce+
  with False show ?thesis by (simp add: marker_repl_def unknown_observation_def)
qed

text \<open>What is known of a section that a report pass has added.\<close>

lemma new_section:
  assumes "assemble_run_report (pg_repo tenant) ra (d, g) = (Inr out, (d', g'))"
    and "s \<in> report_section_write.truncate ` set (db_sections d') - report_section_write.truncate ` set (db_sections d)"
  shows "rs_run_id s = ra_run_id ra" and "rs_audience s \<in> {''technical'', ''summary''}"
    and "m \<in> set (find_markers (rs_body_md s)) \<Longrightarrow> m \<notin> set (rn_unknown_refs out) \<Longrightarrow>
      \<exists>ob \<in> set (db_observations d). ow_run_id ob = ra_run_id ra \<and> uuid_parse m = Inr (ob_id ob)"
    and "status_in (db_runs d) (ra_run_id ra) = Some st \<Longrightarrow> \<exists>data. load_sections rd d' (ra_run_id ra) = Inr data"
proof -
  let ?rid = "ra_run_id ra"
  have rows: "or_id ` set (pg_observation_rows d ?rid) = ob_id ` {ob \<in> set (db_observations d). ow_run_id ob = ?rid}"
    by (simp add: pg_observation_rows_def to_observation_row_def image_image)
  from assms(1) have "rs_run_id s = ?rid \<and> rs_audience s \<in> {''technical'', ''summary''} \<and>
      (m \<in> set (find_markers (rs_body_md s)) \<longrightarrow> m \<notin> set (rn_unknown_refs out) \<longrightarrow>
        (\<exists>u. uuid_parse m = Inr u \<and> u \<in> or_id ` set (pg_observation_rows d ?rid))) \<and>
      (status_in (db_runs d) ?rid = Some st \<longrightarrow> status_in (db_runs d') ?rid = Some COMPLETE)" for m
  proof (cases rule: pg.assemble_run_report_cases)
    case (finished agent result g'')
    then have "map report_section_write.truncate (db_sections d') =
        map report_section_write.truncate (db_sections d) @ rp_sections result"
      by (simp add: pg_view_fields [symmetric])
    then have "report_section_write.truncate ` set (db_sections d') =
        report_section_write.truncate ` set (db_sections d) \<union> set (rp_sections result)"
      by (metis list.set_map set_append)
    with assms(2) have "s \<in> set (rp_sections result)" by blast
    from assemble_report_sections [OF finished(5) this] finished(1) arg_cong [OF finished(6), of rv_status]
    show ?thesis by (auto simp: assembled_def pg_view_fields)
  qed (use assms(2) in simp_all)
  note facts = this
  show "rs_run_id s = ?rid" and "rs_audience s \<in> {''technical'', ''summary''}" using facts by blast+
  show "\<exists>ob \<in> set (db_observations d). ow_run_id ob = ?rid \<and> uuid_parse m = Inr (ob_id ob)"
    if "m \<in> set (find_markers (rs_body_md s))" "m \<notin> set (rn_unknown_refs out)"
    using facts [of m] that unfolding rows by auto
  show "\<exists>data. load_sections rd d' ?rid = Inr data" if "status_in (db_runs d) ?rid = Some st"
    using facts that by (auto simp: load_sections_def find_run_def status_in_def split: option.splits)
qed

text \<open>
  C18. Narration stays traceable end to end: a marker of a newly stored section that the report pass
  did not list as unknown names an observation of the run, and the page rendered for the section's
  audience, whatever its template, gets the section with that observation's topic where the marker
  stood in the body, when the marker is written as the identifier's canonical text; written in any
  other way (upper case, without the hyphens' places) it is shown as an unknown observation although
  the pass accepted it. The text before and after it is expanded in the same way.
\<close>

theorem narrated_report_traceable:
  assumes "assemble_run_report (pg_repo tenant) ra (d, g) = (Inr out, (d', g'))"
    and "status_in (db_runs d) (ra_run_id ra) = Some st"
    and "distinct (map ob_id (db_observations d))"
    and "s \<in> report_section_write.truncate ` set (db_sections d') - report_section_write.truncate ` set (db_sections d)"
    and "m \<in> set (find_markers (rs_body_md s))" and "m \<notin> set (rn_unknown_refs out)"
  shows "\<exists>ob data pre post ctx sec. ob \<in> set (db_observations d) \<and> ow_run_id ob = ra_run_id ra \<and>
    uuid_parse m = Inr (ob_id ob) \<and> load_sections rd d' (ra_run_id ra) = Inr data \<and>
    (\<forall>tpl. render_sections_html tpl now data (rs_audience s) = tpl ''sections.html.j2'' ctx) \<and>
    sec \<in> set (sc_sections ctx) \<and> map_of sec ''title'' = Some (PyStr (rs_title s)) \<and>
    rs_body_md s = pre @ marker m @ post \<and>
    map_of sec ''body_md'' = Some (PyStr (expand_markers pre (sd_topics data) @
      (if m = uuid_str (ob_id ob) \<and> ow_topic ob \<noteq> [] then ''*'' @ ow_topic ob @ ''*'' else ''*(unknown observation)*'') @
      expand_markers post (sd_topics data)))"
proof -
  let ?rid = "ra_run_id ra" and ?topics = "topics_of_run d' (ra_run_id ra)"
  note new = new_section [OF assms(1,4)]
  from new(3) [OF assms(5,6)] obtain ob where ob: "ob \<in> set (db_observations d)" "ow_run_id ob = ?rid"
    and u: "uuid_parse m = Inr (ob_id ob)" by blast
  from new(4) [OF assms(2)] obtain data where l: "load_sections rd d' ?rid = Inr data" by blast
  then have topics: "sd_topics data = ?topics" by (auto simp: load_sections_def)
  from assms(4) obtain r where r: "r \<in> set (db_sections d')" "s = report_section_write.truncate r" by blast
  obtain pre post where body: "rs_body_md s = pre @ marker m @ post" "expand_markers (rs_body_md s) ?topics =
      expand_markers pre ?topics @ marker_repl ?topics m @ expand_markers post ?topics"
    using expand_at [OF assms(5)] by blast
  have obs: "map observation_write.truncate (db_observations d') = map observation_write.truncate (db_observations d)"
    and "?topics = topics_of_run d ?rid"
    by (simp_all add: topics_of_run_def report_pass_observations [OF assms(1)])
  with marker_shows [OF assms(3) ob u] have repl: "marker_repl ?topics m =
      (if m = uuid_str (ob_id ob) \<and> ow_topic ob \<noteq> [] then ''*'' @ ow_topic ob @ ''*'' else ''*(unknown observation)*'')"
    by simp
  let ?sec = "\<lambda>s. section_dict (s\<lparr>rs_body_md := expand_markers (rs_body_md s) ?topics\<rparr>)"
  let ?ctx = "\<lparr>sc_data = data, sc_audience = rs_audience s, sc_sections = map ?sec
      (sort_key rs_order (filter (\<lambda>x. rs_run_id x = ?rid \<and> rs_audience x = rs_audience s) (db_sections d'))),
      sc_generated_at = now\<rparr>"
  have "?sec r \<in> set (sc_sections ?ctx)"
    using r new(1) by (simp add: report_section_write.defs)
  moreover have "map_of (?sec r) ''title'' = Some (PyStr (rs_title s))"
    and "map_of (?sec r) ''body_md'' = Some (PyStr (expand_markers (rs_body_md s) ?topics))"
    by (simp_all add: section_dict_def r(2) report_section_write.defs)
  moreover have "\<forall>tpl. render_sections_html tpl now data (rs_audience s) = tpl ''sections.html.j2'' ?ctx"
    using sections_render [OF l new(2)] by blast
  ultimately show ?thesis
    using ob u l body by (intro exI [of _ ob] exI [of _ data] exI [of _ pre] exI [of _ post] exI [of _ ?ctx]
        exI [of _ "?sec r"]) (simp add: topics repl)
qed

definition sample_rendering :: rendering where
  "sample_rendering = \<lparr>rd_iso = (\<lambda>_. []), rd_float = (\<lambda>_. [])\<rparr>"

theorem narrated_report_traceable_witness:
  "\<exists>out d' data ctx sec t. assemble_run_report (pg_repo 5) sample_report_args (sample_discovered_db, ()) = (Inr out, (d', ())) \<and>
     load_sections sample_rendering d' 9 = Inr data \<and>
     (\<forall>tpl. render_sections_html tpl [] data ''summary'' = tpl ''sections.html.j2'' ctx) \<and>
     sec \<in> set (sc_sections ctx) \<and> map_of sec ''body_md'' = Some (PyStr t) \<and> sublist ''*CPU*'' t"
proof -
  obtain out d' where r: "assemble_run_report (pg_repo 5) sample_report_args (sample_discovered_db, ()) = (Inr out, (d', ()))"
    and s: "map report_section_write.truncate (db_sections d') = [sample_section_write]"
    and u: "rn_unknown_refs out = [uuid_str 7, uuid_str 8]"
    by (rule sample_report_pass)
  have args: "ra_run_id sample_report_args = 9" by (simp add: sample_report_args_def sample_args_def)
  have st: "status_in (db_runs sample_discovered_db) (ra_run_id sample_report_args) = Some COLLECTING"
    by (simp add: args sample_discovered_db_def sample_db_def status_in_def)
  have dist: "distinct (map ob_id (db_observations sample_discovered_db))" by (simp add: sample_discovered_db_def)
  have new: "sample_section_write \<in> report_section_write.truncate ` set (db_sections d') -
      report_section_write.truncate ` set (db_sections sample_discovered_db)"
    using arg_cong [OF s, of set] by (simp add: sample_discovered_db_def sample_db_def)
  have m: "uuid_str 100 \<in> set (find_markers (rs_body_md sample_section_write))"
    by (simp add: sample_section_write_def find_markers_uuid)
  have k: "uuid_str 100 \<notin> set (rn_unknown_refs out)"
    using sample_uuid_values by (simp add: u)
  have topic: "ow_topic ob = ''CPU'' \<and> ob_id ob = 100" if "ob \<in> set (db_observations sample_discovered_db)" for ob
    using that by (simp add: sample_discovered_db_def sample_write_def to_write_sample observation_write.defs)
  obtain ob data pre post ctx sec where ob: "ob \<in> set (db_observations sample_discovered_db)"
    and l: "load_sections sample_rendering d' 9 = Inr data"
    and h: "\<forall>tpl. render_sections_html tpl [] data (rs_audience sample_section_write) = tpl ''sections.html.j2'' ctx"
    and sec: "sec \<in> set (sc_sections ctx)"
    and b: "map_of sec ''body_md'' = Some (PyStr (expand_markers pre (sd_topics data) @
      (if uuid_str 100 = uuid_str (ob_id ob) \<and> ow_topic ob \<noteq> [] then ''*'' @ ow_topic ob @ ''*'' else ''*(unknown observation)*'') @
      expand_markers post (sd_topics data)))"
    using narrated_report_traceable [OF r st dist new m k, of sample_rendering "[]"] unfolding args by (elim exE conjE)
  let ?t = "expand_markers pre (sd_topics data) @ ''*CPU*'' @ expand_markers post (sd_topics data)"
  have "rs_audience sample_section_write = ''summary''" by (simp add: sample_section_write_def)
  moreover have "map_of sec ''body_md'' = Some (PyStr ?t)"
    using b topic [OF ob] by simp
  moreover have "sublist ''*CPU*'' ?t" by (rule sublist_appendI)
  ultimately show ?thesis
    using r l h sec by (intro exI [of _ out] exI [of _ d'] exI [of _ data] exI [of _ ctx] exI [of _ sec] exI [of _ ?t]) simp
qed

end
